(* ===== verification/Prelude.thy ===== *)
theory Prelude
  imports Main "HOL-Library.Word" "HOL-Library.List_Lexorder" "HOL-Library.Char_ord"
begin

text \<open>
  The shared vocabulary of the development: the machine integer types of the program, Rust's
  checked and saturating arithmetic on them, the \<open>anyhow\<close> result type with the few combinators
  the source uses (\<open>ensure!\<close>, \<open>?\<close>, \<open>Option::context\<close>), the byte tests on identifiers, decimal
  numbers, and the collections of facts the component proofs rewrite with.

  Conventions.  An unsigned integer of width \<open>w\<close> is a \<open>w word\<close>, so its range is part of its type
  and \<open>+\<close>, \<open>-\<close>, \<open>*\<close> wrap as Rust's \<open>wrapping_*\<close> operations and the operators of \<open>U256\<close> do.  A signed
  integer is an \<open>int\<close> and every operation on it states its range test or its wrap-around.  An error
  value carries the message of the source; a panic (\<open>expect\<close>, \<open>unreachable!\<close>) is an error value of
  its own, so that its absence is a theorem.
\<close>

section \<open>Machine integers\<close>

type_synonym u8 = "8 word"
type_synonym u16 = "16 word"
type_synonym u32 = "32 word"
type_synonym u64 = "64 word"
type_synonym u128 = "128 word"
type_synonym u256 = "256 word"
type_synonym address = "160 word"
type_synonym b256 = "256 word"

named_theorems checked_simps \<open>when a checked operation succeeds, and with which value\<close>
named_theorems res_simps \<open>inversion of the result combinators\<close>

definition checked_add :: "'a::len word \<Rightarrow> 'a word \<Rightarrow> 'a word option" where
  "checked_add a b = (if unat a + unat b < 2 ^ LENGTH('a) then Some (a + b) else None)"

definition checked_sub :: "'a::len word \<Rightarrow> 'a word \<Rightarrow> 'a word option" where
  "checked_sub a b = (if b \<le> a then Some (a - b) else None)"

definition checked_mul :: "'a::len word \<Rightarrow> 'a word \<Rightarrow> 'a word option" where
  "checked_mul a b = (if unat a * unat b < 2 ^ LENGTH('a) then Some (a * b) else None)"

definition saturating_sub :: "'a::len word \<Rightarrow> 'a word \<Rightarrow> 'a word" where
  "saturating_sub a b = (if b \<le> a then a - b else 0)"

definition saturating_add :: "'a::len word \<Rightarrow> 'a word \<Rightarrow> 'a word" where
  "saturating_add a b = (if unat a + unat b < 2 ^ LENGTH('a) then a + b else - 1)"

text \<open>Conversions between widths: \<open>u128::try_from\<close> and friends.\<close>

definition try_into :: "'a::len word \<Rightarrow> 'b::len word option" where
  "try_into a = (if unat a < 2 ^ LENGTH('b) then Some (ucast a) else None)"

text \<open>Signed integers: the range test of a checked operation, and the wrap-around of a plain one.\<close>

definition checked_i128 :: "int \<Rightarrow> int option" where
  "checked_i128 x = (if - (2 ^ 127) \<le> x \<and> x < 2 ^ 127 then Some x else None)"

definition wrap_i128 :: "int \<Rightarrow> int" where
  "wrap_i128 x = signed_take_bit 127 x"

definition i32_try_from :: "int \<Rightarrow> int option" where
  "i32_try_from x = (if - (2 ^ 31) \<le> x \<and> x < 2 ^ 31 then Some x else None)"

definition i16_try_from :: "int \<Rightarrow> int option" where
  "i16_try_from x = (if - (2 ^ 15) \<le> x \<and> x < 2 ^ 15 then Some x else None)"

definition wrap_i16 :: "int \<Rightarrow> int" where
  "wrap_i16 x = signed_take_bit 15 x"

definition saturate_i32 :: "int \<Rightarrow> int" where
  "saturate_i32 x = max (- (2 ^ 31)) (min (2 ^ 31 - 1) x)"

lemma checked_add_Some [checked_simps]:
  "checked_add a b = Some c \<longleftrightarrow> unat c = unat a + unat b"
proof
  assume "checked_add a b = Some c"
  then show "unat c = unat a + unat b"
    by (auto simp: checked_add_def unat_word_ariths split: if_splits)
next
  assume eq: "unat c = unat a + unat b"
  then have lt: "unat a + unat b < 2 ^ LENGTH('a)"
    by (metis unsigned_less)
  then have "unat (a + b) = unat c"
    by (simp add: eq unat_word_ariths)
  with lt show "checked_add a b = Some c"
    by (simp add: checked_add_def word_unat_eq_iff)
qed

lemma checked_add_None [checked_simps]:
  fixes a b :: "'a::len word"
  shows "checked_add a b = None \<longleftrightarrow> 2 ^ LENGTH('a) \<le> unat a + unat b"
  by (auto simp: checked_add_def)

lemma checked_sub_Some [checked_simps]:
  "checked_sub a b = Some c \<longleftrightarrow> unat a = unat b + unat c"
proof
  assume "checked_sub a b = Some c"
  then show "unat a = unat b + unat c"
    by (auto simp: checked_sub_def unat_sub word_le_nat_alt split: if_splits)
next
  assume eq: "unat a = unat b + unat c"
  then have le: "b \<le> a" by (simp add: word_le_nat_alt)
  then have "unat (a - b) = unat c" by (simp add: unat_sub eq)
  with le show "checked_sub a b = Some c"
    by (simp add: checked_sub_def word_unat_eq_iff)
qed

lemma checked_sub_None [checked_simps]: "checked_sub a b = None \<longleftrightarrow> unat a < unat b"
  by (auto simp: checked_sub_def word_le_nat_alt)

lemma checked_mul_Some [checked_simps]:
  "checked_mul a b = Some c \<longleftrightarrow> unat c = unat a * unat b"
proof
  assume "checked_mul a b = Some c"
  then show "unat c = unat a * unat b"
    by (auto simp: checked_mul_def unat_word_ariths split: if_splits)
next
  assume eq: "unat c = unat a * unat b"
  then have lt: "unat a * unat b < 2 ^ LENGTH('a)"
    by (metis unsigned_less)
  then have "unat (a * b) = unat c"
    by (simp add: eq unat_word_ariths)
  with lt show "checked_mul a b = Some c"
    by (simp add: checked_mul_def word_unat_eq_iff)
qed

lemma checked_mul_None [checked_simps]:
  fixes a b :: "'a::len word"
  shows "checked_mul a b = None \<longleftrightarrow> 2 ^ LENGTH('a) \<le> unat a * unat b"
  by (auto simp: checked_mul_def)

lemma unat_saturating_sub [simp]: "unat (saturating_sub a b) = unat a - unat b"
  by (auto simp: saturating_sub_def unat_sub word_le_nat_alt)

lemma try_into_Some:
  "(try_into (a :: 'a::len word) :: 'b::len word option) = Some c \<longleftrightarrow> unat c = unat a"
proof
  assume "try_into a = Some c"
  then show "unat c = unat a"
    by (auto simp: try_into_def unsigned_ucast_eq take_bit_nat_eq_self split: if_splits)
next
  assume eq: "unat c = unat a"
  then have lt: "unat a < 2 ^ LENGTH('b)"
    by (metis unsigned_less)
  then have "unat (ucast a :: 'b word) = unat c"
    by (simp add: eq unsigned_ucast_eq take_bit_nat_eq_self)
  with lt show "try_into a = Some c"
    by (simp add: try_into_def word_unat_eq_iff)
qed

lemma unat_lt [simp]: "unat (a :: 'a::len word) < 2 ^ LENGTH('a)"
  by (rule unsigned_less)

lemma unat_min: "unat (min a b) = min (unat a) (unat (b :: 'a::len word))"
  by (simp add: min_def word_le_nat_alt)

lemma unat_max: "unat (max a b) = max (unat a) (unat (b :: 'a::len word))"
  by (simp add: max_def word_le_nat_alt)

section \<open>Results\<close>

text \<open>
  \<open>anyhow::Error\<close> is a message (\<open>Bail\<close>), or a typed cause a caller downcasts (\<open>Cause\<close>).
  \<open>Panic\<close> is an abort of the process: the release profile sets \<open>panic = "abort"\<close>.
\<close>

datatype 'e error = Bail string | Panic string | Cause 'e

type_synonym ('e, 'a) res = "'e error + 'a"
type_synonym 'a result = "(unit, 'a) res"

definition ensure :: "bool \<Rightarrow> string \<Rightarrow> ('e, 'a) res \<Rightarrow> ('e, 'a) res" where
  "ensure c msg k = (if c then k else Inl (Bail msg))"

definition bind_res :: "('e, 'a) res \<Rightarrow> ('a \<Rightarrow> ('e, 'b) res) \<Rightarrow> ('e, 'b) res" where
  "bind_res m f = (case m of Inl e \<Rightarrow> Inl e | Inr a \<Rightarrow> f a)"

definition context_opt :: "'a option \<Rightarrow> string \<Rightarrow> ('e, 'a) res" where
  "context_opt v msg = (case v of None \<Rightarrow> Inl (Bail msg) | Some a \<Rightarrow> Inr a)"

definition is_ok :: "('e, 'a) res \<Rightarrow> bool" where
  "is_ok r = (case r of Inl e \<Rightarrow> False | Inr a \<Rightarrow> True)"

definition panics :: "('e, 'a) res \<Rightarrow> bool" where
  "panics r = (case r of Inl (Panic m) \<Rightarrow> True | _ \<Rightarrow> False)"

lemma ensure_Inr [simp, res_simps]: "ensure c msg k = Inr x \<longleftrightarrow> c \<and> k = Inr x"
  by (simp add: ensure_def)

lemma ensure_True [simp]: "ensure True msg k = k"
  by (simp add: ensure_def)

lemma ensure_False [simp]: "ensure False msg k = Inl (Bail msg)"
  by (simp add: ensure_def)

lemma ensure_Inl [res_simps]:
  "ensure c msg k = Inl e \<longleftrightarrow> (\<not> c \<and> e = Bail msg) \<or> (c \<and> k = Inl e)"
  by (auto simp: ensure_def)

lemma bind_res_Inr [simp, res_simps]:
  "bind_res m f = Inr y \<longleftrightarrow> (\<exists>x. m = Inr x \<and> f x = Inr y)"
  by (cases m) (auto simp: bind_res_def)

lemma bind_res_Inl [res_simps]:
  "bind_res m f = Inl e \<longleftrightarrow> m = Inl e \<or> (\<exists>x. m = Inr x \<and> f x = Inl e)"
  by (cases m) (auto simp: bind_res_def)

lemma bind_res_simps [simp]:
  "bind_res (Inr x) f = f x"
  "bind_res (Inl e) f = Inl e"
  by (simp_all add: bind_res_def)

lemma context_opt_Inr [simp, res_simps]: "context_opt v msg = Inr x \<longleftrightarrow> v = Some x"
  by (auto simp: context_opt_def split: option.splits)

lemma context_opt_Inl [res_simps]:
  "context_opt v msg = Inl e \<longleftrightarrow> v = None \<and> e = Bail msg"
  by (auto simp: context_opt_def split: option.splits)

lemma context_opt_simps [simp]:
  "context_opt (Some a) msg = Inr a"
  "context_opt None msg = Inl (Bail msg)"
  by (simp_all add: context_opt_def)

lemma is_ok_iff: "is_ok r \<longleftrightarrow> (\<exists>x. r = Inr x)"
  by (auto simp: is_ok_def split: sum.splits)

lemma panics_iff: "panics r \<longleftrightarrow> (\<exists>m. r = Inl (Panic m))"
  by (auto simp: panics_def split: sum.splits error.splits)

lemma bind_res_cong [fundef_cong]:
  "m = m' \<Longrightarrow> (\<And>x. m' = Inr x \<Longrightarrow> f x = g x) \<Longrightarrow> bind_res m f = bind_res m' g"
  by (cases m') (auto simp: bind_res_def)

lemma ensure_cong [fundef_cong]:
  "c = c' \<Longrightarrow> msg = msg' \<Longrightarrow> (c' \<Longrightarrow> k = k') \<Longrightarrow> ensure c msg k = ensure c' msg' k'"
  by (simp add: ensure_def)

text \<open>\<open>for\<close> loops whose body may return an error: stop at the first one.\<close>

fun for_each :: "('x \<Rightarrow> 's \<Rightarrow> ('e, 's) res) \<Rightarrow> 'x list \<Rightarrow> 's \<Rightarrow> ('e, 's) res" where
  "for_each f [] s = Inr s"
| "for_each f (x # xs) s = bind_res (f x s) (for_each f xs)"

lemma for_each_append [simp]:
  "for_each f (xs @ ys) s = bind_res (for_each f xs s) (for_each f ys)"
  by (induction xs arbitrary: s) (auto simp: bind_res_def split: sum.splits)

lemma for_each_invariant:
  assumes "\<And>x s s'. x \<in> set xs \<Longrightarrow> P s \<Longrightarrow> f x s = Inr s' \<Longrightarrow> P s'"
    and "P s" and "for_each f xs s = Inr s'"
  shows "P s'"
  using assms by (induction xs arbitrary: s) auto

text \<open>
  \<open>while\<close> loops whose body may return an error or break.  \<open>body\<close> includes the test of the loop: \<open>Done\<close>
  leaves it, \<open>Again\<close> goes on.  A loop that never ends has the value None.
\<close>

datatype 's loop_control = Done 's | Again 's

partial_function (option) loop_res ::
  "('s \<Rightarrow> ('e, 's loop_control) res) \<Rightarrow> 's \<Rightarrow> ('e, 's) res option" where
  "loop_res body s =
     (case body s of
        Inl e \<Rightarrow> Some (Inl e)
      | Inr (Done s') \<Rightarrow> Some (Inr s')
      | Inr (Again s') \<Rightarrow> loop_res body s')"

lemma loop_res_simps:
  "body s = Inl e \<Longrightarrow> loop_res body s = Some (Inl e)"
  "body s = Inr (Done s') \<Longrightarrow> loop_res body s = Some (Inr s')"
  "body s = Inr (Again s') \<Longrightarrow> loop_res body s = loop_res body s'"
  by (simp_all add: loop_res.simps [of body s])

lemma loop_res_terminates:
  assumes "\<And>s s'. I s \<Longrightarrow> body s = Inr (Again s') \<Longrightarrow> I s' \<and> f s' < (f s :: nat)" and "I s"
  shows "\<exists>r. loop_res body s = Some r"
  using assms(2)
proof (induction "f s" arbitrary: s rule: less_induct)
  case less
  show ?case
  proof (cases "\<exists>s'. body s = Inr (Again s')")
    case True
    then obtain s' where s': "body s = Inr (Again s')" by blast
    with assms(1) [OF less.prems] less.hyps [of s'] show ?thesis by (simp add: loop_res_simps(3) [of body s])
  next
    case False
    then show ?thesis
      by (subst loop_res.simps) (auto split: sum.split loop_control.split)
  qed
qed

lemma loop_res_induct [consumes 1, case_names fail stop go]:
  assumes "loop_res body s = Some r"
    and "\<And>s e. body s = Inl e \<Longrightarrow> P s (Inl e)"
    and "\<And>s s'. body s = Inr (Done s') \<Longrightarrow> P s (Inr s')"
    and "\<And>s s' r. body s = Inr (Again s') \<Longrightarrow> P s' r \<Longrightarrow> P s r"
  shows "P s r"
proof -
  have "body = body \<longrightarrow> P s r"
    by (rule loop_res.raw_induct [of "\<lambda>b s y. b = body \<longrightarrow> P s y", OF _ assms(1)])
      (auto split: sum.splits loop_control.splits intro: assms(2-4))
  then show ?thesis by simp
qed

section \<open>Strings\<close>

text \<open>
  A \<open>String\<close> is its UTF-8 bytes, one \<open>char\<close> each, so \<open>length\<close> is Rust's \<open>len()\<close>.
\<close>

definition byte :: "char \<Rightarrow> nat" where
  "byte c = of_char c"

definition is_ascii_digit :: "char \<Rightarrow> bool" where
  "is_ascii_digit c = (48 \<le> byte c \<and> byte c \<le> 57)"

definition is_ascii_alphanumeric :: "char \<Rightarrow> bool" where
  "is_ascii_alphanumeric c =
     (let b = byte c in (48 \<le> b \<and> b \<le> 57) \<or> (65 \<le> b \<and> b \<le> 90) \<or> (97 \<le> b \<and> b \<le> 122))"

definition starts_with :: "string \<Rightarrow> string \<Rightarrow> bool" where
  "starts_with v prefix = (take (length prefix) v = prefix)"

text \<open>
  \<open>value.trim().is_empty()\<close>: every code point is Unicode white space.  The clauses are the UTF-8
  encodings of the \<open>White_Space\<close> code points: U+0009 to U+000D and U+0020 in one byte, U+0085 and
  U+00A0 in two, U+1680, U+2000 to U+200A, U+2028, U+2029, U+202F, U+205F and U+3000 in three.
\<close>

definition ws1 :: "nat \<Rightarrow> bool" where
  "ws1 a = (9 \<le> a \<and> a \<le> 13 \<or> a = 32)"

definition ws2 :: "nat \<Rightarrow> nat \<Rightarrow> bool" where
  "ws2 a b = (a = 0xC2 \<and> (b = 0x85 \<or> b = 0xA0))"

definition ws3 :: "nat \<Rightarrow> nat \<Rightarrow> nat \<Rightarrow> bool" where
  "ws3 a b c =
     (a = 0xE1 \<and> b = 0x9A \<and> c = 0x80
    \<or> a = 0xE2 \<and> b = 0x80 \<and> (0x80 \<le> c \<and> c \<le> 0x8A \<or> c = 0xA8 \<or> c = 0xA9 \<or> c = 0xAF)
    \<or> a = 0xE2 \<and> b = 0x81 \<and> c = 0x9F
    \<or> a = 0xE3 \<and> b = 0x80 \<and> c = 0x80)"

fun trim_is_empty :: "string \<Rightarrow> bool" where
  "trim_is_empty [] = True"
| "trim_is_empty (a # s) =
     (if ws1 (byte a) then trim_is_empty s
      else case s of
        b # s' \<Rightarrow>
          (if ws2 (byte a) (byte b) then trim_is_empty s'
           else case s' of
             c # s'' \<Rightarrow> if ws3 (byte a) (byte b) (byte c) then trim_is_empty s'' else False
           | [] \<Rightarrow> False)
      | [] \<Rightarrow> False)"

section \<open>Searching\<close>

text \<open>\<open>Iterator::find_map\<close>.\<close>

fun find_map :: "('a \<Rightarrow> 'b option) \<Rightarrow> 'a list \<Rightarrow> 'b option" where
  "find_map f [] = None"
| "find_map f (x # xs) = (case f x of Some y \<Rightarrow> Some y | None \<Rightarrow> find_map f xs)"

lemma find_map_Some: "find_map f xs = Some y \<Longrightarrow> \<exists>x \<in> set xs. f x = Some y"
  by (induction xs) (auto split: option.splits)

lemma find_map_None: "find_map f xs = None \<longleftrightarrow> (\<forall>x \<in> set xs. f x = None)"
  by (induction xs) (auto split: option.splits)

section \<open>Decimal numbers\<close>

text \<open>\<open>Display\<close> of unsigned and signed integers, and the number a row of digits denotes.\<close>

fun show_nat :: "nat \<Rightarrow> string" where
  "show_nat n =
     (if n < 10 then [char_of (48 + n)] else show_nat (n div 10) @ [char_of (48 + n mod 10)])"

declare show_nat.simps [simp del]

definition show_int :: "int \<Rightarrow> string" where
  "show_int i = (if i < 0 then ''-'' @ show_nat (nat (- i)) else show_nat (nat i))"

definition digits_value :: "string \<Rightarrow> nat" where
  "digits_value s = foldl (\<lambda>n c. 10 * n + (byte c - 48)) 0 s"

lemma is_ascii_digit_char: "n < 10 \<Longrightarrow> is_ascii_digit (char_of (48 + n))" "n < 10 \<Longrightarrow> byte (char_of (48 + n)) = 48 + n"
  by (simp_all add: is_ascii_digit_def byte_def)

lemma show_nat_digits: "list_all is_ascii_digit (show_nat n)"
proof (induction n rule: show_nat.induct)
  case (1 n)
  then show ?case by (subst show_nat.simps) (simp add: is_ascii_digit_char)
qed

lemma digits_value_append: "digits_value (s @ [c]) = 10 * digits_value s + (byte c - 48)"
  by (simp add: digits_value_def)

lemma digits_value_show_nat: "digits_value (show_nat n) = n"
proof (induction n rule: show_nat.induct)
  case (1 n)
  show ?case
  proof (cases "n < 10")
    case True
    then show ?thesis by (subst show_nat.simps) (simp add: digits_value_def is_ascii_digit_char)
  next
    case False
    then show ?thesis
      using 1 by (subst show_nat.simps) (simp add: digits_value_append is_ascii_digit_char)
  qed
qed

lemma show_nat_nonempty: "show_nat n \<noteq> []"
  by (subst show_nat.simps) simp

lemma show_nat_inj: "show_nat m = show_nat n \<Longrightarrow> m = n"
  by (metis digits_value_show_nat)

text \<open>A number ends where the first dash follows it.\<close>

lemma show_nat_dash:
  assumes "show_nat m @ CHR ''-'' # s = show_nat n @ CHR ''-'' # t"
  shows "m = n"
proof -
  have "takeWhile is_ascii_digit (show_nat k @ CHR ''-'' # u) = show_nat k" for k u
    using show_nat_digits [of k] by (simp add: takeWhile_append2 list_all_iff is_ascii_digit_def byte_def)
  then show ?thesis using assms show_nat_inj by metis
qed

section \<open>Systems that keep an invariant\<close>

text \<open>
  The contract of a component with state: an initial state, one total step per event, and an
  invariant the start has and every step keeps.  Whatever sequence of events the environment
  chooses, the invariant holds throughout.
\<close>

locale invariant_system =
  fixes init :: "'s"
    and step :: "'e \<Rightarrow> 's \<Rightarrow> 's"
    and inv :: "'s \<Rightarrow> bool"
  assumes inv_init: "inv init"
    and inv_step: "inv s \<Longrightarrow> inv (step e s)"
begin

lemma inv_run: "inv s \<Longrightarrow> inv (fold step es s)"
  by (induction es arbitrary: s) (auto intro: inv_step)

lemma inv_reachable: "inv (fold step es init)"
  by (rule inv_run) (rule inv_init)

end

section \<open>Generic lemmas\<close>

lemma sum_list_map_eq_0:
  "(\<And>x. x \<in> set xs \<Longrightarrow> f x = (0::nat)) \<Longrightarrow> sum_list (map f xs) = 0"
  by (induction xs) auto

lemma word_eq_0_iff_unat: "w = 0 \<longleftrightarrow> unat w = 0"
  by (simp add: unat_eq_0)

end
