(* ===== verification/BTree_Map.thy ===== *)
theory BTree_Map
  imports Prelude
begin

text \<open>
  The standard library's \<open>BTreeMap\<close> and \<open>BTreeSet\<close>, as the program uses them: a finite map whose
  iteration order is the order of its keys.  The representation is the strictly sorted list of its
  entries, so two maps with the same lookups are equal, as \<open>PartialEq\<close> on \<open>BTreeMap\<close> has it, and
  every operation computes.  The locale \<open>ordered_map\<close> is the contract the components rely on; it is
  interpreted on the representation at the end.
\<close>

section \<open>Sorted association lists\<close>

abbreviation sorted_keys :: "('k::linorder \<times> 'v) list \<Rightarrow> bool" where
  "sorted_keys xs \<equiv> sorted_wrt (<) (map fst xs)"

fun put_entry :: "'k::linorder \<Rightarrow> 'v \<Rightarrow> ('k \<times> 'v) list \<Rightarrow> ('k \<times> 'v) list" where
  "put_entry k v [] = [(k, v)]"
| "put_entry k v ((a, b) # xs) =
     (if k < a then (k, v) # (a, b) # xs
      else if k = a then (k, v) # xs
      else (a, b) # put_entry k v xs)"

definition drop_entry :: "'k \<Rightarrow> ('k \<times> 'v) list \<Rightarrow> ('k \<times> 'v) list" where
  "drop_entry k xs = filter (\<lambda>e. fst e \<noteq> k) xs"

lemma set_put_entry_keys: "fst ` set (put_entry k v xs) = insert k (fst ` set xs)"
  by (induction k v xs rule: put_entry.induct) auto

lemma sorted_put_entry: "sorted_keys xs \<Longrightarrow> sorted_keys (put_entry k v xs)"
proof (induction k v xs rule: put_entry.induct)
  case (2 k v a b xs)
  then show ?case
    using set_put_entry_keys [of k v xs] by fastforce
qed simp

lemma sorted_keys_filter: "sorted_keys xs \<Longrightarrow> sorted_keys (filter P xs)"
  by (induction xs) auto

lemma map_of_put_entry: "map_of (put_entry k v xs) = (map_of xs)(k \<mapsto> v)"
  by (induction k v xs rule: put_entry.induct) (auto simp: fun_eq_iff)

lemma map_of_filter_key:
  "map_of (filter (\<lambda>e. Q (fst e)) xs) = (\<lambda>k. if Q k then map_of xs k else None)"
  by (induction xs) (auto simp: fun_eq_iff)

lemma sorted_keys_distinct: "sorted_keys xs \<Longrightarrow> distinct (map fst xs)"
  by (induction xs) auto

lemma sorted_keys_eqI:
  assumes "sorted_keys xs" "sorted_keys ys" "map_of xs = map_of ys"
  shows "xs = ys"
proof -
  have d: "distinct (map fst xs)" "distinct (map fst ys)"
    using assms by (auto intro: sorted_keys_distinct)
  have "set xs = set ys"
    using map_of_inject_set [OF d] assms(3) by simp
  moreover have "sorted (map fst xs)" "sorted (map fst ys)"
    using assms(1,2) by (auto simp: strict_sorted_imp_sorted)
  moreover have "inj_on fst (set xs \<union> set ys)"
    using \<open>set xs = set ys\<close> d(1) by (simp add: distinct_map)
  ultimately show ?thesis
    using d map_sorted_distinct_set_unique [of fst xs ys] by simp
qed

section \<open>The type of maps\<close>

typedef (overloaded) ('k::linorder, 'v) btmap = "{xs :: ('k \<times> 'v) list. sorted_keys xs}"
  morphisms bt_entries BTMap
  by (rule exI [of _ "[]"]) simp

setup_lifting type_definition_btmap

lift_definition bt_empty :: "('k::linorder, 'v) btmap" is "[]" by simp

lift_definition bt_get :: "('k::linorder, 'v) btmap \<Rightarrow> 'k \<Rightarrow> 'v option" is
  "\<lambda>xs k. map_of xs k" .

lift_definition bt_insert :: "'k::linorder \<Rightarrow> 'v \<Rightarrow> ('k, 'v) btmap \<Rightarrow> ('k, 'v) btmap" is
  put_entry by (rule sorted_put_entry)

lift_definition bt_remove :: "'k::linorder \<Rightarrow> ('k, 'v) btmap \<Rightarrow> ('k, 'v) btmap" is
  drop_entry unfolding drop_entry_def by (rule sorted_keys_filter)

lift_definition bt_retain :: "('k::linorder \<Rightarrow> bool) \<Rightarrow> ('k, 'v) btmap \<Rightarrow> ('k, 'v) btmap" is
  "\<lambda>P. filter (\<lambda>e. P (fst e))" by (rule sorted_keys_filter)

definition bt_contains :: "('k::linorder, 'v) btmap \<Rightarrow> 'k \<Rightarrow> bool" where
  "bt_contains m k = (bt_get m k \<noteq> None)"

definition bt_keys :: "('k::linorder, 'v) btmap \<Rightarrow> 'k list" where
  "bt_keys m = map fst (bt_entries m)"

definition bt_values :: "('k::linorder, 'v) btmap \<Rightarrow> 'v list" where
  "bt_values m = map snd (bt_entries m)"

definition bt_len :: "('k::linorder, 'v) btmap \<Rightarrow> nat" where
  "bt_len m = length (bt_entries m)"

definition bt_is_empty :: "('k::linorder, 'v) btmap \<Rightarrow> bool" where
  "bt_is_empty m = (bt_entries m = [])"

text \<open>\<open>extend\<close>: the entries of the argument replace the ones already there.\<close>

definition bt_extend :: "('k::linorder, 'v) btmap \<Rightarrow> ('k, 'v) btmap \<Rightarrow> ('k, 'v) btmap" where
  "bt_extend m n = fold (\<lambda>(k, v). bt_insert k v) (bt_entries n) m"

type_synonym 'a btset = "('a, unit) btmap"

definition bts_insert :: "'a::linorder \<Rightarrow> 'a btset \<Rightarrow> 'a btset" where
  "bts_insert x s = bt_insert x () s"

definition bts_of_list :: "'a::linorder list \<Rightarrow> 'a btset" where
  "bts_of_list xs = fold bts_insert xs bt_empty"

instantiation btmap :: (linorder, equal) equal
begin

definition equal_btmap :: "('a, 'b) btmap \<Rightarrow> ('a, 'b) btmap \<Rightarrow> bool" where
  "equal_btmap m n = (bt_entries m = bt_entries n)"

instance
  by standard (simp add: equal_btmap_def bt_entries_inject)

end

section \<open>Laws\<close>

lemma bt_entries_simps [simp]:
  "bt_entries bt_empty = []"
  "bt_entries (bt_insert k v m) = put_entry k v (bt_entries m)"
  "bt_entries (bt_remove k m) = drop_entry k (bt_entries m)"
  "bt_entries (bt_retain P m) = filter (\<lambda>e. P (fst e)) (bt_entries m)"
  by (transfer; simp)+

lemma bt_get_map_of: "bt_get m k = map_of (bt_entries m) k"
  by transfer simp

lemma bt_get_empty [simp]: "bt_get bt_empty k = None"
  by transfer simp

lemma bt_get_insert [simp]: "bt_get (bt_insert k v m) k' = (if k' = k then Some v else bt_get m k')"
  by transfer (simp add: map_of_put_entry)

lemma bt_get_remove [simp]: "bt_get (bt_remove k m) k' = (if k' = k then None else bt_get m k')"
  by transfer (simp add: drop_entry_def map_of_filter_key [of "\<lambda>x. x \<noteq> _"])

lemma bt_get_retain [simp]: "bt_get (bt_retain P m) k = (if P k then bt_get m k else None)"
  by transfer (simp add: map_of_filter_key)

lemma bt_eqI: "(\<And>k. bt_get m k = bt_get n k) \<Longrightarrow> m = n"
  by transfer (auto intro: sorted_keys_eqI)

lemma bt_empty_frame [simp]:
  "bt_retain P bt_empty = bt_empty"
  "bt_remove k bt_empty = bt_empty"
  by (rule bt_eqI, simp)+

lemma distinct_bt_keys [simp]: "distinct (map fst (bt_entries m))"
  by transfer (rule sorted_keys_distinct)

lemma bt_entries_iff: "(k, v) \<in> set (bt_entries m) \<longleftrightarrow> bt_get m k = Some v"
  by (simp add: bt_get_map_of)

lemma set_bt_keys: "k \<in> set (bt_keys m) \<longleftrightarrow> bt_get m k \<noteq> None"
  by (simp add: bt_keys_def bt_get_map_of map_of_eq_None_iff)

lemma set_bt_values: "v \<in> set (bt_values m) \<longleftrightarrow> (\<exists>k. bt_get m k = Some v)"
  unfolding bt_values_def by (force simp: image_iff simp flip: bt_entries_iff)

lemma bt_is_empty_iff: "bt_is_empty m \<longleftrightarrow> (\<forall>k. bt_get m k = None)"
proof -
  have "bt_entries m = [] \<longleftrightarrow> (\<forall>k v. (k, v) \<notin> set (bt_entries m))"
    by (cases "bt_entries m") auto
  then show ?thesis by (simp add: bt_is_empty_def bt_entries_iff)
qed

lemma bt_get_fold_insert:
  "bt_get (fold (\<lambda>(k, v). bt_insert k v) xs m) k =
     (case map_of (rev xs) k of None \<Rightarrow> bt_get m k | Some v \<Rightarrow> Some v)"
  by (induction xs arbitrary: m) (auto simp: map_add_def split: option.splits)

lemma bt_get_extend [simp]:
  "bt_get (bt_extend m n) k = (case bt_get n k of None \<Rightarrow> bt_get m k | Some v \<Rightarrow> Some v)"
proof -
  have "map_of (rev (bt_entries n)) = map_of (bt_entries n)"
    by (simp add: map_of_inject_set rev_map [symmetric])
  then show ?thesis
    by (simp add: bt_extend_def bt_get_fold_insert bt_get_map_of [of n])
qed

lemma bt_contains_simps [simp]:
  "bt_contains bt_empty k = False"
  "bt_contains (bt_insert k v m) k' = (k' = k \<or> bt_contains m k')"
  by (auto simp: bt_contains_def)

lemma bt_contains_bts_insert [simp]: "bt_contains (bts_insert x s) y = (y = x \<or> bt_contains s y)"
  by (auto simp: bts_insert_def)

lemma bt_contains_iff: "bt_contains m k \<longleftrightarrow> (\<exists>v. bt_get m k = Some v)"
  by (simp add: bt_contains_def)

lemma finite_bt_dom [simp]: "finite {k. bt_get m k \<noteq> None}"
  using finite_dom_map_of [of "bt_entries m"] by (simp add: dom_def bt_get_map_of)

text \<open>Removing a fresh key after inserting it restores the map.\<close>

lemma bt_remove_insert: "bt_get m k = None \<Longrightarrow> bt_remove k (bt_insert k v m) = m"
  by (rule bt_eqI) simp

lemma bt_insert_same: "bt_get m k = Some v \<Longrightarrow> bt_insert k v m = m"
  by (rule bt_eqI) simp

lemma sum_entries_insert:
  fixes f :: "'k::linorder \<times> 'v \<Rightarrow> nat"
  assumes "bt_get m k = None"
  shows "sum_list (map f (bt_entries (bt_insert k v m))) = f (k, v) + sum_list (map f (bt_entries m))"
proof -
  have "k \<notin> fst ` set xs \<Longrightarrow> sum_list (map f (put_entry k v xs)) = f (k, v) + sum_list (map f xs)"
    for xs :: "('k \<times> 'v) list"
    by (induction k v xs rule: put_entry.induct) auto
  then show ?thesis
    using assms by (simp add: bt_get_map_of map_of_eq_None_iff)
qed

lemma sum_entries_remove:
  fixes f :: "'k::linorder \<times> 'v \<Rightarrow> nat"
  assumes "bt_get m k = Some v"
  shows "sum_list (map f (bt_entries m)) = f (k, v) + sum_list (map f (bt_entries (bt_remove k m)))"
proof -
  have "bt_insert k v (bt_remove k m) = m"
    by (rule bt_eqI) (simp add: assms)
  then show ?thesis
    using sum_entries_insert [of "bt_remove k m" k f v] by simp
qed

lemma sum_entries_update:
  fixes f :: "'k::linorder \<times> 'v \<Rightarrow> nat"
  assumes "bt_get m k = Some v" and "f (k, v') = f (k, v)"
  shows "sum_list (map f (bt_entries (bt_insert k v' m))) = sum_list (map f (bt_entries m))"
proof -
  have "bt_insert k v' m = bt_insert k v' (bt_remove k m)"
    by (rule bt_eqI) simp
  then show ?thesis
    using sum_entries_insert [of "bt_remove k m" k f v'] sum_entries_remove [of m k v f] assms
    by simp
qed

section \<open>The contract of an ordered map\<close>

locale ordered_map =
  fixes empty :: "'m"
    and get :: "'m \<Rightarrow> 'k::linorder \<Rightarrow> 'v option"
    and insert :: "'k \<Rightarrow> 'v \<Rightarrow> 'm \<Rightarrow> 'm"
    and remove :: "'k \<Rightarrow> 'm \<Rightarrow> 'm"
    and entries :: "'m \<Rightarrow> ('k \<times> 'v) list"
  assumes get_empty: "get empty k = None"
    and get_insert: "get (insert k v m) k' = (if k' = k then Some v else get m k')"
    and get_remove: "get (remove k m) k' = (if k' = k then None else get m k')"
    and entries_get: "(k, v) \<in> set (entries m) \<longleftrightarrow> get m k = Some v"
    and entries_sorted: "sorted_wrt (<) (map fst (entries m))"
    and extensional: "(\<And>k. get m k = get n k) \<Longrightarrow> m = n"
begin

lemma insert_insert: "insert k v (insert k w m) = insert k v m"
  by (rule extensional) (simp add: get_insert)

lemma insert_commute: "k \<noteq> l \<Longrightarrow> insert k v (insert l w m) = insert l w (insert k v m)"
  by (rule extensional) (simp add: get_insert)

lemma remove_insert_fresh: "get m k = None \<Longrightarrow> remove k (insert k v m) = m"
  by (rule extensional) (simp add: get_insert get_remove)

lemma remove_commute: "remove k (remove l m) = remove l (remove k m)"
  by (rule extensional) (simp add: get_remove)

lemma entries_distinct: "distinct (map fst (entries m))"
  using entries_sorted [of m] by (rule sorted_keys_distinct)

end

interpretation bt: ordered_map bt_empty bt_get bt_insert bt_remove bt_entries
proof unfold_locales
  show "sorted_wrt (<) (map fst (bt_entries m))" for m :: "('a, 'b) btmap"
    using bt_entries [of m] by simp
qed (auto simp: bt_entries_iff intro: bt_eqI)

end
