(* ===== verification/Inventory.thy ===== *)
theory Inventory
  imports BTree_Map "HOL-Library.Product_Lexorder"
begin

text \<open>
  The inventory ledger, \<open>src/src/inventory.rs\<close>: the single owner of every strategy and rebalance
  claim on a balance.  The state is \<open>InventoryReservations\<close>; the operations are its methods, each a
  function to the next state and the result the caller sees, because an error of the source may
  leave a changed state behind.  \<open>ledger_ok\<close> is the invariant: the pre-aggregated totals are the sums
  of the claims outstanding.
\<close>

section \<open>Data\<close>

datatype inventory_location =
    BinanceAccount (account_id: string)
  | EvmWallet (network_id: string) (wallet_location_id: string)

text \<open>The derived \<open>Ord\<close>: by variant, then by the fields in order.\<close>

fun location_rank :: "inventory_location \<Rightarrow> nat \<times> string \<times> string" where
  "location_rank (BinanceAccount a) = (0, a, [])"
| "location_rank (EvmWallet n w) = (1, n, w)"

lemma location_rank_inject [simp]: "location_rank a = location_rank b \<longleftrightarrow> a = b"
  by (cases a; cases b) auto

instantiation inventory_location :: linorder
begin

definition less_eq_inventory_location :: "inventory_location \<Rightarrow> inventory_location \<Rightarrow> bool" where
  "less_eq_inventory_location a b = (location_rank a \<le> location_rank b)"

definition less_inventory_location :: "inventory_location \<Rightarrow> inventory_location \<Rightarrow> bool" where
  "less_inventory_location a b = (location_rank a < location_rank b)"

instance
  by standard
     (auto simp: less_eq_inventory_location_def less_inventory_location_def dest: antisym)

end

datatype inventory_key =
  InventoryKey (key_location: inventory_location) (key_venue_asset_id: string)

instantiation inventory_key :: linorder
begin

definition less_eq_inventory_key :: "inventory_key \<Rightarrow> inventory_key \<Rightarrow> bool" where
  "less_eq_inventory_key a b =
     ((key_location a, key_venue_asset_id a) \<le> (key_location b, key_venue_asset_id b))"

definition less_inventory_key :: "inventory_key \<Rightarrow> inventory_key \<Rightarrow> bool" where
  "less_inventory_key a b =
     ((key_location a, key_venue_asset_id a) < (key_location b, key_venue_asset_id b))"

instance
proof
  fix a b c :: inventory_key
  show "(a < b) = (a \<le> b \<and> \<not> b \<le> a)"
    unfolding less_eq_inventory_key_def less_inventory_key_def by (rule less_le_not_le)
  show "a \<le> a"
    unfolding less_eq_inventory_key_def by simp
  show "a \<le> b \<Longrightarrow> b \<le> c \<Longrightarrow> a \<le> c"
    unfolding less_eq_inventory_key_def by (rule order_trans)
  show "a \<le> b \<Longrightarrow> b \<le> a \<Longrightarrow> a = b"
    unfolding less_eq_inventory_key_def by (cases a; cases b) (auto dest: antisym)
  show "a \<le> b \<or> b \<le> a"
    unfolding less_eq_inventory_key_def by (rule linear)
qed

end

record inventory_claim =
  claim_key :: inventory_key
  claim_amount :: u256

datatype reservation_purpose = TradePrimary | TradeRecovery | Rebalance

record reservation_request =
  req_operation_id :: string
  req_purpose :: reservation_purpose
  req_claims :: "inventory_claim list"
  req_settlement_locations :: "inventory_location btset"

datatype reservation_state =
    Active
  | PendingSettlement (barriers: "(inventory_location, u64) btmap")

record inventory_reservation =
  rsv_request :: reservation_request
  rsv_state :: reservation_state

record insufficient_available_inventory =
  ins_key :: inventory_key
  ins_requested :: u256
  ins_observed :: u256
  ins_reserved :: u256
  ins_available :: u256

definition caused_by_active_reservations :: "insufficient_available_inventory \<Rightarrow> bool" where
  "caused_by_active_reservations e =
     (ins_requested e \<le> ins_observed e \<and> ins_requested e > ins_available e)"

type_synonym 'a inv_res = "(insufficient_available_inventory, 'a) res"

record inventory_reservations =
  observed_map :: "(inventory_key, u256) btmap"
  location_generations :: "(inventory_location, u64) btmap"
  reservations :: "(string, inventory_reservation) btmap"
  reserved_totals :: "(inventory_key, u256) btmap"

definition inventory_default :: inventory_reservations where
  "inventory_default =
     \<lparr>observed_map = bt_empty, location_generations = bt_empty,
      reservations = bt_empty, reserved_totals = bt_empty\<rparr>"

section \<open>Identifiers\<close>

definition id_byte :: "char \<Rightarrow> bool" where
  "id_byte c = (is_ascii_alphanumeric c \<or> c \<in> set ''-_.:/'')"

definition validate_id :: "string \<Rightarrow> string \<Rightarrow> nat \<Rightarrow> ('e, unit) res" where
  "validate_id name value maximum =
     ensure (value \<noteq> [] \<and> length value \<le> maximum) (name @ '' has invalid length'')
     (ensure (list_all id_byte value) (name @ '' contains unsupported characters'')
      (Inr ()))"

definition location_binance :: "string \<Rightarrow> ('e, inventory_location) res" where
  "location_binance account =
     bind_res (validate_id ''Binance inventory account'' account 96)
       (\<lambda>_. Inr (BinanceAccount account))"

definition location_evm_wallet :: "string \<Rightarrow> string \<Rightarrow> ('e, inventory_location) res" where
  "location_evm_wallet network wallet =
     bind_res (validate_id ''inventory network'' network 96) (\<lambda>_.
     bind_res (validate_id ''wallet inventory location'' wallet 120) (\<lambda>_.
       Inr (EvmWallet network wallet)))"

fun stable_id :: "inventory_location \<Rightarrow> string" where
  "stable_id (BinanceAccount a) = a"
| "stable_id (EvmWallet n w) = w"

definition inventory_key_new :: "inventory_location \<Rightarrow> string \<Rightarrow> ('e, inventory_key) res" where
  "inventory_key_new l v =
     bind_res (validate_id ''venue asset id'' v 160) (\<lambda>_. Inr (InventoryKey l v))"

text \<open>\<open>validate_request\<close>: the loop carries the set of the keys seen so far.\<close>

definition validate_claim ::
  "reservation_request \<Rightarrow> inventory_claim \<Rightarrow> inventory_key btset \<Rightarrow> inventory_key btset inv_res" where
  "validate_claim r c keys =
     bind_res (validate_id ''venue asset id'' (key_venue_asset_id (claim_key c)) 160) (\<lambda>_.
     ensure (claim_amount c \<noteq> 0) ''inventory claim amount is zero''
     (ensure (\<not> bt_contains keys (claim_key c)) ''reservation has duplicate inventory claims''
     (ensure (bt_contains (req_settlement_locations r) (key_location (claim_key c)))
        ''claim location is absent from settlement locations''
      (Inr (bts_insert (claim_key c) keys)))))"

definition validate_request :: "reservation_request \<Rightarrow> unit inv_res" where
  "validate_request r =
     bind_res (validate_id ''reservation operation id'' (req_operation_id r) 120) (\<lambda>_.
     ensure (req_claims r \<noteq> []) ''reservation has no claims''
     (ensure (\<not> bt_is_empty (req_settlement_locations r)) ''reservation has no settlement locations''
     (bind_res (for_each (validate_claim r) (req_claims r) bt_empty) (\<lambda>_. Inr ()))))"

section \<open>Queries\<close>

definition observed :: "inventory_reservations \<Rightarrow> inventory_key \<Rightarrow> u256 option" where
  "observed st k = bt_get (observed_map st) k"

definition reserved :: "inventory_reservations \<Rightarrow> inventory_key \<Rightarrow> u256" where
  "reserved st k = (case bt_get (reserved_totals st) k of None \<Rightarrow> 0 | Some v \<Rightarrow> v)"

definition no_observed_msg :: "inventory_key \<Rightarrow> string" where
  "no_observed_msg k =
     ''no observed inventory for '' @ key_venue_asset_id k @ '' at '' @ stable_id (key_location k)"

definition available :: "inventory_reservations \<Rightarrow> inventory_key \<Rightarrow> u256 inv_res" where
  "available st k =
     bind_res (context_opt (observed st k) (no_observed_msg k)) (\<lambda>obs.
       context_opt (checked_sub obs (reserved st k)) ''reservations exceed observed inventory'')"

record inventory_portfolio_snapshot =
  snap_observed :: "(inventory_key, u256) btmap"
  snap_reserved_totals :: "(inventory_key, u256) btmap"

definition portfolio_snapshot :: "inventory_reservations \<Rightarrow> inventory_portfolio_snapshot" where
  "portfolio_snapshot st =
     \<lparr>snap_observed = observed_map st, snap_reserved_totals = reserved_totals st\<rparr>"

definition reservation :: "inventory_reservations \<Rightarrow> string \<Rightarrow> inventory_reservation option" where
  "reservation st op = bt_get (reservations st) op"

definition active_operation_ids :: "inventory_reservations \<Rightarrow> string list" where
  "active_operation_ids st = bt_keys (reservations st)"

section \<open>Removal and reconciliation\<close>

definition release_claim ::
  "inventory_claim \<Rightarrow> (inventory_key, u256) btmap \<Rightarrow> (inventory_key, u256) btmap inv_res" where
  "release_claim c totals =
     (case bt_get totals (claim_key c) of
        None \<Rightarrow> Inr totals
      | Some r \<Rightarrow>
          (case checked_sub r (claim_amount c) of
             None \<Rightarrow> Inl (Panic ''reserved total covers every admitted claim'')
           | Some r' \<Rightarrow>
               Inr (if r' = 0 then bt_remove (claim_key c) totals
                    else bt_insert (claim_key c) r' totals)))"

definition remove_reservation ::
  "string \<Rightarrow> inventory_reservations \<Rightarrow> inventory_reservations inv_res" where
  "remove_reservation op st =
     (case bt_get (reservations st) op of
        None \<Rightarrow> Inr st
      | Some r \<Rightarrow>
          bind_res (for_each release_claim (req_claims (rsv_request r)) (reserved_totals st)) (\<lambda>t.
            Inr (st\<lparr>reservations := bt_remove op (reservations st), reserved_totals := t\<rparr>)))"

definition passed_barriers ::
  "inventory_reservations \<Rightarrow> (inventory_location, u64) btmap \<Rightarrow> bool" where
  "passed_barriers st gens =
     list_all (\<lambda>(l, barrier).
        case bt_get (location_generations st) l of None \<Rightarrow> False | Some cur \<Rightarrow> cur > barrier)
       (bt_entries gens)"

definition reconciled :: "inventory_reservations \<Rightarrow> inventory_reservation \<Rightarrow> bool" where
  "reconciled st r =
     (case rsv_state r of Active \<Rightarrow> False | PendingSettlement gens \<Rightarrow> passed_barriers st gens)"

definition reconciled_ids :: "inventory_reservations \<Rightarrow> string list" where
  "reconciled_ids st = map fst (filter (\<lambda>(op, r). reconciled st r) (bt_entries (reservations st)))"

definition release_reconciled ::
  "inventory_reservations \<Rightarrow> inventory_reservations inv_res" where
  "release_reconciled st = for_each remove_reservation (reconciled_ids st) st"

section \<open>Snapshots\<close>

definition collect_balance ::
  "inventory_location \<Rightarrow> string \<Rightarrow> string \<times> u256 \<Rightarrow> (inventory_key, u256) btmap
     \<Rightarrow> (inventory_key, u256) btmap inv_res" where
  "collect_balance l dup_msg b acc =
     (case b of (venue_asset_id, amount) \<Rightarrow>
       bind_res (inventory_key_new l venue_asset_id) (\<lambda>k.
         ensure (\<not> bt_contains acc k) dup_msg (Inr (bt_insert k amount acc))))"

text \<open>
  The common end of the two updates: store the balances and the generation, then release what is
  reconciled.  A panic of the release aborts the process; the state beside it has no meaning.
\<close>

definition commit_snapshot ::
  "inventory_reservations \<Rightarrow> inventory_reservations \<Rightarrow> inventory_reservations \<times> bool inv_res" where
  "commit_snapshot st updated =
     (case release_reconciled updated of
        Inl e \<Rightarrow> (st, Inl e)
      | Inr st' \<Rightarrow> (st', Inr True))"

definition update_location ::
  "inventory_reservations \<Rightarrow> inventory_location \<Rightarrow> u64 \<Rightarrow> (string \<times> u256) list
     \<Rightarrow> inventory_reservations \<times> bool inv_res" where
  "update_location st l generation balances =
     (if \<not> generation > 0 then (st, Inl (Bail ''inventory generation must be positive''))
      else if (case bt_get (location_generations st) l of
                 None \<Rightarrow> False | Some cur \<Rightarrow> generation \<le> cur)
      then (st, Inr False)
      else case for_each (collect_balance l ''duplicate venue asset in inventory snapshot'')
                  balances bt_empty of
        Inl e \<Rightarrow> (st, Inl e)
      | Inr replacement \<Rightarrow>
          if bt_is_empty replacement
          then (st, Inl (Bail ''inventory snapshot must contain at least one venue asset''))
          else commit_snapshot st
                 (st\<lparr>observed_map :=
                       bt_extend (bt_retain (\<lambda>k. key_location k \<noteq> l) (observed_map st)) replacement,
                     location_generations := bt_insert l generation (location_generations st)\<rparr>))"

definition update_location_assets ::
  "inventory_reservations \<Rightarrow> inventory_location \<Rightarrow> u64 \<Rightarrow> (string \<times> u256) list
     \<Rightarrow> inventory_reservations \<times> bool inv_res" where
  "update_location_assets st l generation balances =
     (if \<not> generation > 0 then (st, Inl (Bail ''inventory generation must be positive''))
      else case bt_get (location_generations st) l of
        None \<Rightarrow>
          (st, Inl (Bail ''partial inventory update requires a complete location snapshot''))
      | Some current_generation \<Rightarrow>
          if generation \<le> current_generation then (st, Inr False)
          else case for_each (collect_balance l ''duplicate venue asset in partial inventory update'')
                      balances bt_empty of
            Inl e \<Rightarrow> (st, Inl e)
          | Inr updates \<Rightarrow>
              if bt_is_empty updates then (st, Inl (Bail ''partial inventory update is empty''))
              else commit_snapshot st
                     (st\<lparr>observed_map := bt_extend (observed_map st) updates,
                         location_generations := bt_insert l generation (location_generations st)\<rparr>))"

section \<open>Reservations\<close>

definition check_claim :: "inventory_reservations \<Rightarrow> inventory_claim \<Rightarrow> unit inv_res" where
  "check_claim st c =
     ensure (bt_contains (location_generations st) (key_location (claim_key c)))
       ''inventory location has no observed generation''
     (bind_res (context_opt (observed st (claim_key c)) (no_observed_msg (claim_key c))) (\<lambda>obs.
        let res = reserved st (claim_key c) in
        bind_res (context_opt (checked_sub obs res) ''reservations exceed observed inventory'') (\<lambda>avail.
          if claim_amount c > avail
          then Inl (Cause \<lparr>ins_key = claim_key c, ins_requested = claim_amount c,
                           ins_observed = obs, ins_reserved = res, ins_available = avail\<rparr>)
          else Inr ())))"

text \<open>The second loop writes as it goes: an overflow would leave the entries already written.\<close>

fun commit_claims ::
  "inventory_claim list \<Rightarrow> (inventory_key, u256) btmap
     \<Rightarrow> (inventory_key, u256) btmap \<times> unit inv_res" where
  "commit_claims [] totals = (totals, Inr ())"
| "commit_claims (c # cs) totals =
     (let r = (case bt_get totals (claim_key c) of None \<Rightarrow> 0 | Some v \<Rightarrow> v) in
      case checked_add r (claim_amount c) of
        None \<Rightarrow> (bt_insert (claim_key c) r totals, Inl (Bail ''inventory reserved total overflow''))
      | Some r' \<Rightarrow> commit_claims cs (bt_insert (claim_key c) r' totals))"

definition reserve ::
  "inventory_reservations \<Rightarrow> reservation_request \<Rightarrow> inventory_reservations \<times> unit inv_res" where
  "reserve st request =
     (case validate_request request of
        Inl e \<Rightarrow> (st, Inl e)
      | Inr _ \<Rightarrow>
        if bt_contains (reservations st) (req_operation_id request)
        then (st, Inl (Bail ''inventory reservation operation already exists''))
        else case for_each (\<lambda>c _. check_claim st c) (req_claims request) () of
          Inl e \<Rightarrow> (st, Inl e)
        | Inr _ \<Rightarrow>
          case commit_claims (req_claims request) (reserved_totals st) of
            (t, Inl e) \<Rightarrow> (st\<lparr>reserved_totals := t\<rparr>, Inl e)
          | (t, Inr _) \<Rightarrow>
              (st\<lparr>reserved_totals := t,
                  reservations := bt_insert (req_operation_id request)
                    \<lparr>rsv_request = request, rsv_state = Active\<rparr> (reservations st)\<rparr>, Inr ()))"

definition unknown_reservation_msg :: "string \<Rightarrow> string" where
  "unknown_reservation_msg op = ''unknown inventory reservation '' @ op"

definition release_unsubmitted ::
  "inventory_reservations \<Rightarrow> string \<Rightarrow> inventory_reservations \<times> unit inv_res" where
  "release_unsubmitted st op =
     (case bt_get (reservations st) op of
        None \<Rightarrow> (st, Inl (Bail (unknown_reservation_msg op)))
      | Some r \<Rightarrow>
          if rsv_state r \<noteq> Active
          then (st, Inl (Bail ''only an active reservation can be released as unsubmitted''))
          else case remove_reservation op st of
            Inl e \<Rightarrow> (st, Inl e)
          | Inr st' \<Rightarrow> (st', Inr ()))"

definition record_barrier ::
  "inventory_reservations \<Rightarrow> inventory_location \<Rightarrow> (inventory_location, u64) btmap
     \<Rightarrow> (inventory_location, u64) btmap inv_res" where
  "record_barrier st l gens =
     bind_res (context_opt (bt_get (location_generations st) l)
                 ''settlement inventory location has no generation'') (\<lambda>g.
       Inr (bt_insert l g gens))"

definition mark_pending_settlement ::
  "inventory_reservations \<Rightarrow> string \<Rightarrow> inventory_reservations \<times> unit inv_res" where
  "mark_pending_settlement st op =
     (case bt_get (reservations st) op of
        None \<Rightarrow> (st, Inl (Bail (unknown_reservation_msg op)))
      | Some r \<Rightarrow>
          if rsv_state r \<noteq> Active
          then (st, Inl (Bail ''inventory reservation is not active''))
          else case for_each (record_barrier st)
                      (bt_keys (req_settlement_locations (rsv_request r))) bt_empty of
            Inl e \<Rightarrow> (st, Inl e)
          | Inr gens \<Rightarrow>
              (st\<lparr>reservations := bt_insert op (r\<lparr>rsv_state := PendingSettlement gens\<rparr>)
                     (reservations st)\<rparr>, Inr ()))"

text \<open>
  \<open>SharedInventoryReservations\<close> runs every mutating method under one mutex: an execution is a
  sequence of whole operations, whichever task issues them.
\<close>

datatype inventory_op =
    UpdateLocation inventory_location u64 "(string \<times> u256) list"
  | UpdateLocationAssets inventory_location u64 "(string \<times> u256) list"
  | Reserve reservation_request
  | MarkPendingSettlement string
  | ReleaseUnsubmitted string

fun shared_step :: "inventory_op \<Rightarrow> inventory_reservations \<Rightarrow> inventory_reservations" where
  "shared_step (UpdateLocation l g bs) st = fst (update_location st l g bs)"
| "shared_step (UpdateLocationAssets l g bs) st = fst (update_location_assets st l g bs)"
| "shared_step (Reserve r) st = fst (reserve st r)"
| "shared_step (MarkPendingSettlement op) st = fst (mark_pending_settlement st op)"
| "shared_step (ReleaseUnsubmitted op) st = fst (release_unsubmitted st op)"

fun shared_panics :: "inventory_op \<Rightarrow> inventory_reservations \<Rightarrow> bool" where
  "shared_panics (UpdateLocation l g bs) st = panics (snd (update_location st l g bs))"
| "shared_panics (UpdateLocationAssets l g bs) st = panics (snd (update_location_assets st l g bs))"
| "shared_panics (Reserve r) st = panics (snd (reserve st r))"
| "shared_panics (MarkPendingSettlement op) st = panics (snd (mark_pending_settlement st op))"
| "shared_panics (ReleaseUnsubmitted op) st = panics (snd (release_unsubmitted st op))"

section \<open>The invariant\<close>

definition total_of :: "(inventory_key, u256) btmap \<Rightarrow> inventory_key \<Rightarrow> nat" where
  "total_of t k = (case bt_get t k of None \<Rightarrow> 0 | Some v \<Rightarrow> unat v)"

definition claimed :: "inventory_claim list \<Rightarrow> inventory_key \<Rightarrow> nat" where
  "claimed cs k = sum_list (map (\<lambda>c. if claim_key c = k then unat (claim_amount c) else 0) cs)"

definition outstanding :: "inventory_reservations \<Rightarrow> inventory_key \<Rightarrow> nat" where
  "outstanding st k =
     sum_list (map (\<lambda>(op, r). claimed (req_claims (rsv_request r)) k) (bt_entries (reservations st)))"

definition no_zero_totals :: "(inventory_key, u256) btmap \<Rightarrow> bool" where
  "no_zero_totals t \<longleftrightarrow> (\<forall>k. bt_get t k \<noteq> Some 0)"

definition request_ok :: "reservation_request \<Rightarrow> bool" where
  "request_ok r \<longleftrightarrow>
     distinct (map claim_key (req_claims r)) \<and>
     (\<forall>c \<in> set (req_claims r). claim_amount c \<noteq> 0 \<and>
        bt_contains (req_settlement_locations r) (key_location (claim_key c)))"

definition barriers_ok :: "inventory_reservations \<Rightarrow> inventory_reservation \<Rightarrow> bool" where
  "barriers_ok st r \<longleftrightarrow>
     (case rsv_state r of
        Active \<Rightarrow> True
      | PendingSettlement gens \<Rightarrow>
          (\<forall>l. bt_contains (req_settlement_locations (rsv_request r)) l = bt_contains gens l) \<and>
          (\<forall>l b. bt_get gens l = Some b \<longrightarrow>
             (\<exists>cur. bt_get (location_generations st) l = Some cur \<and> b \<le> cur)))"

definition ledger_ok :: "inventory_reservations \<Rightarrow> bool" where
  "ledger_ok st \<longleftrightarrow>
     no_zero_totals (reserved_totals st) \<and>
     (\<forall>k. total_of (reserved_totals st) k = outstanding st k) \<and>
     (\<forall>op r. bt_get (reservations st) op = Some r \<longrightarrow>
        req_operation_id (rsv_request r) = op \<and> request_ok (rsv_request r) \<and> barriers_ok st r)"

lemma unat_reserved: "unat (reserved st k) = total_of (reserved_totals st) k"
  by (simp add: reserved_def total_of_def split: option.split)

lemma claimed_Nil [simp]: "claimed [] k = 0"
  by (simp add: claimed_def)

lemma claimed_Cons [simp]:
  "claimed (c # cs) k = (if claim_key c = k then unat (claim_amount c) else 0) + claimed cs k"
  by (simp add: claimed_def)

lemma claimed_notin: "k \<notin> claim_key ` set cs \<Longrightarrow> claimed cs k = 0"
  by (induction cs) auto

lemma claimed_member:
  "distinct (map claim_key cs) \<Longrightarrow> c \<in> set cs \<Longrightarrow> claimed cs (claim_key c) = unat (claim_amount c)"
  by (induction cs) (auto simp: claimed_notin)

lemma total_of_insert [simp]:
  "total_of (bt_insert k v t) k' = (if k' = k then unat v else total_of t k')"
  by (simp add: total_of_def)

lemma total_of_remove [simp]:
  "total_of (bt_remove k t) k' = (if k' = k then 0 else total_of t k')"
  by (simp add: total_of_def)

lemma total_of_pos: "no_zero_totals t \<Longrightarrow> total_of t k = 0 \<longleftrightarrow> bt_get t k = None"
  by (auto simp: total_of_def no_zero_totals_def unat_eq_0 split: option.splits)

lemma totals_eqI:
  assumes "no_zero_totals t" "no_zero_totals t'" "\<And>k. total_of t k = total_of t' k"
  shows "t = t'"
proof (rule bt_eqI)
  fix k
  show "bt_get t k = bt_get t' k"
    using assms(3) [of k] total_of_pos [OF assms(1), of k] total_of_pos [OF assms(2), of k]
    by (auto simp: total_of_def word_unat_eq_iff split: option.splits)
qed

section \<open>What a validated request guarantees\<close>

lemma validate_id_Inr [simp]:
  "validate_id name v n = Inr u \<longleftrightarrow> v \<noteq> [] \<and> length v \<le> n \<and> list_all id_byte v"
  by (auto simp: validate_id_def)

lemma validate_claim_Inr:
  "validate_claim r c keys = Inr keys' \<longleftrightarrow>
     key_venue_asset_id (claim_key c) \<noteq> [] \<and> length (key_venue_asset_id (claim_key c)) \<le> 160 \<and>
     list_all id_byte (key_venue_asset_id (claim_key c)) \<and>
     claim_amount c \<noteq> 0 \<and> \<not> bt_contains keys (claim_key c) \<and>
     bt_contains (req_settlement_locations r) (key_location (claim_key c)) \<and>
     keys' = bts_insert (claim_key c) keys"
  by (auto simp: validate_claim_def)

lemma validate_claims_ok:
  assumes "for_each (validate_claim r) cs keys = Inr keys'"
  shows "distinct (map claim_key cs) \<and> (\<forall>c \<in> set cs. \<not> bt_contains keys (claim_key c)) \<and>
    (\<forall>c \<in> set cs. claim_amount c \<noteq> 0 \<and>
       bt_contains (req_settlement_locations r) (key_location (claim_key c)))"
  using assms
proof (induction cs arbitrary: keys)
  case (Cons c cs)
  from Cons.prems have step: "\<not> bt_contains keys (claim_key c)" "claim_amount c \<noteq> 0"
    "bt_contains (req_settlement_locations r) (key_location (claim_key c))"
    and rest: "for_each (validate_claim r) cs (bts_insert (claim_key c) keys) =
      Inr keys'"
    by (auto simp: validate_claim_Inr)
  from Cons.IH [OF rest] step show ?case by auto
qed simp

lemma validate_request_ok:
  "validate_request r = Inr u \<Longrightarrow> request_ok r \<and> req_claims r \<noteq> []"
  unfolding validate_request_def request_ok_def by (auto dest: validate_claims_ok)

section \<open>Committing and releasing claims\<close>

lemma commit_claims_ok:
  assumes "distinct (map claim_key cs)"
    and "\<forall>c \<in> set cs. claim_amount c \<noteq> 0 \<and>
           total_of t (claim_key c) + unat (claim_amount c) < 2 ^ 256"
    and "no_zero_totals t"
  shows "\<exists>t'. commit_claims cs t = (t', Inr ()) \<and> no_zero_totals t' \<and>
    (\<forall>k. total_of t' k = total_of t k + claimed cs k)"
  using assms
proof (induction cs arbitrary: t)
  case (Cons c cs)
  define r where "r = (case bt_get t (claim_key c) of None \<Rightarrow> 0 | Some v \<Rightarrow> v)"
  have r: "unat r = total_of t (claim_key c)"
    by (simp add: r_def total_of_def split: option.split)
  from Cons.prems(2) have "checked_add r (claim_amount c) \<noteq> None"
    by (auto simp: checked_simps r)
  then obtain r' where r': "checked_add r (claim_amount c) = Some r'" by auto
  then have ur': "unat r' = total_of t (claim_key c) + unat (claim_amount c)"
    by (simp add: checked_simps r)
  let ?t = "bt_insert (claim_key c) r' t"
  have nz: "no_zero_totals ?t"
    using Cons.prems(2,3) ur' by (auto simp: no_zero_totals_def unat_eq_0)
  have d: "distinct (map claim_key cs)" using Cons.prems(1) by simp
  have ne: "claim_key d \<noteq> claim_key c" if "d \<in> set cs" for d
    using Cons.prems(1) that by (metis distinct.simps(2) imageI list.set_map list.simps(9))
  have "\<forall>d \<in> set cs. claim_amount d \<noteq> 0 \<and>
      total_of ?t (claim_key d) + unat (claim_amount d) < 2 ^ 256"
    using Cons.prems(2) ne by simp
  from Cons.IH [OF _ this nz] d obtain t' where
    t': "commit_claims cs ?t = (t', Inr ())" "no_zero_totals t'"
      "\<forall>k. total_of t' k = total_of ?t k + claimed cs k" by blast
  have "\<forall>k. total_of t' k = total_of t k + claimed (c # cs) k"
    using t'(3) ur' by auto
  with t' show ?case
    by (simp add: r' flip: r_def)
qed simp

lemma release_claims_ok:
  assumes "distinct (map claim_key cs)"
    and "\<forall>c \<in> set cs. claim_amount c \<noteq> 0 \<and> unat (claim_amount c) \<le> total_of t (claim_key c)"
    and "no_zero_totals t"
  shows "\<exists>t'. for_each release_claim cs t = Inr t' \<and> no_zero_totals t' \<and>
    (\<forall>k. total_of t' k + claimed cs k = total_of t k)"
  using assms
proof (induction cs arbitrary: t)
  case (Cons c cs)
  have le: "unat (claim_amount c) \<le> total_of t (claim_key c)" and nz: "claim_amount c \<noteq> 0"
    using Cons.prems(2) by auto
  then have "total_of t (claim_key c) \<noteq> 0" by (simp add: unat_eq_0 [symmetric])
  then obtain r where r: "bt_get t (claim_key c) = Some r"
    by (auto simp: total_of_def split: option.splits)
  then have ur: "unat r = total_of t (claim_key c)" by (simp add: total_of_def)
  have "checked_sub r (claim_amount c) \<noteq> None"
    using le by (simp add: checked_simps ur)
  then obtain r' where r': "checked_sub r (claim_amount c) = Some r'" by auto
  then have ur': "total_of t (claim_key c) = unat (claim_amount c) + unat r'"
    by (simp add: checked_simps ur)
  define t1 where "t1 = (if r' = 0 then bt_remove (claim_key c) t else bt_insert (claim_key c) r' t)"
  have tot: "total_of t1 k = (if k = claim_key c then unat r' else total_of t k)" for k
    by (simp add: t1_def)
  have nzt: "no_zero_totals t1"
    using Cons.prems(3) by (auto simp: t1_def no_zero_totals_def)
  have d: "distinct (map claim_key cs)" using Cons.prems(1) by simp
  have ne: "claim_key d \<noteq> claim_key c" if "d \<in> set cs" for d
    using Cons.prems(1) that by (metis distinct.simps(2) imageI list.set_map list.simps(9))
  have "\<forall>d \<in> set cs. claim_amount d \<noteq> 0 \<and> unat (claim_amount d) \<le> total_of t1 (claim_key d)"
    using Cons.prems(2) ne unfolding tot by simp
  from Cons.IH [OF _ this nzt] d obtain t' where
    t': "for_each release_claim cs t1 = Inr t'" "no_zero_totals t'"
      "\<forall>k. total_of t' k + claimed cs k = total_of t1 k" by blast
  have "release_claim c t = Inr t1"
    by (simp add: release_claim_def r r' t1_def)
  then have "for_each release_claim (c # cs) t = Inr t'"
    using t'(1) by (simp only: for_each.simps bind_res_simps)
  moreover have "\<forall>k. total_of t' k + claimed (c # cs) k = total_of t k"
    using t'(3) ur' by (auto simp: tot)
  ultimately show ?case using t'(2) by blast
qed simp

section \<open>Outstanding claims\<close>

lemma outstanding_insert_fresh:
  assumes "bt_get (reservations st) op = None"
  shows "outstanding (st\<lparr>reservations := bt_insert op r (reservations st)\<rparr>) k =
    claimed (req_claims (rsv_request r)) k + outstanding st k"
  using sum_entries_insert [OF assms, of "\<lambda>(op, r). claimed (req_claims (rsv_request r)) k" r]
  by (simp add: outstanding_def)

lemma outstanding_remove:
  assumes "bt_get (reservations st) op = Some r"
  shows "outstanding st k = claimed (req_claims (rsv_request r)) k +
    outstanding (st\<lparr>reservations := bt_remove op (reservations st)\<rparr>) k"
  using sum_entries_remove [OF assms, of "\<lambda>(op, r). claimed (req_claims (rsv_request r)) k"]
  by (simp add: outstanding_def)

lemma outstanding_update:
  assumes "bt_get (reservations st) op = Some r" "rsv_request r' = rsv_request r"
  shows "outstanding (st\<lparr>reservations := bt_insert op r' (reservations st)\<rparr>) k = outstanding st k"
  using sum_entries_update [OF assms(1), of "\<lambda>(op, r). claimed (req_claims (rsv_request r)) k" r'] assms(2)
  by (simp add: outstanding_def)

lemma outstanding_frame [simp]:
  "outstanding (st\<lparr>reserved_totals := t\<rparr>) k = outstanding st k"
  "outstanding (st\<lparr>observed_map := ob\<rparr>) k = outstanding st k"
  "outstanding (st\<lparr>location_generations := g\<rparr>) k = outstanding st k"
  by (simp_all add: outstanding_def)

lemma barriers_ok_cong:
  "location_generations st' = location_generations st \<Longrightarrow> barriers_ok st' r = barriers_ok st r"
  by (simp add: barriers_ok_def split: reservation_state.splits)

lemma barriers_ok_mono:
  assumes "barriers_ok st r"
    and "\<And>l cur. bt_get (location_generations st) l = Some cur \<Longrightarrow>
           \<exists>cur'. bt_get (location_generations st') l = Some cur' \<and> cur \<le> cur'"
  shows "barriers_ok st' r"
  using assms unfolding barriers_ok_def
  by (auto split: reservation_state.splits) (meson order_trans)

lemma ledger_okD:
  assumes "ledger_ok st"
  shows "no_zero_totals (reserved_totals st)"
    and "total_of (reserved_totals st) k = outstanding st k"
    and "bt_get (reservations st) op = Some r \<Longrightarrow> req_operation_id (rsv_request r) = op"
    and "bt_get (reservations st) op = Some r \<Longrightarrow> request_ok (rsv_request r)"
    and "bt_get (reservations st) op = Some r \<Longrightarrow> barriers_ok st r"
  using assms by (auto simp: ledger_ok_def)

section \<open>Removal\<close>

definition same_books :: "inventory_reservations \<Rightarrow> inventory_reservations \<Rightarrow> bool" where
  "same_books st st' \<longleftrightarrow>
     observed_map st' = observed_map st \<and> location_generations st' = location_generations st"

lemma remove_reservation_ok:
  assumes ok: "ledger_ok st"
  shows "\<exists>st'. remove_reservation op st = Inr st' \<and> ledger_ok st' \<and> same_books st st' \<and>
    reservations st' = bt_remove op (reservations st)"
proof (cases "bt_get (reservations st) op")
  case None
  then have "bt_remove op (reservations st) = reservations st"
    by (intro bt_eqI) auto
  with None ok show ?thesis
    by (simp add: remove_reservation_def same_books_def)
next
  case (Some r)
  let ?cs = "req_claims (rsv_request r)"
  let ?st = "st\<lparr>reservations := bt_remove op (reservations st)\<rparr>"
  note d = ledger_okD [OF ok]
  have req: "request_ok (rsv_request r)" using d(4) Some by blast
  have out: "outstanding st k = claimed ?cs k + outstanding ?st k" for k
    using outstanding_remove [OF Some] .
  have "\<forall>c \<in> set ?cs. claim_amount c \<noteq> 0 \<and>
      unat (claim_amount c) \<le> total_of (reserved_totals st) (claim_key c)"
    using req out d(2) claimed_member [of ?cs] by (auto simp: request_ok_def)
  with release_claims_ok [of ?cs "reserved_totals st"] req d(1) obtain t where
    t: "for_each release_claim ?cs (reserved_totals st) = Inr t" "no_zero_totals t"
      "\<And>k. total_of t k + claimed ?cs k = total_of (reserved_totals st) k"
    by (auto simp: request_ok_def)
  let ?st' = "?st\<lparr>reserved_totals := t\<rparr>"
  have "remove_reservation op st = Inr ?st'"
    by (simp add: remove_reservation_def Some t(1))
  moreover have "total_of t k = outstanding ?st k" for k
    using t(3) [of k] out [of k] d(2) [of k] by simp
  then have "ledger_ok ?st'"
    using t(2) ok unfolding ledger_ok_def
    by (auto simp: barriers_ok_cong [of ?st' st] split: if_splits)
  ultimately show ?thesis
    by (auto simp: same_books_def)
qed

lemma remove_reservations_ok:
  assumes "ledger_ok st"
  shows "\<exists>st'. for_each remove_reservation ids st = Inr st' \<and> ledger_ok st' \<and> same_books st st' \<and>
    (\<forall>op. bt_get (reservations st') op =
       (if op \<in> set ids then None else bt_get (reservations st) op))"
  using assms
proof (induction ids arbitrary: st)
  case Nil
  then show ?case by (simp add: same_books_def)
next
  case (Cons op ids)
  from remove_reservation_ok [OF Cons.prems, of op] obtain st1 where
    st1: "remove_reservation op st = Inr st1" "ledger_ok st1" "same_books st st1"
      "reservations st1 = bt_remove op (reservations st)" by blast
  from Cons.IH [OF st1(2)] obtain st2 where
    "for_each remove_reservation ids st1 = Inr st2" "ledger_ok st2" "same_books st1 st2"
      "\<forall>op. bt_get (reservations st2) op =
         (if op \<in> set ids then None else bt_get (reservations st1) op)" by blast
  with st1 show ?case
    by (auto simp: same_books_def)
qed

lemma reconciled_ids_iff:
  "op \<in> set (reconciled_ids st) \<longleftrightarrow> (\<exists>r. bt_get (reservations st) op = Some r \<and> reconciled st r)"
  by (force simp: reconciled_ids_def bt_entries_iff [symmetric])

definition survives :: "inventory_reservations \<Rightarrow> string \<Rightarrow> inventory_reservation option" where
  "survives st op =
     (case bt_get (reservations st) op of
        None \<Rightarrow> None | Some r \<Rightarrow> if reconciled st r then None else Some r)"

lemma release_reconciled_ok:
  assumes "ledger_ok st"
  shows "\<exists>st'. release_reconciled st = Inr st' \<and> ledger_ok st' \<and> same_books st st' \<and>
    (\<forall>op. bt_get (reservations st') op = survives st op)"
proof -
  from remove_reservations_ok [OF assms, of "reconciled_ids st"] obtain st' where
    st': "for_each remove_reservation (reconciled_ids st) st = Inr st'" "ledger_ok st'"
      "same_books st st'" "\<forall>op. bt_get (reservations st') op =
         (if op \<in> set (reconciled_ids st) then None else bt_get (reservations st) op)" by blast
  have "bt_get (reservations st') op = survives st op" for op
    using st'(4) by (auto simp: reconciled_ids_iff survives_def split: option.splits)
  with st' show ?thesis
    unfolding release_reconciled_def by blast
qed

section \<open>Snapshots\<close>

lemma commit_snapshot_ok:
  assumes "ledger_ok updated"
  shows "\<exists>st'. commit_snapshot st updated = (st', Inr True) \<and> ledger_ok st' \<and>
    same_books updated st' \<and> (\<forall>op. bt_get (reservations st') op = survives updated op)"
proof -
  from release_reconciled_ok [OF assms] obtain st' where
    "release_reconciled updated = Inr st'" "ledger_ok st'" "same_books updated st'"
    "\<forall>op. bt_get (reservations st') op = survives updated op" by blast
  then show ?thesis by (simp add: commit_snapshot_def)
qed

lemma ledger_ok_new_snapshot:
  assumes ok: "ledger_ok st"
    and newer: "\<And>cur. bt_get (location_generations st) l = Some cur \<Longrightarrow> cur < g"
  shows "ledger_ok (st\<lparr>observed_map := ob,
           location_generations := bt_insert l g (location_generations st)\<rparr>)"
    (is "ledger_ok ?st")
proof -
  have "barriers_ok ?st r" if "barriers_ok st r" for r
    using that newer by (auto elim!: barriers_ok_mono)
  then show ?thesis
    using ok unfolding ledger_ok_def by auto
qed

text \<open>The two updates have the same three outcomes: an error, a stale snapshot, a commit.\<close>

definition snapshot_outcome ::
  "inventory_reservations \<Rightarrow> inventory_location \<Rightarrow> u64 \<Rightarrow> inventory_reservations \<times> bool inv_res \<Rightarrow> bool" where
  "snapshot_outcome st l g out \<longleftrightarrow>
     (\<exists>m. out = (st, Inl (Bail m))) \<or>
     (out = (st, Inr False) \<and> (\<exists>cur. bt_get (location_generations st) l = Some cur \<and> g \<le> cur)) \<or>
     (\<exists>ob st'. out = (st', Inr True) \<and>
        (\<forall>cur. bt_get (location_generations st) l = Some cur \<longrightarrow> cur < g) \<and>
        (let updated = st\<lparr>observed_map := ob,
           location_generations := bt_insert l g (location_generations st)\<rparr> in
         ledger_ok st' \<and> same_books updated st' \<and>
         (\<forall>op. bt_get (reservations st') op = survives updated op)))"

lemma collect_balances_Bail:
  "for_each (collect_balance l msg) bs acc = Inl e \<Longrightarrow> \<exists>m. e = Bail m"
  by (induction bs arbitrary: acc)
     (auto simp: collect_balance_def inventory_key_new_def validate_id_def res_simps split: prod.splits)

lemma outcome_err: "e = Bail m \<Longrightarrow> snapshot_outcome st l g (st, Inl e)"
  by (simp add: snapshot_outcome_def)

lemma outcome_stale:
  "bt_get (location_generations st) l = Some cur \<Longrightarrow> g \<le> cur \<Longrightarrow>
     snapshot_outcome st l g (st, Inr False)"
  by (auto simp: snapshot_outcome_def)

lemma outcome_commit:
  assumes ok: "ledger_ok st"
    and newer: "\<And>cur. bt_get (location_generations st) l = Some cur \<Longrightarrow> cur < g"
  shows "snapshot_outcome st l g (commit_snapshot st (st\<lparr>observed_map := ob,
           location_generations := bt_insert l g (location_generations st)\<rparr>))"
proof -
  have "ledger_ok (st\<lparr>observed_map := ob,
          location_generations := bt_insert l g (location_generations st)\<rparr>)"
    using ledger_ok_new_snapshot [OF ok newer] .
  from commit_snapshot_ok [OF this, of st] newer show ?thesis
    unfolding snapshot_outcome_def Let_def by blast
qed

lemma update_location_outcome:
  assumes ok: "ledger_ok st"
  shows "snapshot_outcome st l g (update_location st l g bs)"
  unfolding update_location_def
  by (auto split: sum.splits option.splits dest!: collect_balances_Bail
      intro: outcome_err outcome_stale outcome_commit [OF ok])

lemma update_location_assets_outcome:
  assumes ok: "ledger_ok st"
  shows "snapshot_outcome st l g (update_location_assets st l g bs)"
  unfolding update_location_assets_def
  by (auto split: sum.splits option.splits dest!: collect_balances_Bail
      intro: outcome_err outcome_stale outcome_commit [OF ok])

lemma snapshot_outcome_ok:
  "ledger_ok st \<Longrightarrow> snapshot_outcome st l g (st', out) \<Longrightarrow> ledger_ok st' \<and> \<not> panics out"
  by (auto simp: snapshot_outcome_def panics_def Let_def)

section \<open>Reservations\<close>

lemma check_claim_Inr:
  "check_claim st c = Inr u \<Longrightarrow>
     \<exists>obs. observed st (claim_key c) = Some obs \<and>
       total_of (reserved_totals st) (claim_key c) + unat (claim_amount c) \<le> unat obs"
  by (auto simp: check_claim_def Let_def checked_simps unat_reserved word_less_nat_alt
      split: if_splits)

lemma check_claims_Inr:
  "for_each (\<lambda>c _. check_claim st c) cs u = Inr v \<Longrightarrow> c \<in> set cs \<Longrightarrow> check_claim st c = Inr ()"
  by (induction cs) auto

lemma check_claims_not_panic:
  "for_each (\<lambda>c _. check_claim st c) cs u = Inl e \<Longrightarrow> e \<noteq> Panic m"
  by (induction cs) (auto simp: check_claim_def Let_def res_simps split: if_splits)

lemma validate_claims_not_panic:
  "for_each (validate_claim r) cs keys = Inl e \<Longrightarrow> e \<noteq> Panic m"
  by (induction cs arbitrary: keys) (auto simp: validate_claim_def validate_id_def res_simps)

lemma validate_request_not_panic: "validate_request r = Inl e \<Longrightarrow> e \<noteq> Panic m"
  unfolding validate_request_def
  by (auto simp: res_simps validate_id_def dest: validate_claims_not_panic)

text \<open>Either nothing happened, or the whole request was admitted.\<close>

definition admitted ::
  "inventory_reservations \<Rightarrow> reservation_request \<Rightarrow> inventory_reservations \<Rightarrow> bool" where
  "admitted st r st' \<longleftrightarrow>
     same_books st st' \<and> ledger_ok st' \<and> request_ok r \<and>
     bt_get (reservations st) (req_operation_id r) = None \<and>
     reservations st' = bt_insert (req_operation_id r)
       \<lparr>rsv_request = r, rsv_state = Active\<rparr> (reservations st) \<and>
     (\<forall>k. unat (reserved st' k) = unat (reserved st k) + claimed (req_claims r) k) \<and>
     (\<forall>c \<in> set (req_claims r). \<exists>obs. observed st (claim_key c) = Some obs \<and>
        unat (reserved st' (claim_key c)) \<le> unat obs)"

lemma reserve_admits:
  assumes ok: "ledger_ok st"
    and val: "validate_request r = Inr u" and fresh: "\<not> bt_contains (reservations st) (req_operation_id r)"
    and chk: "for_each (\<lambda>c _. check_claim st c) (req_claims r) () = Inr v"
  shows "\<exists>st'. reserve st r = (st', Inr ()) \<and> admitted st r st'"
proof -
  let ?cs = "req_claims r" and ?t = "reserved_totals st"
  have req: "request_ok r" using validate_request_ok [OF val] by simp
  have chk': "\<exists>obs. observed st (claim_key c) = Some obs \<and>
      total_of ?t (claim_key c) + unat (claim_amount c) \<le> unat obs" if "c \<in> set ?cs" for c
    using check_claim_Inr check_claims_Inr [OF chk that] by blast
  have "\<forall>c \<in> set ?cs. claim_amount c \<noteq> 0 \<and>
      total_of ?t (claim_key c) + unat (claim_amount c) < 2 ^ 256"
  proof
    fix c assume c: "c \<in> set ?cs"
    then obtain obs where "total_of ?t (claim_key c) + unat (claim_amount c) \<le> unat (obs :: u256)"
      using chk' by blast
    also have "unat obs < 2 ^ 256" using unat_lt [of obs] by simp
    finally show "claim_amount c \<noteq> 0 \<and>
        total_of ?t (claim_key c) + unat (claim_amount c) < 2 ^ 256"
      using req c by (simp add: request_ok_def)
  qed
  with commit_claims_ok [of ?cs ?t] req ledger_okD(1) [OF ok] obtain t where
    t: "commit_claims ?cs ?t = (t, Inr ())" "no_zero_totals t"
      "\<And>k. total_of t k = total_of ?t k + claimed ?cs k"
    by (auto simp: request_ok_def)
  have none: "bt_get (reservations st) (req_operation_id r) = None"
    using fresh by (simp add: bt_contains_def)
  let ?st = "st\<lparr>reservations := bt_insert (req_operation_id r)
      \<lparr>rsv_request = r, rsv_state = Active\<rparr> (reservations st)\<rparr>"
  let ?st' = "?st\<lparr>reserved_totals := t\<rparr>"
  have res: "reserve st r = (?st', Inr ())"
    using val fresh chk t(1) by (simp add: reserve_def)
  have "outstanding ?st k = claimed ?cs k + outstanding st k" for k
    using outstanding_insert_fresh [OF none] by simp
  then have "total_of t k = outstanding ?st k" for k
    using t(3) [of k] ledger_okD(2) [OF ok, of k] by simp
  moreover have "barriers_ok ?st' \<lparr>rsv_request = r, rsv_state = Active\<rparr>"
    by (simp add: barriers_ok_def)
  ultimately have "ledger_ok ?st'"
    using t(2) req ok unfolding ledger_ok_def
    by (auto simp: barriers_ok_cong [of ?st' st])
  moreover have "unat (reserved ?st' k) = unat (reserved st k) + claimed ?cs k" for k
    using t(3) by (simp add: unat_reserved)
  moreover have "\<exists>obs. observed st (claim_key c) = Some obs \<and>
      unat (reserved ?st' (claim_key c)) \<le> unat obs" if "c \<in> set ?cs" for c
    using chk' [OF that] req that
    by (auto simp: unat_reserved t(3) request_ok_def claimed_member)
  ultimately have "admitted st r ?st'"
    using none req unfolding admitted_def same_books_def by simp
  with res show ?thesis by blast
qed

lemma reserve_cases:
  assumes ok: "ledger_ok st" and "reserve st r = (st', out)"
  obtains (refused) e where "out = Inl e" "st' = st" "\<And>m. e \<noteq> Panic m"
    | (granted) "out = Inr ()" "admitted st r st'"
proof (cases "validate_request r")
  case (Inl e)
  then have "out = Inl e" "st' = st" using assms(2) by (auto simp: reserve_def)
  with validate_request_not_panic [OF Inl] refused show ?thesis by blast
next
  case (Inr u)
  note val = Inr
  show ?thesis
  proof (cases "bt_contains (reservations st) (req_operation_id r)")
    case True
    with val assms(2) refused show ?thesis by (auto simp: reserve_def)
  next
    case False
    show ?thesis
    proof (cases "for_each (\<lambda>c _. check_claim st c) (req_claims r) ()")
      case (Inl e)
      then have "out = Inl e" "st' = st" using val False assms(2) by (auto simp: reserve_def)
      with check_claims_not_panic [OF Inl] refused show ?thesis by blast
    next
      case (Inr v)
      from reserve_admits [OF ok val False Inr] assms(2) granted show ?thesis by auto
    qed
  qed
qed

lemma reserve_ok:
  assumes ok: "ledger_ok st" and eq: "reserve st r = (st', out)"
  shows "ledger_ok st' \<and> \<not> panics out"
  by (rule reserve_cases [OF ok eq]) (use ok in \<open>auto simp: admitted_def panics_def split: error.splits\<close>)

lemma release_unsubmitted_cases:
  assumes ok: "ledger_ok st" and "release_unsubmitted st op = (st', out)"
  obtains (refused) m where "out = Inl (Bail m)" "st' = st"
    | (released) r where "out = Inr ()" "ledger_ok st'" "same_books st st'"
        "bt_get (reservations st) op = Some r" "rsv_state r = Active"
        "reservations st' = bt_remove op (reservations st)"
proof (cases "bt_get (reservations st) op")
  case None
  with assms(2) refused show ?thesis by (auto simp: release_unsubmitted_def)
next
  case (Some r)
  from remove_reservation_ok [OF ok, of op] obtain st1 where
    "remove_reservation op st = Inr st1" "ledger_ok st1" "same_books st st1"
    "reservations st1 = bt_remove op (reservations st)" by blast
  with Some assms(2) refused released show ?thesis
    by (auto simp: release_unsubmitted_def split: if_splits)
qed

lemma release_unsubmitted_ok:
  assumes ok: "ledger_ok st" and eq: "release_unsubmitted st op = (st', out)"
  shows "ledger_ok st' \<and> \<not> panics out"
  by (rule release_unsubmitted_cases [OF ok eq]) (use ok in \<open>auto simp: panics_def\<close>)

lemma record_barriers_Inr:
  assumes "for_each (record_barrier st) ls gens = Inr gens'"
  shows "(\<forall>l. bt_contains gens' l \<longleftrightarrow> l \<in> set ls \<or> bt_contains gens l) \<and>
    (\<forall>l b. bt_get gens' l = Some b \<longrightarrow> bt_get gens l = Some b \<or>
       bt_get (location_generations st) l = Some b)"
  using assms
proof (induction ls arbitrary: gens)
  case (Cons l ls)
  then obtain g where g: "bt_get (location_generations st) l = Some g"
    and rest: "for_each (record_barrier st) ls (bt_insert l g gens) = Inr gens'"
    by (auto simp: record_barrier_def [of _ l])
  from Cons.IH [OF rest] g show ?case
    by (auto split: if_splits)
qed simp

lemma record_barriers_Bail:
  "for_each (record_barrier st) ls gens = Inl e \<Longrightarrow> \<exists>m. e = Bail m"
  by (induction ls arbitrary: gens) (auto simp: record_barrier_def res_simps)

lemma mark_pending_settlement_cases:
  assumes ok: "ledger_ok st" and "mark_pending_settlement st op = (st', out)"
  obtains (refused) m where "out = Inl (Bail m)" "st' = st"
    | (marked) r gens where "out = Inr ()" "ledger_ok st'" "same_books st st'"
        "bt_get (reservations st) op = Some r" "rsv_state r = Active"
        "reservations st' = bt_insert op (r\<lparr>rsv_state := PendingSettlement gens\<rparr>) (reservations st)"
        "reserved_totals st' = reserved_totals st"
proof (cases "bt_get (reservations st) op")
  case None
  with assms(2) refused show ?thesis by (auto simp: mark_pending_settlement_def)
next
  case (Some r)
  let ?ls = "bt_keys (req_settlement_locations (rsv_request r))"
  show ?thesis
  proof (cases "for_each (record_barrier st) ?ls bt_empty")
    case (Inl e)
    with Some assms(2) refused show ?thesis
      by (auto simp: mark_pending_settlement_def split: if_splits dest: record_barriers_Bail)
  next
    case (Inr gens)
    let ?r = "r\<lparr>rsv_state := PendingSettlement gens\<rparr>"
    let ?st = "st\<lparr>reservations := bt_insert op ?r (reservations st)\<rparr>"
    have "barriers_ok ?st ?r"
      using record_barriers_Inr [OF Inr] set_bt_keys
      by (fastforce simp: barriers_ok_def bt_contains_def)
    moreover have "outstanding ?st k = outstanding st k" for k
      by (rule outstanding_update [OF Some]) simp
    ultimately have "ledger_ok ?st"
      using ok Some unfolding ledger_ok_def by (auto simp: barriers_ok_cong [of ?st st])
    with Some Inr assms(2) refused marked show ?thesis
      by (auto simp: mark_pending_settlement_def same_books_def split: if_splits)
  qed
qed

lemma mark_pending_settlement_ok:
  assumes ok: "ledger_ok st" and eq: "mark_pending_settlement st op = (st', out)"
  shows "ledger_ok st' \<and> \<not> panics out"
  by (rule mark_pending_settlement_cases [OF ok eq]) (use ok in \<open>auto simp: panics_def\<close>)

section \<open>Executions\<close>

lemma shared_step_ok:
  assumes ok: "ledger_ok st"
  shows "ledger_ok (shared_step e st)" and "\<not> shared_panics e st"
proof -
  have "ledger_ok (shared_step e st) \<and> \<not> shared_panics e st"
  proof (cases e)
    case (UpdateLocation l g bs)
    then show ?thesis
      using snapshot_outcome_ok [OF ok, of l g] update_location_outcome [OF ok, of l g bs]
      by (cases "update_location st l g bs") auto
  next
    case (UpdateLocationAssets l g bs)
    then show ?thesis
      using snapshot_outcome_ok [OF ok, of l g] update_location_assets_outcome [OF ok, of l g bs]
      by (cases "update_location_assets st l g bs") auto
  next
    case (Reserve r)
    then show ?thesis using reserve_ok [OF ok, of r] by (cases "reserve st r") auto
  next
    case (MarkPendingSettlement op)
    then show ?thesis
      using mark_pending_settlement_ok [OF ok, of op] by (cases "mark_pending_settlement st op") auto
  next
    case (ReleaseUnsubmitted op)
    then show ?thesis
      using release_unsubmitted_ok [OF ok, of op] by (cases "release_unsubmitted st op") auto
  qed
  then show "ledger_ok (shared_step e st)" "\<not> shared_panics e st" by simp_all
qed

lemma ledger_ok_default: "ledger_ok inventory_default"
  by (simp add: ledger_ok_def inventory_default_def no_zero_totals_def total_of_def outstanding_def)

interpretation ledger: invariant_system inventory_default shared_step ledger_ok
  by unfold_locales (auto intro: ledger_ok_default shared_step_ok)

definition ledger_reachable :: "inventory_reservations \<Rightarrow> bool" where
  "ledger_reachable st \<longleftrightarrow> (\<exists>ops. st = fold shared_step ops inventory_default)"

lemma ledger_reachable_ok: "ledger_reachable st \<Longrightarrow> ledger_ok st"
  by (auto simp: ledger_reachable_def ledger.inv_reachable)

section \<open>The interface to the holders of claims\<close>

text \<open>
  What a strategy or the rebalancer relies on when it acquires inventory: an acquisition adds what
  it wants to what is held, and never holds more of a wanted asset than was seen.
\<close>

fun acquire_all :: "('s \<Rightarrow> 'r \<Rightarrow> 's option) \<Rightarrow> 'r list \<Rightarrow> 's \<Rightarrow> 's option" where
  "acquire_all acquire [] s = Some s"
| "acquire_all acquire (r # rs) s =
     (case acquire s r of None \<Rightarrow> None | Some s' \<Rightarrow> acquire_all acquire rs s')"

locale claim_ledger =
  fixes ok :: "'s \<Rightarrow> bool"
    and held :: "'s \<Rightarrow> 'k \<Rightarrow> nat"
    and seen :: "'s \<Rightarrow> 'k \<Rightarrow> nat option"
    and acquire :: "'s \<Rightarrow> 'r \<Rightarrow> 's option"
    and wants :: "'r \<Rightarrow> 'k \<Rightarrow> nat"
  assumes acquire_ok: "ok s \<Longrightarrow> acquire s r = Some s' \<Longrightarrow> ok s'"
    and acquire_held: "ok s \<Longrightarrow> acquire s r = Some s' \<Longrightarrow> held s' k = held s k + wants r k"
    and acquire_seen: "ok s \<Longrightarrow> acquire s r = Some s' \<Longrightarrow> seen s' k = seen s k"
    and acquire_covered:
      "ok s \<Longrightarrow> acquire s r = Some s' \<Longrightarrow> 0 < wants r k \<Longrightarrow> \<exists>b. seen s k = Some b \<and> held s' k \<le> b"
begin

lemma acquire_all_held:
  "ok s \<Longrightarrow> acquire_all acquire rs s = Some s' \<Longrightarrow>
     ok s' \<and> seen s' k = seen s k \<and> held s' k = held s k + sum_list (map (\<lambda>r. wants r k) rs)"
proof (induction rs arbitrary: s)
  case (Cons r rs)
  then obtain s1 where s1: "acquire s r = Some s1" "acquire_all acquire rs s1 = Some s'"
    by (auto split: option.splits)
  from Cons.IH [OF acquire_ok [OF Cons.prems(1) s1(1)] s1(2)]
    acquire_held [OF Cons.prems(1) s1(1), of k] acquire_seen [OF Cons.prems(1) s1(1), of k]
  show ?case by simp
qed simp

text \<open>Whoever the holders are, together they never hold more than was seen.\<close>

lemma no_double_spend:
  assumes "ok s" "acquire_all acquire rs s = Some s'" "r \<in> set rs" "0 < wants r k"
  shows "\<exists>b. seen s k = Some b \<and> held s k + sum_list (map (\<lambda>r. wants r k) rs) \<le> b"
  using assms
proof (induction rs arbitrary: s' rule: rev_induct)
  case (snoc q rs)
  have split: "acquire_all acquire (xs @ ys) t =
      (case acquire_all acquire xs t of None \<Rightarrow> None | Some t' \<Rightarrow> acquire_all acquire ys t')" for xs ys t
    by (induction xs arbitrary: t) (auto split: option.splits)
  from snoc.prems(2) obtain s1 where
    s1: "acquire_all acquire rs s = Some s1" "acquire s1 q = Some s'"
    by (auto simp: split split: option.splits)
  note h1 = acquire_all_held [OF snoc.prems(1) s1(1), of k]
  show ?case
  proof (cases "0 < wants q k")
    case True
    with acquire_covered [OF _ s1(2) True] acquire_held [OF _ s1(2), of k] h1 show ?thesis by auto
  next
    case False
    with snoc.prems(3,4) have "r \<in> set rs" by auto
    from snoc.IH [OF snoc.prems(1) s1(1) this snoc.prems(4)] False show ?thesis by simp
  qed
qed simp

end

definition try_reserve :: "inventory_reservations \<Rightarrow> reservation_request \<Rightarrow> inventory_reservations option" where
  "try_reserve st r = (case reserve st r of (st', Inr _) \<Rightarrow> Some st' | (st', Inl _) \<Rightarrow> None)"

lemma try_reserve_Some: "try_reserve st r = Some st' \<longleftrightarrow> reserve st r = (st', Inr ())"
  by (auto simp: try_reserve_def split: prod.splits sum.splits)

lemma try_reserve_admitted: "ledger_ok st \<Longrightarrow> try_reserve st r = Some st' \<Longrightarrow> admitted st r st'"
  unfolding try_reserve_Some by (erule (1) reserve_cases) auto

lemma claimed_pos: "0 < claimed cs k \<Longrightarrow> \<exists>c \<in> set cs. claim_key c = k"
  using claimed_notin [of k cs] by auto

interpretation claims: claim_ledger ledger_ok "\<lambda>st k. unat (reserved st k)"
  "\<lambda>st k. map_option unat (observed st k)" try_reserve "\<lambda>r. claimed (req_claims r)"
proof unfold_locales
  fix st r st' k
  assume ok: "ledger_ok st" and tr: "try_reserve st r = Some st'"
  note ad = try_reserve_admitted [OF ok tr]
  show "ledger_ok st'"
    using ad by (simp add: admitted_def)
  show "unat (reserved st' k) = unat (reserved st k) + claimed (req_claims r) k"
    using ad by (simp add: admitted_def)
  show "map_option unat (observed st' k) = map_option unat (observed st k)"
    using ad by (simp add: admitted_def same_books_def observed_def)
  assume "0 < claimed (req_claims r) k"
  then show "\<exists>b. map_option unat (observed st k) = Some b \<and> unat (reserved st' k) \<le> b"
    using ad claimed_pos [of "req_claims r" k] by (auto simp: admitted_def)
qed

definition demo_account :: inventory_location where
  "demo_account = BinanceAccount ''main''"

definition demo_key :: inventory_key where
  "demo_key = InventoryKey demo_account ''usdc''"

definition demo_request :: "string \<Rightarrow> u256 \<Rightarrow> reservation_request" where
  "demo_request op amount =
     \<lparr>req_operation_id = op, req_purpose = TradePrimary,
      req_claims = [\<lparr>claim_key = demo_key, claim_amount = amount\<rparr>],
      req_settlement_locations = bts_of_list [demo_account]\<rparr>"

definition demo_ledger :: inventory_reservations where
  "demo_ledger = shared_step (UpdateLocation demo_account 2 [(''usdc'', 100)]) inventory_default"

lemmas demo_simps =
  demo_account_def demo_key_def demo_request_def collect_balance_def inventory_key_new_def
  validate_id_def id_byte_def is_ascii_alphanumeric_def byte_def bt_is_empty_def
  commit_snapshot_def release_reconciled_def reconciled_ids_def bt_extend_def
  bts_of_list_def bts_insert_def

lemma demo_ledger_eq:
  "demo_ledger = \<lparr>observed_map = bt_insert demo_key 100 bt_empty,
     location_generations = bt_insert demo_account 2 bt_empty,
     reservations = bt_empty, reserved_totals = bt_empty\<rparr>"
  by (simp add: demo_ledger_def update_location_def inventory_default_def demo_simps)

lemma demo_ledger_reachable: "ledger_reachable demo_ledger"
  unfolding ledger_reachable_def demo_ledger_def
  by (rule exI [of _ "[UpdateLocation demo_account 2 [(''usdc'', 100)]]"]) simp

lemma demo_request_simps [simp]:
  "req_operation_id (demo_request op a) = op"
  "req_claims (demo_request op a) = [\<lparr>claim_key = demo_key, claim_amount = a\<rparr>]"
  "bt_contains (req_settlement_locations (demo_request op a)) l \<longleftrightarrow> l = demo_account"
  by (simp_all add: demo_request_def bts_of_list_def)

definition demo_active :: inventory_reservations where
  "demo_active = demo_ledger\<lparr>reserved_totals := bt_insert demo_key 60 bt_empty,
     reservations := bt_insert ''a''
       \<lparr>rsv_request = demo_request ''a'' 60, rsv_state = Active\<rparr> bt_empty\<rparr>"

definition demo_pending :: inventory_reservations where
  "demo_pending = demo_active\<lparr>reservations := bt_insert ''a''
     \<lparr>rsv_request = demo_request ''a'' 60,
      rsv_state = PendingSettlement (bt_insert demo_account 2 bt_empty)\<rparr> bt_empty\<rparr>"

lemma demo_reserve: "reserve demo_ledger (demo_request ''a'' 60) = (demo_active, Inr ())"
  by (simp add: demo_active_def demo_ledger_eq reserve_def validate_request_def validate_claim_def
      check_claim_def observed_def reserved_def checked_sub_def checked_add_def demo_simps)

lemma demo_reserve2: "\<exists>st'. acquire_all try_reserve [demo_request ''a'' 60, demo_request ''b'' 30] demo_ledger = Some st'"
  by (simp add: try_reserve_def demo_active_def demo_ledger_eq reserve_def validate_request_def
      validate_claim_def check_claim_def observed_def reserved_def checked_sub_def checked_add_def
      demo_simps)

lemma demo_pending_step: "shared_step (MarkPendingSettlement ''a'') demo_active = demo_pending"
  by (simp add: demo_pending_def demo_active_def demo_ledger_eq mark_pending_settlement_def
      record_barrier_def bt_keys_def demo_simps)
     (rule bt.insert_insert)

lemma demo_pending_reachable: "ledger_reachable demo_pending"
proof -
  have "demo_pending = fold shared_step [UpdateLocation demo_account 2 [(''usdc'', 100)],
      Reserve (demo_request ''a'' 60), MarkPendingSettlement ''a''] inventory_default"
    by (simp add: demo_reserve demo_pending_step flip: demo_ledger_def shared_step.simps(1,4))
  then show ?thesis unfolding ledger_reachable_def by blast
qed

lemma demo_settled:
  "reservation (shared_step (UpdateLocation demo_account 3 [(''usdc'', 40)]) demo_pending) ''a'' = None"
  by (simp add: demo_pending_def demo_active_def demo_ledger_eq reservation_def update_location_def
      remove_reservation_def release_claim_def reconciled_def passed_barriers_def checked_sub_def
      bts_of_list_def demo_simps)

lemma snapshot_outcome_gone:
  assumes so: "snapshot_outcome st l g (st', out)"
    and r: "bt_get (reservations st) op = Some r" and gone: "bt_get (reservations st') op = None"
  shows "\<exists>up. reconciled up r \<and> same_books up st'"
proof -
  have "st' \<noteq> st" using r gone by auto
  with so obtain ob where "same_books (st\<lparr>observed_map := ob,
      location_generations := bt_insert l g (location_generations st)\<rparr>) st'"
    and "bt_get (reservations st') op = survives (st\<lparr>observed_map := ob,
      location_generations := bt_insert l g (location_generations st)\<rparr>) op"
    unfolding snapshot_outcome_def Let_def by blast
  with r gone show ?thesis
    by (auto simp: survives_def split: if_splits)
qed

lemma reserve_keeps:
  assumes ok: "ledger_ok st" and r: "bt_get (reservations st) op = Some r"
  shows "bt_get (reservations (fst (reserve st q))) op = Some r"
proof -
  obtain st' out where eq: "reserve st q = (st', out)" by fastforce
  show ?thesis
    by (rule reserve_cases [OF ok eq]) (use r eq in \<open>auto simp: admitted_def\<close>)
qed

lemma mark_pending_settlement_keeps:
  assumes ok: "ledger_ok st" and r: "bt_get (reservations st) op = Some r"
  shows "\<exists>r'. bt_get (reservations (fst (mark_pending_settlement st q))) op = Some r'"
proof -
  obtain st' out where eq: "mark_pending_settlement st q = (st', out)" by fastforce
  show ?thesis
    by (rule mark_pending_settlement_cases [OF ok eq]) (use r eq in auto)
qed

lemma release_unsubmitted_keeps:
  assumes ok: "ledger_ok st" and r: "bt_get (reservations st) op = Some r"
  shows "bt_get (reservations (fst (release_unsubmitted st q))) op = Some r \<or>
    (q = op \<and> rsv_state r = Active)"
proof -
  obtain st' out where eq: "release_unsubmitted st q = (st', out)" by fastforce
  show ?thesis
    by (rule release_unsubmitted_cases [OF ok eq]) (use r eq in auto)
qed

section \<open>Properties\<close>

text \<open>
  (C1) The pre-aggregated reserved total of every key is, after any sequence of operations of any
  number of holders, exactly the sum of the claims of the reservations outstanding.  So no further
  operation reaches the \<open>expect\<close> of \<open>remove_reservation\<close>: every admitted claim is still covered by the
  reserved total it is taken from.
\<close>

theorem ledger_totals_exact:
  "unat (reserved (fold shared_step ops inventory_default) k) =
     outstanding (fold shared_step ops inventory_default) k \<and>
   \<not> shared_panics e (fold shared_step ops inventory_default)"
  using ledger_okD(2) [OF ledger.inv_reachable] shared_step_ok [OF ledger.inv_reachable]
  by (simp add: unat_reserved)

text \<open>
  (C2) \<open>reserve\<close> is all or nothing.  A refusal leaves the ledger as it was, although the second loop
  of the code writes while it may still fail; a success records the reservation as active, adds
  exactly its claims to the totals, and leaves every claimed key covered by its observed balance.
\<close>

theorem reserve_all_or_nothing:
  assumes "ledger_reachable st" and "reserve st r = (st', out)"
  shows "(\<exists>e. out = Inl e \<and> st' = st) \<or>
    (out = Inr () \<and>
     reservation st' (req_operation_id r) = Some \<lparr>rsv_request = r, rsv_state = Active\<rparr> \<and>
     (\<forall>k. unat (reserved st' k) = unat (reserved st k) + claimed (req_claims r) k) \<and>
     (\<forall>c \<in> set (req_claims r). \<exists>obs. observed st' (claim_key c) = Some obs \<and>
        reserved st' (claim_key c) \<le> obs))"
  by (rule reserve_cases [OF ledger_reachable_ok [OF assms(1)] assms(2)])
     (auto simp: admitted_def same_books_def observed_def reservation_def word_le_nat_alt)

theorem reserve_all_or_nothing_witness:
  "reserve demo_ledger (demo_request ''a'' 60) = (demo_active, Inr ()) \<and>
   reserved demo_active demo_key \<le> 100 \<and>
   reservation demo_active ''a'' = Some \<lparr>rsv_request = demo_request ''a'' 60, rsv_state = Active\<rparr>"
proof -
  have "observed demo_active demo_key = Some 100"
    by (simp add: demo_active_def demo_ledger_eq observed_def)
  with reserve_all_or_nothing [OF demo_ledger_reachable demo_reserve] demo_reserve show ?thesis
    by simp
qed

text \<open>
  (C3) No double spend.  When any list of requests is admitted one after the other, what they claim
  of a key, together with what was reserved before, is within the balance observed for that key.
\<close>

theorem reservations_never_double_spend:
  assumes "ledger_reachable st" and "acquire_all try_reserve rs st = Some st'"
    and "r \<in> set rs" and "0 < claimed (req_claims r) k"
  shows "\<exists>obs. observed st k = Some obs \<and>
    unat (reserved st k) + (\<Sum>r\<leftarrow>rs. claimed (req_claims r) k) \<le> unat obs"
  using claims.no_double_spend [OF ledger_reachable_ok [OF assms(1)] assms(2-4)] by auto

theorem reservations_never_double_spend_witness:
  "\<exists>obs. observed demo_ledger demo_key = Some obs \<and>
     unat (reserved demo_ledger demo_key) + (60 + 30) \<le> unat obs"
proof -
  obtain st' where
    "acquire_all try_reserve [demo_request ''a'' 60, demo_request ''b'' 30] demo_ledger = Some st'"
    using demo_reserve2 by blast
  from reservations_never_double_spend [OF demo_ledger_reachable this, of "demo_request ''a'' 60" demo_key]
  show ?thesis by simp
qed

text \<open>
  Reserving and then releasing before submission restores the ledger exactly, including the
  absence of the entries the reservation had created.
\<close>

lemma reserve_release_roundtrip:
  assumes "ledger_reachable st" and "reserve st r = (st', Inr ())"
  shows "release_unsubmitted st' (req_operation_id r) = (st, Inr ())"
proof -
  note ok = ledger_reachable_ok [OF assms(1)]
  have ad: "admitted st r st'"
    by (rule reserve_cases [OF ok assms(2)]) auto
  then have ok': "ledger_ok st'" by (simp add: admitted_def)
  obtain st2 where rel: "release_unsubmitted st' (req_operation_id r) = (st2, Inr ())"
    and st2: "ledger_ok st2" "same_books st' st2"
      "reservations st2 = bt_remove (req_operation_id r) (reservations st')"
    using ad remove_reservation_ok [OF ok', of "req_operation_id r"]
    by (auto simp: release_unsubmitted_def admitted_def)
  have res: "reservations st2 = reservations st"
    using ad st2(3) by (simp add: admitted_def bt_remove_insert)
  then have "outstanding st2 k = outstanding st k" for k
    by (simp add: outstanding_def)
  then have "reserved_totals st2 = reserved_totals st"
    using ledger_okD(1,2) [OF ok] ledger_okD(1,2) [OF st2(1)] by (intro totals_eqI) auto
  with res st2(2) ad have "st2 = st"
    by (simp add: admitted_def same_books_def)
  with rel show ?thesis by simp
qed

lemma reserve_release_roundtrip_example:
  "reserve demo_ledger (demo_request ''a'' 60) = (demo_active, Inr ()) \<and>
   release_unsubmitted demo_active ''a'' = (demo_ledger, Inr ())"
  using reserve_release_roundtrip [OF demo_ledger_reachable demo_reserve] demo_reserve by simp

text \<open>
  (C4) A claim is held until it is settled.  A reservation leaves the ledger in one step only if it
  was active and is released as unsubmitted, or if it was pending settlement and every one of its
  settlement locations has by then reported a generation strictly newer than the one recorded when
  it was marked.
\<close>

theorem claim_held_until_settled:
  assumes "ledger_reachable st" and "reservation st op = Some r"
    and "reservation (shared_step e st) op = None"
  shows "(rsv_state r = Active \<and> e = ReleaseUnsubmitted op) \<or>
    (\<exists>gens. rsv_state r = PendingSettlement gens \<and>
       (\<forall>l. bt_contains (req_settlement_locations (rsv_request r)) l \<longrightarrow>
          (\<exists>barrier cur. bt_get gens l = Some barrier \<and>
             bt_get (location_generations (shared_step e st)) l = Some cur \<and> barrier < cur)))"
proof -
  note ok = ledger_reachable_ok [OF assms(1)]
  have r: "bt_get (reservations st) op = Some r" using assms(2) by (simp add: reservation_def)
  note gone = assms(3) [unfolded reservation_def]
  have bok: "barriers_ok st r" using ledger_okD(5) [OF ok r] .
  have settled: ?thesis if so: "snapshot_outcome st l g (shared_step e st, out)" for l g out
  proof -
    from snapshot_outcome_gone [OF so r gone] obtain up where
      "reconciled up r" and bk: "same_books up (shared_step e st)" by blast
    then obtain gens where st_r: "rsv_state r = PendingSettlement gens"
      and pb: "passed_barriers up gens"
      by (auto simp: reconciled_def split: reservation_state.splits)
    have "\<exists>cur. bt_get (location_generations (shared_step e st)) l' = Some cur \<and> b < cur"
      if "bt_get gens l' = Some b" for l' b
      using pb that bk
      by (fastforce simp: passed_barriers_def list_all_iff bt_entries_iff same_books_def
          split: option.splits)
    with st_r bok show ?thesis
      by (auto simp: barriers_ok_def bt_contains_def)
  qed
  show ?thesis
  proof (cases e)
    case (UpdateLocation l g bs)
    with update_location_outcome [OF ok, of l g bs] settled show ?thesis
      by (cases "update_location st l g bs") auto
  next
    case (UpdateLocationAssets l g bs)
    with update_location_assets_outcome [OF ok, of l g bs] settled show ?thesis
      by (cases "update_location_assets st l g bs") auto
  next
    case (Reserve q)
    with reserve_keeps [OF ok r, of q] gone show ?thesis by simp
  next
    case (MarkPendingSettlement q)
    with mark_pending_settlement_keeps [OF ok r, of q] gone show ?thesis by auto
  next
    case (ReleaseUnsubmitted q)
    with release_unsubmitted_keeps [OF ok r, of q] gone show ?thesis by auto
  qed
qed

theorem claim_held_until_settled_witness:
  "\<exists>cur. bt_get (location_generations
     (shared_step (UpdateLocation demo_account 3 [(''usdc'', 40)]) demo_pending)) demo_account =
     Some cur \<and> 2 < cur"
proof -
  have "reservation demo_pending ''a'' = Some \<lparr>rsv_request = demo_request ''a'' 60,
      rsv_state = PendingSettlement (bt_insert demo_account 2 bt_empty)\<rparr>"
    by (simp add: demo_pending_def reservation_def)
  from claim_held_until_settled [OF demo_pending_reachable this demo_settled] show ?thesis
    by auto
qed

end
