(* ===== verification/Rebalance_Planner.thy ===== *)
theory Rebalance_Planner
  imports Prelude
begin

text \<open>
  The rebalance planner, \<open>src/src/rebalance/planner.rs\<close>: from a token's policy, its two observed
  balances and the transfers in flight it derives the start balance, projects the balances, and
  plans at most one transfer.  Amounts are \<open>U256\<close> base units, kept at their width.
\<close>

section \<open>Data\<close>

datatype location = Binance | Wallet

datatype direction = WalletToBinance | BinanceToWallet

datatype route =
    Direct (binance_network: string) (chain_id: u64)
  | Across (binance_network: string) (bridge_chain_id: u64) (wallet_chain_id: u64)

record withdrawal_rules =
  wr_minimum :: u256
  wr_maximum :: u256
  wr_multiple :: u256

record route_candidate =
  rc_route :: route
  rc_binance_deposit_enabled :: bool
  rc_binance_withdrawal_enabled :: bool
  rc_across_wallet_to_bridge_enabled :: bool
  rc_across_bridge_to_wallet_enabled :: bool
  rc_withdrawal :: withdrawal_rules

record rebalance_policy =
  pol_token_symbol :: string
  pol_reference_inventory :: u256
  pol_start_threshold_bps :: u16
  pol_routes :: "route_candidate list"

record balance_snapshot =
  bal_binance :: u256
  bal_wallet :: u256

record pending_transfer =
  pt_source :: location
  pt_destination :: location
  pt_amount :: u256

record rebalance_action =
  act_direction :: direction
  act_amount :: u256
  act_route :: route

record rebalance_plan =
  plan_projected :: balance_snapshot
  plan_reference_inventory :: u256
  plan_start_balance :: u256
  plan_binance_target :: u256
  plan_wallet_target :: u256
  plan_action :: "rebalance_action option"

section \<open>Operations\<close>

fun supports :: "route_candidate \<Rightarrow> direction \<Rightarrow> bool" where
  "supports c d =
     (case (rc_route c, d) of
        (Direct _ _, WalletToBinance) \<Rightarrow> rc_binance_deposit_enabled c
      | (Direct _ _, BinanceToWallet) \<Rightarrow> rc_binance_withdrawal_enabled c
      | (Across _ _ _, WalletToBinance) \<Rightarrow>
          rc_binance_deposit_enabled c \<and> rc_across_wallet_to_bridge_enabled c
      | (Across _ _ _, BinanceToWallet) \<Rightarrow>
          rc_binance_withdrawal_enabled c \<and> rc_across_bridge_to_wallet_enabled c)"

fun direction_debug :: "direction \<Rightarrow> string" where
  "direction_debug WalletToBinance = ''WalletToBinance''"
| "direction_debug BinanceToWallet = ''BinanceToWallet''"

definition select_route :: "rebalance_policy \<Rightarrow> direction \<Rightarrow> route_candidate result" where
  "select_route p d =
     context_opt (find (\<lambda>c. supports c d) (pol_routes p))
       (pol_token_symbol p @ '' has no currently available '' @ direction_debug d @ '' route'')"

definition validate_candidate :: "rebalance_policy \<Rightarrow> route_candidate \<Rightarrow> unit \<Rightarrow> unit result" where
  "validate_candidate p c _ =
     ensure (wr_multiple (rc_withdrawal c) \<noteq> 0)
       (pol_token_symbol p @ '' withdrawal multiple must be positive'')
     (ensure (wr_minimum (rc_withdrawal c) \<le> wr_maximum (rc_withdrawal c))
       (pol_token_symbol p @ '' withdrawal minimum exceeds maximum'')
      (Inr ()))"

definition validate_policy :: "rebalance_policy \<Rightarrow> unit result" where
  "validate_policy p =
     ensure (\<not> trim_is_empty (pol_token_symbol p)) ''rebalance token symbol is empty''
     (ensure (pol_reference_inventory p \<noteq> 0)
       (pol_token_symbol p @ '' reference inventory must be positive'')
     (ensure (pol_start_threshold_bps p > 0 \<and> pol_start_threshold_bps p < 5000)
       (pol_token_symbol p @ '' rebalance start threshold must be between 1 and 4999 bps'')
     (ensure (pol_routes p \<noteq> [])
       (pol_token_symbol p @ '' has no configured rebalance routes'')
     (for_each (validate_candidate p) (pol_routes p) ()))))"

definition start_balance :: "rebalance_policy \<Rightarrow> u256 result" where
  "start_balance p =
     bind_res
       (context_opt
         (map_option (\<lambda>scaled. scaled div 10000)
            (checked_mul (pol_reference_inventory p) (ucast (pol_start_threshold_bps p))))
         (pol_token_symbol p @ '' start balance overflow''))
       (\<lambda>b. ensure (b \<noteq> 0) (pol_token_symbol p @ '' derived start balance is zero'') (Inr b))"

definition project_transfer :: "pending_transfer \<Rightarrow> balance_snapshot \<Rightarrow> balance_snapshot result" where
  "project_transfer t s =
     ensure (pt_source t \<noteq> pt_destination t)
       ''pending transfer source and destination are identical''
     (case (pt_source t, pt_destination t) of
        (Binance, Wallet) \<Rightarrow>
          bind_res (context_opt (checked_sub (bal_binance s) (pt_amount t))
                      ''pending Binance debit exceeds the observed balance'') (\<lambda>b.
          bind_res (context_opt (checked_add (bal_wallet s) (pt_amount t))
                      ''pending wallet credit overflows the projected balance'') (\<lambda>w.
            Inr \<lparr>bal_binance = b, bal_wallet = w\<rparr>))
      | (Wallet, Binance) \<Rightarrow>
          bind_res (context_opt (checked_sub (bal_wallet s) (pt_amount t))
                      ''pending wallet debit exceeds the observed balance'') (\<lambda>w.
          bind_res (context_opt (checked_add (bal_binance s) (pt_amount t))
                      ''pending Binance credit overflows the projected balance'') (\<lambda>b.
            Inr \<lparr>bal_binance = b, bal_wallet = w\<rparr>))
      | _ \<Rightarrow> Inl (Panic ''identical locations are rejected above''))"

definition projected_balances ::
  "balance_snapshot \<Rightarrow> pending_transfer list \<Rightarrow> balance_snapshot result" where
  "projected_balances s pending = for_each project_transfer pending s"

definition plan_binance_refill ::
  "rebalance_policy \<Rightarrow> balance_snapshot \<Rightarrow> u256 \<Rightarrow> u256 \<Rightarrow> rebalance_action option result" where
  "plan_binance_refill p projected start target =
     (let wallet_surplus = saturating_sub (bal_wallet projected) start;
          target_deficit = saturating_sub target (bal_binance projected);
          amount = min target_deficit wallet_surplus
      in if amount = 0 then Inr None
         else bind_res (select_route p WalletToBinance) (\<lambda>c.
           Inr (Some \<lparr>act_direction = WalletToBinance, act_amount = amount,
                      act_route = rc_route c\<rparr>)))"

text \<open>\<open>bounded % rules.multiple\<close> panics on a zero multiple.\<close>

definition constrain_withdrawal :: "u256 \<Rightarrow> withdrawal_rules \<Rightarrow> u256 result" where
  "constrain_withdrawal requested rules =
     (if requested = 0 then Inr 0
      else let bounded = min (max requested (wr_minimum rules)) (wr_maximum rules) in
        if wr_multiple rules = 0 then Inl (Panic ''remainder with a divisor of zero'')
        else let rounded = bounded - (bounded mod wr_multiple rules) in
          Inr (if rounded < wr_minimum rules then 0 else rounded))"

definition plan_wallet_refill ::
  "rebalance_policy \<Rightarrow> balance_snapshot \<Rightarrow> u256 \<Rightarrow> u256 \<Rightarrow> rebalance_action option result" where
  "plan_wallet_refill p projected start target =
     (let binance_surplus = saturating_sub (bal_binance projected) start;
          target_deficit = saturating_sub target (bal_wallet projected);
          requested = min target_deficit binance_surplus
      in if requested = 0 then Inr None
         else bind_res (select_route p BinanceToWallet) (\<lambda>c.
           bind_res (constrain_withdrawal requested (rc_withdrawal c)) (\<lambda>amount.
             Inr (if amount \<noteq> 0 \<and> amount \<le> binance_surplus
                  then Some \<lparr>act_direction = BinanceToWallet, act_amount = amount,
                             act_route = rc_route c\<rparr>
                  else None))))"

definition plan_rebalance ::
  "rebalance_policy \<Rightarrow> balance_snapshot \<Rightarrow> pending_transfer list \<Rightarrow> rebalance_plan result" where
  "plan_rebalance p snapshot pending =
     bind_res (validate_policy p) (\<lambda>_.
     bind_res (start_balance p) (\<lambda>start.
     bind_res (projected_balances snapshot pending) (\<lambda>projected.
     bind_res (context_opt (checked_add (bal_binance projected) (bal_wallet projected))
                 (pol_token_symbol p @ '' inventory overflow'')) (\<lambda>total.
     bind_res (context_opt (checked_mul start 2)
                 (pol_token_symbol p @ '' minimum inventory overflow'')) (\<lambda>required.
     ensure (total \<ge> required)
       (pol_token_symbol p @ '' total inventory is below the configured minimum'')
     (let binance_target = total div 2; wallet_target = total - binance_target in
      bind_res
        (if bal_binance projected < start
         then plan_binance_refill p projected start binance_target
         else if bal_wallet projected < start
         then plan_wallet_refill p projected start wallet_target
         else Inr None) (\<lambda>action.
      Inr \<lparr>plan_projected = projected, plan_reference_inventory = pol_reference_inventory p,
           plan_start_balance = start, plan_binance_target = binance_target,
           plan_wallet_target = wallet_target, plan_action = action\<rparr>)))))))"

section \<open>Lemmas\<close>

lemma validate_candidates_Inr:
  "for_each (validate_candidate p) cs u = Inr v \<longleftrightarrow>
     (\<forall>c \<in> set cs. wr_multiple (rc_withdrawal c) \<noteq> 0 \<and>
        wr_minimum (rc_withdrawal c) \<le> wr_maximum (rc_withdrawal c))"
  by (induction cs) (auto simp: validate_candidate_def)

lemma select_route_Inr:
  "select_route p d = Inr c \<Longrightarrow> c \<in> set (pol_routes p) \<and> supports c d"
  by (auto simp: select_route_def find_Some_iff simp del: supports.simps)

lemma project_transfer_total:
  "project_transfer t s = Inr s' \<Longrightarrow>
     unat (bal_binance s') + unat (bal_wallet s') = unat (bal_binance s) + unat (bal_wallet s)"
  by (auto simp: project_transfer_def checked_simps split: location.splits)

lemma projected_total:
  assumes "projected_balances s pending = Inr s'"
  shows "unat (bal_binance s') + unat (bal_wallet s') = unat (bal_binance s) + unat (bal_wallet s)"
  using assms unfolding projected_balances_def
  by (induction pending arbitrary: s) (auto dest: project_transfer_total)

text \<open>The facts a plan is built on, as numbers.\<close>

definition plan_facts :: "rebalance_policy \<Rightarrow> rebalance_plan \<Rightarrow> nat \<Rightarrow> bool" where
  "plan_facts p plan tot \<longleftrightarrow>
     (let pr = plan_projected plan; start = plan_start_balance plan in
      start_balance p = Inr start \<and> 0 < unat start \<and>
      tot = unat (bal_binance pr) + unat (bal_wallet pr) \<and> 2 * unat start \<le> tot \<and>
      tot < 2 ^ 256 \<and>
      unat (plan_binance_target plan) = tot div 2 \<and>
      unat (plan_wallet_target plan) = tot - tot div 2)"

lemma plan_rebalance_facts:
  assumes "plan_rebalance p s pending = Inr plan"
  shows "plan_facts p plan
    (unat (bal_binance (plan_projected plan)) + unat (bal_wallet (plan_projected plan)))"
proof -
  from assms obtain start pr tot required where
    start: "start_balance p = Inr start" and
    tot_eq: "checked_add (bal_binance pr) (bal_wallet pr) = Some tot" and
    req: "checked_mul start 2 = Some required" and le: "required \<le> tot" and
    plan: "plan_projected plan = pr" "plan_start_balance plan = start"
      "plan_binance_target plan = tot div 2" "plan_wallet_target plan = tot - tot div 2"
    by (auto simp: plan_rebalance_def Let_def)
  have nz: "start \<noteq> 0" using start by (auto simp: start_balance_def)
  have ut: "unat tot = unat (bal_binance pr) + unat (bal_wallet pr)"
    using tot_eq by (simp add: checked_simps)
  have "unat required = 2 * unat start" using req by (simp add: checked_simps)
  with le have r: "2 * unat start \<le> unat tot" by (simp add: word_le_nat_alt)
  have "unat (tot div 2) = unat tot div 2"
    by (simp add: unat_div)
  moreover have "tot div 2 \<le> tot"
    by (simp add: word_le_nat_alt unat_div)
  ultimately have "unat (tot - tot div 2) = unat tot - unat tot div 2"
    by (simp add: unat_sub)
  moreover have "unat tot < 2 ^ 256" using unat_lt [of tot] by simp
  ultimately show ?thesis
    using start nz r ut unfolding plan_facts_def Let_def plan
    by (simp add: unat_div unat_gt_0)
qed

lemma plan_rebalance_action:
  assumes "plan_rebalance p s pending = Inr plan"
  shows "(if bal_binance (plan_projected plan) < plan_start_balance plan
     then plan_binance_refill p (plan_projected plan) (plan_start_balance plan) (plan_binance_target plan)
     else if bal_wallet (plan_projected plan) < plan_start_balance plan
     then plan_wallet_refill p (plan_projected plan) (plan_start_balance plan) (plan_wallet_target plan)
     else Inr None) = Inr (plan_action plan)"
  using assms by (auto simp: plan_rebalance_def Let_def)

lemma plan_rebalance_valid:
  "plan_rebalance p s pending = Inr plan \<Longrightarrow> validate_policy p = Inr ()"
  by (auto simp: plan_rebalance_def)

lemma binance_refill_amount:
  assumes "plan_binance_refill p pr start target = Inr (Some a)"
  shows "act_direction a = WalletToBinance \<and> 0 < unat (act_amount a) \<and>
    (\<exists>c \<in> set (pol_routes p). act_route a = rc_route c \<and> supports c WalletToBinance) \<and>
    unat (act_amount a) = min (unat target - unat (bal_binance pr)) (unat (bal_wallet pr) - unat start)"
  using assms
  by (auto simp: plan_binance_refill_def Let_def unat_min unat_gt_0 simp del: supports.simps
      dest!: select_route_Inr split: if_splits)

lemma binance_refill_None:
  assumes "plan_binance_refill p pr start target = Inr None"
  shows "min (unat target - unat (bal_binance pr)) (unat (bal_wallet pr) - unat start) = 0"
proof -
  have "min (saturating_sub target (bal_binance pr)) (saturating_sub (bal_wallet pr) start) = 0"
    using assms by (auto simp: plan_binance_refill_def Let_def split: if_splits)
  then have "unat (min (saturating_sub target (bal_binance pr)) (saturating_sub (bal_wallet pr) start)) = 0"
    by simp
  then show ?thesis by (simp add: unat_min)
qed

lemma constrain_withdrawal_bounds:
  assumes "constrain_withdrawal requested rules = Inr amount" and "amount \<noteq> 0"
  shows "wr_minimum rules \<le> amount \<and> amount \<le> wr_maximum rules \<and>
    unat (wr_multiple rules) dvd unat amount"
proof -
  define b where "b = min (max requested (wr_minimum rules)) (wr_maximum rules)"
  have amt: "amount = b - b mod wr_multiple rules" and ge: "wr_minimum rules \<le> amount"
    using assms by (auto simp: constrain_withdrawal_def Let_def b_def split: if_splits)
  have le: "b mod wr_multiple rules \<le> b"
    by (simp add: word_le_nat_alt unat_mod)
  have ua: "unat amount = unat b - unat b mod unat (wr_multiple rules)"
    unfolding amt by (simp add: unat_sub [OF le] unat_mod)
  have "amount \<le> b" by (simp add: word_le_nat_alt ua)
  also have "b \<le> wr_maximum rules" by (simp add: b_def)
  finally show ?thesis
    using ge ua by (simp add: minus_mod_eq_div_mult)
qed

lemma wallet_refill_amount:
  assumes "plan_wallet_refill p pr start target = Inr (Some a)"
  shows "act_direction a = BinanceToWallet \<and> 0 < unat (act_amount a) \<and>
    unat start + unat (act_amount a) \<le> unat (bal_binance pr) \<and>
    (\<exists>c \<in> set (pol_routes p). act_route a = rc_route c \<and> supports c BinanceToWallet \<and>
       wr_minimum (rc_withdrawal c) \<le> act_amount a \<and> act_amount a \<le> wr_maximum (rc_withdrawal c) \<and>
       unat (wr_multiple (rc_withdrawal c)) dvd unat (act_amount a))"
proof -
  from assms obtain c where c: "select_route p BinanceToWallet = Inr c"
    and nz: "act_amount a \<noteq> 0" and le: "act_amount a \<le> saturating_sub (bal_binance pr) start"
    and eq: "constrain_withdrawal
       (min (saturating_sub target (bal_wallet pr)) (saturating_sub (bal_binance pr) start))
       (rc_withdrawal c) = Inr (act_amount a)"
    and a: "act_direction a = BinanceToWallet" "act_route a = rc_route c"
    by (auto simp: plan_wallet_refill_def Let_def split: if_splits)
  have "unat (act_amount a) \<le> unat (bal_binance pr) - unat start"
    using le by (simp add: word_le_nat_alt)
  moreover have pos: "0 < unat (act_amount a)" using nz by (simp add: unat_gt_0)
  ultimately have "unat start + unat (act_amount a) \<le> unat (bal_binance pr)" by linarith
  with pos a select_route_Inr [OF c] constrain_withdrawal_bounds [OF eq nz] show ?thesis by blast
qed

text \<open>In every plan at most one side is below the start balance, and a Binance refill is never empty.\<close>

lemma binance_refill_planned:
  assumes plan: "plan_rebalance p s pending = Inr plan"
    and low: "bal_binance (plan_projected plan) < plan_start_balance plan"
  obtains a where "plan_action plan = Some a"
    "plan_binance_refill p (plan_projected plan) (plan_start_balance plan) (plan_binance_target plan) =
       Inr (Some a)"
proof (cases "plan_action plan")
  case None
  from plan_rebalance_action [OF plan] low None
  have "plan_binance_refill p (plan_projected plan) (plan_start_balance plan)
      (plan_binance_target plan) = Inr None" by simp
  note none = binance_refill_None [OF this]
  from plan_rebalance_facts [OF plan] low none have False
    by (auto simp: plan_facts_def Let_def word_less_nat_alt min_def split: if_splits)
  then show ?thesis ..
next
  case (Some a)
  with plan_rebalance_action [OF plan] low that show ?thesis by simp
qed

lemma plan_action_cases:
  assumes plan: "plan_rebalance p s pending = Inr plan" and act: "plan_action plan = Some a"
  obtains (binance) "act_direction a = WalletToBinance"
      "bal_binance (plan_projected plan) < plan_start_balance plan"
      "plan_binance_refill p (plan_projected plan) (plan_start_balance plan) (plan_binance_target plan) =
         Inr (Some a)"
    | (wallet) "act_direction a = BinanceToWallet"
      "bal_wallet (plan_projected plan) < plan_start_balance plan"
      "plan_wallet_refill p (plan_projected plan) (plan_start_balance plan) (plan_wallet_target plan) =
         Inr (Some a)"
  using plan_rebalance_action [OF plan] act
  by (auto split: if_splits dest: binance_refill_amount wallet_refill_amount)

lemma binance_refill_safe:
  assumes plan: "plan_rebalance p s pending = Inr plan"
    and low: "bal_binance (plan_projected plan) < plan_start_balance plan"
    and refill: "plan_binance_refill p (plan_projected plan) (plan_start_balance plan)
      (plan_binance_target plan) = Inr (Some a)"
  shows "unat (plan_start_balance plan) + unat (act_amount a) \<le> unat (bal_wallet (plan_projected plan))"
    and "unat (plan_start_balance plan) \<le> unat (bal_binance (plan_projected plan)) + unat (act_amount a)"
proof -
  let ?b = "unat (bal_binance (plan_projected plan))" and ?w = "unat (bal_wallet (plan_projected plan))"
    and ?start = "unat (plan_start_balance plan)"
  from plan_rebalance_facts [OF plan] have tot: "2 * ?start \<le> ?b + ?w"
    and target: "unat (plan_binance_target plan) = (?b + ?w) div 2"
    by (simp_all add: plan_facts_def Let_def)
  from tot have half: "?start \<le> (?b + ?w) div 2" by simp
  from low have lt: "?b < ?start" by (simp add: word_less_nat_alt)
  from binance_refill_amount [OF refill] target
  have amount: "unat (act_amount a) = min ((?b + ?w) div 2 - ?b) (?w - ?start)" by simp
  show "?start + unat (act_amount a) \<le> ?w"
    unfolding amount using tot lt by linarith
  show "?start \<le> ?b + unat (act_amount a)"
    unfolding amount using half tot lt by linarith
qed

lemma plan_total: "\<not> panics (plan_rebalance p s pending)"
proof -
  have vp: "validate_policy p \<noteq> Inl (Panic m)" for m
  proof -
    have "for_each (validate_candidate p) cs u \<noteq> Inl (Panic m)" for cs u
      by (induction cs) (auto simp: validate_candidate_def res_simps)
    then show ?thesis by (auto simp: validate_policy_def res_simps)
  qed
  have pb: "projected_balances s pending \<noteq> Inl (Panic m)" for m
    unfolding projected_balances_def
    by (induction pending arbitrary: s)
       (auto simp: project_transfer_def res_simps split: location.splits)
  have sel: "select_route p d \<noteq> Inl (Panic m)" for d m
    by (auto simp: select_route_def res_simps)
  have cw: "constrain_withdrawal r (rc_withdrawal c) \<noteq> Inl (Panic m)"
    if "validate_policy p = Inr u" "select_route p d = Inr c" for u d c r m
    using that select_route_Inr [OF that(2)]
    by (auto simp: constrain_withdrawal_def Let_def validate_policy_def validate_candidates_Inr)
  show ?thesis
    unfolding plan_rebalance_def panics_iff
    by (auto simp: res_simps Let_def vp pb sel cw start_balance_def plan_binance_refill_def
        plan_wallet_refill_def split: if_splits)
qed

section \<open>Properties\<close>

text \<open>
  (C5) Safety and direction of a planned transfer.  A plan moves a positive amount over one of the
  policy's own routes that supports the direction, only toward the side that is below the start
  balance, and leaves the source at or above the start balance.  A deposit restores the destination
  to the start balance; a withdrawal respects the minimum, maximum and integer multiple of the
  route it uses.
\<close>

theorem planned_transfer_safe:
  assumes "plan_rebalance p s pending = Inr plan" and "plan_action plan = Some a"
  shows "0 < act_amount a \<and>
    (case act_direction a of
       WalletToBinance \<Rightarrow>
         bal_binance (plan_projected plan) < plan_start_balance plan \<and>
         unat (plan_start_balance plan) + unat (act_amount a) \<le> unat (bal_wallet (plan_projected plan)) \<and>
         unat (plan_start_balance plan) \<le> unat (bal_binance (plan_projected plan)) + unat (act_amount a) \<and>
         (\<exists>c \<in> set (pol_routes p). act_route a = rc_route c \<and> supports c WalletToBinance)
     | BinanceToWallet \<Rightarrow>
         bal_wallet (plan_projected plan) < plan_start_balance plan \<and>
         unat (plan_start_balance plan) + unat (act_amount a) \<le> unat (bal_binance (plan_projected plan)) \<and>
         (\<exists>c \<in> set (pol_routes p). act_route a = rc_route c \<and> supports c BinanceToWallet \<and>
            wr_minimum (rc_withdrawal c) \<le> act_amount a \<and>
            act_amount a \<le> wr_maximum (rc_withdrawal c) \<and>
            unat (wr_multiple (rc_withdrawal c)) dvd unat (act_amount a)))"
  using assms
proof (cases rule: plan_action_cases)
  case binance
  from binance_refill_safe [OF assms(1) binance(2,3)] binance_refill_amount [OF binance(3)] binance(1,2)
  show ?thesis by (auto simp: word_less_nat_alt simp del: supports.simps)
next
  case wallet
  from wallet_refill_amount [OF wallet(3)] wallet(1,2) show ?thesis
    by (auto simp: word_less_nat_alt simp del: supports.simps)
qed

definition in_flight :: "rebalance_action \<Rightarrow> pending_transfer" where
  "in_flight a =
     (case act_direction a of
        WalletToBinance \<Rightarrow> \<lparr>pt_source = Wallet, pt_destination = Binance, pt_amount = act_amount a\<rparr>
      | BinanceToWallet \<Rightarrow> \<lparr>pt_source = Binance, pt_destination = Wallet, pt_amount = act_amount a\<rparr>)"

text \<open>
  (C6) A planned deposit to Binance is planned once and is enough: when it is in flight, planning
  again from the same observation succeeds and plans nothing.
\<close>

theorem planned_deposit_is_enough:
  assumes plan: "plan_rebalance p s pending = Inr plan" and act: "plan_action plan = Some a"
    and dir: "act_direction a = WalletToBinance"
  shows "\<exists>plan'. plan_rebalance p s (pending @ [in_flight a]) = Inr plan' \<and> plan_action plan' = None"
proof -
  let ?pr = "plan_projected plan" and ?start = "plan_start_balance plan"
  note f = plan_rebalance_facts [OF plan, unfolded plan_facts_def Let_def]
  have src: "unat ?start + unat (act_amount a) \<le> unat (bal_wallet ?pr)"
    and dst: "unat ?start \<le> unat (bal_binance ?pr) + unat (act_amount a)"
    using plan act by (cases rule: plan_action_cases; use dir binance_refill_safe [OF plan] in simp)+
  from src f have "checked_sub (bal_wallet ?pr) (act_amount a) \<noteq> None"
    "checked_add (bal_binance ?pr) (act_amount a) \<noteq> None"
    by (auto simp: checked_simps)
  then obtain w b where w: "checked_sub (bal_wallet ?pr) (act_amount a) = Some w"
    and b: "checked_add (bal_binance ?pr) (act_amount a) = Some b" by auto
  let ?pr' = "\<lparr>bal_binance = b, bal_wallet = w\<rparr>"
  from plan have "projected_balances s pending = Inr ?pr"
    by (auto simp: plan_rebalance_def Let_def)
  then have pr': "projected_balances s (pending @ [in_flight a]) = Inr ?pr'"
    using w b dir by (simp add: projected_balances_def project_transfer_def in_flight_def)
  from w b have uw: "unat (bal_wallet ?pr) = unat (act_amount a) + unat w"
    and ub: "unat b = unat (bal_binance ?pr) + unat (act_amount a)"
    by (simp_all add: checked_simps)
  obtain total where tot: "checked_add (bal_binance ?pr) (bal_wallet ?pr) = Some total"
    and req: "\<exists>required. checked_mul ?start 2 = Some required \<and> required \<le> total"
    using plan by (auto simp: plan_rebalance_def Let_def)
  have "checked_add b w = Some total"
    using tot uw ub by (simp add: checked_simps)
  moreover have "\<not> b < ?start" "\<not> w < ?start"
    using src dst uw ub by (auto simp: word_less_nat_alt)
  ultimately show ?thesis
    using plan_rebalance_valid [OF plan] f pr' req
    by (auto simp: plan_rebalance_def Let_def)
qed

text \<open>
  Why a wallet refill is not planned, in terms of the amounts the exchange admits: none of them is up to
  the requested amount, and the smallest limit is no such amount or exceeds the surplus.
\<close>

lemma refused_withdrawal:
  assumes amount: "constrain_withdrawal requested w = Inr amount" and "requested \<noteq> 0"
    and limits: "wr_minimum w \<le> wr_maximum w" and le: "requested \<le> surplus"
    and no: "amount = 0 \<or> surplus < amount"
    and x: "0 < x" "unat (wr_minimum w) \<le> x" "x \<le> unat (wr_maximum w)" "unat (wr_multiple w) dvd x"
  shows "unat requested < x \<and> (x = unat (wr_minimum w) \<longrightarrow> unat surplus < x)"
proof -
  let ?b = "min (max requested (wr_minimum w)) (wr_maximum w)" and ?m = "unat (wr_multiple w)"
  have m: "?m \<noteq> 0" and a: "amount = (let r = ?b - ?b mod wr_multiple w in if r < wr_minimum w then 0 else r)"
    using amount assms(2) by (auto simp: constrain_withdrawal_def Let_def unat_eq_0 split: if_splits)
  have r: "unat (?b - ?b mod wr_multiple w) = unat ?b - unat ?b mod ?m"
    by (simp add: unat_sub word_le_nat_alt unat_mod)
  have b: "unat ?b = min (max (unat requested) (unat (wr_minimum w))) (unat (wr_maximum w))"
    by (simp add: unat_min unat_max)
  have below: "x \<le> unat ?b - unat ?b mod ?m" if "x \<le> unat ?b"
    using x(4) that m by (metis div_le_mono dvd_div_mult_self minus_mod_eq_div_mult mult_le_mono1)
  have fits: "x \<le> unat amount \<and> unat amount \<le> unat ?b" if "x \<le> unat ?b"
    using below [OF that] x(2) a r by (auto simp: Let_def word_less_nat_alt)
  have "surplus < amount" if "x \<le> unat ?b" using fits [OF that] no x(1) by auto
  then have sur: "unat surplus < unat ?b" if "x \<le> unat ?b" using fits [OF that] that by (simp add: word_less_nat_alt)
  have nats: "unat requested \<le> unat surplus" "unat (wr_minimum w) \<le> unat (wr_maximum w)"
    using le limits by (simp_all add: word_le_nat_alt)
  have req: "unat requested < x"
  proof (rule ccontr)
    assume "\<not> unat requested < x"
    then have "x \<le> unat ?b" "unat ?b \<le> unat requested" using b x(2,3) by linarith+
    then show False using sur nats(1) by linarith
  qed
  moreover have "unat ?b = unat (wr_minimum w)" if "x = unat (wr_minimum w)" using that req b nats by linarith
  ultimately show ?thesis using sur by auto
qed

text \<open>
  (C7) Completeness of the planner.  A plan without a transfer means that Binance holds at least the start
  balance; and when the wallet is the side below it, the exchange admits no positive amount between the
  route's limits, a whole number of its multiples, up to the requested one, which is the smaller of the
  wallet's deficit and Binance's surplus; and the lower limit itself is not admitted or exceeds the
  surplus.  Admitted amounts above the requested one, other than the lower limit, are not tried.
\<close>

theorem no_action_means_balanced:
  assumes plan: "plan_rebalance p s pending = Inr plan" and none: "plan_action plan = None"
  shows "plan_start_balance plan \<le> bal_binance (plan_projected plan) \<and>
    (plan_start_balance plan \<le> bal_wallet (plan_projected plan) \<or>
     (\<exists>c requested surplus. select_route p BinanceToWallet = Inr c \<and>
        surplus = unat (bal_binance (plan_projected plan)) - unat (plan_start_balance plan) \<and>
        requested = min (unat (plan_wallet_target plan) - unat (bal_wallet (plan_projected plan))) surplus \<and>
        0 < requested \<and>
        (\<forall>x. 0 < x \<and> unat (wr_minimum (rc_withdrawal c)) \<le> x \<and> x \<le> unat (wr_maximum (rc_withdrawal c)) \<and>
             unat (wr_multiple (rc_withdrawal c)) dvd x \<longrightarrow>
           requested < x \<and> (x = unat (wr_minimum (rc_withdrawal c)) \<longrightarrow> surplus < x))))"
proof -
  let ?pr = "plan_projected plan" and ?start = "plan_start_balance plan"
  have b: "?start \<le> bal_binance ?pr"
  proof (rule ccontr)
    assume "\<not> ?start \<le> bal_binance ?pr"
    then have "bal_binance ?pr < ?start" by simp
    from binance_refill_planned [OF plan this] none show False by auto
  qed
  show ?thesis
  proof (cases "bal_wallet ?pr < ?start")
    case False
    with b show ?thesis by (metis not_less)
  next
    case True
    let ?sur = "saturating_sub (bal_binance ?pr) ?start"
    let ?req = "min (saturating_sub (plan_wallet_target plan) (bal_wallet ?pr)) ?sur"
    have wr: "plan_wallet_refill p ?pr ?start (plan_wallet_target plan) = Inr None"
      using plan_rebalance_action [OF plan] b True none by (simp add: leD)
    from plan_rebalance_facts [OF plan] True have nz: "unat ?req \<noteq> 0"
      by (auto simp: plan_facts_def Let_def unat_min word_less_nat_alt)
    then have "?req \<noteq> 0" by (metis unat_0)
    with wr obtain c amount where c: "select_route p BinanceToWallet = Inr c"
      "constrain_withdrawal ?req (rc_withdrawal c) = Inr amount" "\<not> (amount \<noteq> 0 \<and> amount \<le> ?sur)"
      by (auto simp: plan_wallet_refill_def Let_def split: if_splits)
    then have no: "amount = 0 \<or> ?sur < amount" by auto
    have "wr_minimum (rc_withdrawal c) \<le> wr_maximum (rc_withdrawal c)"
      using plan_rebalance_valid [OF plan] c(1) select_route_Inr
      by (fastforce simp: validate_policy_def validate_candidates_Inr)
    note refused = refused_withdrawal [OF c(2) \<open>?req \<noteq> 0\<close> this _ no]
    have "unat ?req = min (unat (plan_wallet_target plan) - unat (bal_wallet ?pr))
        (unat (bal_binance ?pr) - unat ?start)" "unat ?sur = unat (bal_binance ?pr) - unat ?start"
      by (simp_all add: unat_min)
    with b c(1) nz refused show ?thesis by (intro conjI disjI2 exI [of _ c]) auto
  qed
qed

text \<open>
  Planning never panics, whatever the policy, the balances and the transfers in flight.
\<close>

lemma plan_rebalance_never_panics: "\<not> panics (plan_rebalance p s pending)"
  by (rule plan_total)

text \<open>
  Projecting transfers in flight moves inventory between the two sides and never creates any.
\<close>

lemma projection_conserves_inventory:
  assumes "projected_balances s pending = Inr s'"
  shows "unat (bal_binance s') + unat (bal_wallet s') = unat (bal_binance s) + unat (bal_wallet s)"
  using assms by (rule projected_total)

section \<open>A concrete policy\<close>

definition demo_route :: route where
  "demo_route = Direct ''BASE'' 8453"

definition demo_policy :: rebalance_policy where
  "demo_policy =
     \<lparr>pol_token_symbol = ''USDC'', pol_reference_inventory = 1000, pol_start_threshold_bps = 3000,
      pol_routes =
        [\<lparr>rc_route = demo_route, rc_binance_deposit_enabled = True,
          rc_binance_withdrawal_enabled = True, rc_across_wallet_to_bridge_enabled = False,
          rc_across_bridge_to_wallet_enabled = False,
          rc_withdrawal = \<lparr>wr_minimum = 10, wr_maximum = 600, wr_multiple = 8\<rparr>\<rparr>]\<rparr>"

definition demo_deposit :: rebalance_action where
  "demo_deposit = \<lparr>act_direction = WalletToBinance, act_amount = 400, act_route = demo_route\<rparr>"

definition demo_plan :: rebalance_plan where
  "demo_plan = \<lparr>plan_projected = \<lparr>bal_binance = 200, bal_wallet = 1000\<rparr>,
     plan_reference_inventory = 1000, plan_start_balance = 300, plan_binance_target = 600,
     plan_wallet_target = 600, plan_action = Some demo_deposit\<rparr>"

definition demo_idle_plan :: rebalance_plan where
  "demo_idle_plan = \<lparr>plan_projected = \<lparr>bal_binance = 305, bal_wallet = 296\<rparr>,
     plan_reference_inventory = 1000, plan_start_balance = 300, plan_binance_target = 300,
     plan_wallet_target = 301, plan_action = None\<rparr>"

lemmas demo_planner_defs =
  demo_policy_def demo_route_def demo_deposit_def demo_plan_def demo_idle_plan_def
  plan_rebalance_def validate_policy_def validate_candidate_def start_balance_def
  projected_balances_def project_transfer_def plan_binance_refill_def plan_wallet_refill_def
  constrain_withdrawal_def select_route_def saturating_sub_def checked_add_def checked_sub_def
  checked_mul_def ws1_def ws2_def ws3_def byte_def ensure_def bind_res_def context_opt_def Let_def min_def max_def

lemma demo_plan_eq:
  "plan_rebalance demo_policy \<lparr>bal_binance = 100, bal_wallet = 1100\<rparr>
     [\<lparr>pt_source = Wallet, pt_destination = Binance, pt_amount = 100\<rparr>] = Inr demo_plan"
  by (simp add: demo_planner_defs)

lemma demo_idle_plan_eq:
  "plan_rebalance demo_policy \<lparr>bal_binance = 305, bal_wallet = 296\<rparr> [] = Inr demo_idle_plan"
  by (simp add: demo_planner_defs)

theorem planned_transfer_safe_witness:
  "plan_rebalance demo_policy \<lparr>bal_binance = 100, bal_wallet = 1100\<rparr>
     [\<lparr>pt_source = Wallet, pt_destination = Binance, pt_amount = 100\<rparr>] = Inr demo_plan \<and>
   (\<exists>c \<in> set (pol_routes demo_policy). demo_route = rc_route c \<and> supports c WalletToBinance)"
  using demo_plan_eq planned_transfer_safe [OF demo_plan_eq, of demo_deposit]
  by (auto simp: demo_plan_def demo_deposit_def simp del: supports.simps)

theorem planned_deposit_is_enough_witness:
  "\<exists>plan'. plan_rebalance demo_policy \<lparr>bal_binance = 100, bal_wallet = 1100\<rparr>
      ([\<lparr>pt_source = Wallet, pt_destination = Binance, pt_amount = 100\<rparr>] @ [in_flight demo_deposit]) =
        Inr plan' \<and> plan_action plan' = None"
  by (rule planned_deposit_is_enough [OF demo_plan_eq])
    (simp_all add: demo_plan_def demo_deposit_def)

theorem no_action_means_balanced_witness:
  "plan_rebalance demo_policy \<lparr>bal_binance = 305, bal_wallet = 296\<rparr> [] = Inr demo_idle_plan \<and>
   (\<exists>c. select_route demo_policy BinanceToWallet = Inr c \<and>
      \<not> (\<exists>x. 0 < x \<and> unat (wr_minimum (rc_withdrawal c)) \<le> x \<and> x \<le> unat (wr_maximum (rc_withdrawal c)) \<and>
           unat (wr_multiple (rc_withdrawal c)) dvd x \<and> x \<le> 5))"
proof -
  have none: "plan_action demo_idle_plan = None" by (simp add: demo_idle_plan_def)
  have low: "\<not> plan_start_balance demo_idle_plan \<le> bal_wallet (plan_projected demo_idle_plan)"
    by (simp add: demo_idle_plan_def)
  from no_action_means_balanced [OF demo_idle_plan_eq none] low
  obtain c where c: "select_route demo_policy BinanceToWallet = Inr c"
    "\<forall>x. 0 < x \<and> unat (wr_minimum (rc_withdrawal c)) \<le> x \<and> x \<le> unat (wr_maximum (rc_withdrawal c)) \<and>
       unat (wr_multiple (rc_withdrawal c)) dvd x \<longrightarrow> 5 < x"
    by (auto simp: demo_idle_plan_def)
  then show ?thesis using demo_idle_plan_eq by (metis not_le)
qed

lemma projection_conserves_inventory_example:
  "projected_balances \<lparr>bal_binance = 100, bal_wallet = 1100\<rparr>
     [\<lparr>pt_source = Wallet, pt_destination = Binance, pt_amount = 100\<rparr>] =
       Inr \<lparr>bal_binance = 200, bal_wallet = 1000\<rparr> \<and>
   unat (200 :: u256) + unat (1000 :: u256) = unat (100 :: u256) + unat (1100 :: u256)"
proof -
  have eq: "projected_balances \<lparr>bal_binance = 100, bal_wallet = 1100\<rparr>
      [\<lparr>pt_source = Wallet, pt_destination = Binance, pt_amount = 100\<rparr>] =
        Inr \<lparr>bal_binance = 200, bal_wallet = 1000\<rparr>"
    by (simp add: demo_planner_defs)
  from projection_conserves_inventory [OF eq] eq show ?thesis by simp
qed

end
