(* ===== verification/Rebalance_Tracker.thy ===== *)
theory Rebalance_Tracker
  imports Rebalance_Planner BTree_Map
begin

text \<open>
  The rebalance tracker, \<open>src/src/rebalance/tracker.rs\<close>: it captures each token's reference
  inventory on the first observation, plans every token on every later one, and tells the executor
  which transfer is due.  The second half converts exchange decimals into token base units.

  A \<open>rust_decimal::Decimal\<close> is the pair of its \<open>mantissa()\<close> and \<open>scale()\<close>, the only parts of it the
  source reads; the test \<open>value >= Decimal::ZERO\<close> is an argument \<open>ge_zero\<close> of the conversions.
\<close>

section \<open>Data\<close>

record decimal =
  mantissa :: int
  scale :: u32

record rebalance_evaluation =
  ev_token_symbol :: string
  ev_token_decimals :: u8
  ev_reference_captured :: bool
  ev_plan :: rebalance_plan

record token_tracker =
  tt_symbol :: string
  tt_decimals :: u8
  tt_start_threshold_bps :: u16
  tt_routes :: "route_candidate list"
  tt_policy :: "rebalance_policy option"
  tt_last_plan :: "rebalance_plan option"

record rebalance_tracker =
  tr_enabled :: bool
  tr_tokens :: "token_tracker list"
  tr_balanced :: bool

text \<open>The inputs: the parts of the configuration and of the balance snapshots the tracker reads.\<close>

record token_config =
  tok_symbol :: string
  tok_contract :: string
  tok_decimals :: u8

record rebalance_config =
  reb_enabled :: bool
  reb_start_threshold_bps :: u16

record pair_config =
  pair_id :: string
  pair_token_a :: token_config
  pair_token_b :: token_config
  pair_rebalance :: rebalance_config

record binance_asset_balance =
  free :: decimal
  locked :: decimal

record binance_balance_snapshot =
  bbs_account_update_time_ms :: u64
  bbs_account_type :: string
  bbs_can_trade :: bool
  bbs_balances :: "(string, binance_asset_balance) btmap"

record wallet_token_balance =
  wtb_symbol :: string
  wtb_contract :: address
  wtb_base_units :: u256

record wallet_balance_snapshot =
  wbs_owner :: address
  wbs_chain_id :: u64
  wbs_block_number :: u64
  wbs_block_hash :: b256
  wbs_token_balances :: "wallet_token_balance list"

record network_information =
  net_network :: string
  net_name :: string
  net_deposit_enable :: bool
  net_withdraw_enable :: bool
  net_busy :: bool
  net_withdraw_fee :: decimal
  net_withdraw_min :: decimal
  net_withdraw_max :: decimal
  net_withdraw_integer_multiple :: decimal

record capital_route_state =
  cap_coin :: string
  cap_deposit_all_enabled :: bool
  cap_withdrawal_all_enabled :: bool
  cap_direct :: "network_information option"
  cap_fallback :: "network_information option"

definition binance_healthy :: "binance_balance_snapshot \<Rightarrow> bool" where
  "binance_healthy b = (bbs_account_type b = ''SPOT'' \<and> bbs_can_trade b)"

definition deposit_available :: "network_information \<Rightarrow> bool" where
  "deposit_available n = (net_deposit_enable n \<and> \<not> net_busy n)"

definition withdrawal_available :: "network_information \<Rightarrow> bool" where
  "withdrawal_available n = (net_withdraw_enable n \<and> \<not> net_busy n)"

section \<open>Decimals as base units\<close>

fun pow10_loop :: "nat \<Rightarrow> u256 \<Rightarrow> u256 result" where
  "pow10_loop 0 acc = Inr acc"
| "pow10_loop (Suc n) acc =
     bind_res (context_opt (checked_mul acc 10) ''decimal scale overflow'') (pow10_loop n)"

definition pow10 :: "u32 \<Rightarrow> u256 result" where
  "pow10 exponent = pow10_loop (unat exponent) 1"

function u256_gcd :: "u256 \<Rightarrow> u256 \<Rightarrow> u256" where
  "u256_gcd left right = (if right = 0 then left else u256_gcd right (left mod right))"
  by pat_completeness auto
termination
  by (relation "measure (\<lambda>(l, r). unat r)") (auto simp: unat_mod unat_gt_0)

text \<open>\<open>U256::from(mantissa as u128)\<close>.\<close>

definition mantissa_units :: "decimal \<Rightarrow> u256" where
  "mantissa_units v = ucast (word_of_int (mantissa v) :: u128)"

definition decimal_to_base_units :: "(decimal \<Rightarrow> bool) \<Rightarrow> decimal \<Rightarrow> u8 \<Rightarrow> u256 result" where
  "decimal_to_base_units ge_zero v decimals =
     ensure (ge_zero v) ''decimal amount must not be negative''
     (ensure (mantissa v \<ge> 0) ''decimal mantissa must not be negative''
     (bind_res (pow10 (ucast decimals)) (\<lambda>p.
      bind_res (context_opt (checked_mul (mantissa_units v) p)
                  ''decimal base-unit numerator overflow'') (\<lambda>numerator.
      bind_res (pow10 (scale v)) (\<lambda>denominator.
      ensure (numerator mod denominator = 0)
        ''decimal amount has more precision than token base units''
      (Inr (numerator div denominator)))))))"

definition decimal_to_base_units_floor :: "(decimal \<Rightarrow> bool) \<Rightarrow> decimal \<Rightarrow> u8 \<Rightarrow> u256 result" where
  "decimal_to_base_units_floor ge_zero v decimals =
     ensure (ge_zero v) ''decimal balance must not be negative''
     (ensure (mantissa v \<ge> 0) ''decimal mantissa must not be negative''
     (bind_res (pow10 (ucast decimals)) (\<lambda>p.
      bind_res (context_opt (checked_mul (mantissa_units v) p)
                  ''decimal balance base-unit numerator overflow'') (\<lambda>numerator.
      bind_res (pow10 (scale v)) (\<lambda>denominator.
      Inr (numerator div denominator))))))"

definition decimal_multiple_to_base_unit_step ::
  "(decimal \<Rightarrow> bool) \<Rightarrow> decimal \<Rightarrow> u8 \<Rightarrow> u256 result" where
  "decimal_multiple_to_base_unit_step ge_zero v decimals =
     ensure (ge_zero v) ''decimal multiple must not be negative''
     (ensure (mantissa v \<ge> 0) ''decimal mantissa must not be negative''
     (if mantissa v = 0 then Inr 1
      else
        bind_res (pow10 (ucast decimals)) (\<lambda>p.
        bind_res (context_opt (checked_mul (mantissa_units v) p)
                    ''decimal multiple base-unit numerator overflow'') (\<lambda>numerator.
        bind_res (pow10 (scale v)) (\<lambda>denominator.
        Inr (numerator div u256_gcd numerator denominator))))))"

section \<open>Routes from the capital state\<close>

definition optimism_chain_id :: u64 where
  "optimism_chain_id = 10"

definition route_candidate_of ::
  "(decimal \<Rightarrow> bool) \<Rightarrow> capital_route_state \<Rightarrow> network_information \<Rightarrow> route \<Rightarrow> u8 \<Rightarrow> bool \<Rightarrow>
   route_candidate result" where
  "route_candidate_of ge_zero capital network r token_decimals across =
     bind_res (decimal_multiple_to_base_unit_step ge_zero (net_withdraw_integer_multiple network)
                 token_decimals) (\<lambda>multiple.
     bind_res (decimal_to_base_units ge_zero (net_withdraw_min network) token_decimals) (\<lambda>minimum.
     bind_res (decimal_to_base_units ge_zero (net_withdraw_max network) token_decimals) (\<lambda>maximum.
     Inr \<lparr>rc_route = r,
          rc_binance_deposit_enabled = (cap_deposit_all_enabled capital \<and> deposit_available network),
          rc_binance_withdrawal_enabled =
            (cap_withdrawal_all_enabled capital \<and> withdrawal_available network),
          rc_across_wallet_to_bridge_enabled = across,
          rc_across_bridge_to_wallet_enabled = across,
          rc_withdrawal = \<lparr>wr_minimum = minimum, wr_maximum = maximum, wr_multiple = multiple\<rparr>\<rparr>)))"

definition route_candidates_from_capital ::
  "(decimal \<Rightarrow> bool) \<Rightarrow> capital_route_state \<Rightarrow> u8 \<Rightarrow> u64 \<Rightarrow> route_candidate list result" where
  "route_candidates_from_capital ge_zero capital token_decimals wallet_chain =
     bind_res
       (case cap_direct capital of
          None \<Rightarrow> Inr []
        | Some network \<Rightarrow>
            bind_res (route_candidate_of ge_zero capital network
                        (Direct (net_network network) wallet_chain) token_decimals False)
              (\<lambda>c. Inr [c])) (\<lambda>routes.
     bind_res
       (case cap_fallback capital of
          None \<Rightarrow> Inr routes
        | Some network \<Rightarrow>
            bind_res (route_candidate_of ge_zero capital network
                        (Across (net_network network) optimism_chain_id wallet_chain)
                        token_decimals True)
              (\<lambda>c. Inr (routes @ [c]))) (\<lambda>routes.
     ensure (routes \<noteq> []) (cap_coin capital @ '' has no rebalance routes'') (Inr routes)))"

section \<open>The tracker\<close>

definition tracker_disabled :: rebalance_tracker where
  "tracker_disabled = \<lparr>tr_enabled = False, tr_tokens = [], tr_balanced = True\<rparr>"

definition new_token ::
  "pair_config \<Rightarrow> (string, route_candidate list) btmap \<Rightarrow> token_config \<Rightarrow> token_tracker result" where
  "new_token pair routes token =
     bind_res (context_opt (bt_get routes (tok_symbol token))
                 (''missing rebalance routes for '' @ tok_symbol token)) (\<lambda>token_routes.
     ensure (token_routes \<noteq> [])
       (''rebalance routes for '' @ tok_symbol token @ '' are empty'')
     (Inr \<lparr>tt_symbol = tok_symbol token, tt_decimals = tok_decimals token,
           tt_start_threshold_bps = reb_start_threshold_bps (pair_rebalance pair),
           tt_routes = token_routes, tt_policy = None, tt_last_plan = None\<rparr>))"

definition new_for_tokens ::
  "pair_config \<Rightarrow> (string, route_candidate list) btmap \<Rightarrow> string list \<Rightarrow> rebalance_tracker result" where
  "new_for_tokens pair routes symbols =
     (if \<not> reb_enabled (pair_rebalance pair) then Inr tracker_disabled
      else let selected = bts_of_list symbols in
        ensure (\<not> bt_is_empty selected) ''rebalance token selection is empty''
        (bind_res
          (for_each (\<lambda>token acc. bind_res (new_token pair routes token) (\<lambda>t. Inr (acc @ [t])))
             (filter (\<lambda>token. bt_contains selected (tok_symbol token))
                [pair_token_a pair, pair_token_b pair]) [])
          (\<lambda>tokens.
           ensure (length tokens = bt_len selected)
             (''rebalance token selection contains an asset outside pair '' @ pair_id pair)
           (Inr \<lparr>tr_enabled = True, tr_tokens = tokens, tr_balanced = False\<rparr>))))"

definition tracker_new ::
  "pair_config \<Rightarrow> (string, route_candidate list) btmap \<Rightarrow> rebalance_tracker result" where
  "tracker_new pair routes =
     new_for_tokens pair routes [tok_symbol (pair_token_a pair), tok_symbol (pair_token_b pair)]"

definition token_snapshot ::
  "(decimal \<Rightarrow> bool) \<Rightarrow> token_tracker \<Rightarrow> binance_balance_snapshot \<Rightarrow> wallet_balance_snapshot \<Rightarrow>
   balance_snapshot result" where
  "token_snapshot ge_zero token binance wallet =
     bind_res (context_opt (bt_get (bbs_balances binance) (tt_symbol token))
                 (''Binance balance snapshot is missing '' @ tt_symbol token)) (\<lambda>binance_balance.
     bind_res (context_opt (find (\<lambda>b. wtb_symbol b = tt_symbol token) (wbs_token_balances wallet))
                 (''wallet balance snapshot is missing '' @ tt_symbol token)) (\<lambda>wallet_balance.
     bind_res (decimal_to_base_units_floor ge_zero (free binance_balance) (tt_decimals token)) (\<lambda>b.
     Inr \<lparr>bal_binance = b, bal_wallet = wtb_base_units wallet_balance\<rparr>)))"

text \<open>The first observation of a token fixes its policy.\<close>

definition capture_reference :: "token_tracker \<Rightarrow> balance_snapshot \<Rightarrow> token_tracker result" where
  "capture_reference token snapshot =
     bind_res (context_opt (checked_add (bal_binance snapshot) (bal_wallet snapshot))
                 (tt_symbol token @ '' reference inventory overflow'')) (\<lambda>reference.
     ensure (reference \<noteq> 0) (tt_symbol token @ '' reference inventory is zero'')
     (Inr (token\<lparr>tt_policy :=
        Some \<lparr>pol_token_symbol = tt_symbol token, pol_reference_inventory = reference,
              pol_start_threshold_bps = tt_start_threshold_bps token,
              pol_routes = tt_routes token\<rparr>\<rparr>)))"

text \<open>
  One iteration of the loop of \<open>evaluate\<close>: the token after it, whatever the outcome, and the
  evaluation to report together with the token's contribution to the balanced flag.
\<close>

definition evaluate_token ::
  "(decimal \<Rightarrow> bool) \<Rightarrow> binance_balance_snapshot \<Rightarrow> wallet_balance_snapshot \<Rightarrow> token_tracker \<Rightarrow>
   token_tracker \<times> (rebalance_evaluation list \<times> bool) result" where
  "evaluate_token ge_zero binance wallet token =
     (case token_snapshot ge_zero token binance wallet of
        Inl e \<Rightarrow> (token, Inl e)
      | Inr snapshot \<Rightarrow>
          let reference_captured = (tt_policy token = None) in
          case (if reference_captured then capture_reference token snapshot else Inr token) of
            Inl e \<Rightarrow> (token, Inl e)
          | Inr token' \<Rightarrow>
              (case tt_policy token' of
                 None \<Rightarrow> (token', Inl (Panic ''policy initialized above''))
               | Some policy \<Rightarrow>
                   (case plan_rebalance policy snapshot [] of
                      Inl e \<Rightarrow> (token', Inl e)
                    | Inr plan \<Rightarrow>
                        if tt_last_plan token' \<noteq> Some plan \<or> reference_captured
                        then (token'\<lparr>tt_last_plan := Some plan\<rparr>,
                              Inr ([\<lparr>ev_token_symbol = tt_symbol token',
                                     ev_token_decimals = tt_decimals token',
                                     ev_reference_captured = reference_captured,
                                     ev_plan = plan\<rparr>], plan_action plan = None))
                        else (token', Inr ([], plan_action plan = None)))))"

fun evaluate_tokens ::
  "(decimal \<Rightarrow> bool) \<Rightarrow> binance_balance_snapshot \<Rightarrow> wallet_balance_snapshot \<Rightarrow> token_tracker list \<Rightarrow>
   token_tracker list \<times> (rebalance_evaluation list \<times> bool) result" where
  "evaluate_tokens ge_zero binance wallet [] = ([], Inr ([], True))"
| "evaluate_tokens ge_zero binance wallet (token # tokens) =
     (case evaluate_token ge_zero binance wallet token of
        (token', Inl e) \<Rightarrow> (token' # tokens, Inl e)
      | (token', Inr (evs, b)) \<Rightarrow>
          (case evaluate_tokens ge_zero binance wallet tokens of
             (tokens', Inl e) \<Rightarrow> (token' # tokens', Inl e)
           | (tokens', Inr (evs', b')) \<Rightarrow> (token' # tokens', Inr (evs @ evs', b \<and> b'))))"

definition evaluate ::
  "(decimal \<Rightarrow> bool) \<Rightarrow> binance_balance_snapshot \<Rightarrow> wallet_balance_snapshot \<Rightarrow> rebalance_tracker \<Rightarrow>
   rebalance_tracker \<times> rebalance_evaluation list result" where
  "evaluate ge_zero binance wallet tr =
     (if \<not> tr_enabled tr then (tr, Inr [])
      else case evaluate_tokens ge_zero binance wallet (tr_tokens tr) of
        (tokens, Inl e) \<Rightarrow> (tr\<lparr>tr_tokens := tokens\<rparr>, Inl e)
      | (tokens, Inr (evs, b)) \<Rightarrow> (tr\<lparr>tr_tokens := tokens, tr_balanced := b\<rparr>, Inr evs))"

definition mark_unbalanced :: "rebalance_tracker \<Rightarrow> rebalance_tracker" where
  "mark_unbalanced tr = (if tr_enabled tr then tr\<lparr>tr_balanced := False\<rparr> else tr)"

definition pending_action_excluding ::
  "rebalance_tracker \<Rightarrow> string btset \<Rightarrow> rebalance_evaluation option" where
  "pending_action_excluding tr blocked_tokens =
     find_map (\<lambda>token.
       if bt_contains blocked_tokens (tt_symbol token) then None
       else case tt_last_plan token of
         None \<Rightarrow> None
       | Some plan \<Rightarrow>
           (case plan_action plan of
              None \<Rightarrow> None
            | Some _ \<Rightarrow> Some \<lparr>ev_token_symbol = tt_symbol token, ev_token_decimals = tt_decimals token,
                               ev_reference_captured = False, ev_plan = plan\<rparr>)) (tr_tokens tr)"

definition pending_action :: "rebalance_tracker \<Rightarrow> rebalance_evaluation option" where
  "pending_action tr = pending_action_excluding tr bt_empty"

text \<open>
  The calls of the adapter \<open>V12RebalanceParityAdapter\<close>, which forwards each of them to the tracker.
\<close>

datatype tracker_op =
    Evaluate binance_balance_snapshot wallet_balance_snapshot
  | MarkUnbalanced

fun tracker_step :: "(decimal \<Rightarrow> bool) \<Rightarrow> tracker_op \<Rightarrow> rebalance_tracker \<Rightarrow> rebalance_tracker" where
  "tracker_step ge_zero (Evaluate b w) tr = fst (evaluate ge_zero b w tr)"
| "tracker_step ge_zero MarkUnbalanced tr = mark_unbalanced tr"

declare u256_gcd.simps [simp del]

section \<open>Lemmas on decimals\<close>

lemma pow10_loop_Inr: "pow10_loop n acc = Inr p \<longleftrightarrow> unat p = unat acc * 10 ^ n"
proof (induction n arbitrary: acc)
  case 0
  show ?case by (auto simp: word_unat_eq_iff)
next
  case (Suc n)
  show ?case
  proof
    assume "pow10_loop (Suc n) acc = Inr p"
    then show "unat p = unat acc * 10 ^ Suc n"
      by (auto simp: Suc.IH checked_simps)
  next
    assume eq: "unat p = unat acc * 10 ^ Suc n"
    have "unat acc * 10 \<le> unat p" unfolding eq by simp
    also have "unat p < 2 ^ 256" using unat_lt [of p] by simp
    finally have lt: "unat acc * 10 < 2 ^ 256" .
    then have "unat (acc * 10) = unat acc * 10"
      by (simp add: unat_word_ariths)
    with lt eq show "pow10_loop (Suc n) acc = Inr p"
      by (simp add: Suc.IH checked_mul_def)
  qed
qed

lemma pow10_Inr: "pow10 e = Inr p \<longleftrightarrow> unat p = 10 ^ unat e"
  by (simp add: pow10_def pow10_loop_Inr)

lemma pow10_ok: "unat e \<le> 77 \<Longrightarrow> \<exists>p. pow10 e = Inr p \<and> unat p = 10 ^ unat e"
proof -
  assume "unat e \<le> 77"
  then have "(10::nat) ^ unat e \<le> 10 ^ 77" by (rule power_increasing) simp
  also have "\<dots> < 2 ^ 256" by simp
  finally have lt: "(10::nat) ^ unat e < 2 ^ LENGTH(256)" by simp
  have "unat (word_of_nat (10 ^ unat e) :: u256) = 10 ^ unat e"
    unfolding unsigned_of_nat take_bit_nat_eq_self [OF lt] by simp
  then show ?thesis unfolding pow10_Inr by blast
qed

lemma u256_gcd_correct: "unat (u256_gcd a b) = gcd (unat a) (unat b)"
proof (induction a b rule: u256_gcd.induct)
  case (1 left right)
  show ?case
  proof (cases "right = 0")
    case True
    then show ?thesis by (subst u256_gcd.simps) simp
  next
    case False
    then have "unat (u256_gcd left right) = gcd (unat right) (unat left mod unat right)"
      using 1 by (subst u256_gcd.simps) (simp add: unat_mod)
    also have "\<dots> = gcd (unat left) (unat right)"
      by (metis gcd.commute gcd_red_nat)
    finally show ?thesis .
  qed
qed

lemma mantissa_units:
  assumes "0 \<le> mantissa v" "mantissa v < 2 ^ 127"
  shows "unat (mantissa_units v) = nat (mantissa v)"
proof -
  have "unat (word_of_int (mantissa v) :: u128) = nat (mantissa v)"
    using assms by (simp add: unsigned_of_int take_bit_int_eq_self)
  then show ?thesis
    using unat_lt [of "word_of_int (mantissa v) :: u128"]
    by (simp add: mantissa_units_def unsigned_ucast_eq take_bit_nat_eq_self)
qed

lemma unat_u8_u32 [simp]: "unat (ucast (d :: u8) :: u32) = unat d"
  using unat_lt [of d] by (simp add: unsigned_ucast_eq take_bit_nat_eq_self)

lemma div_gcd_dvd_iff:
  fixes n q a :: nat
  assumes "gcd n q \<noteq> 0"
  shows "n div gcd n q dvd a \<longleftrightarrow> n dvd a * q"
proof -
  let ?g = "gcd n q"
  have n: "n = n div ?g * ?g" and q: "q = q div ?g * ?g" by simp_all
  have "coprime (n div ?g) (q div ?g)" using assms by (intro div_gcd_coprime) auto
  then have "n div ?g dvd a \<longleftrightarrow> n div ?g dvd a * (q div ?g)"
    by (simp add: coprime_dvd_mult_left_iff)
  also have "\<dots> \<longleftrightarrow> n div ?g * ?g dvd a * (q div ?g) * ?g"
    by (rule dvd_times_right_cancel_iff [OF assms, symmetric])
  also have "\<dots> \<longleftrightarrow> n dvd a * q"
    by (metis n q mult.assoc)
  finally show ?thesis .
qed

lemma to_base_units_Inr:
  assumes "decimal_to_base_units gz v d = Inr x" and "mantissa v < 2 ^ 127"
  shows "unat x * 10 ^ unat (scale v) = nat (mantissa v) * 10 ^ unat d"
proof -
  from assms(1) obtain p n q where nn: "0 \<le> mantissa v" and p: "pow10 (ucast d) = Inr p"
    and n: "checked_mul (mantissa_units v) p = Some n"
    and q: "pow10 (scale v) = Inr q" and dvd: "n mod q = 0" and x: "n div q = x"
    unfolding decimal_to_base_units_def ensure_Inr bind_res_Inr context_opt_Inr sum.inject by metis
  have "unat n = nat (mantissa v) * 10 ^ unat d"
    using n p mantissa_units [OF nn assms(2)] by (simp add: checked_simps pow10_Inr)
  moreover have "unat n mod unat q = 0" using arg_cong [OF dvd, of unat] unfolding unat_mod by simp
  ultimately show ?thesis using q x by (auto simp: unat_div pow10_Inr)
qed

lemma to_base_units_floor_Inr:
  assumes "decimal_to_base_units_floor gz v d = Inr x" and "mantissa v < 2 ^ 127"
  shows "unat x = nat (mantissa v) * 10 ^ unat d div 10 ^ unat (scale v)"
proof -
  from assms(1) obtain p n q where nn: "0 \<le> mantissa v" and p: "pow10 (ucast d) = Inr p"
    and n: "checked_mul (mantissa_units v) p = Some n"
    and q: "pow10 (scale v) = Inr q" and x: "x = n div q"
    by (auto simp: decimal_to_base_units_floor_def)
  have "unat n = nat (mantissa v) * 10 ^ unat d"
    using n p mantissa_units [OF nn assms(2)] by (simp add: checked_simps pow10_Inr unat_u8_u32)
  with q x show ?thesis by (simp add: unat_div pow10_Inr)
qed

lemma base_units_numerator:
  assumes "0 \<le> mantissa v" "mantissa v < 2 ^ 96" "unat (d :: u8) \<le> 36"
  shows "\<exists>p n. pow10 (ucast d) = Inr p \<and> checked_mul (mantissa_units v) p = Some n \<and>
    unat n = nat (mantissa v) * 10 ^ unat d"
proof -
  obtain p where p: "pow10 (ucast d) = Inr p" "unat p = 10 ^ unat d"
    using pow10_ok [of "ucast d"] assms(3) by (auto simp: unat_u8_u32)
  have m: "unat (mantissa_units v) = nat (mantissa v)"
    using assms(1,2) by (simp add: mantissa_units)
  have "nat (mantissa v) < 2 ^ 96" using assms(1,2) by (simp add: nat_less_iff)
  moreover have "(10::nat) ^ unat d \<le> 10 ^ 36" using assms(3) by (intro power_increasing) simp_all
  ultimately have "nat (mantissa v) * 10 ^ unat d < 2 ^ 96 * 10 ^ 36"
    by (intro mult_less_le_imp_less) simp_all
  also have "\<dots> < 2 ^ 256" by simp
  finally obtain n where "checked_mul (mantissa_units v) p = Some n"
    using m p by (simp add: checked_mul_def)
  with p m show ?thesis by (auto simp: checked_simps)
qed

lemma step_Inr:
  assumes "decimal_multiple_to_base_unit_step gz v d = Inr s"
    and "mantissa v \<noteq> 0" and "mantissa v < 2 ^ 127"
  shows "unat s dvd a \<longleftrightarrow> nat (mantissa v) * 10 ^ unat d dvd a * 10 ^ unat (scale v)" and "s \<noteq> 0"
proof -
  from assms(1,2) obtain p n q where nn: "0 \<le> mantissa v" and p: "pow10 (ucast d) = Inr p"
    and n: "checked_mul (mantissa_units v) p = Some n"
    and q: "pow10 (scale v) = Inr q" and s: "s = n div u256_gcd n q"
    by (auto simp: decimal_multiple_to_base_unit_step_def)
  have un: "unat n = nat (mantissa v) * 10 ^ unat d"
    using n p mantissa_units [OF nn assms(3)] by (simp add: checked_simps pow10_Inr unat_u8_u32)
  have uq: "unat q = 10 ^ unat (scale v)" using q by (simp add: pow10_Inr)
  have us: "unat s = unat n div gcd (unat n) (unat q)"
    by (simp add: s unat_div u256_gcd_correct)
  have "gcd (unat n) (unat q) \<noteq> 0" using uq by simp
  then have "unat s dvd a \<longleftrightarrow> unat n dvd a * unat q"
    unfolding us by (metis div_gcd_dvd_iff mult.commute)
  then show "unat s dvd a \<longleftrightarrow> nat (mantissa v) * 10 ^ unat d dvd a * 10 ^ unat (scale v)"
    by (simp add: un uq)
  have "unat n \<noteq> 0" using un nn assms(2) by simp
  then have "unat s \<noteq> 0" unfolding us by (simp add: dvd_div_eq_0_iff)
  then show "s \<noteq> 0" by auto
qed

section \<open>Lemmas on the tracker\<close>

lemma capture_reference_Inr:
  assumes "capture_reference t s = Inr t'"
  obtains p where "t' = t\<lparr>tt_policy := Some p\<rparr>" "pol_token_symbol p = tt_symbol t"
    "unat (pol_reference_inventory p) = unat (bal_binance s) + unat (bal_wallet s)"
    "pol_reference_inventory p \<noteq> 0" "pol_routes p = tt_routes t"
  using assms by (auto simp: capture_reference_def checked_simps)

lemma evaluate_token_frame:
  "tt_symbol (fst (evaluate_token gz b w t)) = tt_symbol t"
  "tt_decimals (fst (evaluate_token gz b w t)) = tt_decimals t"
  "tt_policy t = Some p \<Longrightarrow> tt_policy (fst (evaluate_token gz b w t)) = Some p"
  by (auto simp: evaluate_token_def Let_def capture_reference_def split: sum.split option.split)

lemma evaluate_token_ok:
  assumes "evaluate_token gz b w t = (t', Inr (evs, ok))"
  obtains s p plan where "token_snapshot gz t b w = Inr s" "tt_policy t' = Some p"
    "plan_rebalance p s [] = Inr plan" "tt_last_plan t' = Some plan" "ok = (plan_action plan = None)"
    "tt_policy t = None \<longrightarrow>
       unat (pol_reference_inventory p) = unat (bal_binance s) + unat (bal_wallet s)"
  using assms
  by (auto simp: evaluate_token_def Let_def split: sum.splits option.splits if_splits
      elim!: capture_reference_Inr)

lemma evaluate_token_never_panics: "\<not> panics (snd (evaluate_token gz b w t))"
proof -
  have p10: "pow10_loop n acc \<noteq> Inl (Panic m)" for n acc m
    by (induction n arbitrary: acc) (auto simp: res_simps)
  have snap: "token_snapshot gz t b w \<noteq> Inl (Panic m)" for m
    by (auto simp: token_snapshot_def decimal_to_base_units_floor_def pow10_def res_simps p10)
  have cap: "capture_reference t s \<noteq> Inl (Panic m)" for s m
    by (auto simp: capture_reference_def res_simps)
  have plan: "plan_rebalance p s [] \<noteq> Inl (Panic m)" for p s m
    using plan_total [of p s "[]"] by (auto simp: panics_iff)
  show ?thesis
    using snap cap plan unfolding panics_iff
    by (auto simp: evaluate_token_def Let_def split: sum.splits option.splits if_splits
        elim!: capture_reference_Inr)
qed

lemma evaluate_tokens_ok:
  assumes "evaluate_tokens gz b w ts = (ts', Inr (evs, ok))"
  shows "(ok \<longleftrightarrow> (\<forall>t \<in> set ts'. \<forall>plan. tt_last_plan t = Some plan \<longrightarrow> plan_action plan = None)) \<and>
    list_all2 (\<lambda>t t'. tt_symbol t' = tt_symbol t \<and> (\<exists>s p plan. token_snapshot gz t b w = Inr s \<and>
      tt_policy t' = Some p \<and> (tt_policy t = None \<or> tt_policy t = Some p) \<and>
      (tt_policy t = None \<longrightarrow>
         unat (pol_reference_inventory p) = unat (bal_binance s) + unat (bal_wallet s)) \<and>
      plan_rebalance p s [] = Inr plan \<and> tt_last_plan t' = Some plan)) ts ts'"
  using assms
proof (induction ts arbitrary: ts' evs ok)
  case Nil
  then show ?case by simp
next
  case (Cons t ts)
  from Cons.prems obtain t' e1 ok1 ts1 e2 ok2 where
    t: "evaluate_token gz b w t = (t', Inr (e1, ok1))" and
    ts: "evaluate_tokens gz b w ts = (ts1, Inr (e2, ok2))" and
    eq: "ts' = t' # ts1" "ok = (ok1 \<and> ok2)"
    by (auto split: prod.splits sum.splits)
  from t obtain s p plan where f: "token_snapshot gz t b w = Inr s" "tt_policy t' = Some p"
    "plan_rebalance p s [] = Inr plan" "tt_last_plan t' = Some plan" "ok1 = (plan_action plan = None)"
    "tt_policy t = None \<longrightarrow>
       unat (pol_reference_inventory p) = unat (bal_binance s) + unat (bal_wallet s)"
    by (rule evaluate_token_ok) (rule that)
  have "tt_policy t = None \<or> tt_policy t = Some p" "tt_symbol t' = tt_symbol t"
    using evaluate_token_frame [where gz = gz and b = b and w = w and t = t] t f(2) by (cases "tt_policy t"; simp)+
  then show ?case using Cons.IH [OF ts] f eq by auto
qed

lemma evaluate_tokens_keeps_policy:
  assumes "tt_policy (ts ! i) = Some p" "i < length ts"
  shows "i < length (fst (evaluate_tokens gz b w ts))"
    "tt_policy (fst (evaluate_tokens gz b w ts) ! i) = Some p"
  using assms
proof (induction ts arbitrary: i)
  case (Cons t ts)
  {
    case 1
    show ?case using Cons(1) [of "i - 1"] 1
      by (cases i) (auto split: prod.split sum.split)
  next
    case 2
    show ?case using Cons(2) [of "i - 1"] 2 evaluate_token_frame(3) [where gz = gz and b = b and w = w and t = t and p = p]
      by (cases i) (auto split: prod.split sum.split)
  }
qed simp_all

lemma pending_action_None:
  "pending_action tr = None \<longleftrightarrow>
     (\<forall>t \<in> set (tr_tokens tr). \<forall>plan. tt_last_plan t = Some plan \<longrightarrow> plan_action plan = None)"
  by (auto simp: pending_action_def pending_action_excluding_def find_map_None split: option.splits)
    (metis not_None_eq)

text \<open>The documented range of a \<open>Decimal\<close>: a 96-bit mantissa and at most 28 fractional digits.\<close>

definition decimal_wf :: "decimal \<Rightarrow> bool" where
  "decimal_wf v \<longleftrightarrow> \<bar>mantissa v\<bar> < 2 ^ 96 \<and> unat (scale v) \<le> 28"

lemma decimal_wf_range: "decimal_wf v \<Longrightarrow> mantissa v < 2 ^ 127"
  by (auto simp: decimal_wf_def)

definition network_wf :: "network_information \<Rightarrow> bool" where
  "network_wf n \<longleftrightarrow> decimal_wf (net_withdraw_min n) \<and> decimal_wf (net_withdraw_max n) \<and>
     decimal_wf (net_withdraw_integer_multiple n)"

text \<open>The exchange's own withdrawal rules, on decimals, for an amount of base units.\<close>

definition exchange_accepts :: "network_information \<Rightarrow> u8 \<Rightarrow> nat \<Rightarrow> bool" where
  "exchange_accepts n d a \<longleftrightarrow>
     nat (mantissa (net_withdraw_min n)) * 10 ^ unat d \<le> a * 10 ^ unat (scale (net_withdraw_min n)) \<and>
     a * 10 ^ unat (scale (net_withdraw_max n)) \<le> nat (mantissa (net_withdraw_max n)) * 10 ^ unat d \<and>
     (mantissa (net_withdraw_integer_multiple n) = 0 \<or>
      nat (mantissa (net_withdraw_integer_multiple n)) * 10 ^ unat d dvd
        a * 10 ^ unat (scale (net_withdraw_integer_multiple n)))"

lemma route_candidate_accepts:
  assumes c: "route_candidate_of gz cap n r d across = Inr c" and wf: "network_wf n"
    and amount: "wr_minimum (rc_withdrawal c) \<le> a" "a \<le> wr_maximum (rc_withdrawal c)"
      "unat (wr_multiple (rc_withdrawal c)) dvd unat a"
  shows "exchange_accepts n d (unat a)"
proof -
  let ?w = "rc_withdrawal c"
  from c have step: "decimal_multiple_to_base_unit_step gz (net_withdraw_integer_multiple n) d = Inr (wr_multiple ?w)"
    and lo: "decimal_to_base_units gz (net_withdraw_min n) d = Inr (wr_minimum ?w)"
    and hi: "decimal_to_base_units gz (net_withdraw_max n) d = Inr (wr_maximum ?w)"
    by (auto simp: route_candidate_of_def)
  from wf have r: "mantissa (net_withdraw_integer_multiple n) < 2 ^ 127"
    "mantissa (net_withdraw_min n) < 2 ^ 127" "mantissa (net_withdraw_max n) < 2 ^ 127"
    by (auto simp: network_wf_def dest: decimal_wf_range)
  have "unat (wr_minimum ?w) * 10 ^ unat (scale (net_withdraw_min n)) \<le>
      unat a * 10 ^ unat (scale (net_withdraw_min n))"
    using amount(1) by (simp add: word_le_nat_alt)
  moreover have "unat a * 10 ^ unat (scale (net_withdraw_max n)) \<le>
      unat (wr_maximum ?w) * 10 ^ unat (scale (net_withdraw_max n))"
    using amount(2) by (simp add: word_le_nat_alt)
  moreover have "mantissa (net_withdraw_integer_multiple n) = 0 \<or>
      nat (mantissa (net_withdraw_integer_multiple n)) * 10 ^ unat d dvd
        unat a * 10 ^ unat (scale (net_withdraw_integer_multiple n))"
    using step_Inr(1) [OF step _ r(1)] amount(3) by blast
  ultimately show ?thesis
    by (simp add: exchange_accepts_def to_base_units_Inr [OF lo r(2)] to_base_units_Inr [OF hi r(3)])
qed

lemma route_candidates_from_capital_Inr:
  assumes "route_candidates_from_capital gz cap d chain = Inr routes" and "c \<in> set routes"
  shows "\<exists>n across. (cap_direct cap = Some n \<and> rc_route c = Direct (net_network n) chain \<or>
      cap_fallback cap = Some n \<and> rc_route c = Across (net_network n) 10 chain) \<and>
    route_candidate_of gz cap n (rc_route c) d across = Inr c"
proof -
  have route: "rc_route c = r" if "route_candidate_of gz cap n r d across = Inr c" for n r across
    using that by (auto simp: route_candidate_of_def)
  from assms consider n where "cap_direct cap = Some n"
      "route_candidate_of gz cap n (Direct (net_network n) chain) d False = Inr c"
    | n where "cap_fallback cap = Some n"
      "route_candidate_of gz cap n (Across (net_network n) 10 chain) d True = Inr c"
    by (auto simp: route_candidates_from_capital_def optimism_chain_id_def split: option.splits)
  then show ?thesis
  proof cases
    case (1 n)
    then show ?thesis using route [OF 1(2)] by metis
  next
    case (2 n)
    then show ?thesis using route [OF 2(2)] by metis
  qed
qed

section \<open>Properties\<close>

text \<open>
  (C9) A successful evaluation leaves the tracker consistent with the observation it was given:
  every token's recorded plan is the plan for its present balances under its captured policy, a
  token seen for the first time takes the observed total as its reference, and the tracker reports
  balanced exactly when no transfer is pending.
\<close>

theorem evaluate_consistent:
  assumes "evaluate gz b w tr = (tr', Inr evs)" and "tr_enabled tr"
  shows "(tr_balanced tr' \<longleftrightarrow> pending_action tr' = None) \<and>
    list_all2 (\<lambda>t t'. tt_symbol t' = tt_symbol t \<and> (\<exists>s p plan. token_snapshot gz t b w = Inr s \<and>
      tt_policy t' = Some p \<and> (tt_policy t = None \<or> tt_policy t = Some p) \<and>
      (tt_policy t = None \<longrightarrow>
         unat (pol_reference_inventory p) = unat (bal_binance s) + unat (bal_wallet s)) \<and>
      plan_rebalance p s [] = Inr plan \<and> tt_last_plan t' = Some plan)) (tr_tokens tr) (tr_tokens tr')"
proof -
  from assms obtain ts ok where ev: "evaluate_tokens gz b w (tr_tokens tr) = (ts, Inr (evs, ok))"
    and tr': "tr' = tr\<lparr>tr_tokens := ts, tr_balanced := ok\<rparr>"
    by (auto simp: evaluate_def split: prod.splits sum.splits)
  from evaluate_tokens_ok [OF ev] show ?thesis by (simp add: tr' pending_action_None)
qed

text \<open>
  The reference inventory is captured once: whatever evaluations follow, failing ones
  included, a token's policy never changes after it was set.
\<close>

lemma reference_captured_once:
  assumes "i < length (tr_tokens tr)" and "tt_policy (tr_tokens tr ! i) = Some p"
  shows "i < length (tr_tokens (fold (tracker_step gz) ops tr)) \<and>
    tt_policy (tr_tokens (fold (tracker_step gz) ops tr) ! i) = Some p"
  using assms
proof (induction ops arbitrary: tr)
  case (Cons e ops)
  have "i < length (tr_tokens (tracker_step gz e tr)) \<and>
      tt_policy (tr_tokens (tracker_step gz e tr) ! i) = Some p"
    using Cons.prems evaluate_tokens_keeps_policy [where ts = "tr_tokens tr" and i = i and p = p]
    by (cases e) (auto simp: evaluate_def mark_unbalanced_def split: prod.splits sum.splits,
        (metis fst_conv)+)
  then show ?case using Cons.IH by simp
qed simp

text \<open>
  Conversion of exchange decimals to base units is exact: it returns the one amount equal to
  the decimal when there is one, rejects a decimal with more precision than the token, and a
  balance is rounded down to whole base units.  The hypotheses are the documented range of the
  decimal library and the meaning of its comparison with zero.
\<close>

lemma decimal_conversion_exact:
  assumes wf: "decimal_wf v" and dec: "unat d \<le> 36" and cmp: "gz v \<longleftrightarrow> 0 \<le> mantissa v"
    and nn: "0 \<le> mantissa v"
  shows "(\<exists>x. decimal_to_base_units_floor gz v d = Inr x \<and>
            unat x = nat (mantissa v) * 10 ^ unat d div 10 ^ unat (scale v)) \<and>
    (if 10 ^ unat (scale v) dvd nat (mantissa v) * 10 ^ unat d
     then \<exists>x. decimal_to_base_units gz v d = Inr x \<and>
            unat x * 10 ^ unat (scale v) = nat (mantissa v) * 10 ^ unat d
     else decimal_to_base_units gz v d =
            Inl (Bail ''decimal amount has more precision than token base units''))"
proof -
  from wf have range: "mantissa v < 2 ^ 96" "unat (scale v) \<le> 77" by (auto simp: decimal_wf_def)
  obtain p n where p: "pow10 (ucast d) = Inr p" and n: "checked_mul (mantissa_units v) p = Some n"
    and un: "unat n = nat (mantissa v) * 10 ^ unat d"
    using base_units_numerator [OF nn range(1) dec] by blast
  obtain q where q: "pow10 (scale v) = Inr q" and uq: "unat q = 10 ^ unat (scale v)"
    using pow10_ok [OF range(2)] by blast
  have fl: "decimal_to_base_units_floor gz v d = Inr (n div q)"
    using nn cmp p n q by (simp add: decimal_to_base_units_floor_def)
  have mod0: "n mod q = 0 \<longleftrightarrow> 10 ^ unat (scale v) dvd nat (mantissa v) * 10 ^ unat d"
    unfolding word_eq_0_iff_unat unat_mod un uq by (simp add: mod_eq_0_iff_dvd)
  have ex: "decimal_to_base_units gz v d = ensure (n mod q = 0)
      ''decimal amount has more precision than token base units'' (Inr (n div q))"
    using nn cmp p n q by (simp add: decimal_to_base_units_def)
  show ?thesis
    using fl ex mod0 to_base_units_Inr [of gz v d "n div q"] decimal_wf_range [OF wf] un uq
    by (auto simp: unat_div)
qed

text \<open>
  (C8) End to end, a planned withdrawal obeys the exchange: with the routes taken from the capital
  state, its route goes to the wallet's chain over the direct network, or over the fallback network and
  the bridge on chain 10; withdrawals of that same network are open, and the amount lies between its own
  decimal minimum and maximum and is a whole number of its integer multiples.
\<close>

theorem planned_withdrawal_accepted:
  assumes routes: "route_candidates_from_capital gz cap d chain = Inr (pol_routes p)"
    and wf: "\<forall>n. cap_direct cap = Some n \<or> cap_fallback cap = Some n \<longrightarrow> network_wf n"
    and plan: "plan_rebalance p s pending = Inr plan" and act: "plan_action plan = Some a"
    and dir: "act_direction a = BinanceToWallet"
  shows "\<exists>n. (cap_direct cap = Some n \<and> act_route a = Direct (net_network n) chain \<or>
      cap_fallback cap = Some n \<and> act_route a = Across (net_network n) 10 chain) \<and>
    cap_withdrawal_all_enabled cap \<and> withdrawal_available n \<and>
    exchange_accepts n d (unat (act_amount a))"
proof -
  from plan act obtain c where c: "c \<in> set (pol_routes p)" "supports c BinanceToWallet"
    "wr_minimum (rc_withdrawal c) \<le> act_amount a" "act_amount a \<le> wr_maximum (rc_withdrawal c)"
    "unat (wr_multiple (rc_withdrawal c)) dvd unat (act_amount a)" "act_route a = rc_route c"
    by (cases rule: plan_action_cases) (use dir in \<open>auto dest: wallet_refill_amount\<close>)
  from route_candidates_from_capital_Inr [OF routes c(1)] obtain n across where
    n: "cap_direct cap = Some n \<and> act_route a = Direct (net_network n) chain \<or>
      cap_fallback cap = Some n \<and> act_route a = Across (net_network n) 10 chain"
    and rc: "route_candidate_of gz cap n (act_route a) d across = Inr c" unfolding c(6) by blast
  have "exchange_accepts n d (unat (act_amount a))"
    using route_candidate_accepts [OF rc _ c(3-5)] wf n by blast
  moreover have "cap_withdrawal_all_enabled cap \<and> withdrawal_available n"
    using rc c(2) by (auto simp: route_candidate_of_def split: route.splits)
  ultimately show ?thesis using n by blast
qed

section \<open>A concrete observation\<close>

definition demo_ge_zero :: "decimal \<Rightarrow> bool" where
  "demo_ge_zero v = (0 \<le> mantissa v)"

definition demo_token :: token_tracker where
  "demo_token =
     \<lparr>tt_symbol = ''USDC'', tt_decimals = 2, tt_start_threshold_bps = 3000,
      tt_routes = pol_routes demo_policy, tt_policy = None, tt_last_plan = None\<rparr>"

definition demo_tracker :: rebalance_tracker where
  "demo_tracker = \<lparr>tr_enabled = True, tr_tokens = [demo_token], tr_balanced = False\<rparr>"

definition demo_binance :: binance_balance_snapshot where
  "demo_binance =
     \<lparr>bbs_account_update_time_ms = 7, bbs_account_type = ''SPOT'', bbs_can_trade = True,
      bbs_balances = bt_insert ''USDC''
        \<lparr>free = \<lparr>mantissa = 20, scale = 1\<rparr>, locked = \<lparr>mantissa = 0, scale = 0\<rparr>\<rparr> bt_empty\<rparr>"

definition demo_wallet :: wallet_balance_snapshot where
  "demo_wallet =
     \<lparr>wbs_owner = 5, wbs_chain_id = 8453, wbs_block_number = 9, wbs_block_hash = 11,
      wbs_token_balances = [\<lparr>wtb_symbol = ''USDC'', wtb_contract = 3, wtb_base_units = 800\<rparr>]\<rparr>"

lemma pow10_small: "pow10 0 = Inr 1" "pow10 1 = Inr 10" "pow10 2 = Inr 100"
  by (simp_all add: pow10_Inr)

lemma demo_snapshot:
  "tt_symbol t = ''USDC'' \<Longrightarrow> tt_decimals t = 2 \<Longrightarrow>
   token_snapshot demo_ge_zero t demo_binance demo_wallet = Inr \<lparr>bal_binance = 200, bal_wallet = 800\<rparr>"
  by (simp add: token_snapshot_def demo_binance_def demo_wallet_def decimal_to_base_units_floor_def
      demo_ge_zero_def pow10_small mantissa_units_def checked_mul_def)

lemma demo_evaluate:
  "evaluate demo_ge_zero demo_binance demo_wallet demo_tracker =
     (let plan = \<lparr>plan_projected = \<lparr>bal_binance = 200, bal_wallet = 800\<rparr>,
        plan_reference_inventory = 1000, plan_start_balance = 300, plan_binance_target = 500,
        plan_wallet_target = 500, plan_action =
          Some \<lparr>act_direction = WalletToBinance, act_amount = 300, act_route = demo_route\<rparr>\<rparr>
      in (demo_tracker\<lparr>tr_tokens := [demo_token\<lparr>tt_policy := Some demo_policy,
            tt_last_plan := Some plan\<rparr>]\<rparr>,
          Inr [\<lparr>ev_token_symbol = ''USDC'', ev_token_decimals = 2, ev_reference_captured = True,
                ev_plan = plan\<rparr>]))"
proof -
  have snap: "token_snapshot demo_ge_zero demo_token demo_binance demo_wallet =
      Inr \<lparr>bal_binance = 200, bal_wallet = 800\<rparr>"
    by (rule demo_snapshot) (simp_all add: demo_token_def)
  have cap: "capture_reference demo_token \<lparr>bal_binance = 200, bal_wallet = 800\<rparr> =
      Inr (demo_token\<lparr>tt_policy := Some demo_policy\<rparr>)"
    by (simp add: capture_reference_def demo_token_def demo_policy_def checked_add_def)
  have plan: "plan_rebalance demo_policy \<lparr>bal_binance = 200, bal_wallet = 800\<rparr> [] =
      Inr \<lparr>plan_projected = \<lparr>bal_binance = 200, bal_wallet = 800\<rparr>,
        plan_reference_inventory = 1000, plan_start_balance = 300, plan_binance_target = 500,
        plan_wallet_target = 500, plan_action =
          Some \<lparr>act_direction = WalletToBinance, act_amount = 300, act_route = demo_route\<rparr>\<rparr>"
    by (simp add: demo_planner_defs)
  show ?thesis
    by (simp add: evaluate_def demo_tracker_def evaluate_token_def snap cap plan Let_def)
       (simp add: demo_token_def)
qed

theorem evaluate_consistent_witness:
  "\<exists>tr' evs. evaluate demo_ge_zero demo_binance demo_wallet demo_tracker = (tr', Inr evs) \<and>
     (tr_balanced tr' \<longleftrightarrow> pending_action tr' = None) \<and> tt_policy (hd (tr_tokens tr')) \<noteq> None"
proof -
  obtain tr' evs where eq: "evaluate demo_ge_zero demo_binance demo_wallet demo_tracker = (tr', Inr evs)"
    using demo_evaluate unfolding Let_def by blast
  have "tr_enabled demo_tracker" "tr_tokens demo_tracker = [demo_token]" by (simp_all add: demo_tracker_def)
  with evaluate_consistent [OF eq] eq show ?thesis by (auto simp: list_all2_Cons1)
qed

lemma reference_captured_once_example:
  "tt_policy (tr_tokens (fold (tracker_step demo_ge_zero)
       [Evaluate (demo_binance\<lparr>bbs_balances := bt_empty\<rparr>) demo_wallet, MarkUnbalanced,
        Evaluate demo_binance demo_wallet]
       (demo_tracker\<lparr>tr_tokens := [demo_token\<lparr>tt_policy := Some demo_policy\<rparr>]\<rparr>)) ! 0) =
     Some demo_policy"
  by (rule conjunct2 [OF reference_captured_once]) simp_all

lemma decimal_conversion_exact_example:
  "\<exists>x. decimal_to_base_units demo_ge_zero \<lparr>mantissa = 125, scale = 2\<rparr> 6 = Inr x \<and>
     unat x * 100 = 125 * 1000000"
  using decimal_conversion_exact [of "\<lparr>mantissa = 125, scale = 2\<rparr>" 6 demo_ge_zero]
  by (simp add: decimal_wf_def demo_ge_zero_def)

definition demo_network :: network_information where
  "demo_network =
     \<lparr>net_network = ''BASE'', net_name = ''Base'', net_deposit_enable = True,
      net_withdraw_enable = True, net_busy = False, net_withdraw_fee = \<lparr>mantissa = 0, scale = 0\<rparr>,
      net_withdraw_min = \<lparr>mantissa = 1, scale = 1\<rparr>, net_withdraw_max = \<lparr>mantissa = 6, scale = 0\<rparr>,
      net_withdraw_integer_multiple = \<lparr>mantissa = 4, scale = 2\<rparr>\<rparr>"

definition demo_capital :: capital_route_state where
  "demo_capital =
     \<lparr>cap_coin = ''USDC'', cap_deposit_all_enabled = True, cap_withdrawal_all_enabled = True,
      cap_direct = Some demo_network, cap_fallback = None\<rparr>"

lemma u256_gcd_demo: "u256_gcd 400 100 = 100"
  by (simp add: u256_gcd.simps)

lemma demo_routes:
  "route_candidates_from_capital demo_ge_zero demo_capital 2 8453 =
     Inr [\<lparr>rc_route = demo_route, rc_binance_deposit_enabled = True,
       rc_binance_withdrawal_enabled = True, rc_across_wallet_to_bridge_enabled = False,
       rc_across_bridge_to_wallet_enabled = False,
       rc_withdrawal = \<lparr>wr_minimum = 10, wr_maximum = 600, wr_multiple = 4\<rparr>\<rparr>]"
  by (simp add: route_candidates_from_capital_def route_candidate_of_def demo_capital_def
      demo_network_def demo_route_def decimal_multiple_to_base_unit_step_def decimal_to_base_units_def
      demo_ge_zero_def pow10_small mantissa_units_def checked_mul_def u256_gcd_demo
      deposit_available_def withdrawal_available_def)

theorem planned_withdrawal_accepted_witness:
  "\<exists>n. demo_capital = \<lparr>cap_coin = ''USDC'', cap_deposit_all_enabled = True,
      cap_withdrawal_all_enabled = True, cap_direct = Some n, cap_fallback = None\<rparr> \<and>
     demo_route = Direct (net_network n) 8453 \<and> exchange_accepts n 2 400"
proof -
  define p where "p = demo_policy\<lparr>pol_routes := [\<lparr>rc_route = demo_route,
    rc_binance_deposit_enabled = True, rc_binance_withdrawal_enabled = True,
    rc_across_wallet_to_bridge_enabled = False, rc_across_bridge_to_wallet_enabled = False,
    rc_withdrawal = \<lparr>wr_minimum = 10, wr_maximum = 600, wr_multiple = 4\<rparr>\<rparr>]\<rparr>"
  have plan: "plan_rebalance p \<lparr>bal_binance = 1000, bal_wallet = 199\<rparr> [] =
      Inr \<lparr>plan_projected = \<lparr>bal_binance = 1000, bal_wallet = 199\<rparr>,
        plan_reference_inventory = 1000, plan_start_balance = 300, plan_binance_target = 599,
        plan_wallet_target = 600, plan_action =
          Some \<lparr>act_direction = BinanceToWallet, act_amount = 400, act_route = demo_route\<rparr>\<rparr>"
    unfolding p_def by (simp add: demo_planner_defs)
  have "route_candidates_from_capital demo_ge_zero demo_capital 2 8453 = Inr (pol_routes p)"
    by (simp add: demo_routes p_def)
  from planned_withdrawal_accepted [OF this _ plan] show ?thesis
    by (auto simp: demo_capital_def demo_network_def network_wf_def decimal_wf_def)
qed

end
