(* ===== verification/Camelot_Fee.thy ===== *)
theory Camelot_Fee
  imports Complex_Main BTree_Map "HOL-Library.Signed_Division"
begin

text \<open>
  The local projection of Camelot's adaptive fee, \<open>src/src/dex/camelot_fee.rs\<close>: the fee curve (a sum
  of sigmoids over a truncated exponential series), the ring of timepoints it is averaged over, and
  the volume accumulator with its fixed-iteration square root.

  Unsigned values keep their width; the signed ones (\<open>i32\<close> ticks, \<open>i128\<close> cumulatives) are \<open>int\<close>s, with
  \<open>checked_i128\<close> where the source uses a checked operation and \<open>wrap_i128\<close> where it uses the plain
  operator on operands that can exceed the range.  Products and differences of widened \<open>i32\<close> and \<open>u32\<close>
  values cannot leave \<open>i128\<close> and are written plainly.  \<open>sdiv\<close> is Rust's division, rounding to zero.
\<close>

unbundle bit_operations_syntax

section \<open>Machine operations\<close>

definition u256_div :: "u256 \<Rightarrow> u256 \<Rightarrow> u256 result" where
  "u256_div a b = (if b = 0 then Inl (Panic ''divide by zero'') else Inr (a div b))"

text \<open>\<open>u128::isqrt\<close> of the standard library: the integer square root, rounded down.\<close>

fun isqrt :: "nat \<Rightarrow> nat" where
  "isqrt n =
     (if n = 0 then 0
      else let r = 2 * isqrt (n div 4) in if (r + 1) * (r + 1) \<le> n then r + 1 else r)"

declare isqrt.simps [simp del]

section \<open>The fee curve\<close>

record adaptive_fee_configuration =
  afc_alpha1 :: u16
  afc_alpha2 :: u16
  afc_beta1 :: u32
  afc_beta2 :: u32
  afc_gamma1 :: u16
  afc_gamma2 :: u16
  afc_volume_beta :: u32
  afc_volume_gamma :: u16
  afc_base_fee :: u16

definition window_seconds :: u32 where
  "window_seconds = 86400"

definition afc_validate :: "adaptive_fee_configuration \<Rightarrow> adaptive_fee_configuration result" where
  "afc_validate c =
     ensure ((ucast (afc_alpha1 c) :: u32) + ucast (afc_alpha2 c) + ucast (afc_base_fee c) \<le> 65535)
       ''Camelot adaptive fee maximum exceeds uint16''
     (ensure (afc_gamma1 c \<noteq> 0 \<and> afc_gamma2 c \<noteq> 0 \<and> afc_volume_gamma c \<noteq> 0)
       ''Camelot adaptive fee gamma is zero''
     (Inr c))"

definition power_eight :: "u256 \<Rightarrow> u256 result" where
  "power_eight v =
     bind_res (context_opt (checked_mul v v) ''Camelot gamma square overflow'') (\<lambda>squared.
     bind_res (context_opt (checked_mul squared squared) ''Camelot gamma fourth power overflow'') (\<lambda>fourth.
     context_opt (checked_mul fourth fourth) ''Camelot gamma eighth power overflow''))"

text \<open>One pass of the loop over the divisors; the state is \<open>(x_power, gamma_power, result)\<close>.\<close>

definition exp_term :: "u256 \<Rightarrow> u256 \<Rightarrow> u256 \<Rightarrow> u256 \<times> u256 \<times> u256 \<Rightarrow> (u256 \<times> u256 \<times> u256) result" where
  "exp_term x gamma divisor st =
     (case st of (x_power, gamma_power, acc) \<Rightarrow>
        bind_res (u256_div gamma_power gamma) (\<lambda>gamma_power.
        bind_res (context_opt (checked_mul x_power gamma_power)
                    ''Camelot exponential term overflow'') (\<lambda>t.
        bind_res (context_opt (checked_add acc (t div divisor))
                    ''Camelot exponential sum overflow'') (\<lambda>acc.
        bind_res (context_opt (checked_mul x_power x)
                    ''Camelot exponential power overflow'') (\<lambda>x_power.
        Inr (x_power, gamma_power, acc))))))"

definition exp_series :: "u256 \<Rightarrow> u256 \<Rightarrow> u256 \<Rightarrow> u256 result" where
  "exp_series x gamma gamma_eighth =
     bind_res (for_each (exp_term x gamma) [1, 2, 6, 24, 120, 720] (x, gamma_eighth, gamma_eighth))
       (\<lambda>(seventh, gamma_power, acc).
     bind_res (context_opt (checked_mul seventh x)
                 ''Camelot exponential eighth power overflow'') (\<lambda>eighth.
     bind_res (context_opt (checked_mul seventh gamma)
                 ''Camelot exponential seventh term overflow'') (\<lambda>t.
     bind_res (context_opt (checked_add acc (t div 5040)) ''Camelot exponential sum overflow'') (\<lambda>acc.
     context_opt (checked_add acc (eighth div 40320)) ''Camelot exponential sum overflow''))))"

definition sigmoid :: "u256 \<Rightarrow> u16 \<Rightarrow> u16 \<Rightarrow> u256 \<Rightarrow> u256 result" where
  "sigmoid x gamma alpha beta =
     ensure (gamma \<noteq> 0) ''Camelot sigmoid gamma is zero''
     (let gamma_u256 = ucast gamma; six_gamma = gamma_u256 * 6 in
      bind_res (power_eight gamma_u256) (\<lambda>gamma_eighth.
      if x > beta then
        (let shifted = x - beta in
         if shifted \<ge> six_gamma then Inr (ucast alpha)
         else
           bind_res (exp_series shifted gamma_u256 gamma_eighth) (\<lambda>exponent.
           u256_div (ucast alpha * exponent) (gamma_eighth + exponent)))
      else
        (let shifted = beta - x in
         if shifted \<ge> six_gamma then Inr 0
         else
           bind_res (exp_series shifted gamma_u256 gamma_eighth) (\<lambda>e.
           bind_res (context_opt (checked_add gamma_eighth e)
                       ''Camelot sigmoid denominator overflow'') (\<lambda>denominator.
           u256_div (ucast alpha * gamma_eighth) denominator)))))"

definition fee :: "adaptive_fee_configuration \<Rightarrow> u128 \<Rightarrow> u256 \<Rightarrow> u16 result" where
  "fee c volatility volume_per_liquidity =
     bind_res (afc_validate c) (\<lambda>_.
     bind_res (sigmoid (ucast volatility) (afc_gamma1 c) (afc_alpha1 c) (ucast (afc_beta1 c))) (\<lambda>fst_part.
     bind_res (sigmoid (ucast volatility) (afc_gamma2 c) (afc_alpha2 c) (ucast (afc_beta2 c))) (\<lambda>snd_part.
     bind_res (context_opt (checked_add fst_part snd_part) ''Camelot sigmoid sum overflow'') (\<lambda>sum.
     bind_res (context_opt (try_into (min sum 65535))
                 ''Camelot sigmoid sum does not fit uint16'') (\<lambda>sum_u16.
     bind_res (sigmoid volume_per_liquidity (afc_volume_gamma c) sum_u16 (ucast (afc_volume_beta c)))
       (\<lambda>var.
     bind_res (context_opt (try_into var) ''Camelot volume sigmoid does not fit uint16'') (\<lambda>var_u16.
     context_opt (checked_add (afc_base_fee c) var_u16) ''Camelot adaptive fee overflow'')))))))"

section \<open>Volume per liquidity\<close>

text \<open>An \<open>I256\<close> is its raw word; its sign is the top bit.\<close>

definition signed_abs :: "256 word \<Rightarrow> u256" where
  "signed_abs v = (if sint v < 0 then NOT v + 1 else v)"

text \<open>One pass of the seed loop and of the Newton loop of \<open>integer_sqrt\<close>.\<close>

definition sqrt_seed_step :: "nat \<times> nat \<Rightarrow> u256 \<times> u256 \<Rightarrow> u256 \<times> u256" where
  "sqrt_seed_step bits st =
     (case (bits, st) of ((threshold_bits, root_bits), (reduced, rt)) \<Rightarrow>
        if reduced \<ge> push_bit threshold_bits 1
        then (drop_bit threshold_bits reduced, push_bit root_bits rt)
        else (reduced, rt))"

definition sqrt_seed :: "u256 \<Rightarrow> u256" where
  "sqrt_seed v =
     snd (fold sqrt_seed_step [(128, 64), (64, 32), (32, 16), (16, 8), (8, 4), (4, 2), (3, 1)] (v, 1))"

fun newton_loop :: "nat \<Rightarrow> u256 \<Rightarrow> u256 \<Rightarrow> u256 result" where
  "newton_loop 0 v rt = Inr rt"
| "newton_loop (Suc n) v rt =
     bind_res (u256_div v rt) (\<lambda>q. newton_loop n v (drop_bit 1 (rt + q)))"

definition integer_sqrt :: "u256 \<Rightarrow> u256 result" where
  "integer_sqrt v =
     (if v = 0 then Inr 0
      else bind_res (newton_loop 7 v (sqrt_seed v)) (\<lambda>rt.
           bind_res (u256_div v rt) (\<lambda>q. Inr (min rt q))))"

definition volume_cap :: u128 where
  "volume_cap = push_bit 64 100000"

definition calculate_volume_per_liquidity_nonzero ::
  "u128 \<Rightarrow> 256 word \<Rightarrow> 256 word \<Rightarrow> u128 result" where
  "calculate_volume_per_liquidity_nonzero liquidity amount0 amount1 =
     (let absolute0 = signed_abs amount0; absolute1 = signed_abs amount1;
          slow =
            bind_res (integer_sqrt absolute0) (\<lambda>root0.
            bind_res (integer_sqrt absolute1) (\<lambda>root1.
            let product = root0 * root1 in
            bind_res
              (if product \<ge> push_bit 192 1 then u256_div (- 1) (ucast liquidity)
               else u256_div (push_bit 64 product) (ucast liquidity)) (\<lambda>q.
            case try_into (min q (push_bit 64 100000)) of
              None \<Rightarrow> Inl (Panic ''Camelot volume cap always fits uint128'')
            | Some r \<Rightarrow> Inr r)))
      in case (try_into absolute0 :: u128 option, try_into absolute1 :: u128 option) of
           (Some a0, Some a1) \<Rightarrow>
             (let product = (of_nat (isqrt (unat a0)) :: u128) * of_nat (isqrt (unat a1)) in
              if product \<le> 18446744073709551615
              then if liquidity = 0 then Inl (Panic ''attempt to divide by zero'')
                   else Inr (min (push_bit 64 product div liquidity) volume_cap)
              else slow)
         | _ \<Rightarrow> slow)"

definition calculate_volume_per_liquidity :: "u128 \<Rightarrow> 256 word \<Rightarrow> 256 word \<Rightarrow> u128 result" where
  "calculate_volume_per_liquidity liquidity amount0 amount1 =
     ensure (liquidity \<noteq> 0) ''Camelot volume liquidity is zero''
     (calculate_volume_per_liquidity_nonzero liquidity amount0 amount1)"

section \<open>Timepoints\<close>

record timepoint =
  tp_initialized :: bool
  tp_block_timestamp :: u32
  tp_tick_cumulative :: int
  tp_seconds_per_liquidity_cumulative :: u256
  tp_volatility_cumulative :: u128
  tp_average_tick :: int
  tp_volume_per_liquidity_cumulative :: u256

record directional_fees =
  df_zero_for_one :: u16
  df_one_for_zero :: u16

record fee_envelope =
  fe_current :: directional_fees
  fe_maximum :: directional_fees
  fe_first_timestamp :: u32
  fe_last_timestamp :: u32

record fee_projection_state =
  fps_head_timestamp :: u32
  fps_latest_timepoint_timestamp :: u32
  fps_tick :: int
  fps_liquidity :: u128
  fps_index :: u16
  fps_oldest_index :: u16
  fps_current_fees :: directional_fees
  fps_volume_per_liquidity_in_block :: u128
  fps_zero_for_one_config :: adaptive_fee_configuration
  fps_one_for_zero_config :: adaptive_fee_configuration
  fps_timepoints :: "(u16, timepoint) btmap"

definition lte_considering_overflow :: "u32 \<Rightarrow> u32 \<Rightarrow> u32 \<Rightarrow> bool" where
  "lte_considering_overflow a b current_time =
     (let a_overflowed = a > current_time in
      if a_overflowed = (b > current_time) then a \<le> b else a_overflowed)"

definition bind_opt :: "'a option \<Rightarrow> ('a \<Rightarrow> 'b option) \<Rightarrow> 'b option" where
  "bind_opt m f = (case m of None \<Rightarrow> None | Some a \<Rightarrow> f a)"

text \<open>\<open>u128::try_from\<close> of an \<open>i128\<close>.\<close>

definition u128_try_from :: "int \<Rightarrow> u128 option" where
  "u128_try_from x = (if 0 \<le> x \<and> x < 2 ^ 128 then Some (word_of_int x) else None)"

definition volatility_on_range :: "u32 \<Rightarrow> int \<Rightarrow> int \<Rightarrow> int \<Rightarrow> int \<Rightarrow> u128 result" where
  "volatility_on_range delta tick0 tick1 average_tick0 average_tick1 =
     (let dt = int (unat delta); k = (tick1 - tick0) - (average_tick1 - average_tick0) in
      bind_res (context_opt (checked_i128 ((tick0 - average_tick0) * dt))
                  ''Camelot volatility B overflow'') (\<lambda>b.
      bind_res (context_opt
                  (bind_opt (checked_i128 (dt * (dt + 1))) (\<lambda>v. checked_i128 (v * (2 * dt + 1))))
                  ''Camelot volatility square sequence overflow'') (\<lambda>sum_squares.
      bind_res (context_opt (checked_i128 (dt * (dt + 1)))
                  ''Camelot volatility sequence overflow'') (\<lambda>sum_sequence.
      bind_res (context_opt
                  (bind_opt (checked_i128 (k * k)) (\<lambda>v.
                   bind_opt (checked_i128 (v * sum_squares)) (\<lambda>v.
                   bind_opt (checked_i128 (b * k)) (\<lambda>c.
                   bind_opt (checked_i128 (c * sum_sequence)) (\<lambda>c.
                   bind_opt (checked_i128 (c * 6)) (\<lambda>c.
                   bind_opt (checked_i128 (v + c)) (\<lambda>v.
                   bind_opt (checked_i128 (b * b)) (\<lambda>q.
                   bind_opt (checked_i128 (q * dt)) (\<lambda>q.
                   bind_opt (checked_i128 (q * 6)) (\<lambda>q.
                   checked_i128 (v + q)))))))))))
                  ''Camelot volatility numerator overflow'') (\<lambda>numerator.
      bind_res (context_opt
                  (bind_opt (checked_i128 (6 * dt)) (\<lambda>v. checked_i128 (v * dt)))
                  ''Camelot volatility denominator overflow'') (\<lambda>denominator.
      ensure (numerator \<ge> 0) ''Camelot volatility is negative''
      (if denominator = 0 then Inl (Panic ''attempt to divide by zero'')
       else context_opt (u128_try_from (numerator sdiv denominator))
              ''Camelot volatility does not fit uint128'')))))))"

definition create_new_timepoint ::
  "timepoint \<Rightarrow> u32 \<Rightarrow> int \<Rightarrow> int \<Rightarrow> u128 \<Rightarrow> int \<Rightarrow> u128 \<Rightarrow> timepoint result" where
  "create_new_timepoint latest timestamp tick previous_tick liquidity average_tick volume_per_liquidity =
     bind_res (context_opt (checked_sub timestamp (tp_block_timestamp latest))
                 ''Camelot new timepoint timestamp is not ordered'') (\<lambda>delta.
     ensure (delta \<noteq> 0) ''Camelot new timepoint delta is zero''
     (bind_res (context_opt (checked_i128 (tp_tick_cumulative latest + tick * int (unat delta)))
                  ''Camelot tick cumulative overflow'') (\<lambda>tick_cumulative.
      bind_res (volatility_on_range delta previous_tick tick (tp_average_tick latest) average_tick) (\<lambda>v.
      bind_res (context_opt (checked_add (tp_volatility_cumulative latest) v)
                  ''Camelot volatility cumulative overflow'') (\<lambda>volatility_cumulative.
      Inr \<lparr>tp_initialized = True, tp_block_timestamp = timestamp,
           tp_tick_cumulative = tick_cumulative,
           tp_seconds_per_liquidity_cumulative =
             tp_seconds_per_liquidity_cumulative latest +
               push_bit 128 (ucast delta) div ucast (max liquidity 1),
           tp_volatility_cumulative = volatility_cumulative,
           tp_average_tick = average_tick,
           tp_volume_per_liquidity_cumulative =
             tp_volume_per_liquidity_cumulative latest + ucast volume_per_liquidity\<rparr>)))))"

definition interpolate_timepoint :: "timepoint \<Rightarrow> timepoint \<Rightarrow> u32 \<Rightarrow> timepoint result" where
  "interpolate_timepoint before after target =
     bind_res (context_opt (checked_sub (tp_block_timestamp after) (tp_block_timestamp before))
                 ''Camelot interpolation points are not ordered'') (\<lambda>interval.
     ensure (interval \<noteq> 0) ''Camelot interpolation interval is zero''
     (bind_res (context_opt (checked_sub target (tp_block_timestamp before))
                  ''Camelot interpolation target is not ordered'') (\<lambda>target_delta.
      Inr \<lparr>tp_initialized = tp_initialized before, tp_block_timestamp = tp_block_timestamp before,
           tp_tick_cumulative =
             wrap_i128 (tp_tick_cumulative before +
               wrap_i128 (wrap_i128 (tp_tick_cumulative after - tp_tick_cumulative before)
                            sdiv int (unat interval) * int (unat target_delta))),
           tp_seconds_per_liquidity_cumulative =
             tp_seconds_per_liquidity_cumulative before +
               (tp_seconds_per_liquidity_cumulative after - tp_seconds_per_liquidity_cumulative before)
                 * ucast target_delta div ucast interval,
           tp_volatility_cumulative =
             tp_volatility_cumulative before +
               (tp_volatility_cumulative after - tp_volatility_cumulative before) div ucast interval
                 * ucast target_delta,
           tp_average_tick = tp_average_tick before,
           tp_volume_per_liquidity_cumulative =
             tp_volume_per_liquidity_cumulative before +
               (tp_volume_per_liquidity_cumulative after - tp_volume_per_liquidity_cumulative before)
                 div ucast interval * ucast target_delta\<rparr>)))"

section \<open>The projection\<close>

definition fps_validate :: "fee_projection_state \<Rightarrow> unit result" where
  "fps_validate s =
     bind_res (afc_validate (fps_zero_for_one_config s)) (\<lambda>_.
     bind_res (afc_validate (fps_one_for_zero_config s)) (\<lambda>_.
     ensure (fps_liquidity s \<noteq> 0) ''Camelot fee projection liquidity is zero''
     (ensure (case bt_get (fps_timepoints s) (fps_index s) of
                None \<Rightarrow> False
              | Some p \<Rightarrow> tp_initialized p \<and> tp_block_timestamp p = fps_latest_timepoint_timestamp s)
       ''Camelot latest timepoint is unavailable''
     (ensure (case bt_get (fps_timepoints s) (fps_oldest_index s) of
                None \<Rightarrow> False | Some p \<Rightarrow> tp_initialized p)
       ''Camelot oldest timepoint is unavailable''
     (Inr ())))))"

definition latest :: "fee_projection_state \<Rightarrow> timepoint result" where
  "latest s =
     context_opt (bt_get (fps_timepoints s) (fps_index s)) ''Camelot latest timepoint is missing''"

definition latest_timestamp :: "fee_projection_state \<Rightarrow> u32 result" where
  "latest_timestamp s = Inr (fps_latest_timepoint_timestamp s)"

definition oldest_index_after_write :: "fee_projection_state \<Rightarrow> u16 \<Rightarrow> u16 result" where
  "oldest_index_after_write s written_index =
     (let candidate = written_index + 1;
          oldest = (case bt_get (fps_timepoints s) candidate of
                      Some p \<Rightarrow> if tp_initialized p then candidate else 0
                    | None \<Rightarrow> 0)
      in ensure (case bt_get (fps_timepoints s) oldest of None \<Rightarrow> False | Some p \<Rightarrow> tp_initialized p)
           ''Camelot oldest timepoint after write is unavailable'' (Inr oldest))"

definition previous_tick :: "fee_projection_state \<Rightarrow> timepoint \<Rightarrow> int result" where
  "previous_tick s lst =
     (if fps_index s = fps_oldest_index s then Inr (fps_tick s)
      else
        bind_res (context_opt (bt_get (fps_timepoints s) (fps_index s - 1))
                    ''Camelot previous timepoint is missing'') (\<lambda>previous.
        bind_res (context_opt (checked_sub (tp_block_timestamp lst) (tp_block_timestamp previous))
                    ''Camelot previous timepoint timestamp is not ordered'') (\<lambda>elapsed.
        ensure (elapsed \<noteq> 0) ''Camelot adjacent timepoints share a timestamp''
        (bind_res (context_opt (checked_i128 (tp_tick_cumulative lst - tp_tick_cumulative previous))
                     ''Camelot tick cumulative delta overflow'') (\<lambda>delta.
         context_opt (i32_try_from (delta sdiv int (unat elapsed)))
           ''Camelot previous tick does not fit int24'')))))"

text \<open>The scan of \<open>single_timepoint\<close> for the points around the target.\<close>

definition scan_point ::
  "u32 \<Rightarrow> timepoint \<Rightarrow> timepoint option \<times> timepoint option \<Rightarrow> timepoint option \<times> timepoint option" where
  "scan_point target p st =
     (case st of (before, after) \<Rightarrow>
       (if tp_block_timestamp p \<le> target \<and>
           (case before of None \<Rightarrow> True | Some c \<Rightarrow> tp_block_timestamp c < tp_block_timestamp p)
        then Some p else before,
        if tp_block_timestamp p \<ge> target \<and>
           (case after of None \<Rightarrow> True | Some c \<Rightarrow> tp_block_timestamp c > tp_block_timestamp p)
        then Some p else after))"

definition search_timepoint :: "fee_projection_state \<Rightarrow> u32 \<Rightarrow> timepoint result" where
  "search_timepoint s target =
     (case fold (scan_point target) (filter tp_initialized (bt_values (fps_timepoints s))) (None, None) of
        (before, after) \<Rightarrow>
          bind_res (context_opt before ''Camelot timepoint before window target is missing'') (\<lambda>before.
          bind_res (context_opt after ''Camelot timepoint after window target is missing'') (\<lambda>after.
          if target = tp_block_timestamp after \<or> target = tp_block_timestamp before
          then Inr (if target = tp_block_timestamp after then after else before)
          else interpolate_timepoint before after target)))"

text \<open>
  The recursion of the next two functions is at most four calls deep: a timepoint looked up at the window start recurses only
  when the last timepoint is no younger than it, and then the average tick needs no timepoint.
\<close>

definition call_depth ::
  "(fee_projection_state \<times> u32 \<times> timepoint) + (fee_projection_state \<times> u32 \<times> u32 \<times> u16) \<Rightarrow> nat" where
  "call_depth c =
     (case c of
        Inl (s, timestamp, lst) \<Rightarrow>
          if lte_considering_overflow (tp_block_timestamp lst) (timestamp - window_seconds) timestamp
          then 1 else 3
      | Inr (s, timestamp, seconds_ago, index) \<Rightarrow> if seconds_ago = window_seconds then 2 else 4)"

text \<open>
  The average tick over the window needs a timepoint inside it, and a timepoint past the last one
  needs an average tick: the two functions call each other.
\<close>

function average_tick_for_new_timepoint ::
  "fee_projection_state \<Rightarrow> u32 \<Rightarrow> timepoint \<Rightarrow> int result"
and single_timepoint :: "fee_projection_state \<Rightarrow> u32 \<Rightarrow> u32 \<Rightarrow> u16 \<Rightarrow> timepoint result"
where
  "average_tick_for_new_timepoint s timestamp lst =
     bind_res (context_opt (bt_get (fps_timepoints s) (fps_oldest_index s))
                 ''Camelot oldest timepoint is missing'') (\<lambda>oldest.
     let window_start = timestamp - window_seconds in
     bind_res
       (if lte_considering_overflow (tp_block_timestamp oldest) window_start timestamp then
          if lte_considering_overflow (tp_block_timestamp lst) window_start timestamp then
            bind_res (context_opt (bt_get (fps_timepoints s) (fps_index s - 1))
                        ''Camelot average-tick start timepoint is missing'') (\<lambda>start.
            if tp_initialized start then
              bind_res (context_opt (checked_sub (tp_block_timestamp lst) (tp_block_timestamp start))
                          ''Camelot average-tick timestamps are not ordered'') (\<lambda>elapsed.
              ensure (elapsed \<noteq> 0) ''Camelot average-tick interval is zero''
              (Inr (wrap_i128 (tp_tick_cumulative lst - tp_tick_cumulative start)
                      sdiv int (unat elapsed))))
            else Inr (fps_tick s))
          else
            bind_res (single_timepoint s timestamp window_seconds (fps_index s)) (\<lambda>start.
            bind_res (context_opt (checked_sub timestamp (tp_block_timestamp lst))
                        ''Camelot average-tick timestamp is not ordered'') (\<lambda>since_last.
            bind_res (context_opt (checked_sub window_seconds since_last)
                        ''Camelot average-tick window underflow'') (\<lambda>elapsed.
            ensure (elapsed \<noteq> 0) ''Camelot average-tick window is zero''
            (Inr (wrap_i128 (tp_tick_cumulative lst - tp_tick_cumulative start)
                    sdiv int (unat elapsed))))))
        else if tp_block_timestamp lst = tp_block_timestamp oldest then Inr (fps_tick s)
        else Inr (wrap_i128 (tp_tick_cumulative lst - tp_tick_cumulative oldest)
                    sdiv int (unat (tp_block_timestamp lst - tp_block_timestamp oldest))))
     (\<lambda>average.
     bind_res (context_opt (i32_try_from average) ''Camelot average tick does not fit int24'') (\<lambda>average.
     ensure (- 8388608 \<le> average \<and> average \<le> 8388607) ''Camelot average tick is outside int24''
     (Inr average))))"
| "single_timepoint s timestamp seconds_ago index =
     (let target = timestamp - seconds_ago in
      bind_res (context_opt (bt_get (fps_timepoints s) index)
                  ''Camelot requested latest timepoint is missing'') (\<lambda>lst.
      if seconds_ago = 0 \<or> lte_considering_overflow (tp_block_timestamp lst) target timestamp then
        if tp_block_timestamp lst = target then Inr lst
        else
          bind_res (average_tick_for_new_timepoint s timestamp lst) (\<lambda>average_tick.
          bind_res (previous_tick s lst) (\<lambda>previous_tick.
          create_new_timepoint lst target (fps_tick s) previous_tick (fps_liquidity s) average_tick 0))
      else search_timepoint s target))"
  by pat_completeness auto

termination
  by (relation "measure call_depth") (auto simp: call_depth_def window_seconds_def)

declare average_tick_for_new_timepoint.simps [simp del] single_timepoint.simps [simp del]

definition averages :: "fee_projection_state \<Rightarrow> u32 \<Rightarrow> (u128 \<times> u256) result" where
  "averages s timestamp =
     bind_res (context_opt (bt_get (fps_timepoints s) (fps_oldest_index s))
                 ''Camelot oldest timepoint is missing'') (\<lambda>oldest.
     bind_res (single_timepoint s timestamp 0 (fps_index s)) (\<lambda>end_point.
     let window_start = timestamp - window_seconds in
     if lte_considering_overflow (tp_block_timestamp oldest) window_start timestamp then
       bind_res (single_timepoint s timestamp window_seconds (fps_index s)) (\<lambda>start.
       Inr ((tp_volatility_cumulative end_point - tp_volatility_cumulative start)
              div ucast window_seconds,
            drop_bit 57 (tp_volume_per_liquidity_cumulative end_point
                           - tp_volume_per_liquidity_cumulative start)))
     else if timestamp \<noteq> tp_block_timestamp oldest then
       (let elapsed = timestamp - tp_block_timestamp oldest in
        Inr ((tp_volatility_cumulative end_point - tp_volatility_cumulative oldest) div ucast elapsed,
             drop_bit 57 (tp_volume_per_liquidity_cumulative end_point
                            - tp_volume_per_liquidity_cumulative oldest)))
     else Inr (0, 0)))"

definition projected_averages_at :: "fee_projection_state \<Rightarrow> u32 \<Rightarrow> (u128 \<times> u256) result" where
  "projected_averages_at s timestamp =
     bind_res (fps_validate s) (\<lambda>_.
     bind_res (latest s) (\<lambda>lst.
     ensure (timestamp > tp_block_timestamp lst) ''Camelot projected averages require a new timepoint''
     (bind_res (average_tick_for_new_timepoint s timestamp lst) (\<lambda>average_tick.
      bind_res (previous_tick s lst) (\<lambda>previous.
      bind_res (create_new_timepoint lst timestamp (fps_tick s) previous (fps_liquidity s)
                  average_tick (fps_volume_per_liquidity_in_block s)) (\<lambda>projected.
      let projected_index = fps_index s + 1;
          projected_state = s\<lparr>fps_index := projected_index,
            fps_timepoints := bt_insert projected_index projected (fps_timepoints s)\<rparr> in
      bind_res (oldest_index_after_write projected_state projected_index) (\<lambda>oldest.
      averages (projected_state\<lparr>fps_oldest_index := oldest\<rparr>) timestamp)))))))"

definition fees_at :: "fee_projection_state \<Rightarrow> u32 \<Rightarrow> directional_fees result" where
  "fees_at s timestamp =
     bind_res (fps_validate s) (\<lambda>_.
     ensure (timestamp \<ge> fps_head_timestamp s) ''Camelot fee projection precedes canonical head''
     (bind_res (latest s) (\<lambda>lst.
      if timestamp = tp_block_timestamp lst then Inr (fps_current_fees s)
      else
        ensure (timestamp > tp_block_timestamp lst)
          ''Camelot fee projection timestamp precedes latest timepoint''
        (bind_res (projected_averages_at s timestamp) (\<lambda>(volatility, volume).
         let fee_volatility = volatility div 15 in
         bind_res (fee (fps_zero_for_one_config s) fee_volatility volume) (\<lambda>zero_for_one.
         bind_res (fee (fps_one_for_zero_config s) fee_volatility volume) (\<lambda>one_for_zero.
         Inr \<lparr>df_zero_for_one = zero_for_one, df_one_for_zero = one_for_zero\<rparr>)))))))"

definition fees_max :: "directional_fees \<Rightarrow> directional_fees \<Rightarrow> directional_fees" where
  "fees_max m f = \<lparr>df_zero_for_one = max (df_zero_for_one m) (df_zero_for_one f),
                   df_one_for_zero = max (df_one_for_zero m) (df_one_for_zero f)\<rparr>"

definition envelope :: "fee_projection_state \<Rightarrow> u32 \<Rightarrow> fee_envelope result" where
  "envelope s horizon_seconds =
     bind_res (fps_validate s) (\<lambda>_.
     bind_res (context_opt (checked_add (fps_head_timestamp s) horizon_seconds)
                 ''Camelot fee horizon exceeds uint32'') (\<lambda>last_timestamp.
     bind_res (fees_at s (fps_head_timestamp s)) (\<lambda>current.
     bind_res
       (for_each (\<lambda>timestamp maximum. bind_res (fees_at s timestamp) (\<lambda>fees. Inr (fees_max maximum fees)))
          (map of_nat [unat (saturating_add (fps_head_timestamp s) 1) ..< Suc (unat last_timestamp)])
          current) (\<lambda>maximum.
     Inr \<lparr>fe_current = current, fe_maximum = maximum, fe_first_timestamp = fps_head_timestamp s,
          fe_last_timestamp = last_timestamp\<rparr>))))"

text \<open>\<open>apply_fee_timepoint\<close>: the checks and the new timepoint, then the write.\<close>

definition new_fee_timepoint ::
  "u32 \<Rightarrow> directional_fees \<Rightarrow> fee_projection_state \<Rightarrow> timepoint result" where
  "new_fee_timepoint timestamp emitted s =
     bind_res (fps_validate s) (\<lambda>_.
     bind_res (latest s) (\<lambda>lst.
     ensure (timestamp > tp_block_timestamp lst) ''Camelot Fee does not advance the latest timepoint''
     (ensure (timestamp \<ge> fps_head_timestamp s) ''Camelot Fee timestamp precedes canonical fee state''
     (bind_res (fees_at s timestamp) (\<lambda>expected.
      ensure (emitted = expected) ''Camelot Fee event differs from local adaptive-fee projection''
      (bind_res (average_tick_for_new_timepoint s timestamp lst) (\<lambda>average_tick.
       bind_res (previous_tick s lst) (\<lambda>previous.
       create_new_timepoint lst timestamp (fps_tick s) previous (fps_liquidity s)
         average_tick (fps_volume_per_liquidity_in_block s)))))))))"

text \<open>
  The write assigns the index and inserts the point before its last check, so the error of that
  check leaves them assigned.
\<close>

definition write_fee_timepoint ::
  "u32 \<Rightarrow> directional_fees \<Rightarrow> timepoint \<Rightarrow> fee_projection_state \<Rightarrow>
   fee_projection_state \<times> unit result" where
  "write_fee_timepoint timestamp emitted point s =
     (let next_index = fps_index s + 1;
          s1 = s\<lparr>fps_index := next_index,
                 fps_timepoints := bt_insert next_index point (fps_timepoints s)\<rparr>
      in case oldest_index_after_write s1 next_index of
           Inl e \<Rightarrow> (s1, Inl e)
         | Inr oldest \<Rightarrow>
             (s1\<lparr>fps_oldest_index := oldest, fps_latest_timepoint_timestamp := timestamp,
                 fps_current_fees := emitted, fps_volume_per_liquidity_in_block := 0,
                 fps_head_timestamp := timestamp\<rparr>, Inr ()))"

definition apply_fee_timepoint ::
  "u32 \<Rightarrow> directional_fees \<Rightarrow> fee_projection_state \<Rightarrow> fee_projection_state \<times> unit result" where
  "apply_fee_timepoint timestamp emitted s =
     (case new_fee_timepoint timestamp emitted s of
        Inl e \<Rightarrow> (s, Inl e)
      | Inr point \<Rightarrow> write_fee_timepoint timestamp emitted point s)"

definition apply_swap_after_timepoint_validation ::
  "u32 \<Rightarrow> 256 word \<Rightarrow> 256 word \<Rightarrow> int \<Rightarrow> u128 \<Rightarrow> fee_projection_state \<Rightarrow>
   fee_projection_state \<times> unit result" where
  "apply_swap_after_timepoint_validation timestamp amount0 amount1 tick liquidity s =
     (case ensure (liquidity \<noteq> 0) ''Camelot Swap liquidity is zero''
             (calculate_volume_per_liquidity_nonzero liquidity amount0 amount1)
      of Inl e \<Rightarrow> (s, Inl e)
       | Inr volume \<Rightarrow>
           (s\<lparr>fps_volume_per_liquidity_in_block := fps_volume_per_liquidity_in_block s + volume,
              fps_tick := tick, fps_liquidity := liquidity,
              fps_head_timestamp := max (fps_head_timestamp s) timestamp\<rparr>, Inr ()))"

definition apply_swap ::
  "u32 \<Rightarrow> 256 word \<Rightarrow> 256 word \<Rightarrow> int \<Rightarrow> u128 \<Rightarrow> fee_projection_state \<Rightarrow>
   fee_projection_state \<times> unit result" where
  "apply_swap timestamp amount0 amount1 tick liquidity s =
     (case bind_res (latest_timestamp s) (\<lambda>t.
           ensure (timestamp \<ge> t) ''Camelot Swap timestamp precedes latest timepoint'' (Inr ()))
      of Inl e \<Rightarrow> (s, Inl e)
       | Inr _ \<Rightarrow> apply_swap_after_timepoint_validation timestamp amount0 amount1 tick liquidity s)"

definition apply_liquidity_head ::
  "u32 \<Rightarrow> int \<Rightarrow> u128 \<Rightarrow> fee_projection_state \<Rightarrow> fee_projection_state \<times> unit result" where
  "apply_liquidity_head timestamp tick liquidity s =
     (case bind_res (fps_validate s) (\<lambda>_.
           bind_res (latest s) (\<lambda>lst.
           ensure (timestamp \<ge> tp_block_timestamp lst)
             ''Camelot liquidity event timestamp precedes latest timepoint''
           (ensure (liquidity \<noteq> 0) ''Camelot active liquidity became zero'' (Inr ()))))
      of Inl e \<Rightarrow> (s, Inl e)
       | Inr _ \<Rightarrow>
           (s\<lparr>fps_tick := tick, fps_liquidity := liquidity,
              fps_head_timestamp := max (fps_head_timestamp s) timestamp\<rparr>, Inr ()))"

definition advance_head :: "u32 \<Rightarrow> fee_projection_state \<Rightarrow> fee_projection_state \<times> unit result" where
  "advance_head timestamp s =
     (case bind_res (fps_validate s) (\<lambda>_.
           ensure (timestamp \<ge> fps_head_timestamp s)
             ''Camelot canonical head timestamp moved backwards'' (Inr ()))
      of Inl e \<Rightarrow> (s, Inl e)
       | Inr _ \<Rightarrow> (s\<lparr>fps_head_timestamp := timestamp\<rparr>, Inr ()))"

section \<open>The integer square root\<close>

lemma isqrt_correct: "isqrt n * isqrt n \<le> n \<and> n < (isqrt n + 1) * (isqrt n + 1)"
proof (induction n rule: isqrt.induct)
  case (1 n)
  show ?case
  proof (cases "n = 0")
    case True
    then show ?thesis by (simp add: isqrt.simps)
  next
    case False
    define q where "q = isqrt (n div 4)"
    from 1 [OF False] have q: "q * q \<le> n div 4" "n div 4 < (q + 1) * (q + 1)"
      by (simp_all add: q_def)
    from q have lo: "2 * q * (2 * q) \<le> n" by simp
    from q(2) have "n < 4 * ((q + 1) * (q + 1))" by simp
    then have hi: "n < (2 * q + 2) * (2 * q + 2)" by (simp add: algebra_simps)
    have "isqrt n = (if (2 * q + 1) * (2 * q + 1) \<le> n then 2 * q + 1 else 2 * q)"
      using False by (subst isqrt.simps) (simp add: Let_def q_def)
    with lo hi show ?thesis by (auto simp: algebra_simps)
  qed
qed

lemma isqrt_unique: "r * r \<le> n \<Longrightarrow> n < (r + 1) * (r + 1) \<Longrightarrow> isqrt n = r"
  using isqrt_correct [of n]
  by (metis Suc_eq_plus1 le_less_trans less_Suc_eq_le mult_le_mono nat_neq_iff not_less order.strict_trans2 Suc_leI leD mult_le_mono1 mult_le_mono2)

lemma isqrt_pos: "0 < n \<Longrightarrow> 0 < isqrt n"
proof (rule ccontr)
  assume "0 < n" "\<not> 0 < isqrt n"
  then have "isqrt n = 0" by simp
  with isqrt_correct [of n] \<open>0 < n\<close> show False by simp
qed

text \<open>One Newton step on natural numbers.\<close>

definition newton :: "nat \<Rightarrow> nat \<Rightarrow> nat" where
  "newton v x = (x + v div x) div 2"

lemma newton_ge_isqrt: assumes "0 < x" shows "isqrt v \<le> newton v x"
proof (rule ccontr)
  let ?f = "isqrt v"
  assume "\<not> ?f \<le> newton v x"
  then have lt: "x + v div x < 2 * ?f" by (simp add: newton_def)
  have "v < (v div x + 1) * x"
    using assms by (metis div_less_iff_less_mult less_add_one)
  also have "\<dots> \<le> (2 * ?f - x) * x"
    using lt by (intro mult_le_mono1) simp
  finally have "v < (2 * ?f - x) * x" .
  moreover have "(2 * ?f - x) * x \<le> ?f * ?f"
  proof -
    have "int ((2 * ?f - x) * x) = (2 * int ?f - int x) * int x" using lt by (simp add: of_nat_diff)
    also have "\<dots> = int ?f * int ?f - (int ?f - int x) * (int ?f - int x)" by (simp add: algebra_simps)
    also have "\<dots> \<le> int ?f * int ?f" by simp
    finally show ?thesis by (metis of_nat_le_iff of_nat_mult)
  qed
  ultimately show False using isqrt_correct [of v] by simp
qed

text \<open>
  The iteration has converged when it is at the root, or one above it with the root's successor
  still dividing \<open>v\<close> down to the root.
\<close>

definition converged :: "nat \<Rightarrow> nat \<Rightarrow> bool" where
  "converged v x \<longleftrightarrow> x = isqrt v \<or> (x = isqrt v + 1 \<and> isqrt v * (isqrt v + 1) \<le> v)"

lemma converged_div:
  assumes "isqrt v * (isqrt v + 1) \<le> v"
  shows "v div (isqrt v + 1) = isqrt v"
proof (rule antisym)
  have "v < (isqrt v + 1) * (isqrt v + 1)" using isqrt_correct by blast
  then show "v div (isqrt v + 1) \<le> isqrt v"
    by (metis add.commute less_Suc_eq_le less_mult_imp_div_less plus_1_eq_Suc)
  show "isqrt v \<le> v div (isqrt v + 1)"
    using assms by (simp add: less_eq_div_iff_mult_less_eq)
qed

lemma converged_min:
  assumes "converged v x" and "0 < v"
  shows "min x (v div x) = isqrt v"
proof -
  let ?f = "isqrt v"
  have "?f \<noteq> 0" using isqrt_pos [OF assms(2)] by simp
  then have "?f \<le> v div ?f"
    using isqrt_correct [of v] by (simp add: less_eq_div_iff_mult_less_eq)
  then show ?thesis using assms(1) converged_div by (auto simp: converged_def)
qed

lemma converged_newton:
  assumes "converged v x" and "0 < v"
  shows "converged v (newton v x)"
proof -
  let ?f = "isqrt v"
  have f: "?f * ?f \<le> v" "v < (?f + 1) * (?f + 1)" using isqrt_correct by blast+
  have nz: "0 < ?f" using isqrt_pos [OF assms(2)] .
  consider "x = ?f" | "x = ?f + 1" "?f * (?f + 1) \<le> v" using assms(1) by (auto simp: converged_def)
  then show ?thesis
  proof cases
    case 1
    have lo: "?f \<le> v div ?f" using f(1) nz by (simp add: less_eq_div_iff_mult_less_eq)
    have "v < (?f + 3) * ?f" using f(2) nz by (simp add: algebra_simps)
    then have "v div ?f < ?f + 3" by (rule less_mult_imp_div_less)
    then consider "v div ?f = ?f \<or> v div ?f = ?f + 1" | "v div ?f = ?f + 2" using lo by linarith
    then show ?thesis
    proof cases
      case 1
      then show ?thesis using \<open>x = ?f\<close> by (auto simp: newton_def converged_def)
    next
      case 2
      then have "(?f + 2) * ?f \<le> v" using div_times_less_eq_dividend [of v ?f] by simp
      then have "?f * (?f + 1) \<le> v" by (simp add: algebra_simps)
      then show ?thesis using 2 \<open>x = ?f\<close> by (auto simp: newton_def converged_def)
    qed
  next
    case 2
    then show ?thesis using converged_div [OF 2(2)] by (simp add: newton_def converged_def)
  qed
qed

text \<open>
  Distance to the real root.  After the first step an iterate is converged or lies above the root
  by a relative error that each further step squares and halves.
\<close>

definition near :: "real \<Rightarrow> nat \<Rightarrow> nat \<Rightarrow> bool" where
  "near e v x \<longleftrightarrow> converged v x \<or>
     (isqrt v < x \<and> real x \<le> sqrt (real v) * (1 + e))"

lemma isqrt_le_sqrt: "real (isqrt v) \<le> sqrt (real v)"
proof -
  have "real (isqrt v) ^ 2 \<le> real v"
    using isqrt_correct [of v] by (metis of_nat_le_iff of_nat_mult power2_eq_square)
  then show ?thesis by (rule real_le_rsqrt)
qed

lemma sqrt_less_isqrt: "sqrt (real v) < real (isqrt v) + 1"
proof -
  have "real v < (real (isqrt v) + 1) ^ 2"
    using isqrt_correct [of v]
    by (metis Suc_eq_plus1 of_nat_Suc of_nat_less_iff of_nat_mult power2_eq_square add.commute)
  then show ?thesis by (intro real_less_lsqrt) simp_all
qed

lemma newton_le_real:
  assumes "0 < x"
  shows "real (newton v x) \<le> (real x + real v / real x) / 2"
proof -
  have "real (newton v x) \<le> real (x + v div x) / real 2"
    unfolding newton_def by (rule of_nat_div_le_of_nat)
  moreover have "real (v div x) \<le> real v / real x" by (rule of_nat_div_le_of_nat)
  ultimately show ?thesis by simp
qed

lemma newton_error:
  fixes s x e :: real
  assumes "0 < s" "s \<le> x" "x \<le> s * (1 + e)" "0 \<le> e"
  shows "(x + s * s / x) / 2 \<le> s * (1 + e * e / (2 * (1 + e)))"
proof -
  define d where "d = x - s"
  have d: "0 \<le> d" "d \<le> s * e" using assms by (simp_all add: d_def algebra_simps)
  have x: "x = s + d" "0 < x" using assms by (auto simp: d_def)
  have "(x + s * s / x) / 2 = s + d * (d / x) / 2"
    using x by (simp add: field_simps)
  also have "d * (d / x) \<le> (s * e) * (e / (1 + e))"
  proof (rule mult_mono)
    show "d / x \<le> e / (1 + e)"
      using d x assms(1,4) by (simp add: field_simps)
  qed (use d x assms in auto)
  finally show ?thesis by (simp add: algebra_simps)
qed

lemma near_newton:
  assumes n: "near e v x" and v: "0 < v" and e: "0 \<le> e" and e': "e * e / (2 * (1 + e)) \<le> e'"
  shows "near e' v (newton v x)"
proof (cases "converged v x")
  case True
  then show ?thesis using converged_newton [OF _ v] by (simp add: near_def)
next
  case False
  let ?s = "sqrt (real v)"
  from False n have gt: "isqrt v < x" and le: "real x \<le> ?s * (1 + e)" by (auto simp: near_def)
  from gt have "real (isqrt v) + 1 \<le> real x" by linarith
  then have sx: "?s \<le> real x" using sqrt_less_isqrt [of v] by linarith
  have s: "0 < ?s" using v by simp
  have x: "0 < x" using gt by simp
  have "real (newton v x) \<le> (real x + ?s * ?s / real x) / 2"
    using newton_le_real [OF x] by simp
  also have "\<dots> \<le> ?s * (1 + e * e / (2 * (1 + e)))" by (rule newton_error [OF s sx le e])
  also have "\<dots> \<le> ?s * (1 + e')" using s e' by (intro mult_left_mono) auto
  finally have "real (newton v x) \<le> ?s * (1 + e')" .
  moreover have "isqrt v \<le> newton v x" by (rule newton_ge_isqrt [OF x])
  ultimately show ?thesis
    by (auto simp: near_def converged_def le_less)
qed

lemma seed_ratio:
  fixes s x :: real
  assumes "0 < x" "x \<le> s" "s \<le> 283 / 100 * x"
  shows "5 * (x * x) + 5 * (s * s) \<le> 16 * (s * x)"
proof -
  have "0 \<le> (s - x) * (283 / 100 * x - s)"
    using assms by (intro mult_nonneg_nonneg) auto
  also have "\<dots> = 383 / 100 * (s * x) - 283 / 100 * (x * x) - s * s"
    by (simp add: field_simps)
  finally have "s * s \<le> 383 / 100 * (s * x) - 283 / 100 * (x * x)" by simp
  moreover have "s * x \<le> (283 / 100 * x) * x" using assms by (intro mult_right_mono) auto
  then have "s * x \<le> 283 / 100 * (x * x)" by simp
  moreover have "0 \<le> x * x" by simp
  ultimately show ?thesis by linarith
qed

text \<open>The seed is at most the root and more than a third of it.\<close>

lemma near_first:
  assumes x: "0 < x" and lo: "x * x \<le> v" and hi: "v < 8 * (x * x)"
  shows "near (3 / 5) v (newton v x)"
proof -
  let ?s = "sqrt (real v)" and ?x = "real x"
  have lo': "?x * ?x \<le> real v" and hi': "real v \<le> 8 * (?x * ?x)"
    using of_nat_mono [OF lo, where 'a = real] of_nat_mono [OF less_imp_le [OF hi], where 'a = real]
    by simp_all
  have "0 < v" using x lo by (metis le_zero_eq mult_is_0 neq0_conv)
  then have s: "0 < ?s" by simp
  have xs: "?x \<le> ?s" using lo' by (simp add: real_le_rsqrt power2_eq_square)
  have "?s \<le> sqrt ((283 / 100 * ?x) ^ 2)"
    using hi' by (intro real_sqrt_le_mono) (simp add: power2_eq_square)
  then have s3: "?s \<le> 283 / 100 * ?x" by simp
  have "5 * (?x * ?x) + 5 * (?s * ?s) \<le> 16 * (?s * ?x)"
    by (rule seed_ratio [OF _ xs s3]) (use x in simp)
  then have "(?x + real v / ?x) / 2 \<le> ?s * (8 / 5)"
    using x by (simp add: field_simps)
  then have "real (newton v x) \<le> ?s * (1 + 3 / 5)"
    by (intro order_trans [OF newton_le_real [OF x]]) simp
  then show ?thesis
    using newton_ge_isqrt [OF x, of v] by (auto simp: near_def converged_def le_less)
qed


lemma near_sixth:
  assumes "near (3 / 5) v x" and "0 < v"
  shows "near (8 / 10 ^ 41) v ((newton v ^^ 6) x)"
proof -
  note step = near_newton [OF _ assms(2)]
  have "near (9 / 80) v (newton v x)" using assms(1) by (rule step) simp_all
  then have "near (57 / 10 ^ 4) v (newton v (newton v x))" by (rule step) simp_all
  then have "near (17 / 10 ^ 6) v (newton v (newton v (newton v x)))" by (rule step) simp_all
  then have "near (15 / 10 ^ 11) v (newton v (newton v (newton v (newton v x))))"
    by (rule step) simp_all
  then have "near (12 / 10 ^ 21) v (newton v (newton v (newton v (newton v (newton v x)))))"
    by (rule step) simp_all
  then have "near (8 / 10 ^ 41) v (newton v (newton v (newton v (newton v (newton v (newton v x))))))"
    by (rule step) simp_all
  then show ?thesis by (simp add: numeral_eq_Suc)
qed

lemma near_converged:
  assumes n: "near (8 / 10 ^ 41) v x" and v: "v < 2 ^ 256"
  shows "converged v x"
proof (rule ccontr)
  let ?s = "sqrt (real v)" and ?f = "isqrt v"
  assume nc: "\<not> converged v x"
  with n have gt: "?f < x" and le: "real x \<le> ?s * (1 + 8 / 10 ^ 41)" by (auto simp: near_def)
  have "real v < (2 ^ 128) ^ 2" using of_nat_less_iff [of v "2 ^ 256", where 'a = real] v by simp
  then have "?s < 2 ^ 128" by (intro real_less_lsqrt) simp_all
  then have "?s * (8 / 10 ^ 41) \<le> 2 ^ 128 * (8 / 10 ^ 41)" by (intro mult_right_mono) simp_all
  also have "\<dots> < 1 / 2" by simp
  finally have xs: "real x < ?s + 1 / 2" using le by (simp add: algebra_simps)
  with gt sqrt_less_isqrt [of v] have x: "x = ?f + 1" by linarith
  with xs have half: "real ?f + 1 / 2 < ?s" by simp
  then have "(real ?f + 1 / 2) ^ 2 < ?s ^ 2" by (intro power_strict_mono) simp_all
  then have "real (?f * (?f + 1)) < real v" by (simp add: power2_eq_square algebra_simps)
  then have "?f * (?f + 1) \<le> v" by linarith
  with x nc show False by (simp add: converged_def)
qed

lemma seven_steps:
  assumes x: "0 < x" and lo: "x * x \<le> v" and hi: "v < 8 * (x * x)" and v: "v < 2 ^ 256"
  shows "converged v ((newton v ^^ 7) x)"
proof -
  have "0 < v" using x lo by (metis le_zero_eq mult_is_0 neq0_conv)
  with near_sixth near_first [OF x lo hi] have "near (8 / 10 ^ 41) v ((newton v ^^ 6) (newton v x))"
    by blast
  then show ?thesis using near_converged [OF _ v] by (simp add: funpow_swap1 numeral_eq_Suc)
qed

lemma unat_drop_bit: "unat (drop_bit n (w :: 'a::len word)) = unat w div 2 ^ n"
  by (simp add: unsigned_drop_bit_eq drop_bit_eq_div [where 'a = nat] take_bit_nat_eq_self)

lemma unat_push_bit:
  "unat w * 2 ^ n < 2 ^ LENGTH('a) \<Longrightarrow> unat (push_bit n (w :: 'a::len word)) = unat w * 2 ^ n"
  by (simp add: unsigned_push_bit_eq push_bit_eq_mult [where 'a = nat] take_bit_nat_eq_self)

lemma sq_less_pow: "(r::nat) * r \<le> v \<Longrightarrow> v < 2 ^ 256 \<Longrightarrow> r < 2 ^ 128"
proof (rule ccontr)
  assume "r * r \<le> v" "v < 2 ^ 256" "\<not> r < 2 ^ 128"
  then have "(2::nat) ^ 128 * 2 ^ 128 \<le> r * r" by (intro mult_le_mono) simp_all
  with \<open>r * r \<le> v\<close> \<open>v < 2 ^ 256\<close> show False by simp
qed

text \<open>What the seed loop keeps of the value, the reduced value and the root.\<close>

definition seed_inv :: "nat \<Rightarrow> nat \<Rightarrow> u256 \<times> u256 \<Rightarrow> bool" where
  "seed_inv k v st \<longleftrightarrow>
     (case st of (reduced, rt) \<Rightarrow>
        0 < unat reduced \<and> unat reduced < 2 ^ k \<and> 0 < unat rt \<and>
        unat reduced * (unat rt * unat rt) \<le> v \<and> v < (unat reduced + 1) * (unat rt * unat rt))"

lemma seed_inv_step:
  assumes inv: "seed_inv (2 * t) v st" and v: "v < 2 ^ 256" and t: "t = 2 * h" "t < 256"
  shows "seed_inv t v (sqrt_seed_step (t, h) st)"
proof -
  obtain reduced rt where st: "st = (reduced, rt)" by (cases st)
  let ?q = "unat reduced div 2 ^ t" and ?r2 = "unat rt * unat rt"
  from inv st have i: "0 < unat reduced" "unat reduced < 2 ^ (2 * t)" "0 < unat rt"
    "unat reduced * ?r2 \<le> v" "v < (unat reduced + 1) * ?r2" by (auto simp: seed_inv_def)
  have thr: "unat (push_bit t (1 :: u256)) = 2 ^ t"
    using power_strict_increasing [OF t(2), of "2 :: nat"] by (subst unat_push_bit) auto
  show ?thesis
  proof (cases "push_bit t 1 \<le> reduced")
    case False
    then have "unat reduced < 2 ^ t" using thr by (simp add: not_le word_less_nat_alt)
    then show ?thesis using False i by (simp add: st sqrt_seed_step_def seed_inv_def)
  next
    case True
    then have ge: "2 ^ t \<le> unat reduced" using thr by (simp add: word_le_nat_alt)
    have sq: "(unat rt * 2 ^ h) * (unat rt * 2 ^ h) = 2 ^ t * ?r2"
      by (simp add: t(1) mult_2 power_add)
    have q: "0 < ?q" "?q < 2 ^ t"
      using ge i(2) by (simp_all add: div_greater_zero_iff less_mult_imp_div_less mult_2 power_add)
    have lo: "?q * (2 ^ t * ?r2) \<le> v"
    proof -
      have "?q * 2 ^ t * ?r2 \<le> unat reduced * ?r2"
        by (intro mult_le_mono1) (rule div_times_less_eq_dividend)
      from order_trans [OF this i(4)] show ?thesis by (simp add: mult.assoc)
    qed
    have hi: "v < (?q + 1) * (2 ^ t * ?r2)"
    proof -
      have "unat reduced + 1 \<le> (?q + 1) * 2 ^ t"
        using dividend_less_div_times [of "2 ^ t" "unat reduced"] by simp
      then have "(unat reduced + 1) * ?r2 \<le> (?q + 1) * 2 ^ t * ?r2" by (rule mult_le_mono1)
      from less_le_trans [OF i(5) this] show ?thesis by (simp only: mult.assoc)
    qed
    have "2 ^ t * ?r2 \<le> ?q * (2 ^ t * ?r2)" using q(1) by simp
    then have "(unat rt * 2 ^ h) * (unat rt * 2 ^ h) \<le> v" unfolding sq using lo by (rule order_trans)
    from sq_less_pow [OF this v] have "unat rt * 2 ^ h < 2 ^ LENGTH(256)"
      by (rule order.strict_trans) simp
    from unat_push_bit [OF this] have "unat (push_bit h rt) = unat rt * 2 ^ h" .
    then have "unat (push_bit h rt) * unat (push_bit h rt) = 2 ^ t * ?r2" "0 < unat (push_bit h rt)"
      using sq i(3) by simp_all
    with q lo hi show ?thesis
      unfolding st sqrt_seed_step_def seed_inv_def using True by (simp add: unat_drop_bit)
  qed
qed

lemma sqrt_seed_bounds:
  assumes "v \<noteq> 0"
  shows "0 < unat (sqrt_seed v)" "unat (sqrt_seed v) * unat (sqrt_seed v) \<le> unat v"
    "unat v < 8 * (unat (sqrt_seed v) * unat (sqrt_seed v))"
proof -
  define st where
    "st = fold sqrt_seed_step [(128, 64), (64, 32), (32, 16), (16, 8), (8, 4), (4, 2)] (v, 1)"
  have v: "unat v < 2 ^ 256" using unat_lt [of v] by simp
  note step = seed_inv_step [OF _ v]
  have "seed_inv 256 (unat v) (v, 1)" using assms v by (simp add: seed_inv_def unat_gt_0)
  then have "seed_inv 4 (unat v) st" unfolding st_def
    by (simp add: step)
  moreover obtain reduced rt where st: "st = (reduced, rt)" by (cases st)
  ultimately have i: "unat reduced < 16" "0 < unat rt" "0 < unat reduced"
    "unat reduced * (unat rt * unat rt) \<le> unat v" "unat v < (unat reduced + 1) * (unat rt * unat rt)"
    by (auto simp: seed_inv_def)
  have seed: "sqrt_seed v = (if 8 \<le> unat reduced then push_bit 1 rt else rt)"
    using st by (simp add: sqrt_seed_def st_def sqrt_seed_step_def word_le_nat_alt)
  have "unat rt * unat rt \<le> unat reduced * (unat rt * unat rt)" using i(3) by simp
  then have "unat rt * unat rt \<le> unat v" using i(4) by (rule order_trans)
  from sq_less_pow [OF this v] have "unat (push_bit 1 rt) = unat rt * 2"
    by (subst unat_push_bit) auto
  then have u: "unat (sqrt_seed v) = (if 8 \<le> unat reduced then 2 * unat rt else unat rt)"
    by (simp add: seed)
  show "0 < unat (sqrt_seed v)" using u i(2) by simp
  have "(if 8 \<le> unat reduced then 4 else 1) * (unat rt * unat rt) \<le> unat reduced * (unat rt * unat rt)"
    using i(3) by (intro mult_le_mono1) auto
  from order_trans [OF this i(4)] show "unat (sqrt_seed v) * unat (sqrt_seed v) \<le> unat v"
    using u by (auto split: if_splits)
  have "(unat reduced + 1) * (unat rt * unat rt) \<le>
      (if 8 \<le> unat reduced then 16 else 8) * (unat rt * unat rt)"
    using i(1) by (intro mult_le_mono1) auto
  from less_le_trans [OF i(5) this] show "unat v < 8 * (unat (sqrt_seed v) * unat (sqrt_seed v))"
    using u by (auto split: if_splits)
qed

text \<open>The loop on words is the iteration on numbers: nothing wraps and no division is by zero.\<close>

lemma newton_loop_nat:
  assumes v: "v \<noteq> 0" and x: "0 < unat rt" "unat rt < 2 ^ 200" "unat v div unat rt < 2 ^ 200"
  shows "\<exists>r. newton_loop n v rt = Inr r \<and> unat r = (newton (unat v) ^^ n) (unat rt) \<and> 0 < unat r"
  using x
proof (induction n arbitrary: rt)
  case (Suc n)
  let ?q = "v div rt" and ?y = "drop_bit 1 (rt + v div rt)"
  have q: "unat ?q = unat v div unat rt" by (simp add: unat_div)
  have "unat rt + unat ?q < 2 ^ 256" using Suc.prems q by simp
  then have "unat (rt + ?q) = unat rt + unat ?q" by (simp add: unat_word_ariths)
  then have y: "unat ?y = newton (unat v) (unat rt)"
    by (simp add: unat_drop_bit newton_def q)
  let ?f = "isqrt (unat v)"
  have f: "0 < ?f" "?f \<le> unat ?y"
    using v Suc.prems(1) newton_ge_isqrt y by (simp_all add: isqrt_pos unat_gt_0)
  have "?f < 2 ^ 128"
    using isqrt_correct [of "unat v"] unat_lt [of v] by (intro sq_less_pow) simp_all
  moreover have "unat v < (?f + 3) * ?f"
    using isqrt_correct [of "unat v"] f(1) by (simp add: algebra_simps)
  then have "unat v div ?f < ?f + 3" by (rule less_mult_imp_div_less)
  moreover have "unat v div unat ?y \<le> unat v div ?f" using f by (intro div_le_mono2)
  ultimately have "unat v div unat ?y < 2 ^ 200" by simp
  moreover have "unat ?y < 2 ^ 200" unfolding y newton_def using Suc.prems by linarith
  moreover have "0 < unat ?y" using f by simp
  ultimately obtain r where "newton_loop n v ?y = Inr r"
    "unat r = (newton (unat v) ^^ n) (unat ?y)" "0 < unat r" using Suc.IH by blast
  moreover have "rt \<noteq> 0" using Suc.prems(1) by auto
  ultimately show ?case
    using y by (simp add: u256_div_def funpow_swap1)
qed simp

lemma integer_sqrt_eq: "\<exists>r. integer_sqrt v = Inr r \<and> unat r = isqrt (unat v)"
proof (cases "v = 0")
  case True
  then show ?thesis by (simp add: integer_sqrt_def isqrt.simps)
next
  case False
  let ?s = "sqrt_seed v"
  note b = sqrt_seed_bounds [OF False]
  have v: "unat v < 2 ^ 256" using unat_lt [of v] by simp
  have s: "unat ?s < 2 ^ 128" using sq_less_pow [OF b(2) v] .
  have "unat v < (8 * unat ?s) * unat ?s" using b(3) by simp
  then have "unat v div unat ?s < 8 * unat ?s" by (rule less_mult_imp_div_less)
  then obtain r where r: "newton_loop 7 v ?s = Inr r" "unat r = (newton (unat v) ^^ 7) (unat ?s)"
    "0 < unat r"
    using newton_loop_nat [OF False b(1), of 7] s by auto
  have "converged (unat v) (unat r)" unfolding r(2) by (rule seven_steps [OF b v])
  then have "min (unat r) (unat v div unat r) = isqrt (unat v)"
    using False by (intro converged_min) (simp_all add: unat_gt_0)
  moreover have "r \<noteq> 0" using r(3) by auto
  ultimately show ?thesis
    using False r(1) by (simp add: integer_sqrt_def u256_div_def unat_min unat_div)
qed

section \<open>Volume per liquidity\<close>

lemma sint_uint_256: "sint (v :: 256 word) = uint v - 2 ^ 256 * of_bool (bit (uint v) 255)"
proof -
  have "take_bit 256 (uint v) = uint v" using uint_lt2p [of v] by (simp add: take_bit_int_eq_self)
  then show ?thesis by (simp add: sint_uint signed_take_bit_eq_take_bit_minus)
qed

lemma unat_signed_abs: "unat (signed_abs v) = nat \<bar>sint v\<bar>"
proof (cases "sint v < 0")
  case True
  then have "sint v = uint v - 2 ^ 256" "v \<noteq> 0"
    using uint_ge_0 [of v] by (cases "bit (uint v) 255", auto simp: sint_uint_256)
  moreover have "uint (- v) = 2 ^ 256 - uint v"
  proof -
    have "uint v \<noteq> 0" using \<open>v \<noteq> 0\<close> by (simp add: uint_0_iff)
    then have "0 < uint v" using uint_ge_0 [of v] by linarith
    moreover have "uint v < 2 ^ 256" using uint_lt2p [of v] by simp
    ultimately show ?thesis by (simp add: uint_word_ariths zmod_zminus1_eq_if)
  qed
  moreover have "signed_abs v = - v" using True by (simp add: signed_abs_def minus_eq_not_plus_1)
  ultimately have "int (unat (signed_abs v)) = \<bar>sint v\<bar>" using True by simp
  then show ?thesis by (metis nat_int)
next
  case False
  then have "sint v = uint v"
    using uint_lt2p [of v] by (cases "bit (uint v) 255") (simp_all add: sint_uint_256)
  then show ?thesis using False by (simp add: signed_abs_def)
qed

lemma isqrt_less:
  assumes "n < 2 ^ (2 * k)" shows "isqrt n < 2 ^ k"
proof (rule ccontr)
  assume "\<not> isqrt n < 2 ^ k"
  then have "(2::nat) ^ k * 2 ^ k \<le> isqrt n * isqrt n" by (intro mult_le_mono) simp_all
  also have "\<dots> \<le> n" using isqrt_correct by blast
  finally show False using assms by (simp add: mult_2 power_add)
qed

text \<open>The reference: the capped quotient on numbers.\<close>

definition volume_reference :: "nat \<Rightarrow> nat \<Rightarrow> nat \<Rightarrow> nat" where
  "volume_reference liquidity a0 a1 =
     min (100000 * 2 ^ 64) (isqrt a0 * isqrt a1 * 2 ^ 64 div liquidity)"

lemma volume_reference_saturated:
  assumes "0 < liquidity" "liquidity < 2 ^ 128" "2 ^ 192 \<le> isqrt a0 * isqrt a1"
  shows "volume_reference liquidity a0 a1 = 100000 * 2 ^ 64"
proof -
  have "100000 * 2 ^ 64 * liquidity \<le> 100000 * 2 ^ 64 * 2 ^ 128"
    using assms(2) by (intro mult_le_mono2) simp
  also have "\<dots> \<le> 2 ^ 192 * 2 ^ 64" by simp
  also have "\<dots> \<le> isqrt a0 * isqrt a1 * 2 ^ 64" using assms(3) by (rule mult_le_mono1)
  finally have "100000 * 2 ^ 64 \<le> isqrt a0 * isqrt a1 * 2 ^ 64 div liquidity"
    using assms(1) by (simp add: less_eq_div_iff_mult_less_eq)
  then show ?thesis by (simp add: volume_reference_def)
qed

lemma unat_ucast_up [simp]: "unat (ucast (l :: u128) :: u256) = unat l"
  using unat_lt [of l] by (simp add: unsigned_ucast_eq take_bit_nat_eq_self)

lemma volume_slow_path:
  fixes liquidity :: u128
  assumes l: "liquidity \<noteq> 0"
    and r0: "unat root0 = isqrt a0" "isqrt a0 < 2 ^ 128"
    and r1: "unat root1 = isqrt a1" "isqrt a1 < 2 ^ 128"
  shows "\<exists>r. bind_res
      (if root0 * root1 \<ge> push_bit 192 1 then u256_div (- 1) (ucast liquidity)
       else u256_div (push_bit 64 (root0 * root1)) (ucast liquidity)) (\<lambda>q.
      case try_into (min q (push_bit 64 100000)) of
        None \<Rightarrow> Inl (Panic msg) | Some r \<Rightarrow> Inr r) = (Inr r :: u128 result) \<and>
    unat r = volume_reference (unat liquidity) a0 a1"
proof -
  let ?l = "ucast liquidity :: u256" and ?p = "root0 * root1"
  have "isqrt a0 * isqrt a1 < 2 ^ 128 * 2 ^ 128" using r0 r1 by (intro mult_strict_mono) simp_all
  then have p: "unat ?p = isqrt a0 * isqrt a1" using r0 r1 by (simp add: unat_word_ariths)
  have lt: "unat liquidity < 2 ^ 128" using unat_lt [of liquidity] by simp
  with l have lpos: "0 < unat liquidity" "unat liquidity < 2 ^ 128" by (simp_all add: unat_gt_0)
  then have nz: "?l \<noteq> 0" by (metis unat_0 unat_ucast_up less_irrefl)
  define q where "q = (if ?p \<ge> push_bit 192 1 then - 1 else push_bit 64 ?p) div ?l"
  have "min (unat q) (100000 * 2 ^ 64) = volume_reference (unat liquidity) a0 a1"
  proof (cases "2 ^ 192 \<le> isqrt a0 * isqrt a1")
    case True
    then have "q = - 1 div ?l" using p by (simp add: q_def word_le_nat_alt)
    then have "unat q = (2 ^ 256 - 1) div unat liquidity"
      by (simp add: unat_div unsigned_minus_1_eq_mask mask_eq_exp_minus_1)
    moreover have "100000 * 2 ^ 64 * unat liquidity \<le> 2 ^ 256 - 1"
    proof -
      have "100000 * 2 ^ 64 * unat liquidity \<le> 100000 * 2 ^ 64 * 2 ^ 128"
        using lpos by (intro mult_le_mono2) simp
      also have "\<dots> \<le> 2 ^ 256 - 1" by simp
      finally show ?thesis .
    qed
    then have "100000 * 2 ^ 64 \<le> (2 ^ 256 - 1) div unat liquidity"
      using lpos(1) by (simp add: less_eq_div_iff_mult_less_eq)
    ultimately show ?thesis using volume_reference_saturated [OF lpos True] by simp
  next
    case False
    then have "q = push_bit 64 ?p div ?l" using p by (simp add: q_def word_le_nat_alt)
    moreover have "unat (push_bit 64 ?p) = unat ?p * 2 ^ 64"
      using False p by (intro unat_push_bit) simp
    ultimately have "unat q = isqrt a0 * isqrt a1 * 2 ^ 64 div unat liquidity"
      using p by (simp add: unat_div)
    then show ?thesis by (simp add: volume_reference_def)
  qed
  then have m: "unat (min q (push_bit 64 100000)) = volume_reference (unat liquidity) a0 a1"
    by (simp add: unat_min)
  have "volume_reference (unat liquidity) a0 a1 < 2 ^ LENGTH(128)"
    by (simp add: volume_reference_def min_less_iff_disj)
  then obtain r :: u128 where "try_into (min q (push_bit 64 100000)) = Some r"
    using m by (simp add: try_into_def)
  moreover from this have "unat r = volume_reference (unat liquidity) a0 a1"
    using m try_into_Some by metis
  ultimately show ?thesis using nz by (auto simp: q_def u256_div_def)
qed

lemma volume_fast_path:
  fixes a0 a1 :: u128
  defines "p \<equiv> (of_nat (isqrt (unat a0)) :: u128) * of_nat (isqrt (unat a1))"
  assumes l: "liquidity \<noteq> 0" and small: "p \<le> 18446744073709551615"
  shows "unat (min (push_bit 64 p div liquidity) volume_cap) =
    volume_reference (unat liquidity) (unat a0) (unat a1)"
proof -
  have lt: "isqrt (unat a) < 2 ^ 64" for a :: u128
    using unat_lt [of a] by (intro isqrt_less) simp
  have "take_bit 128 (isqrt (unat a)) = isqrt (unat a)" for a :: u128
    using order.strict_trans [OF lt, of "2 ^ 128"] by (intro take_bit_nat_eq_self) simp
  then have "unat (of_nat (isqrt (unat a)) :: u128) = isqrt (unat a)" for a :: u128
    by (simp add: unsigned_of_nat)
  moreover have "isqrt (unat a0) * isqrt (unat a1) < 2 ^ 64 * 2 ^ 64"
    by (intro mult_strict_mono lt) simp_all
  ultimately have p: "unat p = isqrt (unat a0) * isqrt (unat a1)"
    by (simp add: p_def unat_word_ariths)
  have "unat p \<le> 18446744073709551615" using small by (simp add: word_le_nat_alt)
  then have "unat (push_bit 64 p) = unat p * 2 ^ 64" by (intro unat_push_bit) simp
  then show ?thesis
    by (simp add: unat_min unat_div p volume_cap_def volume_reference_def min.commute)
qed

lemma volume_correct:
  assumes l: "liquidity \<noteq> 0"
  shows "\<exists>r. calculate_volume_per_liquidity_nonzero liquidity amount0 amount1 = Inr r \<and>
    unat r = volume_reference (unat liquidity) (nat \<bar>sint amount0\<bar>) (nat \<bar>sint amount1\<bar>)"
proof -
  let ?a0 = "signed_abs amount0" and ?a1 = "signed_abs amount1"
  obtain root0 root1 where r: "integer_sqrt ?a0 = Inr root0" "unat root0 = isqrt (unat ?a0)"
    "integer_sqrt ?a1 = Inr root1" "unat root1 = isqrt (unat ?a1)"
    using integer_sqrt_eq by metis
  have lt: "isqrt (unat a) < 2 ^ 128" for a :: u256
    using unat_lt [of a] by (intro isqrt_less) simp
  note slow = volume_slow_path [OF l r(2) lt r(4) lt]
  show ?thesis
  proof (cases "(try_into ?a0 :: u128 option, try_into ?a1 :: u128 option)")
    case (Pair o0 o1)
    show ?thesis
    proof (cases "\<exists>b0 b1. o0 = Some b0 \<and> o1 = Some b1 \<and>
        (of_nat (isqrt (unat b0)) :: u128) * of_nat (isqrt (unat b1)) \<le> 18446744073709551615")
      case True
      then obtain b0 b1 where b: "o0 = Some b0" "o1 = Some b1"
        "(of_nat (isqrt (unat b0)) :: u128) * of_nat (isqrt (unat b1)) \<le> 18446744073709551615" by blast
      have "unat b0 = unat ?a0" "unat b1 = unat ?a1" using Pair b by (simp_all add: try_into_Some)
      then show ?thesis using Pair b l volume_fast_path [OF l b(3)]
        by (simp add: calculate_volume_per_liquidity_nonzero_def Let_def unat_signed_abs)
    next
      case False
      then show ?thesis using Pair r(1,3) slow
        by (auto simp: calculate_volume_per_liquidity_nonzero_def Let_def unat_signed_abs
            split: option.splits)
    qed
  qed
qed

section \<open>The fee curve on numbers\<close>

definition exp_nat :: "nat \<Rightarrow> nat \<Rightarrow> nat" where
  "exp_nat x g = g ^ 8 + x * g ^ 7 + x ^ 2 * g ^ 6 div 2 + x ^ 3 * g ^ 5 div 6 + x ^ 4 * g ^ 4 div 24
     + x ^ 5 * g ^ 3 div 120 + x ^ 6 * g ^ 2 div 720 + x ^ 7 * g div 5040 + x ^ 8 div 40320"

definition sigmoid_nat :: "nat \<Rightarrow> nat \<Rightarrow> nat \<Rightarrow> nat \<Rightarrow> nat" where
  "sigmoid_nat x gamma alpha beta =
     (if x > beta then
        if x - beta \<ge> 6 * gamma then alpha
        else alpha * exp_nat (x - beta) gamma div (gamma ^ 8 + exp_nat (x - beta) gamma)
      else
        if beta - x \<ge> 6 * gamma then 0
        else alpha * gamma ^ 8 div (gamma ^ 8 + exp_nat (beta - x) gamma))"

lemma exp_nat_mono: "x \<le> y \<Longrightarrow> exp_nat x g \<le> exp_nat y g"
  unfolding exp_nat_def
  by (intro add_mono div_le_mono mult_le_mono power_mono order_refl) simp_all

lemma exp_nat_ge: "g ^ 8 \<le> exp_nat x g"
  by (simp add: exp_nat_def)

lemma ratio_mono:
  assumes "(e::nat) \<le> e'" "0 < g" "a \<le> a'"
  shows "a * e div (g + e) \<le> a' * e' div (g + e')"
proof -
  have "a * e div (g + e) * (g + e) \<le> a * e" by (rule div_times_less_eq_dividend)
  moreover define q where "q = a * e div (g + e)"
  ultimately have q: "q * (g + e) \<le> a * e" by simp
  have "q * (g + e') \<le> a * e'"
  proof (cases "e = 0")
    case True
    with q assms(2) have "q = 0" by simp
    then show ?thesis by simp
  next
    case False
    have "q * g \<le> (a - q) * e" using q by (simp add: algebra_simps diff_mult_distrib)
    also have "\<dots> \<le> (a - q) * e'" using assms(1) by simp
    finally have "q * g \<le> (a - q) * e'" .
    then have "q * g + q * e' \<le> (a - q) * e' + q * e'" by simp
    also have "\<dots> = a * e'" if "q \<le> a" using that by (simp flip: add_mult_distrib)
    moreover have "q \<le> a"
    proof -
      have "q * e \<le> q * (g + e)" by simp
      also note q
      finally show ?thesis using False by simp
    qed
    ultimately show ?thesis by (simp add: add_mult_distrib2)
  qed
  also have "\<dots> \<le> a' * e'" using assms(3) by simp
  finally have "q \<le> a' * e' div (g + e')" using assms(2) by (simp add: less_eq_div_iff_mult_less_eq)
  then show ?thesis by (simp add: q_def)
qed

lemma sigmoid_nat_le: "sigmoid_nat x g a b \<le> a"
proof -
  have "a * e div (g ^ 8 + e) \<le> a" for e
    by (metis div_le_mono div_mult_self_is_m div_by_0 le_add2 mult_le_mono2 zero_le gr_zeroI)
  moreover have "a * g ^ 8 div (g ^ 8 + e) \<le> a" for e
    by (metis div_le_mono div_mult_self_is_m div_by_0 le_add1 mult_le_mono2 zero_le gr_zeroI)
  ultimately show ?thesis by (simp add: sigmoid_nat_def)
qed

text \<open>Below the midpoint the curve is at most half of \<open>alpha\<close>, above it at least half.\<close>

lemma sigmoid_nat_below: "0 < g \<Longrightarrow> x \<le> b \<Longrightarrow> sigmoid_nat x g a b \<le> a * g ^ 8 div (g ^ 8 + g ^ 8)"
  using exp_nat_ge [of g "b - x"] by (auto simp: sigmoid_nat_def intro!: div_le_mono2)

lemma sigmoid_nat_above:
  assumes "0 < g" "b < x" shows "a * g ^ 8 div (g ^ 8 + g ^ 8) \<le> sigmoid_nat x g a b"
proof (cases "6 * g \<le> x - b")
  case True
  have "a * g ^ 8 div (g ^ 8 + g ^ 8) \<le> a * g ^ 8 div g ^ 8" using assms(1) by (intro div_le_mono2) simp_all
  then show ?thesis using True assms by (simp add: sigmoid_nat_def)
next
  case False
  then show ?thesis using assms ratio_mono [OF exp_nat_ge, of "g ^ 8" a a g "x - b"]
    by (simp add: sigmoid_nat_def)
qed

lemma sigmoid_nat_mono:
  assumes g: "0 < g" and xy: "x \<le> y" and a: "a \<le> a'"
  shows "sigmoid_nat x g a b \<le> sigmoid_nat y g a' b"
proof -
  consider "y \<le> b" | "x \<le> b" "b < y" | "b < x" using xy by linarith
  then show ?thesis
  proof cases
    case 1
    have "a * g ^ 8 div (g ^ 8 + exp_nat (b - x) g) \<le> a' * g ^ 8 div (g ^ 8 + exp_nat (b - y) g)"
    proof -
      have "a * g ^ 8 div (g ^ 8 + exp_nat (b - x) g) \<le> a' * g ^ 8 div (g ^ 8 + exp_nat (b - x) g)"
        using a by (intro div_le_mono) simp
      also have "\<dots> \<le> a' * g ^ 8 div (g ^ 8 + exp_nat (b - y) g)"
        using g exp_nat_mono [of "b - y" "b - x" g] xy by (intro div_le_mono2) auto
      finally show ?thesis .
    qed
    then show ?thesis using 1 xy by (auto simp: sigmoid_nat_def)
  next
    case 2
    have "sigmoid_nat x g a b \<le> a * g ^ 8 div (g ^ 8 + g ^ 8)" using g 2 by (intro sigmoid_nat_below)
    also have "\<dots> \<le> a' * g ^ 8 div (g ^ 8 + g ^ 8)" using a by (intro div_le_mono) simp
    also have "\<dots> \<le> sigmoid_nat y g a' b" using g 2 by (intro sigmoid_nat_above)
    finally show ?thesis .
  next
    case 3
    show ?thesis
    proof (cases "6 * g \<le> y - b")
      case True
      then have "sigmoid_nat y g a' b = a'" using 3 xy by (simp add: sigmoid_nat_def)
      then show ?thesis using sigmoid_nat_le [of x g a b] a by simp
    next
      case False
      then show ?thesis using 3 xy g a exp_nat_mono [of "x - b" "y - b" g]
        by (auto simp: sigmoid_nat_def intro!: ratio_mono)
    qed
  qed
qed


section \<open>The fee curve on words\<close>

lemma unat_u16_u256 [simp]: "unat (ucast (g :: u16) :: u256) = unat g"
  using unat_lt [of g] by (simp add: unsigned_ucast_eq take_bit_nat_eq_self)

lemma unat_u16_u32 [simp]: "unat (ucast (g :: u16) :: u32) = unat g"
  using unat_lt [of g] by (simp add: unsigned_ucast_eq take_bit_nat_eq_self)

lemma u16_less: "unat (g :: u16) < 2 ^ 16"
  using unat_lt [of g] by simp

lemma checked_mul_nat:
  fixes a b :: "'a::len word"
  assumes "unat a * unat b < 2 ^ LENGTH('a)"
  shows "\<exists>c. checked_mul a b = Some c \<and> unat c = unat a * unat b"
  using assms by (simp add: checked_mul_def unat_word_ariths)

lemma checked_add_nat:
  fixes a b :: "'a::len word"
  assumes "unat a + unat b < 2 ^ LENGTH('a)"
  shows "\<exists>c. checked_add a b = Some c \<and> unat c = unat a + unat b"
  using assms by (simp add: checked_add_def unat_word_ariths)

lemma power_eight_eq: "\<exists>p. power_eight (ucast (g :: u16)) = Inr p \<and> unat p = unat g ^ 8"
proof -
  have lt: "unat g ^ n < 2 ^ 256" if "n \<le> 8" for n
  proof -
    have "unat g ^ n \<le> (2 ^ 16) ^ n" using u16_less [of g] by (intro power_mono) simp_all
    also have "\<dots> \<le> (2 ^ 16) ^ 8" using that by (intro power_increasing) simp_all
    also have "\<dots> < 2 ^ 256" by simp
    finally show ?thesis .
  qed
  obtain s where s: "checked_mul (ucast g) (ucast g :: u256) = Some s" "unat s = unat g ^ 2"
    using checked_mul_nat [of "ucast g :: u256" "ucast g"] lt [of 2] by (auto simp: power2_eq_square)
  obtain f where f: "checked_mul s s = Some f" "unat f = unat g ^ 4"
    using checked_mul_nat [of s s] lt [of 4] s(2) by (auto simp flip: power_add)
  obtain e where e: "checked_mul f f = Some e" "unat e = unat g ^ 8"
    using checked_mul_nat [of f f] lt [of 8] f(2) by (auto simp flip: power_add)
  show ?thesis using s f e by (simp add: power_eight_def)
qed

text \<open>Every term stays below \<open>2 ^ 160\<close>: the argument is below six times a 16-bit gamma.\<close>

lemma term_less:
  assumes "x < 6 * g" "g < 2 ^ 16" "i + j \<le> (8::nat)"
  shows "x ^ i * g ^ j < (2::nat) ^ 160"
proof -
  have "x \<le> 2 ^ 19" "g \<le> 2 ^ 19" using assms by simp_all
  then have "x ^ i * g ^ j \<le> (2 ^ 19) ^ i * (2 ^ 19) ^ j" by (intro mult_le_mono power_mono) simp_all
  also have "\<dots> = (2 ^ 19) ^ (i + j)" by (simp add: power_add)
  also have "\<dots> \<le> (2 ^ 19) ^ 8" using assms(3) by (intro power_increasing) simp_all
  also have "\<dots> < 2 ^ 160" by simp
  finally show ?thesis .
qed

lemma exp_term_eq:
  assumes g: "0 < unat g" "unat g < 2 ^ 16" and x: "unat x < 6 * unat g" and ij: "i + j = 8" "i < 8"
    and st: "unat xp = unat x ^ i" "unat gp = unat g ^ Suc j" "unat acc < 2 ^ 200"
  shows "\<exists>xp' gp' acc'. exp_term x g d (xp, gp, acc) = Inr (xp', gp', acc') \<and>
    unat xp' = unat x ^ Suc i \<and> unat gp' = unat g ^ j \<and>
    unat acc' = unat acc + unat x ^ i * unat g ^ j div unat d"
proof -
  have gp: "unat (gp div g) = unat g ^ j" using st(2) g(1) by (simp add: unat_div)
  have t: "unat x ^ i * unat g ^ j < 2 ^ 160" using x g ij by (intro term_less) simp_all
  obtain t where t': "checked_mul xp (gp div g) = Some t" "unat t = unat x ^ i * unat g ^ j"
    using checked_mul_nat [of xp "gp div g"] t st(1) gp by auto
  have "unat t div unat d \<le> unat t" by simp
  with t [folded t'(2)] st(3) have "unat acc + unat t div unat d < 2 ^ 200 + 2 ^ 160" by linarith
  also have "\<dots> < (2::nat) ^ 256" by simp
  finally obtain acc' where acc': "checked_add acc (t div d) = Some acc'"
    "unat acc' = unat acc + unat t div unat d"
    using checked_add_nat [of acc "t div d"] by (auto simp: unat_div)
  have "unat x ^ Suc i * unat g ^ 0 < 2 ^ 160" using x g ij by (intro term_less) simp_all
  then obtain xp' where xp': "checked_mul xp x = Some xp'" "unat xp' = unat x ^ Suc i"
    using checked_mul_nat [of xp x] st(1) by (auto simp: mult.commute)
  have "g \<noteq> 0" using g(1) by auto
  then show ?thesis using t' acc' xp' gp by (simp add: exp_term_def u256_div_def)
qed

fun terms_nat :: "nat \<Rightarrow> nat \<Rightarrow> nat \<Rightarrow> nat \<Rightarrow> nat list \<Rightarrow> nat" where
  "terms_nat x g i j [] = 0"
| "terms_nat x g i j (d # ds) = x ^ i * g ^ (j - 1) div d + terms_nat x g (i + 1) (j - 1) ds"

lemma exp_loop_eq:
  assumes g: "0 < unat g" "unat g < 2 ^ 16" and x: "unat x < 6 * unat g"
    and ij: "i + j = 8" "length ds \<le> j"
    and st: "unat xp = unat x ^ i" "unat gp = unat g ^ Suc j"
      "unat acc + length ds * 2 ^ 160 < 2 ^ 200"
  shows "\<exists>xp' gp' acc'. for_each (exp_term x g) ds (xp, gp, acc) = Inr (xp', gp', acc') \<and>
    unat xp' = unat x ^ (i + length ds) \<and>
    unat acc' = unat acc + terms_nat (unat x) (unat g) i (Suc j) (map unat ds)"
  using ij st
proof (induction ds arbitrary: i j xp gp acc)
  case (Cons d ds)
  then obtain k where j: "j = Suc k" by (cases j) auto
  have "unat acc < 2 ^ 200" using Cons.prems by linarith
  then obtain xp1 gp1 acc1 where s: "exp_term x g d (xp, gp, acc) = Inr (xp1, gp1, acc1)"
    "unat xp1 = unat x ^ Suc i" "unat gp1 = unat g ^ Suc k"
    "unat acc1 = unat acc + unat x ^ i * unat g ^ Suc k div unat d"
    using exp_term_eq [OF g x, of i "Suc k" xp gp acc d] Cons.prems j by auto
  have "unat x ^ i * unat g ^ Suc k < 2 ^ 160"
    using term_less [OF x g(2), of i "Suc k"] Cons.prems j by simp
  then have "unat x ^ i * unat g ^ Suc k div unat d < 2 ^ 160"
    by (meson div_le_dividend le_less_trans)
  then have "unat acc1 + length ds * 2 ^ 160 < 2 ^ 200" using Cons.prems(5) s(4) by simp
  then obtain xp' gp' acc' where "for_each (exp_term x g) ds (xp1, gp1, acc1) = Inr (xp', gp', acc')"
    "unat xp' = unat x ^ (Suc i + length ds)"
    "unat acc' = unat acc1 + terms_nat (unat x) (unat g) (Suc i) (Suc k) (map unat ds)"
    using Cons.IH [of "Suc i" k xp1 gp1 acc1] s(2,3) Cons.prems(1,2) j by auto
  with s j show ?case by simp
qed auto

lemma small_powers:
  fixes x :: nat
  shows "x ^ 2 = x * x" "x ^ 3 = x * (x * x)" "x ^ 4 = x * (x * (x * x))"
    "x ^ 5 = x * (x * (x * (x * x)))" "x ^ 6 = x * (x * (x * (x * (x * x))))"
  by (simp_all add: eval_nat_numeral)

lemma exp_series_eq:
  fixes x g :: u256
  assumes g: "0 < unat g" "unat g < 2 ^ 16" and x: "unat x < 6 * unat g"
    and g8: "unat g8 = unat g ^ 8"
  shows "\<exists>e. exp_series x g g8 = Inr e \<and> unat e = exp_nat (unat x) (unat g) \<and> unat e < 2 ^ 201"
proof -
  let ?x = "unat x" and ?g = "unat g" and ?ds = "[1, 2, 6, 24, 120, 720] :: u256 list"
  have tl: "?x ^ i * ?g ^ j div d < 2 ^ 160" if "i + j \<le> 8" for i j d
    using term_less [OF x g(2) that] by (meson div_le_dividend le_less_trans)
  have "?g ^ 8 < 2 ^ 160" using term_less [OF x g(2), of 0 8] by simp
  then have p: "unat g8 = ?g ^ Suc 7" "unat g8 + length ?ds * 2 ^ 160 < 2 ^ 200"
    using g8 by simp_all
  have q: "1 + 7 = (8::nat)" "length ?ds \<le> 7" "unat x = ?x ^ 1" by simp_all
  obtain x7 gp acc where loop: "for_each (exp_term x g) ?ds (x, g8, g8) = Inr (x7, gp, acc)"
    and r: "unat x7 = ?x ^ (1 + length ?ds)"
      "unat acc = unat g8 + terms_nat ?x ?g 1 (Suc 7) (map unat ?ds)"
    using exp_loop_eq [OF g x q p] by blast
  have len: "1 + length ?ds = 7" by simp
  have x7: "unat x7 = ?x ^ 7" using r(1) unfolding len .
  have acc: "unat acc = ?g ^ 8 + (?x * ?g ^ 7 + (?x ^ 2 * ?g ^ 6 div 2 + (?x ^ 3 * ?g ^ 5 div 6 +
      (?x ^ 4 * ?g ^ 4 div 24 + (?x ^ 5 * ?g ^ 3 div 120 + ?x ^ 6 * ?g ^ 2 div 720)))))"
    using r(2) g8 by (simp add: small_powers [of ?x])
  have acc_lt: "unat acc < 2 ^ 200"
    using \<open>?g ^ 8 < 2 ^ 160\<close> tl [of 1 7 1] tl [of 2 6 2] tl [of 3 5 6] tl [of 4 4 24] tl [of 5 3 120]
      tl [of 6 2 720] unfolding acc by simp
  obtain x8 where x8: "checked_mul x7 x = Some x8" "unat x8 = ?x ^ 8"
    using checked_mul_nat [of x7 x] x7 term_less [OF x g(2), of 8 0] by (auto simp flip: power_Suc2)
  obtain t where t: "checked_mul x7 g = Some t" "unat t = ?x ^ 7 * ?g"
    using checked_mul_nat [of x7 g] x7 term_less [OF x g(2), of 7 1] by auto
  obtain a1 where a1: "checked_add acc (t div 5040) = Some a1"
    "unat a1 = unat acc + ?x ^ 7 * ?g div 5040"
    using checked_add_nat [of acc "t div 5040"] acc_lt tl [of 7 1 5040] t(2) by (auto simp: unat_div)
  obtain a2 where a2: "checked_add a1 (x8 div 40320) = Some a2"
    "unat a2 = unat a1 + ?x ^ 8 div 40320"
    using checked_add_nat [of a1 "x8 div 40320"] acc_lt tl [of 7 1 5040] tl [of 8 0 40320] a1(2) x8(2)
    by (auto simp: unat_div)
  have "unat a2 = exp_nat ?x ?g" using a1(2) a2(2) acc by (simp add: exp_nat_def)
  moreover have "unat a2 < 2 ^ 201"
    using acc_lt tl [of 7 1 5040] tl [of 8 0 40320] a1(2) a2(2) by simp
  moreover have "exp_series x g g8 = Inr a2"
    unfolding exp_series_def loop using x8(1) t(1) a1(1) a2(1) by simp
  ultimately show ?thesis by blast
qed

lemma alpha_quotient:
  fixes n d :: u256
  assumes "unat n < 2 ^ 201" "0 < unat d"
  shows "\<exists>r. u256_div (ucast (alpha :: u16) * n) d = Inr r \<and> unat r = unat alpha * unat n div unat d"
proof -
  have "unat alpha * unat n < 2 ^ 16 * 2 ^ 201"
    using u16_less [of alpha] assms(1) by (intro mult_strict_mono) simp_all
  then have "unat (ucast alpha * n) = unat alpha * unat n" by (simp add: unat_word_ariths)
  moreover have "d \<noteq> 0" using assms(2) by auto
  ultimately show ?thesis by (simp add: u256_div_def unat_div)
qed

lemma sigmoid_eq:
  assumes gamma: "gamma \<noteq> 0"
  shows "\<exists>r. sigmoid x gamma alpha beta = Inr r \<and>
    unat r = sigmoid_nat (unat x) (unat gamma) (unat alpha) (unat beta)"
proof -
  let ?g = "ucast gamma :: u256"
  obtain g8 where g8: "power_eight ?g = Inr g8" "unat g8 = unat gamma ^ 8"
    using power_eight_eq by blast
  have g: "0 < unat ?g" "unat ?g < 2 ^ 16" using gamma u16_less [of gamma] by (simp_all add: unat_gt_0)
  have six: "unat (?g * 6) = 6 * unat gamma"
    using u16_less [of gamma] by (simp add: unat_word_ariths)
  have exp: "\<exists>e. exp_series s ?g g8 = Inr e \<and> unat e = exp_nat (unat s) (unat gamma) \<and> unat e < 2 ^ 201"
    if "\<not> ?g * 6 \<le> s" for s
    using exp_series_eq [OF g, of s g8] that g8(2) six by (simp add: word_le_nat_alt)
  have g8_lt: "0 < unat g8" "unat g8 < 2 ^ 160"
    using g term_less [of 0 "unat gamma" 0 8] g8(2) by simp_all
  show ?thesis
  proof (cases "beta < x")
    case True
    then have sub: "unat (x - beta) = unat x - unat beta" and gt: "unat beta < unat x"
      by (simp_all add: unat_sub word_less_nat_alt word_le_nat_alt)
    show ?thesis
    proof (cases "?g * 6 \<le> x - beta")
      case big: True
      then show ?thesis using gamma g8(1) True gt sub six
        by (simp add: sigmoid_def Let_def sigmoid_nat_def word_le_nat_alt)
    next
      case small: False
      from exp [OF this] obtain e where e: "exp_series (x - beta) ?g g8 = Inr e"
        "unat e = exp_nat (unat (x - beta)) (unat gamma)" "unat e < 2 ^ 201" by blast
      have "unat (g8 + e) = unat g8 + unat e" using e(3) g8_lt by (simp add: unat_word_ariths)
      then show ?thesis using gamma g8 True gt sub six small e alpha_quotient [of e "g8 + e" alpha] g8_lt
        by (simp add: sigmoid_def Let_def sigmoid_nat_def word_le_nat_alt)
    qed
  next
    case False
    then have sub: "unat (beta - x) = unat beta - unat x" and le: "unat x \<le> unat beta"
      by (simp_all add: unat_sub not_less word_le_nat_alt)
    show ?thesis
    proof (cases "?g * 6 \<le> beta - x")
      case big: True
      then show ?thesis using gamma g8(1) False le sub six
        by (simp add: sigmoid_def Let_def sigmoid_nat_def word_le_nat_alt)
    next
      case small: False
      from exp [OF this] obtain e where e: "exp_series (beta - x) ?g g8 = Inr e"
        "unat e = exp_nat (unat (beta - x)) (unat gamma)" "unat e < 2 ^ 201" by blast
      obtain d where d: "checked_add g8 e = Some d" "unat d = unat g8 + unat e"
        using checked_add_nat [of g8 e] e(3) g8_lt by auto
      then show ?thesis using gamma g8 False le sub six small e alpha_quotient [of g8 d alpha] g8_lt
        by (simp add: sigmoid_def Let_def sigmoid_nat_def word_le_nat_alt)
    qed
  qed
qed

definition fee_nat :: "adaptive_fee_configuration \<Rightarrow> nat \<Rightarrow> nat \<Rightarrow> nat" where
  "fee_nat c volatility volume =
     unat (afc_base_fee c) +
     sigmoid_nat volume (unat (afc_volume_gamma c))
       (sigmoid_nat volatility (unat (afc_gamma1 c)) (unat (afc_alpha1 c)) (unat (afc_beta1 c)) +
        sigmoid_nat volatility (unat (afc_gamma2 c)) (unat (afc_alpha2 c)) (unat (afc_beta2 c)))
       (unat (afc_volume_beta c))"

lemma afc_validate_Inr:
  "afc_validate c = Inr c' \<longleftrightarrow> c' = c \<and>
     unat (afc_alpha1 c) + unat (afc_alpha2 c) + unat (afc_base_fee c) \<le> 65535 \<and>
     afc_gamma1 c \<noteq> 0 \<and> afc_gamma2 c \<noteq> 0 \<and> afc_volume_gamma c \<noteq> 0"
proof -
  have "unat ((ucast (afc_alpha1 c) :: u32) + ucast (afc_alpha2 c) + ucast (afc_base_fee c)) =
      unat (afc_alpha1 c) + unat (afc_alpha2 c) + unat (afc_base_fee c)"
    using u16_less [of "afc_alpha1 c"] u16_less [of "afc_alpha2 c"] u16_less [of "afc_base_fee c"]
    by (simp add: unat_word_ariths)
  then show ?thesis by (auto simp: afc_validate_def word_le_nat_alt)
qed

lemma fee_eq:
  assumes "afc_validate c = Inr c'"
  shows "\<exists>f. fee c vol vpl = Inr f \<and> unat f = fee_nat c (unat vol) (unat vpl)"
proof -
  from assms have v: "unat (afc_alpha1 c) + unat (afc_alpha2 c) + unat (afc_base_fee c) \<le> 65535"
    "afc_gamma1 c \<noteq> 0" "afc_gamma2 c \<noteq> 0" "afc_volume_gamma c \<noteq> 0" by (auto simp: afc_validate_Inr)
  have u32: "unat (ucast (b :: u32) :: u256) = unat b" for b
    using unat_lt [of b] by (simp add: unsigned_ucast_eq take_bit_nat_eq_self)
  obtain s1 where s1: "sigmoid (ucast vol) (afc_gamma1 c) (afc_alpha1 c) (ucast (afc_beta1 c)) = Inr s1"
    "unat s1 = sigmoid_nat (unat vol) (unat (afc_gamma1 c)) (unat (afc_alpha1 c)) (unat (afc_beta1 c))"
    using sigmoid_eq [OF v(2), of "ucast vol" "afc_alpha1 c" "ucast (afc_beta1 c)"] u32 by auto
  obtain s2 where s2: "sigmoid (ucast vol) (afc_gamma2 c) (afc_alpha2 c) (ucast (afc_beta2 c)) = Inr s2"
    "unat s2 = sigmoid_nat (unat vol) (unat (afc_gamma2 c)) (unat (afc_alpha2 c)) (unat (afc_beta2 c))"
    using sigmoid_eq [OF v(3), of "ucast vol" "afc_alpha2 c" "ucast (afc_beta2 c)"] u32 by auto
  have s_le: "unat s1 \<le> unat (afc_alpha1 c)" "unat s2 \<le> unat (afc_alpha2 c)"
    using s1(2) s2(2) by (simp_all add: sigmoid_nat_le)
  obtain sm where sm: "checked_add s1 s2 = Some sm" "unat sm = unat s1 + unat s2"
    using checked_add_nat [of s1 s2] s_le v(1) by auto
  have "unat (min sm 65535) = unat s1 + unat s2"
    using sm(2) s_le v(1) by (simp add: unat_min)
  moreover from this obtain s16 :: u16 where s16: "try_into (min sm 65535) = Some s16"
    using s_le v(1) by (simp add: try_into_def)
  ultimately have u16: "unat s16 = unat s1 + unat s2" using try_into_Some by metis
  obtain va where va: "sigmoid vpl (afc_volume_gamma c) s16 (ucast (afc_volume_beta c)) = Inr va"
    "unat va = sigmoid_nat (unat vpl) (unat (afc_volume_gamma c)) (unat s16) (unat (afc_volume_beta c))"
    using sigmoid_eq [OF v(4), of vpl s16 "ucast (afc_volume_beta c)"] u32 by auto
  have va_le: "unat va \<le> unat s16" using va(2) by (simp add: sigmoid_nat_le)
  obtain va16 :: u16 where va16: "try_into va = Some va16"
    using va_le u16_less [of s16] by (simp add: try_into_def)
  then have uva: "unat va16 = unat va" using try_into_Some by metis
  obtain f where "checked_add (afc_base_fee c) va16 = Some f" "unat f = unat (afc_base_fee c) + unat va16"
    using checked_add_nat [of "afc_base_fee c" va16] uva va_le u16 s_le v(1) by auto
  then show ?thesis
    using assms s1 s2 sm(1) s16 va va16 uva u16 by (simp add: fee_def fee_nat_def)
qed

lemma fee_nat_le:
  "fee_nat c v w \<le> unat (afc_base_fee c) + (unat (afc_alpha1 c) + unat (afc_alpha2 c))"
  unfolding fee_nat_def
  by (intro add_left_mono order_trans [OF sigmoid_nat_le] add_mono sigmoid_nat_le)

lemma fee_nat_mono:
  assumes "afc_validate c = Inr c'" "v \<le> v'" "w \<le> w'"
  shows "fee_nat c v w \<le> fee_nat c v' w'"
  using assms unfolding fee_nat_def
  by (intro add_left_mono sigmoid_nat_mono add_mono) (auto simp: afc_validate_Inr unat_gt_0)

lemma fee_never_panics: "\<not> panics (fee c vol vpl)"
proof (cases "afc_validate c")
  case (Inl e)
  then show ?thesis by (auto simp: fee_def panics_iff afc_validate_def res_simps)
next
  case (Inr c')
  from fee_eq [OF this, of vol vpl] show ?thesis by (auto simp: panics_iff)
qed

section \<open>Volatility\<close>

lemma sdiv_nonneg: "0 \<le> a \<Longrightarrow> 0 \<le> b \<Longrightarrow> a sdiv b = a div (b :: int)"
  by (cases "a = 0 \<or> b = 0") (auto simp: signed_divide_int_def)

lemma sum_squares_nat: "6 * (\<Sum>i = 1..n. int i * int i) = int n * (int n + 1) * (2 * int n + 1)"
  by (induction n) (simp_all add: algebra_simps)

lemma sum_first_nat: "2 * (\<Sum>i = 1..n. int i) = int n * (int n + 1)"
  by (induction n) (simp_all add: algebra_simps)

text \<open>Six times the sum of the squares of the deviation line over the interval.\<close>

lemma deviation_sum:
  "6 * (\<Sum>i = 1..n. (k * int i + b) * (k * int i + b)) =
     k * k * (int n * (int n + 1) * (2 * int n + 1)) + b * k * (int n * (int n + 1)) * 6 + b * b * int n * 6"
proof -
  have "(\<Sum>i = 1..n. (k * int i + b) * (k * int i + b)) =
      k * k * (\<Sum>i = 1..n. int i * int i) + 2 * b * k * (\<Sum>i = 1..n. int i) + int n * (b * b)"
    by (simp add: sum_distrib_left algebra_simps sum.distrib)
  then show ?thesis
    using sum_squares_nat [of n] sum_first_nat [of n] by algebra
qed

lemma volatility_on_range_Inr:
  assumes "volatility_on_range delta t0 t1 a0 a1 = Inr r"
  defines "n \<equiv> unat delta" and "k \<equiv> (t1 - t0) - (a1 - a0)"
  shows "int (unat r) = (\<Sum>i = 1..n. (k * int i + (t0 - a0) * int n) * (k * int i + (t0 - a0) * int n))
      div (int n * int n)"
proof -
  let ?dt = "int n" and ?b = "(t0 - a0) * int n"
  let ?num = "k * k * (?dt * (?dt + 1) * (2 * ?dt + 1)) + ?b * k * (?dt * (?dt + 1)) * 6 + ?b * ?b * ?dt * 6"
  let ?S = "\<Sum>i = 1..n. (k * int i + ?b) * (k * int i + ?b)"
  from assms(1) have nn: "0 \<le> ?num" and nz: "int n \<noteq> 0"
    and r: "u128_try_from (?num sdiv (6 * ?dt * ?dt)) = Some r"
    unfolding n_def k_def
    by (auto simp: volatility_on_range_def Let_def bind_opt_def checked_i128_def
        split: if_splits option.splits)
  have "?num sdiv (6 * ?dt * ?dt) = ?num div (6 * (?dt * ?dt))"
    using nn nz by (simp add: sdiv_nonneg mult.assoc)
  also have "\<dots> = 6 * ?S div (6 * (?dt * ?dt))" by (simp only: deviation_sum)
  also have "\<dots> = ?S div (?dt * ?dt)" by (rule div_mult_mult1) simp
  finally show ?thesis using r
    by (auto simp: u128_try_from_def unsigned_of_int take_bit_int_eq_self split: if_splits)
qed

section \<open>No panic\<close>

lemma panics_simps:
  "panics (bind_res m f) \<longleftrightarrow> panics m \<or> (\<exists>x. m = Inr x \<and> panics (f x))"
  "panics (ensure c msg k) \<longleftrightarrow> c \<and> panics k"
  "\<not> panics (context_opt v msg)"
  "\<not> panics (Inr x)"
  "\<not> panics (Inl (Bail msg))"
  by (auto simp: panics_iff res_simps)

lemma volatility_never_panics: "delta \<noteq> 0 \<Longrightarrow> \<not> panics (volatility_on_range delta t0 t1 a0 a1)"
  by (auto simp: volatility_on_range_def Let_def panics_simps bind_opt_def checked_i128_def
      uint_0_iff split: if_splits option.splits)

lemma create_never_panics: "\<not> panics (create_new_timepoint l t tick ptick liq avg vol)"
  by (auto simp: create_new_timepoint_def panics_simps dest: volatility_never_panics)

lemma previous_tick_never_panics: "\<not> panics (previous_tick s l)"
  by (auto simp: previous_tick_def panics_simps)

lemma search_never_panics: "\<not> panics (search_timepoint s target)"
  by (auto simp: search_timepoint_def interpolate_timepoint_def panics_simps split: prod.split)

lemma lookup_never_panics:
  "\<not> panics (average_tick_for_new_timepoint s t l)"
  "\<not> panics (single_timepoint s t ago i)"
proof (induction s t l and s t ago i rule: average_tick_for_new_timepoint_single_timepoint.induct)
  case (1 s t l)
  then show ?case
    by (subst average_tick_for_new_timepoint.simps) (auto simp: panics_simps Let_def)
next
  case (2 s t ago i)
  then show ?case
    by (subst single_timepoint.simps)
      (auto simp: panics_simps Let_def create_never_panics previous_tick_never_panics
        search_never_panics)
qed

lemma fees_at_never_panics: "\<not> panics (fees_at s t)"
proof -
  have "\<not> panics (projected_averages_at s t)"
    by (auto simp: projected_averages_at_def averages_def panics_simps Let_def lookup_never_panics
        previous_tick_never_panics create_never_panics oldest_index_after_write_def fps_validate_def
        afc_validate_def latest_def)
  then show ?thesis
    by (auto simp: fees_at_def panics_simps Let_def fee_never_panics fps_validate_def
        afc_validate_def latest_def split: prod.splits)
qed

lemma envelope_never_panics: "\<not> panics (envelope s h)"
proof -
  have "\<not> panics (for_each (\<lambda>t mx. bind_res (fees_at s t) (\<lambda>fees. Inr (fees_max mx fees))) ts m)"
    for ts m
    by (induction ts arbitrary: m) (auto simp: panics_simps fees_at_never_panics)
  then show ?thesis
    by (auto simp: envelope_def panics_simps fees_at_never_panics fps_validate_def afc_validate_def)
qed

section \<open>Events\<close>

text \<open>
  The five ways a projection advances, in the order the source declares them.  The mirror checks the
  timepoint of a swap itself and then applies it as \<open>CheckedSwapEvent\<close>.
\<close>

datatype camelot_event =
    FeeEvent u32 directional_fees
  | SwapEvent u32 "256 word" "256 word" int u128
  | CheckedSwapEvent u32 "256 word" "256 word" int u128
  | LiquidityHead u32 int u128
  | AdvanceHead u32

fun camelot_apply :: "camelot_event \<Rightarrow> fee_projection_state \<Rightarrow> fee_projection_state \<times> unit result" where
  "camelot_apply (FeeEvent t emitted) s = apply_fee_timepoint t emitted s"
| "camelot_apply (SwapEvent t a0 a1 tick liq) s = apply_swap t a0 a1 tick liq s"
| "camelot_apply (CheckedSwapEvent t a0 a1 tick liq) s = apply_swap_after_timepoint_validation t a0 a1 tick liq s"
| "camelot_apply (LiquidityHead t tick liq) s = apply_liquidity_head t tick liq s"
| "camelot_apply (AdvanceHead t) s = advance_head t s"

lemma fps_validate_Inr:
  "fps_validate s = Inr u \<longleftrightarrow>
     is_ok (afc_validate (fps_zero_for_one_config s)) \<and> is_ok (afc_validate (fps_one_for_zero_config s)) \<and>
     fps_liquidity s \<noteq> 0 \<and>
     (\<exists>p. bt_get (fps_timepoints s) (fps_index s) = Some p \<and> tp_initialized p \<and>
          tp_block_timestamp p = fps_latest_timepoint_timestamp s) \<and>
     (\<exists>p. bt_get (fps_timepoints s) (fps_oldest_index s) = Some p \<and> tp_initialized p)"
  by (auto simp: fps_validate_def is_ok_iff split: option.splits)

lemma oldest_index_after_write_Inr:
  "oldest_index_after_write s i = Inr k \<Longrightarrow>
     \<exists>p. bt_get (fps_timepoints s) k = Some p \<and> tp_initialized p"
  by (auto simp: oldest_index_after_write_def Let_def split: option.splits if_splits)

lemma create_new_timepoint_Inr:
  "create_new_timepoint l t tick ptick liq avg vol = Inr p \<Longrightarrow>
     tp_initialized p \<and> tp_block_timestamp p = t \<and> tp_block_timestamp l < t"
  by (auto simp: create_new_timepoint_def checked_simps word_less_nat_alt word_eq_0_iff_unat)

lemma new_fee_timepoint_Inr:
  assumes "new_fee_timepoint t emitted s = Inr point"
  shows "fps_validate s = Inr ()" "fees_at s t = Inr emitted" "fps_head_timestamp s \<le> t"
    "fps_latest_timepoint_timestamp s < t" "tp_initialized point" "tp_block_timestamp point = t"
  using assms
  by (auto simp: new_fee_timepoint_def latest_def fps_validate_Inr dest: create_new_timepoint_Inr)

section \<open>Properties\<close>

text \<open>
  (C10) The fee curve is total, bounded and monotone: for a validated configuration no step of the
  series, the sigmoids or the sum overflows or fails, the fee lies between the base fee and the base
  fee plus both amplitudes, and it never decreases when volatility or volume grows.
\<close>

theorem fee_total_bounded_monotone:
  assumes "afc_validate c = Inr c'" and "volatility \<le> volatility'" and "volume \<le> volume'"
  shows "\<exists>f f'. fee c volatility volume = Inr f \<and> fee c volatility' volume' = Inr f' \<and>
    afc_base_fee c \<le> f \<and> f \<le> f' \<and>
    unat f' \<le> unat (afc_base_fee c) + unat (afc_alpha1 c) + unat (afc_alpha2 c)"
proof -
  obtain f f' where f: "fee c volatility volume = Inr f" "unat f = fee_nat c (unat volatility) (unat volume)"
    and f': "fee c volatility' volume' = Inr f'" "unat f' = fee_nat c (unat volatility') (unat volume')"
    using fee_eq [OF assms(1)] by metis
  have "unat f \<le> unat f'"
    using assms unfolding f(2) f'(2) by (intro fee_nat_mono) (simp_all add: word_le_nat_alt)
  moreover have "unat f' \<le> unat (afc_base_fee c) + unat (afc_alpha1 c) + unat (afc_alpha2 c)"
    using fee_nat_le [of c "unat volatility'" "unat volume'"] f'(2) by simp
  moreover have "unat (afc_base_fee c) \<le> unat f" using f(2) by (simp add: fee_nat_def)
  ultimately show ?thesis using f(1) f'(1) by (auto simp: word_le_nat_alt)
qed

text \<open>
  (C11) Seven Newton steps from the table seed give the exact floor square root of every 256-bit
  value, with no wrap-around and no division by zero.
\<close>

theorem integer_sqrt_exact:
  "\<exists>r. integer_sqrt v = Inr r \<and> unat r * unat r \<le> unat v \<and> unat v < (unat r + 1) * (unat r + 1)"
  using integer_sqrt_eq [of v] isqrt_correct [of "unat v"] by auto

text \<open>
  Both paths of the volume computation, the 128-bit fast one and the 256-bit one with its
  saturation branch, compute the same capped quotient of the product of the two floor square roots.
\<close>

lemma volume_per_liquidity_exact:
  assumes "liquidity \<noteq> 0"
  shows "\<exists>r. calculate_volume_per_liquidity liquidity amount0 amount1 = Inr r \<and>
    unat r = min (100000 * 2 ^ 64)
      (isqrt (nat \<bar>sint amount0\<bar>) * isqrt (nat \<bar>sint amount1\<bar>) * 2 ^ 64 div unat liquidity)"
  using volume_correct [OF assms, of amount0 amount1] assms
  by (auto simp: calculate_volume_per_liquidity_def volume_reference_def)

text \<open>
  (C12) The volatility of an interval is the sum of the squared deviations of the interpolated tick
  from the interpolated average over its seconds, scaled and rounded down; when the checked
  arithmetic succeeds the polynomial form in the code equals that sum.
\<close>

theorem volatility_is_squared_deviation:
  assumes "volatility_on_range delta t0 t1 a0 a1 = Inr r"
  shows "int (unat r) =
    (\<Sum>i = 1..unat delta. (((t1 - t0) - (a1 - a0)) * int i + (t0 - a0) * int (unat delta)) *
       (((t1 - t0) - (a1 - a0)) * int i + (t0 - a0) * int (unat delta)))
    div (int (unat delta) * int (unat delta))"
  using assms by (rule volatility_on_range_Inr)

lemma fees_loop_Inr:
  assumes "for_each (\<lambda>t mx. bind_res (fees_at s t) (\<lambda>fees. Inr (fees_max mx fees))) ts m = Inr M"
  shows "(\<forall>t \<in> set ts. \<exists>f. fees_at s t = Inr f \<and>
      df_zero_for_one f \<le> df_zero_for_one M \<and> df_one_for_zero f \<le> df_one_for_zero M) \<and>
    df_zero_for_one m \<le> df_zero_for_one M \<and> df_one_for_zero m \<le> df_one_for_zero M \<and>
    (df_zero_for_one M = df_zero_for_one m \<or>
      (\<exists>t \<in> set ts. \<exists>f. fees_at s t = Inr f \<and> df_zero_for_one f = df_zero_for_one M)) \<and>
    (df_one_for_zero M = df_one_for_zero m \<or>
      (\<exists>t \<in> set ts. \<exists>f. fees_at s t = Inr f \<and> df_one_for_zero f = df_one_for_zero M))"
  using assms
proof (induction ts arbitrary: m)
  case (Cons t ts)
  then obtain f where f: "fees_at s t = Inr f"
    and rest: "for_each (\<lambda>t mx. bind_res (fees_at s t) (\<lambda>fees. Inr (fees_max mx fees))) ts
      (fees_max m f) = Inr M" by auto
  have "df_zero_for_one m \<le> df_zero_for_one (fees_max m f)" "df_zero_for_one f \<le> df_zero_for_one (fees_max m f)"
    "df_one_for_zero m \<le> df_one_for_zero (fees_max m f)" "df_one_for_zero f \<le> df_one_for_zero (fees_max m f)"
    "df_zero_for_one (fees_max m f) \<in> {df_zero_for_one m, df_zero_for_one f}"
    "df_one_for_zero (fees_max m f) \<in> {df_one_for_zero m, df_one_for_zero f}"
    by (auto simp: fees_max_def max_def)
  with Cons.IH [OF rest] f show ?case by fastforce
qed simp

lemma envelope_range:
  fixes head hi t :: u32
  assumes "head \<le> hi" "head \<le> t" "t \<le> hi" "t \<noteq> head"
  shows "t \<in> set (map of_nat [unat (saturating_add head 1) ..< Suc (unat hi)])"
proof -
  have "unat head < unat t" using assms by (simp add: word_le_nat_alt word_unat_eq_iff)
  then have "unat head + 1 < 2 ^ 32" using unat_lt [of t] by simp
  then have "unat (saturating_add head 1) = unat head + 1"
    by (simp add: saturating_add_def unat_word_ariths)
  with \<open>unat head < unat t\<close> assms(3) have "unat t \<in> set [unat (saturating_add head 1) ..< Suc (unat hi)]"
    by (auto simp: word_le_nat_alt)
  then have "of_nat (unat t) \<in> set (map of_nat [unat (saturating_add head 1) ..< Suc (unat hi)] :: u32 list)"
    by (simp only: set_map imageI)
  then show ?thesis by simp
qed

lemma envelope_range_conv:
  fixes head hi t :: u32
  assumes "t \<in> set (map of_nat [unat (saturating_add head 1) ..< Suc (unat hi)])"
  shows "head \<le> t \<and> t \<le> hi"
proof -
  from assms obtain n where n: "t = of_nat n" "unat (saturating_add head 1) \<le> n" "n \<le> unat hi"
    by auto
  have "n < 2 ^ 32" using n(3) unat_lt [of hi] by simp
  then have "unat t = n" using n(1) by (simp add: unsigned_of_nat take_bit_nat_eq_self)
  moreover have "unat head \<le> unat (saturating_add head 1)"
    using unat_lt [of head]
    by (auto simp: saturating_add_def unat_word_ariths unsigned_minus_1_eq_mask mask_eq_exp_minus_1)
  ultimately show ?thesis using n by (simp add: word_le_nat_alt)
qed

text \<open>
  (C13) The envelope covers its whole horizon: every second from the head to the last timestamp has
  a projected fee in each direction that is at most the reported maximum, and the maximum is reached
  inside the horizon.
\<close>

theorem envelope_covers_horizon:
  assumes "envelope s horizon = Inr env"
  shows "unat (fe_last_timestamp env) = unat (fps_head_timestamp s) + unat horizon \<and>
    (\<forall>t. fps_head_timestamp s \<le> t \<and> t \<le> fe_last_timestamp env \<longrightarrow> (\<exists>f. fees_at s t = Inr f \<and>
       df_zero_for_one f \<le> df_zero_for_one (fe_maximum env) \<and>
       df_one_for_zero f \<le> df_one_for_zero (fe_maximum env))) \<and>
    (\<exists>t f. fps_head_timestamp s \<le> t \<and> t \<le> fe_last_timestamp env \<and> fees_at s t = Inr f \<and>
       df_zero_for_one f = df_zero_for_one (fe_maximum env)) \<and>
    (\<exists>t f. fps_head_timestamp s \<le> t \<and> t \<le> fe_last_timestamp env \<and> fees_at s t = Inr f \<and>
       df_one_for_zero f = df_one_for_zero (fe_maximum env))"
proof -
  let ?head = "fps_head_timestamp s" and ?hi = "fe_last_timestamp env"
  let ?ts = "map of_nat [unat (saturating_add ?head 1) ..< Suc (unat ?hi)]"
  from assms have hi: "checked_add ?head horizon = Some ?hi" and cur: "fees_at s ?head = Inr (fe_current env)"
    and loop: "for_each (\<lambda>t mx. bind_res (fees_at s t) (\<lambda>fees. Inr (fees_max mx fees))) ?ts
      (fe_current env) = Inr (fe_maximum env)"
    by (auto simp: envelope_def simp del: upt_Suc)
  have u: "unat ?hi = unat ?head + unat horizon" using hi by (simp add: checked_simps)
  then have le: "?head \<le> ?hi" by (simp add: word_le_nat_alt)
  note L = fees_loop_Inr [OF loop]
  have all: "\<exists>f. fees_at s t = Inr f \<and> df_zero_for_one f \<le> df_zero_for_one (fe_maximum env) \<and>
      df_one_for_zero f \<le> df_one_for_zero (fe_maximum env)" if "?head \<le> t" "t \<le> ?hi" for t
  proof (cases "t = ?head")
    case True
    then show ?thesis using cur L by auto
  next
    case False
    then show ?thesis using L envelope_range [OF le that] by blast
  qed
  moreover have "\<exists>t f. ?head \<le> t \<and> t \<le> ?hi \<and> fees_at s t = Inr f \<and>
      df_zero_for_one f = df_zero_for_one (fe_maximum env)"
    using L cur le envelope_range_conv order_refl by metis
  moreover have "\<exists>t f. ?head \<le> t \<and> t \<le> ?hi \<and> fees_at s t = Inr f \<and>
      df_one_for_zero f = df_one_for_zero (fe_maximum env)"
    using L cur le envelope_range_conv order_refl by metis
  ultimately show ?thesis using u by blast
qed

text \<open>
  (C14) The projection follows the chain or stops: an accepted event keeps the state valid and moves
  neither the head nor the latest timepoint back; an accepted fee event carried exactly the projected
  fees, which the state then reports for that second; and a refused event leaves the state unchanged
  or leaves one that refuses every further projection.
\<close>

theorem camelot_event_sound:
  assumes valid: "fps_validate s = Inr ()" and step: "camelot_apply ev s = (s', r)"
  shows "case r of
      Inr _ \<Rightarrow> fps_validate s' = Inr () \<and> fps_head_timestamp s \<le> fps_head_timestamp s' \<and>
        fps_latest_timepoint_timestamp s \<le> fps_latest_timepoint_timestamp s' \<and>
        (case ev of FeeEvent t emitted \<Rightarrow> fees_at s t = Inr emitted \<and> fees_at s' t = Inr emitted
                  | _ \<Rightarrow> True)
    | Inl _ \<Rightarrow> s' = s \<or> \<not> is_ok (fps_validate s')"
proof (cases ev)
  case (FeeEvent t emitted)
  show ?thesis
  proof (cases "new_fee_timepoint t emitted s")
    case (Inl e)
    then show ?thesis using step FeeEvent by (auto simp: apply_fee_timepoint_def)
  next
    case (Inr point)
    note p = new_fee_timepoint_Inr [OF Inr]
    from step FeeEvent Inr have w: "write_fee_timepoint t emitted point s = (s', r)"
      by (simp add: apply_fee_timepoint_def)
    show ?thesis
    proof (cases r)
      case (Inl e)
      with w have "bt_get (fps_timepoints s') (fps_index s') = Some point"
        "fps_latest_timepoint_timestamp s' = fps_latest_timepoint_timestamp s"
        by (auto simp: write_fee_timepoint_def Let_def split: sum.splits)
      then have "\<not> is_ok (fps_validate s')" using p(4,6) by (auto simp: is_ok_iff fps_validate_Inr)
      then show ?thesis using Inl by simp
    next
      case ok: (Inr u)
      with w p have s': "fps_validate s' = Inr ()" "fps_head_timestamp s' = t"
        "fps_latest_timepoint_timestamp s' = t" "fps_current_fees s' = emitted"
        "bt_get (fps_timepoints s') (fps_index s') = Some point"
        by (auto simp: write_fee_timepoint_def Let_def fps_validate_Inr split: sum.splits
            dest: oldest_index_after_write_Inr)
      then have "fees_at s' t = Inr emitted" using p(6) by (simp add: fees_at_def latest_def)
      then show ?thesis using ok s' p FeeEvent by simp
    qed
  qed
next
  case (SwapEvent t a0 a1 tick liq)
  then show ?thesis using step valid
    by (cases "liq = 0") (auto simp: apply_swap_def apply_swap_after_timepoint_validation_def
        latest_timestamp_def fps_validate_Inr ensure_def split: sum.splits if_splits)
next
  case (CheckedSwapEvent t a0 a1 tick liq)
  then show ?thesis using step valid
    by (cases "liq = 0") (auto simp: apply_swap_after_timepoint_validation_def fps_validate_Inr ensure_def
        split: sum.splits if_splits)
next
  case (LiquidityHead t tick liq)
  then show ?thesis using step valid
    by (auto simp: apply_liquidity_head_def fps_validate_Inr split: sum.splits)
next
  case (AdvanceHead t)
  then show ?thesis using step valid
    by (auto simp: advance_head_def fps_validate_Inr split: sum.splits)
qed

text \<open>
  No operation of the projection panics, whatever the state, the event and the horizon; the
  mutual recursion of the timepoint lookup always returns.
\<close>

lemma camelot_never_panics:
  "\<not> panics (snd (camelot_apply ev s)) \<and> \<not> panics (envelope s horizon)"
proof -
  have vol: "liq \<noteq> 0 \<Longrightarrow> calculate_volume_per_liquidity_nonzero liq a0 a1 \<noteq> Inl e" for liq a0 a1 e
    using volume_correct [of liq a0 a1] by auto
  have "\<not> panics (new_fee_timepoint t emitted s)" for t emitted
    by (auto simp: new_fee_timepoint_def panics_simps fees_at_never_panics lookup_never_panics
        previous_tick_never_panics create_never_panics fps_validate_def afc_validate_def latest_def)
  then have "\<not> panics (snd (camelot_apply ev s))"
    by (cases ev)
      (auto simp: apply_fee_timepoint_def write_fee_timepoint_def Let_def panics_iff res_simps vol
        oldest_index_after_write_def apply_swap_def apply_swap_after_timepoint_validation_def
        latest_timestamp_def apply_liquidity_head_def advance_head_def fps_validate_def
        afc_validate_def latest_def split: sum.splits)
  then show ?thesis using envelope_never_panics by blast
qed

section \<open>A concrete pool\<close>

definition demo_afc :: adaptive_fee_configuration where
  "demo_afc = \<lparr>afc_alpha1 = 2900, afc_alpha2 = 12000, afc_beta1 = 360, afc_beta2 = 60000,
     afc_gamma1 = 59, afc_gamma2 = 8500, afc_volume_beta = 1000000, afc_volume_gamma = 10,
     afc_base_fee = 100\<rparr>"

definition demo_point :: timepoint where
  "demo_point = \<lparr>tp_initialized = True, tp_block_timestamp = 100, tp_tick_cumulative = 0,
     tp_seconds_per_liquidity_cumulative = 0, tp_volatility_cumulative = 0, tp_average_tick = 0,
     tp_volume_per_liquidity_cumulative = 0\<rparr>"

definition demo_fees :: directional_fees where
  "demo_fees = \<lparr>df_zero_for_one = 100, df_one_for_zero = 100\<rparr>"

definition demo_pool :: fee_projection_state where
  "demo_pool = \<lparr>fps_head_timestamp = 100, fps_latest_timepoint_timestamp = 100, fps_tick = 0,
     fps_liquidity = 5, fps_index = 0, fps_oldest_index = 0,
     fps_current_fees = \<lparr>df_zero_for_one = 120, df_one_for_zero = 90\<rparr>,
     fps_volume_per_liquidity_in_block = 0, fps_zero_for_one_config = demo_afc,
     fps_one_for_zero_config = demo_afc, fps_timepoints = bt_insert 0 demo_point bt_empty\<rparr>"

lemma demo_point_simps [simp]:
  "tp_initialized demo_point" "tp_block_timestamp demo_point = 100" "tp_tick_cumulative demo_point = 0"
  "tp_volatility_cumulative demo_point = 0" "tp_average_tick demo_point = 0"
  "tp_seconds_per_liquidity_cumulative demo_point = 0" "tp_volume_per_liquidity_cumulative demo_point = 0"
  by (simp_all add: demo_point_def)

lemma demo_pool_simps [simp]:
  "fps_head_timestamp demo_pool = 100" "fps_latest_timepoint_timestamp demo_pool = 100"
  "fps_tick demo_pool = 0" "fps_liquidity demo_pool = 5" "fps_index demo_pool = 0"
  "fps_oldest_index demo_pool = 0" "fps_volume_per_liquidity_in_block demo_pool = 0"
  "fps_current_fees demo_pool = \<lparr>df_zero_for_one = 120, df_one_for_zero = 90\<rparr>"
  "fps_zero_for_one_config demo_pool = demo_afc" "fps_one_for_zero_config demo_pool = demo_afc"
  "fps_timepoints demo_pool = bt_insert 0 demo_point bt_empty"
  by (simp_all add: demo_pool_def)

lemma demo_afc_valid: "afc_validate demo_afc = Inr demo_afc"
  by (simp add: afc_validate_def demo_afc_def)

lemma demo_pool_valid: "fps_validate demo_pool = Inr ()"
  by (simp add: fps_validate_def demo_afc_valid)

lemma demo_fee: "fee demo_afc 0 0 = Inr 100"
proof -
  obtain f where f: "fee demo_afc 0 0 = Inr f" "unat f = fee_nat demo_afc 0 0"
    using fee_eq [OF demo_afc_valid, of 0 0] by auto
  have "fee_nat demo_afc 0 0 = 100"
    by (simp add: fee_nat_def sigmoid_nat_def demo_afc_def)
  with f have "unat f = unat (100 :: u16)" by simp
  with f(1) show ?thesis by (simp add: word_unat_eq_iff)
qed

definition demo_point1 :: timepoint where
  "demo_point1 = \<lparr>tp_initialized = True, tp_block_timestamp = 101, tp_tick_cumulative = 0,
     tp_seconds_per_liquidity_cumulative = push_bit 128 1 div 5, tp_volatility_cumulative = 0,
     tp_average_tick = 0, tp_volume_per_liquidity_cumulative = 0\<rparr>"

lemma demo_create:
  "create_new_timepoint demo_point 101 0 0 5 0 0 = Inr demo_point1"
  by (simp add: create_new_timepoint_def demo_point1_def checked_sub_def checked_add_def
      volatility_on_range_def checked_i128_def bind_opt_def u128_try_from_def)

lemma demo_average: "average_tick_for_new_timepoint demo_pool 101 demo_point = Inr 0"
  by (subst average_tick_for_new_timepoint.simps)
    (simp add: lte_considering_overflow_def window_seconds_def Let_def
      i32_try_from_def)

lemma demo_fees_at: "fees_at demo_pool 101 = Inr demo_fees"
proof -
  have "averages (demo_pool\<lparr>fps_index := 1,
      fps_timepoints := bt_insert 1 demo_point1 (fps_timepoints demo_pool), fps_oldest_index := 0\<rparr>) 101 =
      Inr (0, 0)"
    by (simp add: averages_def single_timepoint.simps demo_point1_def
        lte_considering_overflow_def window_seconds_def Let_def)
  moreover have "oldest_index_after_write (demo_pool\<lparr>fps_index := 1,
      fps_timepoints := bt_insert 1 demo_point1 (fps_timepoints demo_pool)\<rparr>) 1 = Inr 0"
    by (simp add: oldest_index_after_write_def Let_def)
  ultimately have "projected_averages_at demo_pool 101 = Inr (0, 0)"
    using demo_average demo_create
    by (simp add: projected_averages_at_def demo_pool_valid latest_def previous_tick_def
        Let_def)
  then show ?thesis
    using demo_fee
    by (simp add: fees_at_def demo_pool_valid latest_def demo_fees_def
        Let_def)
qed

theorem fee_total_bounded_monotone_witness:
  "\<exists>f f'. fee demo_afc 300 0 = Inr f \<and> fee demo_afc 400 7 = Inr f' \<and> 100 \<le> f \<and> f \<le> f' \<and>
     unat f' \<le> 15000"
  using fee_total_bounded_monotone [OF demo_afc_valid, of 300 400 0 7]
  by (simp add: demo_afc_def)

lemma volume_per_liquidity_exact_example:
  "\<exists>r. calculate_volume_per_liquidity 7 (- 1000) 25 = Inr r \<and>
     unat r = min (100000 * 2 ^ 64) (isqrt 1000 * isqrt 25 * 2 ^ 64 div 7)"
  using volume_per_liquidity_exact [of 7 "- 1000" 25] by simp

theorem volatility_is_squared_deviation_witness:
  "volatility_on_range 2 3 5 1 2 = Inr 15 \<and>
   (\<Sum>i = 1..2. (int i + 4) * (int i + 4)) div (2 * 2) = 15"
proof -
  have eq: "volatility_on_range 2 3 5 1 2 = Inr 15"
    by (simp add: volatility_on_range_def Let_def checked_i128_def bind_opt_def u128_try_from_def)
  show ?thesis using volatility_is_squared_deviation [OF eq] eq by simp
qed

theorem envelope_covers_horizon_witness:
  "\<exists>env f. envelope demo_pool 1 = Inr env \<and> fees_at demo_pool 101 = Inr f \<and>
     df_zero_for_one f \<le> df_zero_for_one (fe_maximum env)"
proof -
  have cur: "fees_at demo_pool 100 = Inr \<lparr>df_zero_for_one = 120, df_one_for_zero = 90\<rparr>"
    by (simp add: fees_at_def demo_pool_valid latest_def)
  have "\<exists>env. envelope demo_pool 1 = Inr env \<and> fe_last_timestamp env = 101"
    using demo_fees_at cur
    by (simp add: envelope_def demo_pool_valid checked_add_def saturating_add_def)
  then obtain env where env: "envelope demo_pool 1 = Inr env" "fe_last_timestamp env = 101" by blast
  have "fps_head_timestamp demo_pool \<le> 101 \<and> 101 \<le> fe_last_timestamp env" by (simp add: env(2))
  with envelope_covers_horizon [OF env(1)] env(1) show ?thesis by blast
qed

theorem camelot_event_sound_witness:
  "\<exists>s'. camelot_apply (FeeEvent 101 demo_fees) demo_pool = (s', Inr ()) \<and>
     fps_validate s' = Inr () \<and> fees_at s' 101 = Inr demo_fees"
proof -
  have "new_fee_timepoint 101 demo_fees demo_pool = Inr demo_point1"
    using demo_fees_at demo_average demo_create
    by (simp add: new_fee_timepoint_def demo_pool_valid latest_def previous_tick_def)
  then obtain s' where s': "camelot_apply (FeeEvent 101 demo_fees) demo_pool = (s', Inr ())"
    by (simp add: apply_fee_timepoint_def write_fee_timepoint_def Let_def oldest_index_after_write_def)
  from camelot_event_sound [OF demo_pool_valid s'] s' show ?thesis by auto
qed

end
