(* ===== verification/Durable_Log.thy ===== *)
theory Durable_Log
  imports Prelude
begin

text \<open>
  The record log under the three journals of the program (\<open>wallet/journal.rs\<close>,
  \<open>binance/order_journal.rs\<close>, \<open>rebalance/executor.rs\<close>): a file of bytes, one record per line, read by
  \<open>read_until(b'\n')\<close> when the journal is opened, and appended to by a write that is durable or fails
  after some prefix of the record.  The locale \<open>durable_log\<close> states what a journal owes this layer,
  and proves once what reopening the file then gives.
\<close>

section \<open>Files and lines\<close>

definition nl :: char where
  "nl = CHR 0x0A"

text \<open>\<open>BufRead::read_until\<close>: the bytes up to and including the first newline, or all of them.\<close>

fun read_until :: "string \<Rightarrow> string \<times> string" where
  "read_until [] = ([], [])"
| "read_until (b # bs) =
     (if b = nl then ([b], bs) else case read_until bs of (line, rest) \<Rightarrow> (b # line, rest))"

lemma read_until_rest: "bs \<noteq> [] \<Longrightarrow> length (snd (read_until bs)) < length bs"
proof (induction bs)
  case (Cons b bs)
  then show ?case by (cases bs) (auto split: prod.split)
qed simp

text \<open>
  The loop of \<open>open\<close>: \<open>body\<close> is what it does with a record's bytes, \<open>limit\<close> the longest line it takes.
\<close>

function replay_lines ::
  "nat \<Rightarrow> string \<Rightarrow> string \<Rightarrow> (string \<Rightarrow> 's \<Rightarrow> 's result) \<Rightarrow> string \<Rightarrow> 's \<Rightarrow> 's result" where
  "replay_lines limit too_large partial_msg body content st =
     (if content = [] then Inr st
      else case read_until content of (line, rest) \<Rightarrow>
        ensure (length line \<le> limit) too_large
        (ensure (last line = nl) partial_msg
        (bind_res (body (butlast line) st)
          (replay_lines limit too_large partial_msg body rest))))"
  by pat_completeness auto
termination
  by (relation "measure (\<lambda>(_, _, _, _, content, _). length content)")
    (auto dest: read_until_rest simp: prod_eq_iff)

declare replay_lines.simps [simp del]

text \<open>
  What \<open>write_all\<close> followed by \<open>sync_data\<close> leaves: everything, or an error with some prefix of the
  bytes in the file.
\<close>

datatype write_outcome = Durable | Failed nat

fun write_bytes :: "write_outcome \<Rightarrow> string \<Rightarrow> string \<Rightarrow> string" where
  "write_bytes Durable bytes file = file @ bytes"
| "write_bytes (Failed k) bytes file = file @ take k bytes"

text \<open>The system's part of one append: the clock's answer and the fate of the write.\<close>

type_synonym append_env = "u64 result \<times> write_outcome"

section \<open>Replay\<close>

lemma read_until_line: "nl \<notin> set l \<Longrightarrow> read_until (l @ nl # rest) = (l @ [nl], rest)"
  by (induction l) (auto split: prod.splits)

lemma read_until_no_nl: "nl \<notin> set l \<Longrightarrow> read_until l = (l, [])"
  by (induction l) auto

lemma replay_nil [simp]: "replay_lines limit big pm body [] st = Inr st"
  by (simp add: replay_lines.simps)

lemma replay_line:
  assumes "nl \<notin> set l" "length l < limit"
  shows "replay_lines limit big pm body (l @ nl # rest) st =
    bind_res (body l st) (replay_lines limit big pm body rest)"
  using assms
  by (subst replay_lines.simps) (simp add: read_until_line butlast_append)

lemma replay_partial:
  assumes "nl \<notin> set l" "l \<noteq> []" "length l \<le> limit"
  shows "replay_lines limit big pm body l st = Inl (Bail pm)"
proof -
  have "last l \<noteq> nl" using assms(1,2) by (metis last_in_set)
  then show ?thesis using assms by (subst replay_lines.simps) (simp add: read_until_no_nl)
qed

lemma read_until_split:
  "read_until bs = (line, rest) \<Longrightarrow> bs = line @ rest \<and>
     ((\<exists>l. line = l @ [nl] \<and> nl \<notin> set l) \<or> (rest = [] \<and> nl \<notin> set line))"
proof (induction bs arbitrary: line rest)
  case (Cons b bs)
  show ?case
  proof (cases "b = nl")
    case True
    then show ?thesis using Cons.prems by auto
  next
    case False
    then obtain line' where r: "read_until bs = (line', rest)" "line = b # line'"
      using Cons.prems by (auto split: prod.splits)
    from Cons.IH [OF r(1)] r(2) False show ?thesis by (auto intro: exI [of _ "b # _"])
  qed
qed simp

text \<open>A file that replays consists of whole records, so what is appended is read after it.\<close>

lemma replay_append:
  assumes "replay_lines limit big pm body disk st = Inr st'"
  shows "replay_lines limit big pm body (disk @ more) st = replay_lines limit big pm body more st'"
  using assms
proof (induction disk arbitrary: st rule: length_induct)
  case (1 disk)
  show ?case
  proof (cases "disk = []")
    case True
    then show ?thesis using 1(2) by simp
  next
    case False
    obtain line rest where r: "read_until disk = (line, rest)" by fastforce
    from 1(2) False r have ok: "length line \<le> limit" "last line = nl"
      and b: "bind_res (body (butlast line) st) (replay_lines limit big pm body rest) = Inr st'"
      by (auto simp: replay_lines.simps [of limit big pm body disk])
    have "line \<noteq> []" using False r by (cases disk) (auto split: if_splits prod.splits)
    with ok(2) have "nl \<in> set line" by (metis last_in_set)
    with read_until_split [OF r] obtain l where l: "line = l @ [nl]" "nl \<notin> set l" "disk = l @ nl # rest"
      by auto
    from b obtain s1 where s1: "body l st = Inr s1" "replay_lines limit big pm body rest s1 = Inr st'"
      using l(1) by (auto simp: butlast_append)
    have "replay_lines limit big pm body (rest @ more) s1 = replay_lines limit big pm body more st'"
      using 1(1) l(3) s1(2) by simp
    then show ?thesis using l ok(1) s1(1) by (simp add: replay_line)
  qed
qed

lemma replay_lines_invariant:
  assumes "\<And>l s s'. P s \<Longrightarrow> body l s = Inr s' \<Longrightarrow> P s'"
    and "P st" "replay_lines limit big pm body content st = Inr st'"
  shows "P st'"
  using assms
proof (induction limit big pm body content st rule: replay_lines.induct)
  case (1 limit big pm body content st)
  show ?case
  proof (cases "content = []")
    case True
    then show ?thesis using "1.prems" by (simp add: replay_lines.simps)
  next
    case False
    obtain line rest where r: "read_until content = (line, rest)" by fastforce
    from "1.prems"(3) False r obtain s1 where s1: "length line \<le> limit" "last line = nl"
      "body (butlast line) st = Inr s1" "replay_lines limit big pm body rest s1 = Inr st'"
      by (auto simp: replay_lines.simps [of limit big pm _ content])
    then show ?thesis using "1.IH" [OF False r [symmetric] s1(1,2,3)] "1.prems"(1,2) by blast
  qed
qed

section \<open>What a journal does to its file\<close>

text \<open>
  \<open>written st l st'\<close> holds when the journal, in state \<open>st\<close>, encodes a step to \<open>st'\<close> as the record \<open>l\<close>.
  A journal is its bytes, its state in memory and the mark a failed write leaves.  A call refuses, or
  it appends one record: durably, and then the state moves; or not, and then the journal is poisoned.
\<close>

inductive log_step ::
  "('s \<Rightarrow> string \<Rightarrow> 's \<Rightarrow> bool) \<Rightarrow> string \<times> 's \<times> bool \<Rightarrow> string \<times> 's \<times> bool \<Rightarrow> bool" for written where
  refused: "log_step written s s"
| failed: "written st l st' \<Longrightarrow>
    log_step written (disk, st, False) (write_bytes (Failed k) (l @ [nl]) disk, st, True)"
| stored: "written st l st' \<Longrightarrow>
    log_step written (disk, st, False) (write_bytes Durable (l @ [nl]) disk, st', False)"

text \<open>What the bytes on disk mean for a journal that may have been poisoned.\<close>

fun log_ok ::
  "(string \<Rightarrow> 's result) \<Rightarrow> string \<Rightarrow> ('s \<Rightarrow> string \<Rightarrow> 's \<Rightarrow> bool) \<Rightarrow> string \<times> 's \<times> bool \<Rightarrow> bool" where
  "log_ok replay pm written (disk, st, False) \<longleftrightarrow> replay disk = Inr st"
| "log_ok replay pm written (disk, st, True) \<longleftrightarrow>
     replay disk = Inr st \<or> replay disk = Inl (Bail pm) \<or> (\<exists>l st'. written st l st' \<and> replay disk = Inr st')"

section \<open>The contract of a journal\<close>

text \<open>
  The journal promises that reading a record back makes the step it was written for, and that a record
  fits on one line.
\<close>

locale durable_log =
  fixes limit :: nat and too_large partial_msg :: string
    and body :: "string \<Rightarrow> 's \<Rightarrow> 's result"
    and written :: "'s \<Rightarrow> string \<Rightarrow> 's \<Rightarrow> bool"
  assumes written_body: "written st l st' \<Longrightarrow> body l st = Inr st'"
    and written_line: "written st l st' \<Longrightarrow> nl \<notin> set l \<and> length l < limit"
begin

lemma durable_append:
  assumes "replay_lines limit too_large partial_msg body disk st0 = Inr st" and w: "written st l st'"
  shows "replay_lines limit too_large partial_msg body (write_bytes Durable (l @ [nl]) disk) st0 = Inr st'"
  using replay_append [OF assms(1), of "l @ [nl]"]
    written_line [OF w] written_body [OF w]
  by (simp add: replay_line)

lemma torn_append:
  assumes "replay_lines limit too_large partial_msg body disk st0 = Inr st" and w: "written st l st'"
  shows "replay_lines limit too_large partial_msg body (write_bytes (Failed k) (l @ [nl]) disk) st0 \<in>
    {Inr st, Inl (Bail partial_msg), Inr st'}"
proof -
  note line = written_line [OF w]
  have app: "replay_lines limit too_large partial_msg body (disk @ more) st0 = replay_lines limit too_large partial_msg body more st" for more
    by (rule replay_append [OF assms(1)])
  consider "k = 0" | "0 < k" "k \<le> length l" | "length l < k" by linarith
  then show ?thesis
  proof cases
    case 1
    then show ?thesis using app [of "[]"] by simp
  next
    case 2
    then have "nl \<notin> set (take k l)" "take k l \<noteq> []" "length (take k l) \<le> limit"
      using line by (auto dest: in_set_takeD)
    then show ?thesis using app [of "take k l"] 2 by (simp add: replay_partial)
  next
    case 3
    then have "take k (l @ [nl]) = l @ [nl]" by simp
    then show ?thesis using durable_append [OF assms] by simp
  qed
qed

lemma log_step_ok:
  assumes "log_step written s s'"
    and "log_ok (\<lambda>disk. replay_lines limit too_large partial_msg body disk st0) partial_msg written s"
  shows "log_ok (\<lambda>disk. replay_lines limit too_large partial_msg body disk st0) partial_msg written s'"
  using assms
proof cases
  case (failed st l st' disk k)
  then show ?thesis
    using assms(2) torn_append [of disk st0 st l st' k] by (auto simp del: write_bytes.simps)
next
  case (stored st l st' disk)
  then show ?thesis
    using assms(2) durable_append [of disk st0 st l st'] by (auto simp del: write_bytes.simps)
qed simp

lemma log_steps_ok:
  "(log_step written)\<^sup>*\<^sup>* s s' \<Longrightarrow>
     log_ok (\<lambda>disk. replay_lines limit too_large partial_msg body disk st0) partial_msg written s \<Longrightarrow>
     log_ok (\<lambda>disk. replay_lines limit too_large partial_msg body disk st0) partial_msg written s'"
  by (induction rule: rtranclp_induct) (auto intro: log_step_ok)

end

end
