(* ===== verification/Transaction_Journal.thy ===== *)
theory Transaction_Journal
  imports Durable_Log BTree_Map
begin

text \<open>
  The transaction journal of the wallet, \<open>src/src/wallet/journal.rs\<close>: the state machine of one
  on-chain operation, the checks that keep nonces unique, the append of a checksummed record, and the
  replay that rebuilds the operations when the file is opened.

  The file is its bytes.  Opening it (paths, permissions, the lock) is left to the operating system;
  the model starts at the loop that reads it.  Serialisation, the digest and the textual forms of
  addresses and numbers are library code: they are the fields of \<open>wire_codec\<close>, an argument of every
  operation that uses them, and \<open>codec_ok\<close> states what their documentation promises.
\<close>

section \<open>Data\<close>

record evm_journal_scope =
  ejs_schema_version :: u16
  ejs_network_id :: string
  ejs_wallet_id :: string
  ejs_strategy_id :: string

record journal_operation_identity =
  joi_operation_id :: string
  joi_chain_id :: u64
  joi_wallet :: address
  joi_nonce :: u64
  joi_scope :: "evm_journal_scope option"

record journal_intent =
  ji_identity :: journal_operation_identity
  ji_purpose :: string
  ji_target :: address
  ji_native_value :: u256
  ji_calldata_hash :: b256

datatype unknown_outcome_reason =
    BroadcastTransport | BroadcastRejected | NonceTooLow | ConfirmationTimeout | ProcessInterrupted

datatype journal_status =
    IntentRecorded
  | Signed b256
  | Broadcast b256
  | OutcomeUnknown b256 unknown_outcome_reason
  | MinedSuccess b256 u64
  | MinedReverted b256 u64
  | RejectedBeforeBroadcast b256
  | CancelledBeforeSigning

record journal_operation =
  jo_intent :: journal_intent
  jo_status :: journal_status

type_synonym journal_operations = "(string, journal_operation) btmap"

datatype wire_event =
    WIntentRecorded (wi_purpose: string) (wi_target: string) (wi_native_value: string)
      (wi_calldata_hash: string)
  | WSigned string
  | WBroadcast string
  | WOutcomeUnknown string unknown_outcome_reason
  | WMinedSuccess string u64
  | WMinedReverted string u64
  | WRejectedBeforeBroadcast string
  | WCancelledBeforeSigning

record wire_payload =
  wp_version :: u16
  wp_sequence :: u64
  wp_recorded_at_unix_ms :: u64
  wp_operation_id :: string
  wp_chain_id :: u64
  wp_wallet :: string
  wp_nonce :: u64
  wp_scope :: "evm_journal_scope option"
  wp_event :: wire_event

record wire_record =
  wr_payload :: wire_payload
  wr_checksum_sha256 :: string

record transaction_journal =
  tj_file :: string
  tj_operations :: journal_operations
  tj_next_sequence :: u64
  tj_poisoned :: bool

text \<open>
  The library code the journal calls: \<open>serde_json\<close> on a record and on a payload, the hexadecimal
  SHA-256 digest, and the \<open>Display\<close> and \<open>FromStr\<close> instances of addresses, hashes and \<open>U256\<close>.
\<close>

record wire_codec =
  wc_record_to_vec :: "wire_record \<Rightarrow> string option"
  wc_record_from_slice :: "string \<Rightarrow> wire_record option"
  wc_payload_to_vec :: "wire_payload \<Rightarrow> string option"
  wc_sha256_hex :: "string \<Rightarrow> string"
  wc_address_to_string :: "address \<Rightarrow> string"
  wc_address_from_str :: "string \<Rightarrow> address option"
  wc_u256_to_string :: "u256 \<Rightarrow> string"
  wc_u256_from_str :: "string \<Rightarrow> u256 option"
  wc_b256_to_string :: "b256 \<Rightarrow> string"
  wc_b256_from_str :: "string \<Rightarrow> b256 option"

text \<open>
  What the documentation promises: a record reads back as the record that was written, compact JSON
  has no line break, and each textual form parses to the value it was printed from.
\<close>

definition codec_ok :: "wire_codec \<Rightarrow> bool" where
  "codec_ok c \<longleftrightarrow>
     (\<forall>r bytes. wc_record_to_vec c r = Some bytes \<longrightarrow>
        wc_record_from_slice c bytes = Some r \<and> nl \<notin> set bytes \<and> bytes \<noteq> []) \<and>
     (\<forall>a. wc_address_from_str c (wc_address_to_string c a) = Some a) \<and>
     (\<forall>v. wc_u256_from_str c (wc_u256_to_string c v) = Some v) \<and>
     (\<forall>h. wc_b256_from_str c (wc_b256_to_string c h) = Some h)"

definition journal_version :: u16 where
  "journal_version = 1"

definition max_journal_line_bytes :: nat where
  "max_journal_line_bytes = 64 * 1024"

definition max_operation_id_bytes :: nat where
  "max_operation_id_bytes = 160"

definition max_purpose_bytes :: nat where
  "max_purpose_bytes = 96"

definition scope_schema_version :: u16 where
  "scope_schema_version = 2"

section \<open>Statuses\<close>

fun is_unresolved :: "journal_status \<Rightarrow> bool" where
  "is_unresolved IntentRecorded = True"
| "is_unresolved (Signed _) = True"
| "is_unresolved (Broadcast _) = True"
| "is_unresolved (OutcomeUnknown _ _) = True"
| "is_unresolved _ = False"

fun transaction_hash :: "journal_status \<Rightarrow> b256 option" where
  "transaction_hash (Signed h) = Some h"
| "transaction_hash (Broadcast h) = Some h"
| "transaction_hash (OutcomeUnknown h _) = Some h"
| "transaction_hash (RejectedBeforeBroadcast h) = Some h"
| "transaction_hash (MinedSuccess h _) = Some h"
| "transaction_hash (MinedReverted h _) = Some h"
| "transaction_hash IntentRecorded = None"
| "transaction_hash CancelledBeforeSigning = None"

text \<open>The \<open>matches!\<close> tests of the source.\<close>

fun frees_nonce :: "journal_status \<Rightarrow> bool" where
  "frees_nonce CancelledBeforeSigning = True"
| "frees_nonce (RejectedBeforeBroadcast _) = True"
| "frees_nonce _ = False"

fun blocks_recovery :: "journal_status \<Rightarrow> bool" where
  "blocks_recovery IntentRecorded = True"
| "blocks_recovery (Signed _) = True"
| "blocks_recovery (OutcomeUnknown _ _) = True"
| "blocks_recovery _ = False"

fun is_mined :: "journal_status \<Rightarrow> bool" where
  "is_mined (MinedSuccess _ _) = True"
| "is_mined (MinedReverted _ _) = True"
| "is_mined _ = False"

section \<open>Validation\<close>

definition ejs_validate :: "evm_journal_scope \<Rightarrow> unit result" where
  "ejs_validate s =
     ensure (ejs_schema_version s = scope_schema_version)
       ''unsupported EVM journal scope schema version''
     (ensure (\<not> trim_is_empty (ejs_network_id s) \<and> \<not> trim_is_empty (ejs_wallet_id s) \<and>
              \<not> trim_is_empty (ejs_strategy_id s))
       ''EVM journal scope is incomplete''
     (Inr ()))"

definition identifier_byte :: "char \<Rightarrow> bool" where
  "identifier_byte b = (is_ascii_alphanumeric b \<or> b \<in> {CHR ''-'', CHR ''_'', CHR '':'', CHR ''.''})"

definition validate_identifier :: "string \<Rightarrow> string \<Rightarrow> nat \<Rightarrow> unit result" where
  "validate_identifier name v maximum =
     ensure (v \<noteq> []) (''journal '' @ name @ '' is empty'')
     (ensure (length v \<le> maximum) (''journal '' @ name @ '' is too long'')
     (ensure (list_all identifier_byte v) (''journal '' @ name @ '' contains invalid characters'')
     (Inr ())))"

definition validate_identity :: "journal_operation_identity \<Rightarrow> unit result" where
  "validate_identity i =
     bind_res (validate_identifier ''operation id'' (joi_operation_id i) max_operation_id_bytes) (\<lambda>_.
     ensure (joi_chain_id i > 0) ''journal chain id is zero''
     (ensure (joi_wallet i \<noteq> 0) ''journal wallet is zero''
     (case joi_scope i of Some scope \<Rightarrow> ejs_validate scope | None \<Rightarrow> Inr ())))"

definition validate_intent :: "journal_intent \<Rightarrow> unit result" where
  "validate_intent i =
     bind_res (validate_identity (ji_identity i)) (\<lambda>_.
     bind_res (validate_identifier ''purpose'' (ji_purpose i) max_purpose_bytes) (\<lambda>_.
     ensure (ji_target i \<noteq> 0) ''journal target is zero'' (Inr ())))"

section \<open>Transitions\<close>

definition parse_hash :: "wire_codec \<Rightarrow> string \<Rightarrow> b256 result" where
  "parse_hash c v = context_opt (wc_b256_from_str c v) ''journal transaction hash is invalid''"

definition ensure_hash_transition :: "journal_status \<Rightarrow> b256 \<Rightarrow> string \<Rightarrow> unit result" where
  "ensure_hash_transition previous h transition =
     ensure (transaction_hash previous = Some h)
       (''journal '' @ transition @ '' transaction hash changed'') (Inr ())"

definition mined_status ::
  "wire_codec \<Rightarrow> journal_status \<Rightarrow> string \<Rightarrow> u64 \<Rightarrow> bool \<Rightarrow> journal_status result" where
  "mined_status c previous tx block_number success =
     ensure (block_number > 0) ''journal mined block number is zero''
     (bind_res (parse_hash c tx) (\<lambda>h.
      bind_res (ensure_hash_transition previous h ''mined'') (\<lambda>_.
      ensure (case previous of Signed _ \<Rightarrow> True | Broadcast _ \<Rightarrow> True | OutcomeUnknown _ _ \<Rightarrow> True
              | _ \<Rightarrow> False)
        ''journal mined transition requires a transaction hash''
      (Inr (if success then MinedSuccess h block_number else MinedReverted h block_number)))))"

fun apply_transition :: "wire_codec \<Rightarrow> journal_status \<Rightarrow> wire_event \<Rightarrow> journal_status result" where
  "apply_transition c previous (WSigned tx) =
     ensure (previous = IntentRecorded) ''journal signed transition requires a recorded intent''
     (bind_res (parse_hash c tx) (\<lambda>h. Inr (Signed h)))"
| "apply_transition c previous (WBroadcast tx) =
     bind_res (parse_hash c tx) (\<lambda>h.
     bind_res (ensure_hash_transition previous h ''broadcast'') (\<lambda>_.
     ensure (case previous of Signed _ \<Rightarrow> True | _ \<Rightarrow> False)
       ''journal broadcast transition requires a signed transaction''
     (Inr (Broadcast h))))"
| "apply_transition c previous (WOutcomeUnknown tx reason) =
     bind_res (parse_hash c tx) (\<lambda>h.
     bind_res (ensure_hash_transition previous h ''unknown outcome'') (\<lambda>_.
     ensure (case previous of Signed _ \<Rightarrow> True | Broadcast _ \<Rightarrow> True | _ \<Rightarrow> False)
       ''journal unknown outcome requires a signed or broadcast transaction''
     (Inr (OutcomeUnknown h reason))))"
| "apply_transition c previous (WMinedSuccess tx block_number) =
     mined_status c previous tx block_number True"
| "apply_transition c previous (WMinedReverted tx block_number) =
     mined_status c previous tx block_number False"
| "apply_transition c previous (WRejectedBeforeBroadcast tx) =
     bind_res (parse_hash c tx) (\<lambda>h.
     bind_res (ensure_hash_transition previous h ''pre-broadcast rejection'') (\<lambda>_.
     ensure (case previous of
               Signed _ \<Rightarrow> True
             | OutcomeUnknown _ reason \<Rightarrow> reason = BroadcastRejected \<or> reason = NonceTooLow
             | _ \<Rightarrow> False)
       ''journal pre-broadcast rejection requires a signed transaction or reviewed RPC rejection''
     (Inr (RejectedBeforeBroadcast h))))"
| "apply_transition c previous WCancelledBeforeSigning =
     ensure (previous = IntentRecorded) ''only an unsigned journal intent can be cancelled''
     (Inr CancelledBeforeSigning)"
| "apply_transition c previous (WIntentRecorded _ _ _ _) =
     Inl (Panic ''intent handled before transition'')"

text \<open>Whether an operation holds the nonce of an identity.\<close>

definition owns_nonce :: "journal_operation_identity \<Rightarrow> journal_operation \<Rightarrow> bool" where
  "owns_nonce i oper =
     (let j = ji_identity (jo_intent oper) in
      joi_chain_id j = joi_chain_id i \<and> joi_wallet j = joi_wallet i \<and> joi_nonce j = joi_nonce i \<and>
      \<not> frees_nonce (jo_status oper))"

definition apply_payload ::
  "wire_codec \<Rightarrow> wire_payload \<Rightarrow> journal_operations \<Rightarrow> journal_operations result" where
  "apply_payload c payload operations =
     ensure (wp_recorded_at_unix_ms payload > 0) ''journal timestamp is zero''
     (bind_res (context_opt (wc_address_from_str c (wp_wallet payload))
                  ''journal wallet address is invalid'') (\<lambda>wallet.
      let identity = \<lparr>joi_operation_id = wp_operation_id payload, joi_chain_id = wp_chain_id payload,
                      joi_wallet = wallet, joi_nonce = wp_nonce payload, joi_scope = wp_scope payload\<rparr> in
      bind_res (validate_identity identity) (\<lambda>_.
      case wp_event payload of
        WIntentRecorded purpose target native_value calldata_hash \<Rightarrow>
          ensure (\<not> bt_contains operations (joi_operation_id identity))
            ''journal operation id already exists''
          (ensure (\<not> list_ex (owns_nonce identity) (bt_values operations))
            ''journal nonce is already owned by another operation''
          (bind_res (context_opt (wc_address_from_str c target)
                       ''journal target address is invalid'') (\<lambda>target.
           bind_res (context_opt (wc_u256_from_str c native_value)
                       ''journal native value is invalid'') (\<lambda>native_value.
           bind_res (context_opt (wc_b256_from_str c calldata_hash)
                       ''journal calldata hash is invalid'') (\<lambda>calldata_hash.
           let intent = \<lparr>ji_identity = identity, ji_purpose = purpose, ji_target = target,
                         ji_native_value = native_value, ji_calldata_hash = calldata_hash\<rparr> in
           bind_res (validate_intent intent) (\<lambda>_.
           Inr (bt_insert (joi_operation_id identity)
                  \<lparr>jo_intent = intent, jo_status = IntentRecorded\<rparr> operations)))))))
      | event \<Rightarrow>
          bind_res (context_opt (bt_get operations (joi_operation_id identity))
                      ''journal event has no matching intent'') (\<lambda>oper.
          ensure (ji_identity (jo_intent oper) = identity) ''journal operation identity changed''
          (bind_res (apply_transition c (jo_status oper) event) (\<lambda>next.
           Inr (bt_insert (joi_operation_id identity) (oper\<lparr>jo_status := next\<rparr>) operations)))))))"

section \<open>Opening\<close>

definition payload_checksum :: "wire_codec \<Rightarrow> wire_payload \<Rightarrow> string result" where
  "payload_checksum c p =
     bind_res (context_opt (wc_payload_to_vec c p) ''failed to encode journal checksum input'') (\<lambda>bytes.
     Inr (wc_sha256_hex c bytes))"

definition wire_record_new :: "wire_codec \<Rightarrow> wire_payload \<Rightarrow> wire_record result" where
  "wire_record_new c p =
     bind_res (payload_checksum c p) (\<lambda>s. Inr \<lparr>wr_payload = p, wr_checksum_sha256 = s\<rparr>)"

definition validate_checksum :: "wire_codec \<Rightarrow> wire_record \<Rightarrow> unit result" where
  "validate_checksum c r =
     bind_res (payload_checksum c (wr_payload r)) (\<lambda>s.
     ensure (wr_checksum_sha256 r = s) ''transaction journal checksum mismatch'' (Inr ()))"

text \<open>What the loop of \<open>open\<close> does with one line; its state is the operations and the next sequence.\<close>

definition replay_record ::
  "wire_codec \<Rightarrow> string \<Rightarrow> journal_operations \<times> u64 \<Rightarrow> (journal_operations \<times> u64) result" where
  "replay_record c line st =
     (case st of (operations, expected_sequence) \<Rightarrow>
        ensure (line \<noteq> []) ''transaction journal contains an empty record''
        (bind_res (context_opt (wc_record_from_slice c line)
                     ''transaction journal contains invalid JSON'') (\<lambda>record.
         bind_res (validate_checksum c record) (\<lambda>_.
         ensure (wp_version (wr_payload record) = journal_version)
           (''unsupported transaction journal version '' @ show_nat (unat (wp_version (wr_payload record))))
         (ensure (wp_sequence (wr_payload record) = expected_sequence)
           (''transaction journal sequence mismatch: found '' @
              show_nat (unat (wp_sequence (wr_payload record))) @ '', expected '' @
              show_nat (unat expected_sequence))
         (bind_res (apply_payload c (wr_payload record) operations) (\<lambda>operations.
          bind_res (context_opt (checked_add expected_sequence 1)
                      ''transaction journal sequence overflow'') (\<lambda>expected_sequence.
          Inr (operations, expected_sequence)))))))))"

definition replay_file :: "wire_codec \<Rightarrow> string \<Rightarrow> (journal_operations \<times> u64) result" where
  "replay_file c content =
     replay_lines max_journal_line_bytes ''transaction journal record exceeds size limit''
       ''transaction journal ends with a partial record'' (replay_record c) content (bt_empty, 0)"

definition journal_open :: "wire_codec \<Rightarrow> string \<Rightarrow> transaction_journal result" where
  "journal_open c content =
     bind_res (replay_file c content) (\<lambda>(operations, expected_sequence).
     Inr \<lparr>tj_file = content, tj_operations = operations, tj_next_sequence = expected_sequence,
          tj_poisoned = False\<rparr>)"

section \<open>Queries\<close>

definition operations_for :: "u64 \<Rightarrow> address \<Rightarrow> journal_operation \<Rightarrow> bool" where
  "operations_for chain_id wallet oper =
     (let i = ji_identity (jo_intent oper) in joi_chain_id i = chain_id \<and> joi_wallet i = wallet)"

definition unresolved_for :: "transaction_journal \<Rightarrow> u64 \<Rightarrow> address \<Rightarrow> journal_operation list" where
  "unresolved_for j chain_id wallet =
     filter (\<lambda>oper. operations_for chain_id wallet oper \<and> is_unresolved (jo_status oper))
       (bt_values (tj_operations j))"

definition recovery_blocking_for ::
  "transaction_journal \<Rightarrow> u64 \<Rightarrow> address \<Rightarrow> journal_operation list" where
  "recovery_blocking_for j chain_id wallet =
     filter (\<lambda>oper. operations_for chain_id wallet oper \<and> blocks_recovery (jo_status oper))
       (bt_values (tj_operations j))"

definition operation :: "transaction_journal \<Rightarrow> string \<Rightarrow> journal_operation option" where
  "operation j operation_id = bt_get (tj_operations j) operation_id"

definition operation_by_transaction_hash ::
  "transaction_journal \<Rightarrow> b256 \<Rightarrow> journal_operation option" where
  "operation_by_transaction_hash j h =
     find (\<lambda>oper. transaction_hash (jo_status oper) = Some h) (bt_values (tj_operations j))"

fun max_nonce :: "u64 list \<Rightarrow> u64 option" where
  "max_nonce [] = None"
| "max_nonce (n # ns) = (case max_nonce ns of None \<Rightarrow> Some n | Some m \<Rightarrow> Some (max n m))"

definition highest_consumed_nonce :: "transaction_journal \<Rightarrow> u64 \<Rightarrow> address \<Rightarrow> u64 option" where
  "highest_consumed_nonce j chain_id wallet =
     max_nonce (map (\<lambda>oper. joi_nonce (ji_identity (jo_intent oper)))
       (filter (\<lambda>oper. operations_for chain_id wallet oper \<and> is_mined (jo_status oper))
          (bt_values (tj_operations j))))"

section \<open>Appending\<close>

definition append_payload ::
  "wire_codec \<Rightarrow> u64 \<Rightarrow> journal_operation_identity \<Rightarrow> wire_event \<Rightarrow> transaction_journal \<Rightarrow>
   wire_payload" where
  "append_payload c recorded_at identity event j =
     \<lparr>wp_version = journal_version, wp_sequence = tj_next_sequence j,
      wp_recorded_at_unix_ms = recorded_at, wp_operation_id = joi_operation_id identity,
      wp_chain_id = joi_chain_id identity, wp_wallet = wc_address_to_string c (joi_wallet identity),
      wp_nonce = joi_nonce identity, wp_scope = joi_scope identity, wp_event = event\<rparr>"

text \<open>
  \<open>append\<close> up to the write: the operations after the event and the encoded line.  \<open>now\<close> is the answer
  of the system clock.
\<close>

definition prepare_append ::
  "wire_codec \<Rightarrow> u64 result \<Rightarrow> journal_operation_identity \<Rightarrow> wire_event \<Rightarrow> transaction_journal \<Rightarrow>
   (journal_operations \<times> string) result" where
  "prepare_append c now identity event j =
     ensure (\<not> tj_poisoned j) ''transaction journal is poisoned''
     (bind_res (validate_identity identity) (\<lambda>_.
      bind_res now (\<lambda>recorded_at.
      let payload = append_payload c recorded_at identity event j in
      bind_res (apply_payload c payload (tj_operations j)) (\<lambda>next_operations.
      bind_res (wire_record_new c payload) (\<lambda>record.
      bind_res (context_opt (wc_record_to_vec c record)
                  ''failed to encode transaction journal record'') (\<lambda>encoded.
      ensure (length encoded < max_journal_line_bytes)
        ''transaction journal record exceeds size limit''
      (Inr (next_operations, encoded))))))))"

definition append_record ::
  "wire_codec \<Rightarrow> u64 result \<Rightarrow> write_outcome \<Rightarrow> journal_operation_identity \<Rightarrow> wire_event \<Rightarrow>
   transaction_journal \<Rightarrow> transaction_journal \<times> unit result" where
  "append_record c now outcome identity event j =
     (case prepare_append c now identity event j of
        Inl e \<Rightarrow> (j, Inl e)
      | Inr (next_operations, encoded) \<Rightarrow>
          (let j' = j\<lparr>tj_file := write_bytes outcome (encoded @ [nl]) (tj_file j)\<rparr> in
           case outcome of
             Failed _ \<Rightarrow>
               (j'\<lparr>tj_poisoned := True\<rparr>,
                Inl (Bail ''failed to durably append transaction journal record''))
           | Durable \<Rightarrow>
               (case checked_add (tj_next_sequence j) 1 of
                  None \<Rightarrow> (j'\<lparr>tj_operations := next_operations\<rparr>,
                           Inl (Bail ''transaction journal sequence overflow''))
                | Some s \<Rightarrow>
                    (j'\<lparr>tj_operations := next_operations, tj_next_sequence := s\<rparr>, Inr ()))))"

text \<open>The public operations: the event each of them appends.\<close>

datatype journal_call =
    RecordIntent journal_intent
  | RecordSigned journal_operation_identity b256
  | RecordBroadcast journal_operation_identity b256
  | RecordUnknownOutcome journal_operation_identity b256 unknown_outcome_reason
  | RecordMined journal_operation_identity b256 u64 bool
  | RecordCancelledBeforeSigning journal_operation_identity
  | RecordRejectedBeforeBroadcast journal_operation_identity b256

fun call_identity :: "journal_call \<Rightarrow> journal_operation_identity" where
  "call_identity (RecordIntent i) = ji_identity i"
| "call_identity (RecordSigned i _) = i"
| "call_identity (RecordBroadcast i _) = i"
| "call_identity (RecordUnknownOutcome i _ _) = i"
| "call_identity (RecordMined i _ _ _) = i"
| "call_identity (RecordCancelledBeforeSigning i) = i"
| "call_identity (RecordRejectedBeforeBroadcast i _) = i"

fun call_event :: "wire_codec \<Rightarrow> journal_call \<Rightarrow> wire_event" where
  "call_event c (RecordIntent i) =
     WIntentRecorded (ji_purpose i) (wc_address_to_string c (ji_target i))
       (wc_u256_to_string c (ji_native_value i)) (wc_b256_to_string c (ji_calldata_hash i))"
| "call_event c (RecordSigned _ h) = WSigned (wc_b256_to_string c h)"
| "call_event c (RecordBroadcast _ h) = WBroadcast (wc_b256_to_string c h)"
| "call_event c (RecordUnknownOutcome _ h reason) = WOutcomeUnknown (wc_b256_to_string c h) reason"
| "call_event c (RecordMined _ h block_number success) =
     (if success then WMinedSuccess (wc_b256_to_string c h) block_number
      else WMinedReverted (wc_b256_to_string c h) block_number)"
| "call_event c (RecordCancelledBeforeSigning _) = WCancelledBeforeSigning"
| "call_event c (RecordRejectedBeforeBroadcast _ h) =
     WRejectedBeforeBroadcast (wc_b256_to_string c h)"

definition journal_call_apply ::
  "wire_codec \<Rightarrow> u64 result \<Rightarrow> write_outcome \<Rightarrow> journal_call \<Rightarrow> transaction_journal \<Rightarrow>
   transaction_journal \<times> unit result" where
  "journal_call_apply c now outcome call j =
     (case (case call of RecordIntent intent \<Rightarrow> validate_intent intent | _ \<Rightarrow> Inr ()) of
        Inl e \<Rightarrow> (j, Inl e)
      | Inr _ \<Rightarrow> append_record c now outcome (call_identity call) (call_event c call) j)"

section \<open>The life of an operation\<close>

inductive status_step :: "journal_status \<Rightarrow> journal_status \<Rightarrow> bool" where
  sign: "status_step IntentRecorded (Signed h)"
| cancel: "status_step IntentRecorded CancelledBeforeSigning"
| broadcast: "status_step (Signed h) (Broadcast h)"
| unknown: "previous \<in> {Signed h, Broadcast h} \<Longrightarrow> status_step previous (OutcomeUnknown h reason)"
| mined: "previous \<in> {Signed h, Broadcast h} \<or> (\<exists>reason. previous = OutcomeUnknown h reason) \<Longrightarrow>
    nxt \<in> {MinedSuccess h n, MinedReverted h n} \<Longrightarrow> status_step previous nxt"
| reject: "previous \<in> {Signed h, OutcomeUnknown h BroadcastRejected, OutcomeUnknown h NonceTooLow} \<Longrightarrow>
    status_step previous (RejectedBeforeBroadcast h)"

lemma apply_transition_step:
  "apply_transition c previous event = Inr nxt \<Longrightarrow> status_step previous nxt"
  by (cases event; cases previous)
    (auto simp: ensure_hash_transition_def mined_status_def intro: status_step.intros split: if_splits)

lemma status_step_unresolved: "status_step s s' \<Longrightarrow> is_unresolved s"
  by (auto elim!: status_step.cases)

lemma status_step_hash:
  "status_step s s' \<Longrightarrow> transaction_hash s = Some h \<Longrightarrow> transaction_hash s' = Some h"
  by (auto elim!: status_step.cases)

lemma status_steps_final: "status_step\<^sup>*\<^sup>* s s' \<Longrightarrow> \<not> is_unresolved s \<Longrightarrow> s' = s"
  by (erule converse_rtranclpE) (auto dest: status_step_unresolved)

lemma status_steps_hash:
  "status_step\<^sup>*\<^sup>* s s' \<Longrightarrow> transaction_hash s = Some h \<Longrightarrow> transaction_hash s' = Some h"
  by (induction rule: rtranclp_induct) (auto dest: status_step_hash)

lemma frees_nonce_final: "frees_nonce s \<Longrightarrow> \<not> is_unresolved s"
  by (cases s) auto

section \<open>One payload\<close>

text \<open>A payload adds one operation with a fresh identifier, or moves one operation by one step.\<close>

lemma apply_payload_cases:
  assumes "apply_payload c p ops = Inr ops'"
  obtains (intent) intent where "ops' = bt_insert (joi_operation_id (ji_identity intent))
      \<lparr>jo_intent = intent, jo_status = IntentRecorded\<rparr> ops"
      "bt_get ops (joi_operation_id (ji_identity intent)) = None"
      "\<forall>oper. oper \<in> set (bt_values ops) \<longrightarrow> \<not> owns_nonce (ji_identity intent) oper"
    | (step) oper nxt where "ops' = bt_insert (wp_operation_id p) (oper\<lparr>jo_status := nxt\<rparr>) ops"
      "bt_get ops (wp_operation_id p) = Some oper" "status_step (jo_status oper) nxt"
      "joi_operation_id (ji_identity (jo_intent oper)) = wp_operation_id p"
proof -
  from assms obtain wallet where w: "wc_address_from_str c (wp_wallet p) = Some wallet"
    by (auto simp: apply_payload_def)
  let ?i = "\<lparr>joi_operation_id = wp_operation_id p, joi_chain_id = wp_chain_id p, joi_wallet = wallet,
    joi_nonce = wp_nonce p, joi_scope = wp_scope p\<rparr>"
  show thesis
  proof (cases "wp_event p")
    case (WIntentRecorded purpose target nv ch)
    with assms w obtain t v h where
      "ops' = bt_insert (wp_operation_id p) \<lparr>jo_intent = \<lparr>ji_identity = ?i, ji_purpose = purpose,
         ji_target = t, ji_native_value = v, ji_calldata_hash = h\<rparr>, jo_status = IntentRecorded\<rparr> ops"
      "\<not> bt_contains ops (wp_operation_id p)" "\<not> list_ex (owns_nonce ?i) (bt_values ops)"
      by (auto simp: apply_payload_def Let_def)
    then show thesis
      by (intro intent [of "\<lparr>ji_identity = ?i, ji_purpose = purpose, ji_target = t,
        ji_native_value = v, ji_calldata_hash = h\<rparr>"]) (auto simp: bt_contains_iff list_ex_iff)
  qed (use assms w in \<open>auto simp: apply_payload_def Let_def simp del: apply_transition.simps
        intro!: step dest!: apply_transition_step\<close>)
qed

definition nonce_unique :: "journal_operations \<Rightarrow> bool" where
  "nonce_unique ops \<longleftrightarrow>
     (\<forall>id oper id' oper'. bt_get ops id = Some oper \<and> bt_get ops id' = Some oper' \<and>
        \<not> frees_nonce (jo_status oper) \<and> owns_nonce (ji_identity (jo_intent oper)) oper' \<longrightarrow> id = id')"

lemma owns_nonce_sym:
  "\<not> frees_nonce (jo_status a) \<Longrightarrow> owns_nonce (ji_identity (jo_intent a)) b \<Longrightarrow>
     owns_nonce (ji_identity (jo_intent b)) a"
  by (auto simp: owns_nonce_def Let_def)

lemma nonce_unique_payload:
  assumes "apply_payload c p ops = Inr ops'" and u: "nonce_unique ops"
  shows "nonce_unique ops'"
  using assms(1)
proof (cases rule: apply_payload_cases)
  case (intent i)
  have fresh: "\<not> owns_nonce (ji_identity i) oper" if "bt_get ops id = Some oper" for id oper
    using intent(3) that by (auto simp: set_bt_values)
  then have "\<not> owns_nonce (ji_identity (jo_intent oper)) \<lparr>jo_intent = i, jo_status = IntentRecorded\<rparr>"
    if "bt_get ops id = Some oper" "\<not> frees_nonce (jo_status oper)" for id oper
    using that owns_nonce_sym [of oper "\<lparr>jo_intent = i, jo_status = IntentRecorded\<rparr>"] by auto
  with fresh u show ?thesis
    unfolding nonce_unique_def intent(1) by (auto split: if_splits)
next
  case (step oper nxt)
  have live: "\<not> frees_nonce (jo_status oper)"
    using step(3) status_step_unresolved frees_nonce_final by blast
  define oper' where "oper' = oper\<lparr>jo_status := nxt\<rparr>"
  have own: "owns_nonce i oper' \<Longrightarrow> owns_nonce i oper" for i
    using live by (auto simp: owns_nonce_def Let_def oper'_def)
  have "jo_intent oper' = jo_intent oper" by (simp add: oper'_def)
  with own live u step(2) show ?thesis
    unfolding nonce_unique_def step(1) oper'_def [symmetric] by (auto split: if_splits) metis+
qed

text \<open>The operations only grow, each along its own life.\<close>

definition evolves :: "journal_operations \<Rightarrow> journal_operations \<Rightarrow> bool" where
  "evolves ops ops' \<longleftrightarrow>
     (\<forall>id oper. bt_get ops id = Some oper \<longrightarrow>
        (\<exists>oper'. bt_get ops' id = Some oper' \<and> jo_intent oper' = jo_intent oper \<and>
           status_step\<^sup>*\<^sup>* (jo_status oper) (jo_status oper')))"

lemma evolves_refl: "evolves ops ops"
  by (auto simp: evolves_def)

lemma evolves_trans: "evolves a b \<Longrightarrow> evolves b c \<Longrightarrow> evolves a c"
  unfolding evolves_def by (metis rtranclp_trans)

lemma apply_payload_evolves:
  assumes "apply_payload c p ops = Inr ops'"
  shows "evolves ops ops'"
  using assms
  by (cases rule: apply_payload_cases) (auto simp: evolves_def)

section \<open>The journal as a durable log\<close>

definition journal_written ::
  "wire_codec \<Rightarrow> journal_operations \<times> u64 \<Rightarrow> string \<Rightarrow> journal_operations \<times> u64 \<Rightarrow> bool" where
  "journal_written c st line st' \<longleftrightarrow> codec_ok c \<and>
     (\<exists>now identity event j. prepare_append c now identity event j = Inr (fst st', line) \<and>
        st = (tj_operations j, tj_next_sequence j) \<and> checked_add (snd st) 1 = Some (snd st'))"

lemma prepare_append_Inr:
  assumes "prepare_append c now identity event j = Inr (ops', line)"
  obtains payload rcd where "\<not> tj_poisoned j" "wp_version payload = journal_version"
    "wp_sequence payload = tj_next_sequence j" "apply_payload c payload (tj_operations j) = Inr ops'"
    "wire_record_new c payload = Inr rcd" "wc_record_to_vec c rcd = Some line"
    "length line < max_journal_line_bytes"
proof -
  from assms obtain t rcd where "\<not> tj_poisoned j"
    "apply_payload c (append_payload c t identity event j) (tj_operations j) = Inr ops'"
    "wire_record_new c (append_payload c t identity event j) = Inr rcd"
    "wc_record_to_vec c rcd = Some line" "length line < max_journal_line_bytes"
    by (auto simp: prepare_append_def Let_def)
  then show thesis
    by (intro that [of "append_payload c t identity event j" rcd]) (simp_all add: append_payload_def)
qed

lemma journal_written_replay:
  assumes "journal_written c st line st'"
  shows "replay_record c line st = Inr st' \<and> nl \<notin> set line \<and> length line < max_journal_line_bytes"
proof -
  from assms obtain now identity event j where ok: "codec_ok c"
    and prep: "prepare_append c now identity event j = Inr (fst st', line)"
    and st: "st = (tj_operations j, tj_next_sequence j)"
    and seq: "checked_add (tj_next_sequence j) 1 = Some (snd st')"
    by (auto simp: journal_written_def)
  from prep obtain payload rcd where p: "wp_version payload = journal_version"
    "wp_sequence payload = tj_next_sequence j" "apply_payload c payload (tj_operations j) = Inr (fst st')"
    "wire_record_new c payload = Inr rcd" "wc_record_to_vec c rcd = Some line"
    "length line < max_journal_line_bytes"
    by (rule prepare_append_Inr)
  from p(4) obtain s where s: "payload_checksum c payload = Inr s"
    "rcd = \<lparr>wr_payload = payload, wr_checksum_sha256 = s\<rparr>" by (auto simp: wire_record_new_def)
  have "wc_record_from_slice c line = Some rcd" "nl \<notin> set line" "line \<noteq> []"
    using ok p(5) by (auto simp: codec_ok_def)
  then show ?thesis
    using p s st seq by (simp add: replay_record_def validate_checksum_def)
qed

interpretation tx_log: durable_log max_journal_line_bytes
  "''transaction journal record exceeds size limit''"
  "''transaction journal ends with a partial record''" "replay_record c" "journal_written c" for c
  by unfold_locales (auto dest: journal_written_replay)

lemma replay_nonce_unique:
  assumes "replay_lines limit big pm (replay_record c) content st = Inr st'" "nonce_unique (fst st)"
  shows "nonce_unique (fst st')"
  by (rule replay_lines_invariant [where P = "\<lambda>st. nonce_unique (fst st)", OF _ assms(2,1)])
    (auto simp: replay_record_def dest: nonce_unique_payload split: prod.splits)

section \<open>Runs\<close>

text \<open>A run: each call with the clock's answer and the fate of its write.\<close>

type_synonym journal_event = "u64 result \<times> write_outcome \<times> journal_call"

fun journal_step :: "wire_codec \<Rightarrow> journal_event \<Rightarrow> transaction_journal \<Rightarrow> transaction_journal" where
  "journal_step c (now, outcome, call) j = fst (journal_call_apply c now outcome call j)"

text \<open>A call leaves the journal alone, poisons it after a failed write, or makes one recorded step.\<close>

lemma journal_call_cases:
  assumes seq: "unat (tj_next_sequence j) + 1 < 2 ^ 64"
  obtains (refused) e where "journal_call_apply c now outcome call j = (j, Inl e)"
    | (failed) k ops' line e where "\<not> tj_poisoned j"
      "prepare_append c now (call_identity call) (call_event c call) j = Inr (ops', line)"
      "journal_call_apply c now outcome call j =
         (j\<lparr>tj_file := write_bytes (Failed k) (line @ [nl]) (tj_file j), tj_poisoned := True\<rparr>, Inl e)"
    | (stored) ops' line s where "\<not> tj_poisoned j"
      "prepare_append c now (call_identity call) (call_event c call) j = Inr (ops', line)"
      "checked_add (tj_next_sequence j) 1 = Some s"
      "journal_call_apply c now outcome call j =
         (j\<lparr>tj_file := write_bytes Durable (line @ [nl]) (tj_file j), tj_operations := ops',
            tj_next_sequence := s\<rparr>, Inr ())"
proof -
  let ?v = "case call of RecordIntent intent \<Rightarrow> validate_intent intent | _ \<Rightarrow> Inr ()"
  let ?p = "prepare_append c now (call_identity call) (call_event c call) j"
  show thesis
  proof (cases ?v)
    case (Inl e)
    then show thesis by (intro refused) (simp add: journal_call_apply_def)
  next
    case v: (Inr u)
    show thesis
    proof (cases ?p)
      case (Inl e)
      then show thesis using v by (intro refused) (simp add: journal_call_apply_def append_record_def)
    next
      case (Inr r)
      obtain ops' line where r: "r = (ops', line)" by fastforce
      have np: "\<not> tj_poisoned j" using Inr by (auto simp: prepare_append_def)
      obtain s where s: "checked_add (tj_next_sequence j) 1 = Some s"
        using seq by (simp add: checked_add_def)
      show thesis
      proof (cases outcome)
        case Durable
        then show thesis using v Inr r np s
          by (intro stored [of ops' line s]) (simp_all add: journal_call_apply_def append_record_def Let_def)
      next
        case (Failed k)
        then show thesis using v Inr r np
          by (intro failed [of ops' line k]) (simp_all add: journal_call_apply_def append_record_def Let_def)
      qed
    qed
  qed
qed

lemma prepare_append_payload:
  "prepare_append c now i ev j = Inr (ops', line) \<Longrightarrow> \<exists>p. apply_payload c p (tj_operations j) = Inr ops'"
  by (erule prepare_append_Inr) blast

lemma prepare_append_cong:
  assumes "tj_operations j = tj_operations j'" "tj_next_sequence j = tj_next_sequence j'"
    "tj_poisoned j = tj_poisoned j'"
  shows "prepare_append c now i ev j = prepare_append c now i ev j'"
  using assms by (simp add: prepare_append_def append_payload_def Let_def)

lemma written_prepare:
  assumes "journal_written c (tj_operations j, tj_next_sequence j) line st'"
  shows "\<exists>now identity event.
    prepare_append c now identity event (j\<lparr>tj_poisoned := False\<rparr>) = Inr (fst st', line)"
proof -
  from assms obtain now identity event j1 where p: "prepare_append c now identity event j1 = Inr (fst st', line)"
    and eq: "tj_operations j = tj_operations j1" "tj_next_sequence j = tj_next_sequence j1"
    by (auto simp: journal_written_def)
  from p have "\<not> tj_poisoned j1" by (rule prepare_append_Inr)
  with eq have "prepare_append c now identity event (j\<lparr>tj_poisoned := False\<rparr>) =
      prepare_append c now identity event j1"
    by (intro prepare_append_cong) simp_all
  with p show ?thesis by auto
qed

text \<open>The journal as a durable log: its bytes, the state a replay rebuilds, and the poison mark.\<close>

definition journal_view :: "transaction_journal \<Rightarrow> string \<times> (journal_operations \<times> u64) \<times> bool" where
  "journal_view j = (tj_file j, (tj_operations j, tj_next_sequence j), tj_poisoned j)"

lemma journal_step_log:
  assumes ok: "codec_ok c" and seq: "unat (tj_next_sequence j) + 1 < 2 ^ 64"
  shows "log_step (journal_written c) (journal_view j) (journal_view (journal_step c ev j))"
proof -
  obtain now outcome call where ev: "ev = (now, outcome, call)" by (cases ev)
  obtain s where s: "checked_add (tj_next_sequence j) 1 = Some s" using seq by (simp add: checked_add_def)
  have written: "journal_written c (tj_operations j, tj_next_sequence j) line (ops', s)"
    if "prepare_append c now i e j = Inr (ops', line)" for i e ops' line
    using that ok s by (auto simp: journal_written_def)
  from seq show ?thesis
  proof (cases rule: journal_call_cases [where c = c and now = now and outcome = outcome and call = call])
    case (refused e)
    then show ?thesis by (simp add: ev log_step.refused)
  next
    case (failed k ops' line e)
    then show ?thesis
      using log_step.failed [where written = "journal_written c", OF written [OF failed(2)], where disk = "tj_file j" and k = k]
      by (simp add: ev journal_view_def)
  next
    case (stored ops' line s')
    then show ?thesis
      using log_step.stored [where written = "journal_written c", OF written [OF stored(2)], where disk = "tj_file j"] s
      by (simp add: ev journal_view_def)
  qed
qed

lemma journal_step_seq:
  assumes "unat (tj_next_sequence j) + 1 < 2 ^ 64"
  shows "unat (tj_next_sequence (journal_step c ev j)) \<le> unat (tj_next_sequence j) + 1"
proof -
  obtain now outcome call where ev: "ev = (now, outcome, call)" by (cases ev)
  from assms show ?thesis
    by (cases rule: journal_call_cases [where c = c and now = now and outcome = outcome and call = call])
      (simp_all add: ev checked_simps)
qed

lemma journal_run_invariant:
  assumes step: "\<And>j ev. P j \<Longrightarrow> unat (tj_next_sequence j) + 1 < 2 ^ 64 \<Longrightarrow> P (journal_step c ev j)"
    and "P j" and "unat (tj_next_sequence j) + length evs < 2 ^ 64"
  shows "P (fold (journal_step c) evs j)"
  using assms(2,3)
proof (induction evs arbitrary: j)
  case (Cons ev evs)
  have "unat (tj_next_sequence (journal_step c ev j)) \<le> unat (tj_next_sequence j) + 1"
    using Cons.prems(2) by (intro journal_step_seq) simp
  then show ?case using Cons.prems by (simp add: Cons.IH step)
qed simp

lemma journal_step_payload:
  assumes "unat (tj_next_sequence j) + 1 < 2 ^ 64"
  shows "tj_operations (journal_step c ev j) = tj_operations j \<or>
    (\<exists>p. apply_payload c p (tj_operations j) = Inr (tj_operations (journal_step c ev j)))"
proof -
  obtain now outcome call where ev: "ev = (now, outcome, call)" by (cases ev)
  from assms show ?thesis
    by (cases rule: journal_call_cases [where c = c and now = now and outcome = outcome and call = call])
      (auto simp: ev dest: prepare_append_payload)
qed

lemma journal_open_Inr:
  "journal_open c content = Inr j \<longleftrightarrow>
     replay_file c content = Inr (tj_operations j, tj_next_sequence j) \<and> tj_file j = content \<and>
     \<not> tj_poisoned j"
  by (cases j) (auto simp: journal_open_def)

lemma nonce_unique_step:
  assumes "nonce_unique (tj_operations j)" and "unat (tj_next_sequence j) + 1 < 2 ^ 64"
  shows "nonce_unique (tj_operations (journal_step c ev j))"
  using journal_step_payload [OF assms(2), of c ev] assms(1) by (auto dest: nonce_unique_payload)

lemma evolves_step:
  assumes "evolves ops (tj_operations j)" and "unat (tj_next_sequence j) + 1 < 2 ^ 64"
  shows "evolves ops (tj_operations (journal_step c ev j))"
  using journal_step_payload [OF assms(2), of c ev] assms(1)
  by (auto dest: apply_payload_evolves intro: evolves_trans)

lemma open_nonce_unique:
  assumes "journal_open c content = Inr j"
  shows "nonce_unique (tj_operations j)"
proof -
  have "nonce_unique bt_empty" by (simp add: nonce_unique_def)
  with assms replay_nonce_unique [of _ _ _ c content "(bt_empty, 0)"] show ?thesis
    unfolding journal_open_Inr replay_file_def by fastforce
qed

section \<open>Properties\<close>

text \<open>
  (C15) Crash recovery.  Take a journal that was opened, and any calls on it with any clock answers and
  any write failures.  Reopening its file gives back exactly the journal in memory; after a failed
  write it gives the operations in memory, or those with the one event whose write failed, or it
  refuses a partial record.  No acknowledged event is lost and no other event appears.
\<close>

theorem reopen_recovers_journal:
  assumes codec: "codec_ok c" and opened: "journal_open c content = Inr j0"
    and bound: "unat (tj_next_sequence j0) + length evs < 2 ^ 64"
    and j: "j = fold (journal_step c) evs j0"
  shows "if \<not> tj_poisoned j then journal_open c (tj_file j) = Inr j
    else journal_open c (tj_file j) = Inr (j\<lparr>tj_poisoned := False\<rparr>) \<or>
      journal_open c (tj_file j) = Inl (Bail ''transaction journal ends with a partial record'') \<or>
      (\<exists>j' now identity event line. journal_open c (tj_file j) = Inr j' \<and>
         prepare_append c now identity event (j\<lparr>tj_poisoned := False\<rparr>) = Inr (tj_operations j', line))"
proof -
  let ?ok = "\<lambda>j. log_ok (replay_file c) ''transaction journal ends with a partial record''
    (journal_written c) (journal_view j)"
  have step: "?ok (journal_step c ev j)" if "?ok j" "unat (tj_next_sequence j) + 1 < 2 ^ 64" for j ev
    using tx_log.log_step_ok [OF journal_step_log [OF codec that(2)]] that(1)
    unfolding replay_file_def by blast
  have "?ok j0" using opened by (simp add: journal_open_Inr journal_view_def)
  then have d: "?ok j" unfolding j by (intro journal_run_invariant [where P = ?ok, OF step _ bound])
  show ?thesis
  proof (cases "tj_poisoned j")
    case False
    then show ?thesis using d by (simp add: journal_view_def journal_open_Inr)
  next
    case True
    have third: "\<exists>j' now identity event. journal_open c (tj_file j) = Inr j' \<and>
        prepare_append c now identity event (j\<lparr>tj_poisoned := False\<rparr>) = Inr (tj_operations j', line)"
      if "journal_written c (tj_operations j, tj_next_sequence j) line st'"
        "replay_file c (tj_file j) = Inr st'" for line st'
      using written_prepare [OF that(1)] that(2) by (fastforce simp: journal_open_def split: prod.splits)
    from d True consider "replay_file c (tj_file j) = Inr (tj_operations j, tj_next_sequence j)"
      | "replay_file c (tj_file j) = Inl (Bail ''transaction journal ends with a partial record'')"
      | l st' where "journal_written c (tj_operations j, tj_next_sequence j) l st'"
        "replay_file c (tj_file j) = Inr st'"
      by (auto simp: journal_view_def)
    then show ?thesis
    proof cases
      case 1
      then show ?thesis using True by (simp add: journal_open_Inr)
    next
      case 2
      then show ?thesis using True by (simp add: journal_open_def)
    next
      case 3
      with third [OF 3] True show ?thesis by auto
    qed
  qed
qed

text \<open>
  (C16) One owner per nonce: in every journal that was opened and then used in any way, two operations
  of the same chain, wallet and nonce that were neither cancelled nor rejected are the same operation.
\<close>

theorem nonce_has_one_owner:
  assumes opened: "journal_open c content = Inr j0"
    and bound: "unat (tj_next_sequence j0) + length evs < 2 ^ 64"
    and ops: "bt_get (tj_operations (fold (journal_step c) evs j0)) opid = Some oper"
      "bt_get (tj_operations (fold (journal_step c) evs j0)) opid' = Some oper'"
    and live: "\<not> frees_nonce (jo_status oper)" "\<not> frees_nonce (jo_status oper')"
    and same: "joi_chain_id (ji_identity (jo_intent oper)) = joi_chain_id (ji_identity (jo_intent oper'))"
      "joi_wallet (ji_identity (jo_intent oper)) = joi_wallet (ji_identity (jo_intent oper'))"
      "joi_nonce (ji_identity (jo_intent oper)) = joi_nonce (ji_identity (jo_intent oper'))"
  shows "opid = opid'"
proof -
  have "nonce_unique (tj_operations (fold (journal_step c) evs j0))"
    by (rule journal_run_invariant [where P = "\<lambda>j. nonce_unique (tj_operations j)",
          OF nonce_unique_step open_nonce_unique [OF opened] bound])
  moreover have "owns_nonce (ji_identity (jo_intent oper)) oper'"
    using live(2) same by (simp add: owns_nonce_def Let_def)
  ultimately show ?thesis using ops live(1) unfolding nonce_unique_def by blast
qed

text \<open>
  (C17) The past of an operation is never rewritten: whatever calls follow, a recorded operation stays
  with its intent, its status moves only along the life of a transaction, a final status and a
  transaction hash are kept for ever.
\<close>

theorem operations_never_rewritten:
  assumes bound: "unat (tj_next_sequence j0) + length evs < 2 ^ 64"
    and oper: "bt_get (tj_operations j0) opid = Some oper"
  shows "\<exists>oper'. bt_get (tj_operations (fold (journal_step c) evs j0)) opid = Some oper' \<and>
    jo_intent oper' = jo_intent oper \<and> status_step\<^sup>*\<^sup>* (jo_status oper) (jo_status oper') \<and>
    (\<not> is_unresolved (jo_status oper) \<longrightarrow> oper' = oper) \<and>
    (\<forall>h. transaction_hash (jo_status oper) = Some h \<longrightarrow> transaction_hash (jo_status oper') = Some h)"
proof -
  have "evolves (tj_operations j0) (tj_operations (fold (journal_step c) evs j0))"
    by (rule journal_run_invariant [where P = "\<lambda>j. evolves (tj_operations j0) (tj_operations j)",
          OF evolves_step evolves_refl bound])
  then obtain oper' where o: "bt_get (tj_operations (fold (journal_step c) evs j0)) opid = Some oper'"
    "jo_intent oper' = jo_intent oper" "status_step\<^sup>*\<^sup>* (jo_status oper) (jo_status oper')"
    using oper by (auto simp: evolves_def)
  then show ?thesis
    using status_steps_final [OF o(3)] status_steps_hash [OF o(3)] by auto
qed

text \<open>
  (C18) Failing closed: an error leaves the journal as it was, or marks it poisoned with its operations
  unchanged; a poisoned journal accepts nothing and is not touched again.
\<close>

theorem journal_fails_closed:
  assumes "journal_call_apply c now outcome call j = (j', Inl e)"
    and "unat (tj_next_sequence j) + 1 < 2 ^ 64"
  shows "(j' = j \<or> tj_poisoned j' \<and> tj_operations j' = tj_operations j) \<and>
    (tj_poisoned j' \<longrightarrow> (\<exists>e'. journal_call_apply c now' outcome' call' j' = (j', Inl e')))"
proof -
  have "j' = j \<or> tj_poisoned j' \<and> tj_operations j' = tj_operations j"
    using assms(2)
    by (cases rule: journal_call_cases [where c = c and now = now and outcome = outcome and call = call])
      (use assms(1) in auto)
  moreover have "\<exists>e'. journal_call_apply c now' outcome' call' j' = (j', Inl e')" if "tj_poisoned j'"
    using that
    by (auto simp: journal_call_apply_def append_record_def prepare_append_def split: sum.split)
  ultimately show ?thesis by blast
qed

section \<open>A concrete journal\<close>

text \<open>A codec for two records: numbers in unary, and one letter for each record.\<close>

definition demo_identity :: journal_operation_identity where
  "demo_identity = \<lparr>joi_operation_id = ''op-1'', joi_chain_id = 10, joi_wallet = 2, joi_nonce = 3,
     joi_scope = None\<rparr>"

definition demo_intent :: journal_intent where
  "demo_intent = \<lparr>ji_identity = demo_identity, ji_purpose = ''swap'', ji_target = 2,
     ji_native_value = 0, ji_calldata_hash = 2\<rparr>"

definition unary :: "'a::len word \<Rightarrow> string" where
  "unary w = replicate (unat w) CHR ''1''"

definition of_unary :: "string \<Rightarrow> 'a::len word option" where
  "of_unary s = Some (of_nat (length s))"

definition demo_payload :: "u64 \<Rightarrow> u64 \<Rightarrow> wire_event \<Rightarrow> wire_payload" where
  "demo_payload seq t ev = \<lparr>wp_version = 1, wp_sequence = seq, wp_recorded_at_unix_ms = t,
     wp_operation_id = ''op-1'', wp_chain_id = 10, wp_wallet = unary (2 :: address), wp_nonce = 3,
     wp_scope = None, wp_event = ev\<rparr>"

definition demo_record :: "u64 \<Rightarrow> u64 \<Rightarrow> wire_event \<Rightarrow> wire_record" where
  "demo_record seq t ev = \<lparr>wr_payload = demo_payload seq t ev, wr_checksum_sha256 = ''h''\<rparr>"

definition demo_intent_record :: wire_record where
  "demo_intent_record = demo_record 0 5
     (WIntentRecorded ''swap'' (unary (2 :: address)) (unary (0 :: u256)) (unary (2 :: b256)))"

definition demo_signed_record :: wire_record where
  "demo_signed_record = demo_record 1 6 (WSigned (unary (4 :: b256)))"

definition demo_codec :: wire_codec where
  "demo_codec = \<lparr>
     wc_record_to_vec = (\<lambda>r. if r = demo_intent_record then Some ''A''
                            else if r = demo_signed_record then Some ''B'' else None),
     wc_record_from_slice = (\<lambda>b. if b = ''A'' then Some demo_intent_record
                                else if b = ''B'' then Some demo_signed_record else None),
     wc_payload_to_vec = (\<lambda>_. Some []), wc_sha256_hex = (\<lambda>_. ''h''),
     wc_address_to_string = unary, wc_address_from_str = of_unary,
     wc_u256_to_string = unary, wc_u256_from_str = of_unary,
     wc_b256_to_string = unary, wc_b256_from_str = of_unary\<rparr>"

lemma of_unary_unary [simp]: "of_unary (unary w) = Some w"
  by (simp add: of_unary_def unary_def)

lemma demo_codec_ok: "codec_ok demo_codec"
  by (auto simp: codec_ok_def demo_codec_def nl_def split: if_splits)

definition demo_opened :: transaction_journal where
  "demo_opened = \<lparr>tj_file = [], tj_operations = bt_empty, tj_next_sequence = 0, tj_poisoned = False\<rparr>"

lemma demo_open: "journal_open demo_codec [] = Inr demo_opened"
  by (simp add: journal_open_def replay_file_def demo_opened_def)

lemma demo_identity_ok: "validate_identity demo_identity = Inr ()"
  by (simp add: validate_identity_def validate_identifier_def demo_identity_def identifier_byte_def
      is_ascii_alphanumeric_def byte_def max_operation_id_bytes_def Let_def)

lemma demo_intent_ok: "validate_intent demo_intent = Inr ()"
  by (simp add: validate_intent_def demo_intent_def demo_identity_ok validate_identifier_def
      identifier_byte_def is_ascii_alphanumeric_def byte_def max_purpose_bytes_def Let_def)

definition demo_recorded :: transaction_journal where
  "demo_recorded = \<lparr>tj_file = ''A'' @ [nl],
     tj_operations = bt_insert ''op-1'' \<lparr>jo_intent = demo_intent, jo_status = IntentRecorded\<rparr> bt_empty,
     tj_next_sequence = 1, tj_poisoned = False\<rparr>"

lemma demo_codec_sel [simp]:
  "wc_address_from_str demo_codec = of_unary" "wc_address_to_string demo_codec = unary"
  "wc_u256_from_str demo_codec = of_unary" "wc_u256_to_string demo_codec = unary"
  "wc_b256_from_str demo_codec = of_unary" "wc_b256_to_string demo_codec = unary"
  "wc_record_to_vec demo_codec demo_intent_record = Some ''A''"
  "wc_record_to_vec demo_codec demo_signed_record = Some ''B''"
  "payload_checksum demo_codec p = Inr ''h''"
  by (simp_all add: demo_codec_def payload_checksum_def demo_intent_record_def demo_signed_record_def
      demo_record_def demo_payload_def)

lemma demo_identity_sel [simp]:
  "joi_operation_id demo_identity = ''op-1''" "joi_chain_id demo_identity = 10"
  "joi_wallet demo_identity = 2" "joi_nonce demo_identity = 3" "joi_scope demo_identity = None"
  by (simp_all add: demo_identity_def)

lemma demo_prepare_intent:
  "prepare_append demo_codec (Inr 5) demo_identity (call_event demo_codec (RecordIntent demo_intent))
     demo_opened = Inr (tj_operations demo_recorded, ''A'')"
proof -
  let ?p = "append_payload demo_codec 5 demo_identity (call_event demo_codec (RecordIntent demo_intent))
    demo_opened"
  have p: "?p = wr_payload demo_intent_record"
    by (simp add: append_payload_def demo_intent_record_def demo_record_def demo_payload_def
        journal_version_def demo_opened_def demo_intent_def)
  have rcd: "wire_record_new demo_codec ?p = Inr demo_intent_record"
    unfolding p by (simp add: wire_record_new_def demo_intent_record_def demo_record_def)
  have "apply_payload demo_codec ?p bt_empty = Inr (tj_operations demo_recorded)"
    unfolding p using demo_identity_ok demo_intent_ok
    by (simp add: apply_payload_def demo_intent_record_def demo_record_def demo_payload_def Let_def
        bt_values_def demo_recorded_def demo_intent_def demo_identity_def)
  then show ?thesis
    using rcd demo_identity_ok
    by (simp add: prepare_append_def Let_def max_journal_line_bytes_def) (simp add: demo_opened_def)
qed

lemma demo_step_intent:
  "journal_step demo_codec (Inr 5, Durable, RecordIntent demo_intent) demo_opened = demo_recorded"
proof -
  have "ji_identity demo_intent = demo_identity" by (simp add: demo_intent_def)
  then show ?thesis
    using demo_prepare_intent demo_intent_ok
    by (simp add: journal_call_apply_def append_record_def Let_def checked_add_def)
      (simp add: demo_opened_def demo_recorded_def)
qed

lemma demo_prepare_signed:
  "prepare_append demo_codec (Inr 6) demo_identity (WSigned (unary (4 :: b256))) demo_recorded =
     Inr (bt_insert ''op-1'' \<lparr>jo_intent = demo_intent, jo_status = Signed 4\<rparr>
       (tj_operations demo_recorded), ''B'')"
proof -
  let ?p = "append_payload demo_codec 6 demo_identity (WSigned (unary (4 :: b256))) demo_recorded"
  have p: "?p = wr_payload demo_signed_record"
    by (simp add: append_payload_def demo_signed_record_def demo_record_def demo_payload_def
        journal_version_def demo_recorded_def)
  have rcd: "wire_record_new demo_codec ?p = Inr demo_signed_record"
    unfolding p by (simp add: wire_record_new_def demo_signed_record_def demo_record_def)
  have "apply_payload demo_codec ?p (tj_operations demo_recorded) =
      Inr (bt_insert ''op-1'' \<lparr>jo_intent = demo_intent, jo_status = Signed 4\<rparr> (tj_operations demo_recorded))"
    unfolding p using demo_identity_ok
    by (simp add: apply_payload_def demo_signed_record_def demo_record_def demo_payload_def Let_def
        demo_recorded_def demo_intent_def demo_identity_def parse_hash_def)
  then show ?thesis
    using rcd demo_identity_ok
    by (simp add: prepare_append_def Let_def max_journal_line_bytes_def) (simp add: demo_recorded_def)
qed

theorem reopen_recovers_journal_witness:
  "let j = fold (journal_step demo_codec)
       [(Inr 5, Durable, RecordIntent demo_intent), (Inr 6, Failed 1, RecordSigned demo_identity 4)]
       demo_opened
   in tj_file j = ''A'' @ nl # ''B'' \<and> tj_poisoned j \<and>
     (journal_open demo_codec (tj_file j) = Inr (j\<lparr>tj_poisoned := False\<rparr>) \<or>
      journal_open demo_codec (tj_file j) =
        Inl (Bail ''transaction journal ends with a partial record'') \<or>
      (\<exists>j' now identity event line. journal_open demo_codec (tj_file j) = Inr j' \<and>
         prepare_append demo_codec now identity event (j\<lparr>tj_poisoned := False\<rparr>) =
           Inr (tj_operations j', line)))"
proof -
  let ?evs = "[(Inr 5, Durable, RecordIntent demo_intent), (Inr 6, Failed 1, RecordSigned demo_identity 4)]"
  define j where "j = fold (journal_step demo_codec) ?evs demo_opened"
  have "j = demo_recorded\<lparr>tj_file := ''A'' @ nl # ''B'', tj_poisoned := True\<rparr>"
    using demo_prepare_signed
    by (simp add: j_def demo_step_intent del: journal_step.simps)
      (simp add: journal_call_apply_def append_record_def Let_def demo_recorded_def)
  then have p: "tj_poisoned j" and f: "tj_file j = ''A'' @ nl # ''B''" by simp_all
  have bound: "unat (tj_next_sequence demo_opened) + length ?evs < 2 ^ 64"
    by (simp add: demo_opened_def)
  have reopen: "\<not> \<not> tj_poisoned j" using p by simp
  note reopen = reopen_recovers_journal [OF demo_codec_ok demo_open bound j_def, unfolded if_not_P [OF reopen]]
  show ?thesis
    unfolding Let_def j_def [symmetric] using reopen p f by (intro conjI)
qed

theorem nonce_has_one_owner_witness:
  "bt_get (tj_operations (fold (journal_step demo_codec)
      [(Inr 5, Durable, RecordIntent demo_intent)] demo_opened)) ''op-1'' =
      Some \<lparr>jo_intent = demo_intent, jo_status = IntentRecorded\<rparr> \<and>
   bt_get (tj_operations (fold (journal_step demo_codec)
      [(Inr 5, Durable, RecordIntent demo_intent)] demo_opened)) ''op-2'' \<noteq>
      Some \<lparr>jo_intent = demo_intent, jo_status = Signed 4\<rparr>"
proof -
  let ?evs = "[(Inr 5, Durable, RecordIntent demo_intent)] :: journal_event list"
  have bound: "unat (tj_next_sequence demo_opened) + length ?evs < 2 ^ 64"
    by (simp add: demo_opened_def)
  have get: "bt_get (tj_operations (fold (journal_step demo_codec) ?evs demo_opened)) ''op-1'' =
      Some \<lparr>jo_intent = demo_intent, jo_status = IntentRecorded\<rparr>"
    by (simp add: demo_step_intent del: journal_step.simps) (simp add: demo_recorded_def)
  have "''op-1'' = ''op-2''" if "bt_get (tj_operations (fold (journal_step demo_codec) ?evs demo_opened))
      ''op-2'' = Some \<lparr>jo_intent = demo_intent, jo_status = Signed 4\<rparr>"
    by (rule nonce_has_one_owner [OF demo_open bound get that]) simp_all
  with get show ?thesis by auto
qed

theorem operations_never_rewritten_witness:
  "\<exists>oper'. bt_get (tj_operations (fold (journal_step demo_codec)
      [(Inr 6, Durable, RecordSigned demo_identity 4)] demo_recorded)) ''op-1'' = Some oper' \<and>
     jo_intent oper' = demo_intent \<and> status_step\<^sup>*\<^sup>* IntentRecorded (jo_status oper')"
proof -
  have bound: "unat (tj_next_sequence demo_recorded) +
      length [(Inr 6, Durable, RecordSigned demo_identity 4) :: journal_event] < 2 ^ 64"
    by (simp add: demo_recorded_def)
  have "bt_get (tj_operations demo_recorded) ''op-1'' =
      Some \<lparr>jo_intent = demo_intent, jo_status = IntentRecorded\<rparr>" by (simp add: demo_recorded_def)
  from operations_never_rewritten [OF bound this, of demo_codec] show ?thesis by auto
qed

theorem journal_fails_closed_witness:
  "\<exists>j' e. journal_call_apply demo_codec (Inr 6) (Failed 1) (RecordSigned demo_identity 4) demo_recorded =
      (j', Inl e) \<and> tj_poisoned j' \<and> tj_operations j' = tj_operations demo_recorded \<and>
      (\<exists>e'. journal_call_apply demo_codec (Inr 7) Durable (RecordSigned demo_identity 4) j' = (j', Inl e'))"
proof -
  have np: "\<not> tj_poisoned demo_recorded" and seq: "unat (tj_next_sequence demo_recorded) + 1 < 2 ^ 64"
    by (simp_all add: demo_recorded_def)
  obtain j' e where eq: "journal_call_apply demo_codec (Inr 6) (Failed 1) (RecordSigned demo_identity 4)
      demo_recorded = (j', Inl e)" and p: "tj_poisoned j'"
    using demo_prepare_signed by (simp add: journal_call_apply_def append_record_def Let_def)
  from journal_fails_closed [OF eq seq, of "Inr 7" Durable "RecordSigned demo_identity 4"] eq p np
  show ?thesis by auto
qed

end
