(* ===== verification/Nonce_Lane.thy ===== *)
theory Nonce_Lane
  imports Transaction_Journal "HOL-Library.Product_Lexorder"
begin

text \<open>
  The nonce allocator of the wallet, \<open>src/src/wallet/nonce.rs\<close>: the process-wide lock per chain and
  wallet, the lane that takes one operation at a time through the transaction journal, the
  reconciliation of a lane with the chain when the process starts, and the three recoveries that
  close a rejected transaction.

  A lane operation is a function of the lane and the journal; \<open>env\<close> is the system's part of the
  journal call (the clock's answer and the fate of the write).  The answers of the RPC node are
  arguments, and \<open>keccak256\<close> is a parameter.
\<close>

section \<open>Data\<close>

type_synonym bytes = "u8 list"

record wallet_call =
  wcl_target :: address
  wcl_value :: u256
  wcl_calldata :: bytes

record signed_transaction =
  stx_chain_id :: u64
  stx_nonce :: u64
  stx_hash :: b256
  stx_raw :: bytes

record receipt_log_position =
  rlp_transaction_hash :: b256
  rlp_block_number :: u64
  rlp_block_hash :: b256
  rlp_transaction_index :: u64
  rlp_log_index :: u64
  rlp_removed :: bool

record receipt_log =
  rl_address :: address
  rl_topics :: "b256 list"
  rl_data :: bytes
  rl_position :: "receipt_log_position option"

record transaction_receipt =
  trc_transaction_hash :: b256
  trc_block_number :: u64
  trc_status :: u64
  trc_gas_used :: u64
  trc_effective_gas_price :: u128
  trc_l1_fee :: u128
  trc_logs :: "receipt_log list"

record rpc_transaction =
  rtx_hash :: b256
  rtx_chain_id :: u64
  rtx_nonce :: u64
  rtx_from :: address
  rtx_to :: "address option"
  rtx_value :: u256
  rtx_input :: bytes
  rtx_block_number :: "u64 option"
  rtx_gas_limit :: "u64 option"
  rtx_transaction_type :: "u8 option"
  rtx_gas_price :: "u128 option"
  rtx_max_fee_per_gas :: "u128 option"
  rtx_max_priority_fee_per_gas :: "u128 option"

datatype nonce_lane_state =
    NReady u64
  | NReserved journal_operation_identity
  | NSigned journal_operation_identity b256
  | NBroadcast journal_operation_identity b256
  | NRecoveryRequired journal_operation_identity "b256 option"
  | NUntrackedPending u64 u64

record nonce_lane =
  ln_chain_id :: u64
  ln_wallet :: address
  ln_state :: nonce_lane_state
  ln_journal_scope :: "evm_journal_scope option"

datatype nonce_reconciliation_outcome =
    OutReady u64
  | OutMinedSuccess string b256 u64
  | OutMinedReverted string b256 u64
  | OutTransactionKnown string b256 "u64 option"
  | OutSignedTransactionAbsent string b256
  | OutNonceConsumedWithoutMatchingTransaction string b256 u64
  | OutNonceOccupiedWithoutMatchingTransaction string b256 u64
  | OutUnsignedIntentNeedsReview string u64
  | OutUntrackedPending u64 u64

record reviewed_prebroadcast_rejection =
  rpr_operation_id :: string
  rpr_chain_id :: u64
  rpr_wallet :: address
  rpr_nonce :: u64
  rpr_transaction_hash :: b256
  rpr_scope :: evm_journal_scope

record reviewed_consumed_nonce_collision =
  rcc_operation_id :: string
  rcc_chain_id :: u64
  rcc_wallet :: address
  rcc_nonce :: u64
  rcc_rejected_transaction_hash :: b256
  rcc_purpose :: string
  rcc_target :: address
  rcc_native_value :: u256
  rcc_calldata_hash :: b256
  rcc_replacement_transaction_hash :: b256
  rcc_replacement_target :: address
  rcc_replacement_native_value :: u256
  rcc_replacement_block_number :: u64
  rcc_scope :: evm_journal_scope

section \<open>The process-wide lock\<close>

type_synonym process_nonce_key = "u64 \<times> address"
type_synonym process_nonce_locks = "(process_nonce_key, u64) btmap"

text \<open>
  \<open>granted\<close> says whether the mutex of the lane was obtained before \<open>PROCESS_NONCE_LOCK_TTL\<close> ran out.  The
  guard that is returned is the key; \<open>guard_nonce\<close> reads the state behind it.
\<close>

definition guard_nonce :: "process_nonce_locks \<Rightarrow> process_nonce_key \<Rightarrow> u64" where
  "guard_nonce locks key = (case bt_get locks key of Some n \<Rightarrow> n | None \<Rightarrow> 0)"

definition advance_after_broadcast ::
  "process_nonce_key \<Rightarrow> u64 \<Rightarrow> process_nonce_locks \<Rightarrow> process_nonce_locks \<times> unit result" where
  "advance_after_broadcast key nonce locks =
     (if guard_nonce locks key = nonce then
        (case checked_add nonce 1 of
           None \<Rightarrow> (locks, Inl (Bail ''process nonce allocator overflow after broadcast''))
         | Some n \<Rightarrow> (bt_insert key n locks, Inr ()))
      else (locks, Inl (Bail ''process nonce lock advanced by another operation'')))"

definition advance_to_at_least ::
  "process_nonce_key \<Rightarrow> u64 \<Rightarrow> process_nonce_locks \<Rightarrow> process_nonce_locks" where
  "advance_to_at_least key next_nonce locks =
     bt_insert key (max (guard_nonce locks key) next_nonce) locks"

definition acquire_process_nonce_lock ::
  "bool \<Rightarrow> u64 \<Rightarrow> address \<Rightarrow> u64 \<Rightarrow> process_nonce_locks \<Rightarrow>
   process_nonce_locks \<times> process_nonce_key result" where
  "acquire_process_nonce_lock granted chain_id wallet floor_next_nonce locks =
     (if chain_id \<le> 0 then (locks, Inl (Bail ''process nonce lock chain id is zero''))
      else if wallet = 0 then (locks, Inl (Bail ''process nonce lock wallet is zero''))
      else
        (let key = (chain_id, wallet);
             locks = (if bt_contains locks key then locks else bt_insert key floor_next_nonce locks) in
         if granted then
           (bt_insert key (max (guard_nonce locks key) floor_next_nonce) locks, Inr key)
         else (locks, Inl (Bail ''timed out waiting for process wallet nonce lock''))))"

section \<open>The lane\<close>

type_synonym journal_env = "u64 result \<times> write_outcome"
type_synonym lane_system = "nonce_lane \<times> transaction_journal"

definition hydrate ::
  "u64 \<Rightarrow> address \<Rightarrow> u64 \<Rightarrow> u64 \<Rightarrow> transaction_journal \<Rightarrow> nonce_lane result" where
  "hydrate chain_id wallet latest_nonce pending_nonce j =
     ensure (chain_id > 0) ''nonce lane chain id is zero''
     (ensure (wallet \<noteq> 0) ''nonce lane wallet is zero''
     (ensure (latest_nonce \<le> pending_nonce) ''latest nonce exceeds pending nonce''
     (bind_res (case highest_consumed_nonce j chain_id wallet of
         Some consumed_nonce \<Rightarrow>
           ensure (pending_nonce > consumed_nonce)
             ''pending nonce has not advanced past a journaled mined transaction'' (Inr ())
       | None \<Rightarrow> Inr ()) (\<lambda>_.
      let unresolved = recovery_blocking_for j chain_id wallet in
      ensure (length unresolved \<le> 1) ''nonce lane has multiple recovery-blocking journal operations''
      (bind_res (case unresolved of
          oper # _ \<Rightarrow>
            ensure (joi_nonce (ji_identity (jo_intent oper)) \<le> pending_nonce)
              ''journal operation nonce is ahead of the RPC pending nonce''
            (Inr (NRecoveryRequired (ji_identity (jo_intent oper)) (transaction_hash (jo_status oper))))
        | [] \<Rightarrow> Inr (NReady pending_nonce)) (\<lambda>state.
       Inr \<lparr>ln_chain_id = chain_id, ln_wallet = wallet, ln_state = state, ln_journal_scope = None\<rparr>))))))"

definition lane_ready :: "nonce_lane \<Rightarrow> bool" where
  "lane_ready lane = (case ln_state lane of NReady _ \<Rightarrow> True | _ \<Rightarrow> False)"

definition lane_next_nonce :: "nonce_lane \<Rightarrow> u64 option" where
  "lane_next_nonce lane = (case ln_state lane of NReady next_nonce \<Rightarrow> Some next_nonce | _ \<Rightarrow> None)"

definition set_journal_scope :: "evm_journal_scope \<Rightarrow> nonce_lane \<Rightarrow> nonce_lane \<times> unit result" where
  "set_journal_scope scope lane =
     (case ejs_validate scope of
        Inl e \<Rightarrow> (lane, Inl e)
      | Inr _ \<Rightarrow>
          if lane_ready lane then (lane\<lparr>ln_journal_scope := Some scope\<rparr>, Inr ())
          else (lane, Inl (Bail ''cannot change EVM journal scope while an operation is active'')))"

text \<open>
  The shape every lane operation has: call the journal, keep the lane on an error, and move on when
  the record is durable.
\<close>

definition after_journal ::
  "wire_codec \<Rightarrow> journal_env \<Rightarrow> journal_call \<Rightarrow> lane_system \<Rightarrow>
   (nonce_lane \<Rightarrow> nonce_lane \<times> 'a result) \<Rightarrow> lane_system \<times> 'a result" where
  "after_journal c env call sys f =
     (case journal_call_apply c (fst env) (snd env) call (snd sys) of
        (j, Inl e) \<Rightarrow> ((fst sys, j), Inl e)
      | (j, Inr _) \<Rightarrow> (case f (fst sys) of (lane, r) \<Rightarrow> ((lane, j), r)))"

definition reserve_with_nonce ::
  "wire_codec \<Rightarrow> (bytes \<Rightarrow> b256) \<Rightarrow> journal_env \<Rightarrow> string \<Rightarrow> string \<Rightarrow> wallet_call \<Rightarrow> u64 \<Rightarrow> lane_system \<Rightarrow>
   lane_system \<times> journal_operation_identity result" where
  "reserve_with_nonce c keccak env operation_id purpose call nonce sys =
     (case ln_state (fst sys) of
        NReady next_nonce \<Rightarrow>
          (if nonce \<ge> next_nonce then
             (let identity = \<lparr>joi_operation_id = operation_id, joi_chain_id = ln_chain_id (fst sys),
                              joi_wallet = ln_wallet (fst sys), joi_nonce = nonce,
                              joi_scope = ln_journal_scope (fst sys)\<rparr>;
                  intent = \<lparr>ji_identity = identity, ji_purpose = purpose, ji_target = wcl_target call,
                            ji_native_value = wcl_value call,
                            ji_calldata_hash = keccak (wcl_calldata call)\<rparr> in
              after_journal c env (RecordIntent intent) sys
                (\<lambda>lane. (lane\<lparr>ln_state := NReserved identity\<rparr>, Inr identity)))
           else (sys, Inl (Bail ''process nonce is behind the local nonce lane'')))
      | _ \<Rightarrow> (sys, Inl (Bail ''nonce lane is not ready for a new operation'')))"

definition lane_reserve ::
  "wire_codec \<Rightarrow> (bytes \<Rightarrow> b256) \<Rightarrow> journal_env \<Rightarrow> string \<Rightarrow> string \<Rightarrow> wallet_call \<Rightarrow> lane_system \<Rightarrow>
   lane_system \<times> journal_operation_identity result" where
  "lane_reserve c keccak env operation_id purpose call sys =
     (case ln_state (fst sys) of
        NReady next_nonce \<Rightarrow> reserve_with_nonce c keccak env operation_id purpose call next_nonce sys
      | _ \<Rightarrow> (sys, Inl (Bail ''nonce lane is not ready for a new operation'')))"

definition lane_record_signed ::
  "wire_codec \<Rightarrow> journal_env \<Rightarrow> signed_transaction \<Rightarrow> lane_system \<Rightarrow> lane_system \<times> unit result" where
  "lane_record_signed c env transaction sys =
     (case ln_state (fst sys) of
        NReserved identity \<Rightarrow>
          (if stx_chain_id transaction \<noteq> joi_chain_id identity then
             (sys, Inl (Bail ''signed transaction chain does not match nonce reservation''))
           else if stx_nonce transaction \<noteq> joi_nonce identity then
             (sys, Inl (Bail ''signed transaction nonce does not match nonce reservation''))
           else
             after_journal c env (RecordSigned identity (stx_hash transaction)) sys
               (\<lambda>lane. (lane\<lparr>ln_state := NSigned identity (stx_hash transaction)\<rparr>, Inr ())))
      | _ \<Rightarrow> (sys, Inl (Bail ''nonce lane has no reserved operation to sign'')))"

definition lane_record_broadcast ::
  "wire_codec \<Rightarrow> journal_env \<Rightarrow> b256 \<Rightarrow> lane_system \<Rightarrow> lane_system \<times> unit result" where
  "lane_record_broadcast c env tx sys =
     (case ln_state (fst sys) of
        NSigned identity signed_hash \<Rightarrow>
          (if tx \<noteq> signed_hash then
             (sys, Inl (Bail ''broadcast hash does not match signed transaction''))
           else
             after_journal c env (RecordBroadcast identity tx) sys
               (\<lambda>lane. case checked_add (joi_nonce identity) 1 of
                   None \<Rightarrow> (lane, Inl (Bail ''nonce lane overflow after broadcast''))
                 | Some next_nonce \<Rightarrow> (lane\<lparr>ln_state := NReady next_nonce\<rparr>, Inr ())))
      | _ \<Rightarrow> (sys, Inl (Bail ''nonce lane has no signed operation to broadcast'')))"

definition lane_record_unknown_outcome ::
  "wire_codec \<Rightarrow> journal_env \<Rightarrow> unknown_outcome_reason \<Rightarrow> lane_system \<Rightarrow> lane_system \<times> unit result" where
  "lane_record_unknown_outcome c env reason sys =
     (case (case ln_state (fst sys) of
              NSigned identity tx \<Rightarrow> Some (identity, tx)
            | NBroadcast identity tx \<Rightarrow> Some (identity, tx)
            | _ \<Rightarrow> None) of
        None \<Rightarrow> (sys, Inl (Bail ''nonce lane has no transaction with an unknown outcome''))
      | Some (identity, tx) \<Rightarrow>
          after_journal c env (RecordUnknownOutcome identity tx reason) sys
            (\<lambda>lane. (lane\<lparr>ln_state := NRecoveryRequired identity (Some tx)\<rparr>, Inr ())))"

text \<open>The operation a receipt is for: the lane's own, or else the journal's by hash.\<close>

definition receipt_operation ::
  "transaction_receipt \<Rightarrow> lane_system \<Rightarrow> (journal_operation_identity \<times> b256) result" where
  "receipt_operation receipt sys =
     (case ln_state (fst sys) of
        NSigned identity tx \<Rightarrow> Inr (identity, tx)
      | NBroadcast identity tx \<Rightarrow> Inr (identity, tx)
      | NRecoveryRequired identity (Some tx) \<Rightarrow> Inr (identity, tx)
      | _ \<Rightarrow>
          bind_res (context_opt (operation_by_transaction_hash (snd sys) (trc_transaction_hash receipt))
                      ''nonce lane has no journaled transaction to reconcile'') (\<lambda>oper.
          Inr (ji_identity (jo_intent oper), trc_transaction_hash receipt)))"

definition lane_record_receipt ::
  "wire_codec \<Rightarrow> journal_env \<Rightarrow> transaction_receipt \<Rightarrow> lane_system \<Rightarrow> lane_system \<times> unit result" where
  "lane_record_receipt c env receipt sys =
     (case receipt_operation receipt sys of
        Inl e \<Rightarrow> (sys, Inl e)
      | Inr (identity, expected_hash) \<Rightarrow>
          (if trc_transaction_hash receipt \<noteq> expected_hash then
             (sys, Inl (Bail ''receipt hash does not match nonce lane transaction''))
           else if trc_status receipt > 1 then
             (sys, Inl (Bail ''receipt status is neither success nor revert''))
           else
             after_journal c env (RecordMined identity (trc_transaction_hash receipt)
                 (trc_block_number receipt) (trc_status receipt = 1)) sys
               (\<lambda>lane. case checked_add (joi_nonce identity) 1 of
                   None \<Rightarrow> (lane, Inl (Bail ''nonce lane overflow after mined transaction''))
                 | Some next_nonce \<Rightarrow>
                     (lane\<lparr>ln_state := (case ln_state lane of
                          NReady current \<Rightarrow> NReady (max current next_nonce)
                        | _ \<Rightarrow> NReady next_nonce)\<rparr>, Inr ()))))"

definition cancel_before_signing ::
  "wire_codec \<Rightarrow> journal_env \<Rightarrow> lane_system \<Rightarrow> lane_system \<times> unit result" where
  "cancel_before_signing c env sys =
     (case ln_state (fst sys) of
        NReserved identity \<Rightarrow>
          after_journal c env (RecordCancelledBeforeSigning identity) sys
            (\<lambda>lane. (lane\<lparr>ln_state := NReady (joi_nonce identity)\<rparr>, Inr ()))
      | _ \<Rightarrow> (sys, Inl (Bail ''only a reserved unsigned nonce can be cancelled'')))"

definition lane_record_rejected_before_broadcast ::
  "wire_codec \<Rightarrow> journal_env \<Rightarrow> b256 \<Rightarrow> lane_system \<Rightarrow> lane_system \<times> unit result" where
  "lane_record_rejected_before_broadcast c env tx sys =
     (case (case ln_state (fst sys) of
              NSigned identity expected \<Rightarrow> Some (identity, expected)
            | NRecoveryRequired identity (Some expected) \<Rightarrow> Some (identity, expected)
            | _ \<Rightarrow> None) of
        None \<Rightarrow>
          (sys, Inl (Bail ''pre-broadcast rejection requires a signed or recovery-blocked nonce''))
      | Some (identity, expected) \<Rightarrow>
          (if expected \<noteq> tx then
             (sys, Inl (Bail ''pre-broadcast rejection hash does not match the signed transaction''))
           else
             after_journal c env (RecordRejectedBeforeBroadcast identity tx) sys
               (\<lambda>lane. (lane\<lparr>ln_state := NReady (joi_nonce identity)\<rparr>, Inr ()))))"

definition record_consumed_nonce_rejection ::
  "wire_codec \<Rightarrow> journal_env \<Rightarrow> b256 \<Rightarrow> u64 \<Rightarrow> lane_system \<Rightarrow> lane_system \<times> unit result" where
  "record_consumed_nonce_rejection c env tx next_nonce sys =
     (case ln_state (fst sys) of
        NRecoveryRequired identity (Some expected) \<Rightarrow>
          (if expected \<noteq> tx then
             (sys, Inl (Bail ''consumed-nonce rejection hash does not match the signed transaction''))
           else if \<not> next_nonce > joi_nonce identity then
             (sys, Inl (Bail ''consumed-nonce recovery did not advance past the rejected nonce''))
           else
             after_journal c env (RecordRejectedBeforeBroadcast identity tx) sys
               (\<lambda>lane. (lane\<lparr>ln_state := NReady next_nonce\<rparr>, Inr ())))
      | _ \<Rightarrow>
          (sys, Inl (Bail ''consumed-nonce rejection requires a recovery-blocked signed transaction'')))"

section \<open>Reconciliation at start\<close>

definition outcome_for_non_recovery_state ::
  "nonce_lane_state \<Rightarrow> nonce_reconciliation_outcome result" where
  "outcome_for_non_recovery_state state =
     (case state of
        NReady next_nonce \<Rightarrow> Inr (OutReady next_nonce)
      | NUntrackedPending latest_nonce pending_nonce \<Rightarrow>
          Inr (OutUntrackedPending latest_nonce pending_nonce)
      | _ \<Rightarrow> Inl (Bail ''nonce lane state unexpectedly requires active-process recovery''))"

definition validate_recovered_transaction ::
  "(bytes \<Rightarrow> b256) \<Rightarrow> transaction_journal \<Rightarrow> journal_operation_identity \<Rightarrow> b256 \<Rightarrow> rpc_transaction \<Rightarrow>
   unit result" where
  "validate_recovered_transaction keccak j identity expected_hash transaction =
     bind_res (context_opt (operation j (joi_operation_id identity))
                 ''recovery operation is missing from the transaction journal'') (\<lambda>oper.
     ensure (rtx_hash transaction = expected_hash) ''recovered hash mismatch''
     (ensure (rtx_chain_id transaction = joi_chain_id identity) ''recovered transaction chain mismatch''
     (ensure (rtx_nonce transaction = joi_nonce identity) ''recovered transaction nonce mismatch''
     (ensure (rtx_from transaction = joi_wallet identity) ''recovered transaction sender mismatch''
     (ensure (rtx_to transaction = Some (ji_target (jo_intent oper)))
       ''recovered transaction target mismatch''
     (ensure (rtx_value transaction = ji_native_value (jo_intent oper))
       ''recovered transaction value mismatch''
     (ensure (keccak (rtx_input transaction) = ji_calldata_hash (jo_intent oper))
       ''recovered transaction calldata mismatch''
     (Inr ()))))))))"

text \<open>The reconciled lane with its outcome, beside the journal.\<close>

definition apply_recovery_observation ::
  "wire_codec \<Rightarrow> (bytes \<Rightarrow> b256) \<Rightarrow> journal_env \<Rightarrow> u64 \<Rightarrow> u64 \<Rightarrow> transaction_receipt option \<Rightarrow>
   rpc_transaction option \<Rightarrow> lane_system \<Rightarrow>
   transaction_journal \<times> (nonce_lane \<times> nonce_reconciliation_outcome) result" where
  "apply_recovery_observation c keccak env latest_nonce pending_nonce receipt transaction sys =
     (case ln_state (fst sys) of
        NRecoveryRequired identity tx \<Rightarrow>
          (case (receipt, transaction) of
             (Some _, Some _) \<Rightarrow>
               (snd sys, Inl (Bail ''recovery observation contains both a receipt and a transaction''))
           | (Some receipt, None) \<Rightarrow>
               (let outcome = (if trc_status receipt = 1 then OutMinedSuccess else OutMinedReverted)
                      (joi_operation_id identity) (trc_transaction_hash receipt) (trc_block_number receipt) in
                case lane_record_receipt c env receipt sys of
                  ((lane, j), Inl e) \<Rightarrow> (j, Inl e)
                | ((lane, j), Inr _) \<Rightarrow> (j, Inr (lane, outcome)))
           | (None, _) \<Rightarrow>
               (snd sys,
                case tx of
                  None \<Rightarrow>
                    Inr (fst sys, OutUnsignedIntentNeedsReview (joi_operation_id identity) (joi_nonce identity))
                | Some expected_hash \<Rightarrow>
                    (case transaction of
                       Some transaction \<Rightarrow>
                         bind_res (validate_recovered_transaction keccak (snd sys) identity expected_hash
                                     transaction) (\<lambda>_.
                         Inr (fst sys, OutTransactionKnown (joi_operation_id identity) expected_hash
                                (rtx_block_number transaction)))
                     | None \<Rightarrow>
                         Inr (fst sys,
                           if latest_nonce > joi_nonce identity then
                             OutNonceConsumedWithoutMatchingTransaction (joi_operation_id identity)
                               expected_hash latest_nonce
                           else if pending_nonce > joi_nonce identity then
                             OutNonceOccupiedWithoutMatchingTransaction (joi_operation_id identity)
                               expected_hash pending_nonce
                           else OutSignedTransactionAbsent (joi_operation_id identity) expected_hash))))
      | _ \<Rightarrow> (snd sys, Inl (Bail ''nonce lane does not require startup recovery'')))"

text \<open>\<open>receipt_by\<close> and \<open>transaction_by\<close> are the answers of the node for a hash.\<close>

definition reconcile ::
  "wire_codec \<Rightarrow> (bytes \<Rightarrow> b256) \<Rightarrow> journal_env \<Rightarrow> (b256 \<Rightarrow> transaction_receipt option result) \<Rightarrow>
   (b256 \<Rightarrow> rpc_transaction option result) \<Rightarrow> u64 \<Rightarrow> address \<Rightarrow> u64 \<Rightarrow> u64 \<Rightarrow> transaction_journal \<Rightarrow>
   transaction_journal \<times> (nonce_lane \<times> nonce_reconciliation_outcome) result" where
  "reconcile c keccak env receipt_by transaction_by chain_id wallet latest_nonce pending_nonce j =
     (case hydrate chain_id wallet latest_nonce pending_nonce j of
        Inl e \<Rightarrow> (j, Inl e)
      | Inr lane \<Rightarrow>
          (case ln_state lane of
             NRecoveryRequired identity (Some tx) \<Rightarrow>
               (case receipt_by tx of
                  Inl e \<Rightarrow> (j, Inl e)
                | Inr (Some receipt) \<Rightarrow>
                    apply_recovery_observation c keccak env latest_nonce pending_nonce (Some receipt) None
                      (lane, j)
                | Inr None \<Rightarrow>
                    (case transaction_by tx of
                       Inl e \<Rightarrow> (j, Inl e)
                     | Inr transaction \<Rightarrow>
                         apply_recovery_observation c keccak env latest_nonce pending_nonce None transaction
                           (lane, j)))
           | NRecoveryRequired identity None \<Rightarrow>
               apply_recovery_observation c keccak env latest_nonce pending_nonce None None (lane, j)
           | state \<Rightarrow>
               (j, bind_res (outcome_for_non_recovery_state state) (\<lambda>outcome. Inr (lane, outcome)))))"

section \<open>Reviewed recoveries\<close>

text \<open>One answer of the node: latest and pending nonce, and the receipt and transaction of a hash.\<close>

record rpc_observation =
  ro_latest_nonce :: u64
  ro_pending_nonce :: u64
  ro_receipt :: "transaction_receipt option"
  ro_transaction :: "rpc_transaction option"

definition unseen :: "rpc_observation \<Rightarrow> bool" where
  "unseen obs = (ro_receipt obs = None \<and> ro_transaction obs = None)"

text \<open>
  What both reviewed recoveries do with the status of the operation: \<open>Some ()\<close> means go on, \<open>None\<close> that
  the recovery was completed before.
\<close>

definition reviewed_status ::
  "string \<Rightarrow> string \<Rightarrow> string \<Rightarrow> b256 \<Rightarrow> journal_status \<Rightarrow> unit option result" where
  "reviewed_status completed_msg hash_msg state_msg expected status =
     (case status of
        RejectedBeforeBroadcast tx \<Rightarrow> ensure (tx = expected) completed_msg (Inr None)
      | OutcomeUnknown tx BroadcastRejected \<Rightarrow> ensure (tx = expected) hash_msg (Inr (Some ()))
      | _ \<Rightarrow> Inl (Bail state_msg))"

definition check_unused ::
  "reviewed_prebroadcast_rejection \<Rightarrow> rpc_observation result \<Rightarrow> unit \<Rightarrow> unit result" where
  "check_unused expected answer _ =
     bind_res answer (\<lambda>obs.
     ensure (ro_latest_nonce obs = rpr_nonce expected \<and> ro_pending_nonce obs = rpr_nonce expected)
       ''approved pre-broadcast recovery nonce is no longer unused''
     (ensure (unseen obs) ''approved pre-broadcast recovery transaction appeared onchain'' (Inr ())))"

text \<open>The last steps of both: append the rejection, and answer whether anything was written.\<close>

definition close_rejected ::
  "wire_codec \<Rightarrow> journal_env \<Rightarrow> journal_operation \<Rightarrow> b256 \<Rightarrow> transaction_journal \<Rightarrow>
   transaction_journal \<times> bool result" where
  "close_rejected c env oper tx j =
     (case journal_call_apply c (fst env) (snd env)
         (RecordRejectedBeforeBroadcast (ji_identity (jo_intent oper)) tx) j of
        (j', Inl e) \<Rightarrow> (j', Inl e)
      | (j', Inr _) \<Rightarrow> (j', Inr True))"

text \<open>
  The path is the content of the file.  \<open>review\<close> is the part before the write: the operation to close, or
  None when it was closed before.
\<close>

definition review_rejection ::
  "wire_codec \<Rightarrow> rpc_observation result \<Rightarrow>
   rpc_observation result \<Rightarrow> reviewed_prebroadcast_rejection \<Rightarrow> string \<Rightarrow>
   (journal_operation \<times> transaction_journal) option result" where
  "review_rejection c obs1 obs2 expected content =
     bind_res (ejs_validate (rpr_scope expected)) (\<lambda>_.
     ensure (rpr_chain_id expected > 0 \<and> rpr_wallet expected \<noteq> 0)
       ''approved pre-broadcast recovery identity is invalid''
     (bind_res (journal_open c content) (\<lambda>j.
      bind_res (context_opt (operation j (rpr_operation_id expected))
                  ''approved pre-broadcast recovery operation is absent'') (\<lambda>oper.
      let i = ji_identity (jo_intent oper) in
      ensure (joi_chain_id i = rpr_chain_id expected \<and> joi_wallet i = rpr_wallet expected \<and>
              joi_nonce i = rpr_nonce expected \<and> joi_scope i = Some (rpr_scope expected))
        ''approved pre-broadcast recovery operation identity changed''
      (bind_res (reviewed_status
          ''completed pre-broadcast recovery transaction hash changed''
          ''approved pre-broadcast recovery transaction hash changed''
          ''approved pre-broadcast recovery journal state changed''
          (rpr_transaction_hash expected) (jo_status oper)) (\<lambda>go.
       case go of
         None \<Rightarrow> Inr None
       | Some _ \<Rightarrow>
           bind_res (for_each (check_unused expected) [obs1, obs2] ()) (\<lambda>_.
           Inr (Some (oper, j)))))))))"

definition recover_exact_rejected_before_broadcast ::
  "wire_codec \<Rightarrow> journal_env \<Rightarrow> rpc_observation result \<Rightarrow> rpc_observation result \<Rightarrow>
   reviewed_prebroadcast_rejection \<Rightarrow> string \<Rightarrow> string \<times> bool result" where
  "recover_exact_rejected_before_broadcast c env obs1 obs2 expected content =
     (case review_rejection c obs1 obs2 expected content of
        Inl e \<Rightarrow> (content, Inl e)
      | Inr None \<Rightarrow> (content, Inr False)
      | Inr (Some (oper, j)) \<Rightarrow>
          (case close_rejected c env oper (rpr_transaction_hash expected) j of
             (j', r) \<Rightarrow> (tj_file j', r)))"

definition validate_consumed_nonce_replacement ::
  "(bytes \<Rightarrow> b256) \<Rightarrow> reviewed_consumed_nonce_collision \<Rightarrow> transaction_receipt option \<Rightarrow>
   rpc_transaction option \<Rightarrow> unit result" where
  "validate_consumed_nonce_replacement keccak expected receipt transaction =
     bind_res (context_opt receipt ''approved nonce replacement receipt is absent'') (\<lambda>receipt.
     bind_res (context_opt transaction ''approved nonce replacement transaction is absent'') (\<lambda>transaction.
     ensure (trc_transaction_hash receipt = rcc_replacement_transaction_hash expected \<and>
             trc_status receipt = 1 \<and> trc_block_number receipt = rcc_replacement_block_number expected)
       ''approved nonce replacement receipt changed''
     (ensure (rtx_hash transaction = rcc_replacement_transaction_hash expected \<and>
              rtx_chain_id transaction = rcc_chain_id expected \<and>
              rtx_nonce transaction = rcc_nonce expected \<and>
              rtx_from transaction = rcc_wallet expected \<and>
              rtx_to transaction = Some (rcc_replacement_target expected) \<and>
              rtx_value transaction = rcc_replacement_native_value expected \<and>
              rtx_block_number transaction = Some (rcc_replacement_block_number expected))
       ''approved nonce replacement transaction changed''
     (ensure (rtx_to transaction \<noteq> Some (rcc_target expected) \<or>
              rtx_value transaction \<noteq> rcc_native_value expected \<or>
              keccak (rtx_input transaction) \<noteq> rcc_calldata_hash expected)
       ''approved nonce replacement unexpectedly matches the rejected local effect''
     (Inr ())))))"

text \<open>An answer for the rejected hash, with the receipt and transaction of the replacement.\<close>

definition check_collision ::
  "(bytes \<Rightarrow> b256) \<Rightarrow> reviewed_consumed_nonce_collision \<Rightarrow>
   (rpc_observation \<times> transaction_receipt option \<times> rpc_transaction option) result \<Rightarrow> unit \<Rightarrow> unit result" where
  "check_collision keccak expected answer _ =
     bind_res answer (\<lambda>(obs, replacement_receipt, replacement_transaction).
     ensure (ro_latest_nonce obs > rcc_nonce expected \<and> ro_pending_nonce obs \<ge> ro_latest_nonce obs)
       ''approved consumed-nonce recovery nonce is not canonically consumed''
     (ensure (unseen obs) ''approved rejected transaction appeared onchain''
     (validate_consumed_nonce_replacement keccak expected replacement_receipt replacement_transaction)))"

definition review_collision ::
  "wire_codec \<Rightarrow> (bytes \<Rightarrow> b256) \<Rightarrow> (rpc_observation \<times> transaction_receipt option \<times> rpc_transaction option) result \<Rightarrow>
   (rpc_observation \<times> transaction_receipt option \<times> rpc_transaction option) result \<Rightarrow> reviewed_consumed_nonce_collision \<Rightarrow> string \<Rightarrow>
   (journal_operation \<times> transaction_journal) option result" where
  "review_collision c keccak obs1 obs2 expected content =
     bind_res (ejs_validate (rcc_scope expected)) (\<lambda>_.
     ensure (rcc_chain_id expected > 0 \<and> rcc_wallet expected \<noteq> 0 \<and> rcc_target expected \<noteq> 0 \<and>
             rcc_replacement_target expected \<noteq> 0 \<and>
             rcc_rejected_transaction_hash expected \<noteq> rcc_replacement_transaction_hash expected)
       ''approved consumed-nonce recovery identity is invalid''
     (bind_res (journal_open c content) (\<lambda>j.
      bind_res (context_opt (operation j (rcc_operation_id expected))
                  ''approved consumed-nonce recovery operation is absent'') (\<lambda>oper.
      let i = ji_identity (jo_intent oper) in
      ensure (joi_chain_id i = rcc_chain_id expected \<and> joi_wallet i = rcc_wallet expected \<and>
              joi_nonce i = rcc_nonce expected \<and> joi_scope i = Some (rcc_scope expected) \<and>
              ji_purpose (jo_intent oper) = rcc_purpose expected \<and>
              ji_target (jo_intent oper) = rcc_target expected \<and>
              ji_native_value (jo_intent oper) = rcc_native_value expected \<and>
              ji_calldata_hash (jo_intent oper) = rcc_calldata_hash expected)
        ''approved consumed-nonce recovery journal intent changed''
      (bind_res (reviewed_status
          ''completed consumed-nonce recovery transaction hash changed''
          ''approved consumed-nonce recovery rejected hash changed''
          ''approved consumed-nonce recovery journal state changed''
          (rcc_rejected_transaction_hash expected) (jo_status oper)) (\<lambda>go.
       case go of
         None \<Rightarrow> Inr None
       | Some _ \<Rightarrow>
           bind_res (for_each (check_collision keccak expected) [obs1, obs2] ()) (\<lambda>_.
           Inr (Some (oper, j)))))))))"

definition recover_exact_consumed_nonce_collision ::
  "wire_codec \<Rightarrow> (bytes \<Rightarrow> b256) \<Rightarrow> journal_env \<Rightarrow>
   (rpc_observation \<times> transaction_receipt option \<times> rpc_transaction option) result \<Rightarrow>
   (rpc_observation \<times> transaction_receipt option \<times> rpc_transaction option) result \<Rightarrow>
   reviewed_consumed_nonce_collision \<Rightarrow> string \<Rightarrow> string \<times> bool result" where
  "recover_exact_consumed_nonce_collision c keccak env obs1 obs2 expected content =
     (case review_collision c keccak obs1 obs2 expected content of
        Inl e \<Rightarrow> (content, Inl e)
      | Inr None \<Rightarrow> (content, Inr False)
      | Inr (Some (oper, j)) \<Rightarrow>
          (case close_rejected c env oper (rcc_rejected_transaction_hash expected) j of
             (j', r) \<Rightarrow> (tj_file j', r)))"

text \<open>One round of \<open>recover_proven_nonce_too_low\<close>; the state is \<open>proven_next_nonce\<close>.\<close>

definition check_nonce_too_low ::
  "journal_operation_identity \<Rightarrow> rpc_observation result \<Rightarrow> u64 option \<Rightarrow> u64 option result" where
  "check_nonce_too_low identity answer proven_next_nonce =
     bind_res answer (\<lambda>obs.
     ensure (ro_latest_nonce obs > joi_nonce identity \<and> ro_pending_nonce obs \<ge> ro_latest_nonce obs)
       ''nonce-too-low rejection is not yet canonically consumed''
     (ensure (unseen obs) ''nonce-too-low signed transaction appeared onchain''
     (ensure (case proven_next_nonce of Some previous \<Rightarrow> ro_pending_nonce obs \<ge> previous | None \<Rightarrow> True)
       ''nonce-too-low recovery pending nonce moved backwards''
     (Inr (Some (ro_pending_nonce obs))))))"

definition recover_proven_nonce_too_low ::
  "wire_codec \<Rightarrow> journal_env \<Rightarrow> rpc_observation result \<Rightarrow> rpc_observation result \<Rightarrow> lane_system \<Rightarrow>
   lane_system \<times> u64 option result" where
  "recover_proven_nonce_too_low c env obs1 obs2 sys =
     (case ln_state (fst sys) of
        NRecoveryRequired identity (Some tx) \<Rightarrow>
          (case operation (snd sys) (joi_operation_id identity) of
             None \<Rightarrow> (sys, Inl (Bail ''nonce-too-low recovery journal operation disappeared''))
           | Some oper \<Rightarrow>
               (if jo_status oper \<noteq> OutcomeUnknown tx NonceTooLow then (sys, Inr None)
                else
                  (case bind_res (for_each (check_nonce_too_low identity) [obs1, obs2] None) (\<lambda>proven.
                          context_opt proven ''nonce-too-low recovery produced no observation'') of
                     Inl e \<Rightarrow> (sys, Inl e)
                   | Inr next_nonce \<Rightarrow>
                       (case record_consumed_nonce_rejection c env tx next_nonce sys of
                          (sys', Inl e) \<Rightarrow> (sys', Inl e)
                        | (sys', Inr _) \<Rightarrow> (sys', Inr (Some next_nonce))))))
      | _ \<Rightarrow> (sys, Inr None))"

section \<open>What a journal call does when it succeeds\<close>

fun call_status :: "journal_call \<Rightarrow> journal_status" where
  "call_status (RecordIntent _) = IntentRecorded"
| "call_status (RecordSigned _ h) = Signed h"
| "call_status (RecordBroadcast _ h) = Broadcast h"
| "call_status (RecordUnknownOutcome _ h reason) = OutcomeUnknown h reason"
| "call_status (RecordMined _ h n success) = (if success then MinedSuccess h n else MinedReverted h n)"
| "call_status (RecordCancelledBeforeSigning _) = CancelledBeforeSigning"
| "call_status (RecordRejectedBeforeBroadcast _ h) = RejectedBeforeBroadcast h"

lemma journal_call_payload:
  assumes "journal_call_apply c now outcome call j = (j', Inr u)"
  obtains t where "apply_payload c (append_payload c t (call_identity call) (call_event c call) j)
      (tj_operations j) = Inr (tj_operations j')"
proof -
  from assms obtain ops' line where p: "prepare_append c now (call_identity call) (call_event c call) j = Inr (ops', line)"
    and eq: "tj_operations j' = ops'"
    by (auto simp: journal_call_apply_def append_record_def Let_def
        split: sum.splits write_outcome.splits option.splits)
  then show thesis using that by (auto simp: prepare_append_def Let_def)
qed

lemma apply_transition_status:
  assumes "codec_ok c" "apply_transition c s (call_event c call) = Inr s'"
    and "\<And>i. call \<noteq> RecordIntent i"
  shows "s' = call_status call"
  using assms
  by (cases call) (auto simp: codec_ok_def parse_hash_def mined_status_def split: if_splits)

lemma call_event_intent: "call_event c call = WIntentRecorded a b d e \<longleftrightarrow>
    (\<exists>i. call = RecordIntent i \<and> a = ji_purpose i \<and> b = wc_address_to_string c (ji_target i) \<and>
       d = wc_u256_to_string c (ji_native_value i) \<and> e = wc_b256_to_string c (ji_calldata_hash i))"
  by (cases call) auto

lemma identity_eta [simp]: "\<lparr>joi_operation_id = joi_operation_id i, joi_chain_id = joi_chain_id i,
    joi_wallet = joi_wallet i, joi_nonce = joi_nonce i, joi_scope = joi_scope i\<rparr> = i"
  by (cases i) simp

lemma intent_eta [simp]: "\<lparr>ji_identity = ji_identity i, ji_purpose = ji_purpose i,
    ji_target = ji_target i, ji_native_value = ji_native_value i, ji_calldata_hash = ji_calldata_hash i\<rparr> = i"
  by (cases i) simp

lemma journal_call_intent:
  assumes codec: "codec_ok c" and "journal_call_apply c now outcome (RecordIntent i) j = (j', Inr u)"
  shows "bt_get (tj_operations j) (joi_operation_id (ji_identity i)) = None"
    and "tj_operations j' = bt_insert (joi_operation_id (ji_identity i))
      \<lparr>jo_intent = i, jo_status = IntentRecorded\<rparr> (tj_operations j)"
proof -
  obtain t where "apply_payload c (append_payload c t (ji_identity i) (call_event c (RecordIntent i)) j)
      (tj_operations j) = Inr (tj_operations j')"
    using journal_call_payload [OF assms(2)] by auto
  then show "bt_get (tj_operations j) (joi_operation_id (ji_identity i)) = None"
    and "tj_operations j' = bt_insert (joi_operation_id (ji_identity i))
      \<lparr>jo_intent = i, jo_status = IntentRecorded\<rparr> (tj_operations j)"
    using codec
    by (auto simp: apply_payload_def append_payload_def codec_ok_def Let_def bt_contains_iff)
qed

lemma journal_call_step:
  assumes codec: "codec_ok c" and call: "journal_call_apply c now outcome call j = (j', Inr u)"
    and not_intent: "\<And>i. call \<noteq> RecordIntent i"
  obtains oper where "bt_get (tj_operations j) (joi_operation_id (call_identity call)) = Some oper"
    "ji_identity (jo_intent oper) = call_identity call" "status_step (jo_status oper) (call_status call)"
    "tj_operations j' = bt_insert (joi_operation_id (call_identity call))
      (oper\<lparr>jo_status := call_status call\<rparr>) (tj_operations j)"
proof -
  obtain t where t: "apply_payload c (append_payload c t (call_identity call) (call_event c call) j)
      (tj_operations j) = Inr (tj_operations j')"
    using journal_call_payload [OF call] by auto
  have addr: "wc_address_from_str c (wc_address_to_string c w) = Some w" for w
    using codec by (simp add: codec_ok_def)
  have "\<exists>oper nxt. bt_get (tj_operations j) (joi_operation_id (call_identity call)) = Some oper \<and>
      ji_identity (jo_intent oper) = call_identity call \<and>
      apply_transition c (jo_status oper) (call_event c call) = Inr nxt \<and>
      tj_operations j' = bt_insert (joi_operation_id (call_identity call)) (oper\<lparr>jo_status := nxt\<rparr>)
        (tj_operations j)"
    using t not_intent
    by (cases "call_event c call")
      (auto simp: apply_payload_def append_payload_def addr Let_def call_event_intent
        simp del: apply_transition.simps)
  then show thesis
    using that apply_transition_status [OF codec _ not_intent] apply_transition_step by metis
qed

lemma journal_call_Inl:
  assumes "journal_call_apply c now outcome call j = (j', Inl e)" "unat (tj_next_sequence j) + 1 < 2 ^ 64"
  shows "tj_operations j' = tj_operations j"
  using assms(2)
  by (cases rule: journal_call_cases [where c = c and now = now and outcome = outcome and call = call])
    (use assms(1) in auto)

section \<open>The lane and its journal\<close>

fun state_identity :: "nonce_lane_state \<Rightarrow> journal_operation_identity option" where
  "state_identity (NReserved i) = Some i"
| "state_identity (NSigned i _) = Some i"
| "state_identity (NBroadcast i _) = Some i"
| "state_identity (NRecoveryRequired i _) = Some i"
| "state_identity _ = None"

fun state_hash :: "nonce_lane_state \<Rightarrow> b256 option" where
  "state_hash (NSigned _ h) = Some h"
| "state_hash (NBroadcast _ h) = Some h"
| "state_hash (NRecoveryRequired _ h) = h"
| "state_hash _ = None"

text \<open>The operations of a lane that would stop the next start, and the operation the lane is on.\<close>

definition blocking :: "u64 \<Rightarrow> address \<Rightarrow> journal_operations \<Rightarrow> string \<Rightarrow> bool" where
  "blocking chain_id wallet ops k \<longleftrightarrow>
     (\<exists>oper. bt_get ops k = Some oper \<and> operations_for chain_id wallet oper \<and>
        blocks_recovery (jo_status oper))"

definition lane_on :: "nonce_lane \<Rightarrow> journal_operations \<Rightarrow> journal_operation_identity \<Rightarrow> bool" where
  "lane_on lane ops i \<longleftrightarrow> joi_chain_id i = ln_chain_id lane \<and> joi_wallet i = ln_wallet lane \<and>
     (\<exists>oper. bt_get ops (joi_operation_id i) = Some oper \<and> ji_identity (jo_intent oper) = i \<and>
        transaction_hash (jo_status oper) = state_hash (ln_state lane))"

definition lane_ok :: "nonce_lane \<Rightarrow> journal_operations \<Rightarrow> bool" where
  "lane_ok lane ops \<longleftrightarrow>
     (\<forall>i h m n. ln_state lane \<noteq> NBroadcast i h \<and> ln_state lane \<noteq> NUntrackedPending m n) \<and>
     (\<forall>k. blocking (ln_chain_id lane) (ln_wallet lane) ops k \<longrightarrow>
        (\<exists>i. state_identity (ln_state lane) = Some i \<and> joi_operation_id i = k)) \<and>
     (\<forall>i. state_identity (ln_state lane) = Some i \<longrightarrow> lane_on lane ops i)"

lemma set_recovery_blocking:
  "oper \<in> set (recovery_blocking_for j chain_id wallet) \<longleftrightarrow>
     (\<exists>k. bt_get (tj_operations j) k = Some oper) \<and> operations_for chain_id wallet oper \<and>
     blocks_recovery (jo_status oper)"
  by (auto simp: recovery_blocking_for_def set_bt_values)

definition keys_ok :: "journal_operations \<Rightarrow> bool" where
  "keys_ok ops \<longleftrightarrow> (\<forall>k oper. bt_get ops k = Some oper \<longrightarrow>
     joi_operation_id (ji_identity (jo_intent oper)) = k)"

lemma keys_ok_payload: "apply_payload c p ops = Inr ops' \<Longrightarrow> keys_ok ops \<Longrightarrow> keys_ok ops'"
  by (erule apply_payload_cases) (auto simp: keys_ok_def)

lemma hydrate_lane_ok:
  assumes "hydrate chain_id wallet latest pending j = Inr lane" and keys: "keys_ok (tj_operations j)"
  shows "lane_ok lane (tj_operations j) \<and> ln_chain_id lane = chain_id \<and> ln_wallet lane = wallet"
proof -
  let ?b = "recovery_blocking_for j chain_id wallet"
  have len: "length ?b \<le> 1" using assms(1) by (auto simp: hydrate_def Let_def)
  show ?thesis
  proof (cases ?b)
    case Nil
    then have "lane = \<lparr>ln_chain_id = chain_id, ln_wallet = wallet, ln_state = NReady pending,
        ln_journal_scope = None\<rparr>"
      using assms(1) by (auto simp: hydrate_def Let_def)
    moreover have "\<not> blocking chain_id wallet (tj_operations j) k" for k
      using Nil set_recovery_blocking [of _ j chain_id wallet] by (auto simp: blocking_def)
    ultimately show ?thesis by (simp add: lane_ok_def)
  next
    case (Cons oper rest)
    then have b: "set ?b = {oper}" using len by auto
    have lane: "lane = \<lparr>ln_chain_id = chain_id, ln_wallet = wallet,
        ln_state = NRecoveryRequired (ji_identity (jo_intent oper)) (transaction_hash (jo_status oper)),
        ln_journal_scope = None\<rparr>"
      using assms(1) Cons by (auto simp: hydrate_def Let_def)
    have one: "(\<exists>k. bt_get (tj_operations j) k = Some o') \<and> operations_for chain_id wallet o' \<and>
        blocks_recovery (jo_status o') \<longleftrightarrow> o' = oper" for o'
      using b set_recovery_blocking [of o' j chain_id wallet] by auto
    then obtain k where k: "bt_get (tj_operations j) k = Some oper" and f: "operations_for chain_id wallet oper"
      by blast
    have "joi_operation_id (ji_identity (jo_intent oper)) = k" using k keys by (auto simp: keys_ok_def)
    moreover have "joi_operation_id (ji_identity (jo_intent oper)) = k'"
      if "blocking chain_id wallet (tj_operations j) k'" for k'
      using that one keys unfolding blocking_def keys_ok_def by metis
    ultimately show ?thesis
      using lane k f by (auto simp: lane_ok_def lane_on_def operations_for_def Let_def)
  qed
qed

text \<open>An operation moves by one status, and the lane with it.\<close>

lemma blocking_update:
  assumes "bt_get ops k = Some oper" "blocking ch w (bt_insert k (oper\<lparr>jo_status := s\<rparr>) ops) k'"
  shows "(k' = k \<and> blocks_recovery s) \<or> (k' \<noteq> k \<and> blocking ch w ops k')"
  using assms by (auto simp: blocking_def split: if_splits)

lemma lane_ok_move:
  assumes ok: "lane_ok lane ops" and get: "bt_get ops k = Some oper"
    and id: "ji_identity (jo_intent oper) = i" "joi_operation_id i = k"
    and here: "\<forall>i'. state_identity (ln_state lane) = Some i' \<longrightarrow> i' = i"
    and st: "(\<exists>n. st = NReady n) \<and> \<not> blocks_recovery s \<or>
      state_identity st = Some i \<and> state_hash st = transaction_hash s \<and>
      joi_chain_id i = ln_chain_id lane \<and> joi_wallet i = ln_wallet lane \<and> (\<forall>h. st \<noteq> NBroadcast i h)"
  shows "lane_ok (lane\<lparr>ln_state := st\<rparr>) (bt_insert k (oper\<lparr>jo_status := s\<rparr>) ops)"
proof -
  have only: "k' = k" if "blocking (ln_chain_id lane) (ln_wallet lane) ops k'" for k'
    using ok that here id(2) unfolding lane_ok_def by metis
  have "k' = k \<and> blocks_recovery s"
    if "blocking (ln_chain_id lane) (ln_wallet lane) (bt_insert k (oper\<lparr>jo_status := s\<rparr>) ops) k'" for k'
    using blocking_update [OF get that] only by blast
  moreover have "st \<noteq> NUntrackedPending m n" for m n using st by auto
  moreover have "st \<noteq> NBroadcast i' h" for i' h using st by auto
  ultimately show ?thesis
    using st id get by (auto simp: lane_ok_def lane_on_def)
qed

lemma lane_ok_intent:
  assumes ok: "lane_ok lane ops" and ready: "ln_state lane = NReady n"
    and fresh: "bt_get ops (joi_operation_id (ji_identity intent)) = None"
    and i: "joi_chain_id (ji_identity intent) = ln_chain_id lane" "joi_wallet (ji_identity intent) = ln_wallet lane"
  shows "lane_ok (lane\<lparr>ln_state := NReserved (ji_identity intent)\<rparr>)
    (bt_insert (joi_operation_id (ji_identity intent)) \<lparr>jo_intent = intent, jo_status = IntentRecorded\<rparr> ops)"
proof -
  have none: "\<not> blocking (ln_chain_id lane) (ln_wallet lane) ops k" for k
    using ok ready by (auto simp: lane_ok_def)
  have "k = joi_operation_id (ji_identity intent)"
    if "blocking (ln_chain_id lane) (ln_wallet lane)
      (bt_insert (joi_operation_id (ji_identity intent)) \<lparr>jo_intent = intent, jo_status = IntentRecorded\<rparr> ops) k" for k
    using that none [of k] by (auto simp: blocking_def split: if_splits)
  then show ?thesis using i by (auto simp: lane_ok_def lane_on_def)
qed

section \<open>Lane events\<close>

datatype lane_event =
    EReserve journal_env string string wallet_call
  | EReserveWith journal_env string string wallet_call u64
  | ESetScope evm_journal_scope
  | ESigned journal_env signed_transaction
  | EBroadcast journal_env b256
  | EUnknown journal_env unknown_outcome_reason
  | EReceipt journal_env transaction_receipt
  | ECancel journal_env
  | ERejected journal_env b256
  | EConsumed journal_env b256 u64
  | ENonceTooLow journal_env "rpc_observation result" "rpc_observation result"

fun lane_event_apply :: "wire_codec \<Rightarrow> (bytes \<Rightarrow> b256) \<Rightarrow> lane_event \<Rightarrow> lane_system \<Rightarrow> lane_system" where
  "lane_event_apply c keccak (EReserve env opid purpose call) sys =
     fst (lane_reserve c keccak env opid purpose call sys)"
| "lane_event_apply c keccak (EReserveWith env opid purpose call nonce) sys =
     fst (reserve_with_nonce c keccak env opid purpose call nonce sys)"
| "lane_event_apply c keccak (ESetScope scope) sys = (fst (set_journal_scope scope (fst sys)), snd sys)"
| "lane_event_apply c keccak (ESigned env transaction) sys = fst (lane_record_signed c env transaction sys)"
| "lane_event_apply c keccak (EBroadcast env tx) sys = fst (lane_record_broadcast c env tx sys)"
| "lane_event_apply c keccak (EUnknown env reason) sys = fst (lane_record_unknown_outcome c env reason sys)"
| "lane_event_apply c keccak (EReceipt env receipt) sys = fst (lane_record_receipt c env receipt sys)"
| "lane_event_apply c keccak (ECancel env) sys = fst (cancel_before_signing c env sys)"
| "lane_event_apply c keccak (ERejected env tx) sys =
     fst (lane_record_rejected_before_broadcast c env tx sys)"
| "lane_event_apply c keccak (EConsumed env tx next_nonce) sys =
     fst (record_consumed_nonce_rejection c env tx next_nonce sys)"
| "lane_event_apply c keccak (ENonceTooLow env obs1 obs2) sys =
     fst (recover_proven_nonce_too_low c env obs1 obs2 sys)"

text \<open>A receipt is only fed to a lane that has a hash to compare it with, or no operation at all.\<close>

definition receipt_expected :: "lane_event \<Rightarrow> lane_system \<Rightarrow> bool" where
  "receipt_expected ev sys \<longleftrightarrow>
     (case ev of
        EReceipt _ _ \<Rightarrow> (case state_identity (ln_state (fst sys)) of
            None \<Rightarrow> True | Some _ \<Rightarrow> state_hash (ln_state (fst sys)) \<noteq> None)
      | _ \<Rightarrow> True)"

definition sys_ok :: "lane_system \<Rightarrow> bool" where
  "sys_ok sys \<longleftrightarrow> lane_ok (fst sys) (tj_operations (snd sys)) \<and> keys_ok (tj_operations (snd sys))"

text \<open>A lane event makes at most one journal call.\<close>

lemma after_journal_cases:
  obtains (failed) j' e where "after_journal c env call sys f = ((fst sys, j'), Inl e)"
      "journal_call_apply c (fst env) (snd env) call (snd sys) = (j', Inl e)"
    | (stored) j' lane' r where "after_journal c env call sys f = ((lane', j'), r)"
      "journal_call_apply c (fst env) (snd env) call (snd sys) = (j', Inr ())" "f (fst sys) = (lane', r)"
proof (cases "journal_call_apply c (fst env) (snd env) call (snd sys)")
  case (Pair j' x)
  then show thesis
    using that by (cases x; cases "f (fst sys)") (auto simp: after_journal_def)
qed

text \<open>Where a lane on operation \<open>i\<close> may go when the journal has moved that operation to \<open>s\<close>.\<close>

definition lane_moves ::
  "nonce_lane \<Rightarrow> journal_status \<Rightarrow> journal_operation_identity \<Rightarrow> nonce_lane \<Rightarrow> bool" where
  "lane_moves lane s i lane' \<longleftrightarrow> (\<exists>st. lane' = lane\<lparr>ln_state := st\<rparr> \<and>
      ((\<exists>n. st = NReady n) \<and> \<not> blocks_recovery s \<or>
       state_identity st = Some i \<and> state_identity (ln_state lane) = Some i \<and>
       state_hash st = transaction_hash s \<and> (\<forall>h. st \<noteq> NBroadcast i h)))"

lemma lane_moves_intros:
  "\<not> blocks_recovery s \<Longrightarrow> lane_moves lane s i (lane\<lparr>ln_state := NReady n\<rparr>)"
  "state_identity st = Some i \<Longrightarrow> state_identity (ln_state lane) = Some i \<Longrightarrow>
     state_hash st = transaction_hash s \<Longrightarrow> \<forall>h. st \<noteq> NBroadcast i h \<Longrightarrow>
     lane_moves lane s i (lane\<lparr>ln_state := st\<rparr>)"
  "ln_state lane = NReady n \<Longrightarrow> \<not> blocks_recovery s \<Longrightarrow> lane_moves lane s i lane"
  "state_identity (ln_state lane) = Some i \<Longrightarrow> state_hash (ln_state lane) = transaction_hash s \<Longrightarrow>
     \<forall>h. ln_state lane \<noteq> NBroadcast i h \<Longrightarrow> lane_moves lane s i lane"
proof -
  have eta: "lane = lane\<lparr>ln_state := ln_state lane\<rparr>" by simp
  show "lane_moves lane s i lane" if "ln_state lane = NReady n" "\<not> blocks_recovery s"
    unfolding lane_moves_def using that eta by blast
  show "lane_moves lane s i lane" if "state_identity (ln_state lane) = Some i"
    "state_hash (ln_state lane) = transaction_hash s" "\<forall>h. ln_state lane \<noteq> NBroadcast i h"
    unfolding lane_moves_def using that eta by blast
qed (auto simp: lane_moves_def)

lemma sys_ok_after_step:
  assumes codec: "codec_ok c" and seq: "unat (tj_next_sequence (snd sys)) + 1 < 2 ^ 64" and ok: "sys_ok sys"
    and call: "call_identity call = i" "\<And>x. call \<noteq> RecordIntent x"
    and here: "\<forall>i'. state_identity (ln_state (fst sys)) = Some i' \<longrightarrow> i' = i"
    and f: "\<And>lane' r. f (fst sys) = (lane', r) \<Longrightarrow> lane_moves (fst sys) (call_status call) i lane'"
  shows "sys_ok (fst (after_journal c env call sys f))"
proof (cases rule: after_journal_cases [where c = c and env = env and call = call and sys = sys and f = f])
  case (failed j' e)
  then show ?thesis using ok journal_call_Inl [OF failed(2) seq] by (simp add: sys_ok_def)
next
  case (stored j' lane' r)
  obtain oper where o: "bt_get (tj_operations (snd sys)) (joi_operation_id i) = Some oper"
    "ji_identity (jo_intent oper) = i"
    "tj_operations j' = bt_insert (joi_operation_id i) (oper\<lparr>jo_status := call_status call\<rparr>)
      (tj_operations (snd sys))"
    using journal_call_step [OF codec stored(2) call(2)] call(1) by metis
  from f [OF stored(3)] obtain st where st: "lane' = fst sys\<lparr>ln_state := st\<rparr>"
    "(\<exists>n. st = NReady n) \<and> \<not> blocks_recovery (call_status call) \<or>
     state_identity st = Some i \<and> state_identity (ln_state (fst sys)) = Some i \<and>
     state_hash st = transaction_hash (call_status call) \<and> (\<forall>h. st \<noteq> NBroadcast i h)" unfolding lane_moves_def by blast
  have lane: "lane_ok (fst sys) (tj_operations (snd sys))" using ok by (simp add: sys_ok_def)
  have on: "joi_chain_id i = ln_chain_id (fst sys) \<and> joi_wallet i = ln_wallet (fst sys)"
    if "state_identity (ln_state (fst sys)) = Some i"
    using lane that by (auto simp: lane_ok_def lane_on_def)
  have "lane_ok lane' (tj_operations j')"
    unfolding st(1) o(3) using st(2) on by (intro lane_ok_move [OF lane o(1,2) refl here]) auto
  moreover have "keys_ok (tj_operations j')"
    using ok o unfolding sys_ok_def keys_ok_def by (auto split: if_splits)
  ultimately show ?thesis using stored(1) by (simp add: sys_ok_def)
qed

lemma sys_ok_reserve_with:
  assumes codec: "codec_ok c" and seq: "unat (tj_next_sequence (snd sys)) + 1 < 2 ^ 64" and ok: "sys_ok sys"
  shows "sys_ok (fst (reserve_with_nonce c keccak env opid purpose call nonce sys))"
proof (cases "\<exists>n. ln_state (fst sys) = NReady n \<and> nonce \<ge> n")
  case False
  then have "fst (reserve_with_nonce c keccak env opid purpose call nonce sys) = sys"
    by (auto simp: reserve_with_nonce_def split: nonce_lane_state.split)
  then show ?thesis using ok by simp
next
  case True
  then obtain n where n: "ln_state (fst sys) = NReady n" "nonce \<ge> n" by blast
  define identity where "identity = \<lparr>joi_operation_id = opid, joi_chain_id = ln_chain_id (fst sys),
    joi_wallet = ln_wallet (fst sys), joi_nonce = nonce, joi_scope = ln_journal_scope (fst sys)\<rparr>"
  define intent where "intent = \<lparr>ji_identity = identity, ji_purpose = purpose,
    ji_target = wcl_target call, ji_native_value = wcl_value call,
    ji_calldata_hash = keccak (wcl_calldata call)\<rparr>"
  let ?f = "\<lambda>lane :: nonce_lane. (lane\<lparr>ln_state := NReserved identity\<rparr>, Inr identity :: journal_operation_identity result)"
  have eq: "reserve_with_nonce c keccak env opid purpose call nonce sys =
      after_journal c env (RecordIntent intent) sys ?f"
    using n by (simp add: reserve_with_nonce_def identity_def intent_def Let_def)
  show ?thesis
  proof (cases rule: after_journal_cases [where c = c and env = env and call = "RecordIntent intent"
        and sys = sys and f = ?f])
    case (failed j' e)
    then show ?thesis using ok journal_call_Inl [OF failed(2) seq] by (simp add: eq sys_ok_def)
  next
    case (stored j' lane' r)
    note new = journal_call_intent [OF codec stored(2)]
    have "lane_ok (fst sys\<lparr>ln_state := NReserved (ji_identity intent)\<rparr>) (tj_operations j')"
      unfolding new(2) using ok new(1) n(1)
      by (intro lane_ok_intent) (auto simp: sys_ok_def intent_def identity_def)
    moreover have "keys_ok (tj_operations j')"
      using ok new unfolding sys_ok_def keys_ok_def by (auto split: if_splits)
    ultimately show ?thesis using stored by (simp add: eq sys_ok_def intent_def)
  qed
qed

lemma lane_ok_cases:
  assumes "sys_ok sys"
  obtains (ready) n where "ln_state (fst sys) = NReady n"
    | (reserved) i where "ln_state (fst sys) = NReserved i"
    | (signed) i h where "ln_state (fst sys) = NSigned i h"
    | (unsigned_recovery) i where "ln_state (fst sys) = NRecoveryRequired i None"
    | (recovery) i h where "ln_state (fst sys) = NRecoveryRequired i (Some h)"
proof (cases "ln_state (fst sys)")
  case (NRecoveryRequired i ho)
  then show thesis using unsigned_recovery recovery by (cases ho) auto
qed (use assms that in \<open>auto simp: sys_ok_def lane_ok_def\<close>)

lemma sys_ok_consumed:
  assumes codec: "codec_ok c" and seq: "unat (tj_next_sequence (snd sys)) + 1 < 2 ^ 64" and ok: "sys_ok sys"
  shows "sys_ok (fst (record_consumed_nonce_rejection c env tx n sys))"
  using ok
  by (cases rule: lane_ok_cases)
    (auto simp: record_consumed_nonce_rejection_def ok intro!: sys_ok_after_step [OF codec seq ok refl]
      lane_moves_intros)

lemma sys_ok_signed:
  assumes codec: "codec_ok c" and seq: "unat (tj_next_sequence (snd sys)) + 1 < 2 ^ 64" and ok: "sys_ok sys"
  shows "sys_ok (fst (lane_record_signed c env transaction sys))"
  using ok
  by (cases rule: lane_ok_cases)
    (auto simp: lane_record_signed_def ok intro!: sys_ok_after_step [OF codec seq ok refl]
      lane_moves_intros)

lemma sys_ok_broadcast:
  assumes codec: "codec_ok c" and seq: "unat (tj_next_sequence (snd sys)) + 1 < 2 ^ 64" and ok: "sys_ok sys"
  shows "sys_ok (fst (lane_record_broadcast c env tx sys))"
  using ok
  by (cases rule: lane_ok_cases)
    (auto simp: lane_record_broadcast_def ok intro!: sys_ok_after_step [OF codec seq ok refl]
      lane_moves_intros(1,4) split: option.splits)

lemma sys_ok_unknown:
  assumes codec: "codec_ok c" and seq: "unat (tj_next_sequence (snd sys)) + 1 < 2 ^ 64" and ok: "sys_ok sys"
  shows "sys_ok (fst (lane_record_unknown_outcome c env reason sys))"
  using ok
  by (cases rule: lane_ok_cases)
    (auto simp: lane_record_unknown_outcome_def ok intro!: sys_ok_after_step [OF codec seq ok refl]
      lane_moves_intros)

lemma sys_ok_cancel:
  assumes codec: "codec_ok c" and seq: "unat (tj_next_sequence (snd sys)) + 1 < 2 ^ 64" and ok: "sys_ok sys"
  shows "sys_ok (fst (cancel_before_signing c env sys))"
  using ok
  by (cases rule: lane_ok_cases)
    (auto simp: cancel_before_signing_def ok intro!: sys_ok_after_step [OF codec seq ok refl]
      lane_moves_intros)

lemma sys_ok_rejected:
  assumes codec: "codec_ok c" and seq: "unat (tj_next_sequence (snd sys)) + 1 < 2 ^ 64" and ok: "sys_ok sys"
  shows "sys_ok (fst (lane_record_rejected_before_broadcast c env tx sys))"
  using ok
  by (cases rule: lane_ok_cases)
    (auto simp: lane_record_rejected_before_broadcast_def ok intro!: sys_ok_after_step [OF codec seq ok refl]
      lane_moves_intros)

lemma sys_ok_receipt:
  assumes codec: "codec_ok c" and seq: "unat (tj_next_sequence (snd sys)) + 1 < 2 ^ 64" and ok: "sys_ok sys"
    and expected: "receipt_expected (EReceipt env receipt) sys"
  shows "sys_ok (fst (lane_record_receipt c env receipt sys))"
  using ok expected
  by (cases rule: lane_ok_cases)
    (auto simp: lane_record_receipt_def receipt_operation_def receipt_expected_def ok split: sum.split
      simp: lane_moves_intros intro!: sys_ok_after_step [OF codec seq ok refl]
      split: option.splits if_splits)

lemma lane_event_ok:
  assumes codec: "codec_ok c" and seq: "unat (tj_next_sequence (snd sys)) + 1 < 2 ^ 64" and ok: "sys_ok sys"
    and expected: "receipt_expected ev sys"
  shows "sys_ok (lane_event_apply c keccak ev sys)"
proof (cases ev)
  case (ESetScope scope)
  have "lane_ok (fst (set_journal_scope scope lane)) ops = lane_ok lane ops" for lane ops
    by (auto simp: set_journal_scope_def lane_ok_def lane_on_def split: sum.split)
  then show ?thesis using ok by (simp add: ESetScope sys_ok_def)
next
  case (EReserve env opid purpose call)
  then show ?thesis
    using ok sys_ok_reserve_with [OF codec seq ok] by (simp add: lane_reserve_def split: nonce_lane_state.split)
next
  case (ENonceTooLow env obs1 obs2)
  then show ?thesis
    using ok sys_ok_consumed [OF codec seq ok, of env]
    by (auto simp: recover_proven_nonce_too_low_def split: nonce_lane_state.split option.split sum.split prod.split)
      (metis fst_conv)+
qed (use assms in \<open>auto intro: sys_ok_reserve_with sys_ok_consumed sys_ok_signed sys_ok_broadcast
      sys_ok_unknown sys_ok_cancel sys_ok_rejected sys_ok_receipt\<close>)

section \<open>Runs of a lane\<close>

definition lane_run ::
  "wire_codec \<Rightarrow> (bytes \<Rightarrow> b256) \<Rightarrow> lane_event list \<Rightarrow> lane_system \<Rightarrow> lane_system" where
  "lane_run c keccak evs sys = fold (lane_event_apply c keccak) evs sys"

fun receipts_expected ::
  "wire_codec \<Rightarrow> (bytes \<Rightarrow> b256) \<Rightarrow> lane_event list \<Rightarrow> lane_system \<Rightarrow> bool" where
  "receipts_expected c keccak [] sys = True"
| "receipts_expected c keccak (ev # evs) sys \<longleftrightarrow>
     receipt_expected ev sys \<and> receipts_expected c keccak evs (lane_event_apply c keccak ev sys)"

lemma after_journal_seq:
  assumes "unat (tj_next_sequence (snd sys)) + 1 < 2 ^ 64"
  shows "unat (tj_next_sequence (snd (fst (after_journal c env call sys f)))) \<le>
    unat (tj_next_sequence (snd sys)) + 1"
  using journal_step_seq [OF assms, of c "(fst env, snd env, call)"]
  by (auto simp: after_journal_def split: prod.split sum.split)

definition journal_next :: "wire_codec \<Rightarrow> transaction_journal \<Rightarrow> transaction_journal set" where
  "journal_next c j = insert j {j'. \<exists>now outcome call. j' = fst (journal_call_apply c now outcome call j)}"

lemma journal_next_intros [simp]:
  "j \<in> journal_next c j"
  "snd (fst (after_journal c env call sys f)) \<in> journal_next c (snd sys)"
proof -
  show "j \<in> journal_next c j" by (simp add: journal_next_def)
  have "snd (fst (after_journal c env call sys f)) =
      fst (journal_call_apply c (fst env) (snd env) call (snd sys))"
    by (simp add: after_journal_def split: prod.split sum.split)
  then show "snd (fst (after_journal c env call sys f)) \<in> journal_next c (snd sys)"
    unfolding journal_next_def by blast
qed

lemma reserve_with_next [simp]:
  "snd (fst (reserve_with_nonce c keccak env a b d n sys)) \<in> journal_next c (snd sys)"
  by (simp add: reserve_with_nonce_def Let_def split: nonce_lane_state.split)

lemma consumed_next [simp]:
  "snd (fst (record_consumed_nonce_rejection c env h n sys)) \<in> journal_next c (snd sys)"
  by (simp add: record_consumed_nonce_rejection_def split: nonce_lane_state.split option.split)

lemma lane_op_next [simp]:
  "snd (fst (lane_record_signed c env t sys)) \<in> journal_next c (snd sys)"
  "snd (fst (lane_record_broadcast c env h sys)) \<in> journal_next c (snd sys)"
  "snd (fst (lane_record_unknown_outcome c env reason sys)) \<in> journal_next c (snd sys)"
  "snd (fst (lane_record_receipt c env receipt sys)) \<in> journal_next c (snd sys)"
  "snd (fst (cancel_before_signing c env sys)) \<in> journal_next c (snd sys)"
  "snd (fst (lane_record_rejected_before_broadcast c env h sys)) \<in> journal_next c (snd sys)"
  by (simp_all add: lane_record_signed_def lane_record_broadcast_def lane_record_unknown_outcome_def
      lane_record_receipt_def cancel_before_signing_def lane_record_rejected_before_broadcast_def
      split: nonce_lane_state.split option.split sum.split prod.split)

lemma too_low_sys:
  "fst (recover_proven_nonce_too_low c env obs1 obs2 sys) = sys \<or>
   (\<exists>h n. fst (recover_proven_nonce_too_low c env obs1 obs2 sys) =
      fst (record_consumed_nonce_rejection c env h n sys))"
proof -
  have "fst (case x of (sys', Inl e) \<Rightarrow> (sys', Inl e) | (sys', Inr u) \<Rightarrow> (sys', Inr v)) = fst x"
    for x :: "lane_system \<times> unit result" and v :: "u64 option"
    by (simp split: prod.split sum.split)
  then show ?thesis
    by (auto simp: recover_proven_nonce_too_low_def split: nonce_lane_state.split option.split sum.split)
qed

lemma lane_event_journal: "snd (lane_event_apply c keccak ev sys) \<in> journal_next c (snd sys)"
proof (cases ev)
  case (ENonceTooLow env obs1 obs2)
  then show ?thesis using too_low_sys [of c env obs1 obs2 sys] by auto
qed (simp_all add: lane_reserve_def split: nonce_lane_state.split)

lemma lane_event_seq:
  assumes "unat (tj_next_sequence (snd sys)) + 1 < 2 ^ 64"
  shows "unat (tj_next_sequence (snd (lane_event_apply c keccak ev sys))) \<le>
    unat (tj_next_sequence (snd sys)) + 1"
  using lane_event_journal [of c keccak ev sys] journal_step_seq [OF assms, of c]
  by (auto simp: journal_next_def)

lemma lane_run_ok:
  assumes codec: "codec_ok c" and "sys_ok sys" "receipts_expected c keccak evs sys"
    and "unat (tj_next_sequence (snd sys)) + length evs < 2 ^ 64"
  shows "sys_ok (lane_run c keccak evs sys)"
  using assms(2-)
proof (induction evs arbitrary: sys)
  case (Cons ev evs)
  have "unat (tj_next_sequence (snd sys)) + 1 < 2 ^ 64" using Cons.prems(3) by simp
  then show ?case
    using Cons lane_event_ok [OF codec, of sys ev keccak] lane_event_seq [of sys c keccak ev]
    by (simp add: lane_run_def)
qed (simp add: lane_run_def)

definition same_lane :: "nonce_lane \<Rightarrow> nonce_lane \<Rightarrow> bool" where
  "same_lane lane lane' \<longleftrightarrow> ln_chain_id lane' = ln_chain_id lane \<and> ln_wallet lane' = ln_wallet lane"

lemma same_lane_intros [simp]:
  "same_lane lane lane"
  "same_lane lane (lane\<lparr>ln_state := st\<rparr>)"
  "same_lane lane (lane\<lparr>ln_journal_scope := sc\<rparr>)"
  "same_lane (fst sys) (fst (f (fst sys))) \<Longrightarrow> same_lane (fst sys) (fst (fst (after_journal c env call sys f)))"
  by (auto simp: same_lane_def after_journal_def split: prod.split sum.split)

lemma consumed_same_lane [simp]: "same_lane (fst sys) (fst (fst (record_consumed_nonce_rejection c env h n sys)))"
  by (simp add: record_consumed_nonce_rejection_def split: nonce_lane_state.split option.split)

lemma lane_op_same_lane [simp]:
  "same_lane (fst sys) (fst (fst (reserve_with_nonce c keccak env a b d n sys)))"
  "same_lane (fst sys) (fst (fst (lane_record_signed c env t sys)))"
  "same_lane (fst sys) (fst (fst (lane_record_broadcast c env h sys)))"
  "same_lane (fst sys) (fst (fst (lane_record_unknown_outcome c env reason sys)))"
  "same_lane (fst sys) (fst (fst (lane_record_receipt c env receipt sys)))"
  "same_lane (fst sys) (fst (fst (cancel_before_signing c env sys)))"
  "same_lane (fst sys) (fst (fst (lane_record_rejected_before_broadcast c env h sys)))"
  by (simp_all add: reserve_with_nonce_def lane_record_signed_def lane_record_broadcast_def
      lane_record_unknown_outcome_def lane_record_receipt_def cancel_before_signing_def
      lane_record_rejected_before_broadcast_def Let_def
      split: nonce_lane_state.split option.split sum.split prod.split)

lemma lane_event_chain: "same_lane (fst sys) (fst (lane_event_apply c keccak ev sys))"
proof (cases ev)
  case (ENonceTooLow env obs1 obs2)
  then show ?thesis using too_low_sys [of c env obs1 obs2 sys] by auto
next
  case (ESetScope scope)
  then show ?thesis by (simp add: set_journal_scope_def split: sum.split)
qed (simp_all add: lane_reserve_def split: nonce_lane_state.split)

lemma lane_run_chain:
  "ln_chain_id (fst (lane_run c keccak evs sys)) = ln_chain_id (fst sys) \<and>
   ln_wallet (fst (lane_run c keccak evs sys)) = ln_wallet (fst sys)"
proof (induction evs arbitrary: sys)
  case (Cons ev evs)
  then show ?case using lane_event_chain [of sys c keccak ev] by (simp add: lane_run_def same_lane_def)
qed (simp add: lane_run_def)

lemma open_keys_ok:
  assumes "journal_open c content = Inr j"
  shows "keys_ok (tj_operations j)"
proof -
  have r: "replay_lines max_journal_line_bytes ''transaction journal record exceeds size limit''
       ''transaction journal ends with a partial record'' (replay_record c) content (bt_empty, 0) =
       Inr (tj_operations j, tj_next_sequence j)"
    using assms by (simp add: journal_open_Inr replay_file_def)
  have "keys_ok (fst (tj_operations j, tj_next_sequence j))"
    by (rule replay_lines_invariant [where P = "\<lambda>st. keys_ok (fst st)", OF _ _ r])
      (auto simp: replay_record_def keys_ok_def dest: keys_ok_payload [unfolded keys_ok_def] split: prod.splits)
  then show ?thesis by simp
qed

section \<open>Sequences of lock calls\<close>

datatype lock_call =
    LAcquire bool u64 address u64
  | LAfterBroadcast process_nonce_key u64
  | LAtLeast process_nonce_key u64

fun lock_apply :: "lock_call \<Rightarrow> process_nonce_locks \<Rightarrow> process_nonce_locks" where
  "lock_apply (LAcquire granted chain_id wallet floor) locks =
     fst (acquire_process_nonce_lock granted chain_id wallet floor locks)"
| "lock_apply (LAfterBroadcast key nonce) locks = fst (advance_after_broadcast key nonce locks)"
| "lock_apply (LAtLeast key nonce) locks = advance_to_at_least key nonce locks"

text \<open>The nonces that were confirmed as broadcast under a key, in order.\<close>

fun broadcast_nonces :: "process_nonce_key \<Rightarrow> lock_call list \<Rightarrow> process_nonce_locks \<Rightarrow> u64 list" where
  "broadcast_nonces key [] locks = []"
| "broadcast_nonces key (call # calls) locks =
     (case call of
        LAfterBroadcast k n \<Rightarrow>
          if k = key \<and> is_ok (snd (advance_after_broadcast k n locks)) then [n] else []
      | _ \<Rightarrow> []) @ broadcast_nonces key calls (lock_apply call locks)"

lemma guard_nonce_insert [simp]:
  "guard_nonce (bt_insert k v locks) key = (if key = k then v else guard_nonce locks key)"
  by (simp add: guard_nonce_def)

lemma lock_apply_mono: "guard_nonce locks key \<le> guard_nonce (lock_apply call locks) key"
proof (cases call)
  case (LAfterBroadcast k n)
  have "n \<le> m" if "checked_add n 1 = Some m" for m
    using that by (simp add: checked_simps word_le_nat_alt)
  then show ?thesis by (auto simp: LAfterBroadcast advance_after_broadcast_def split: option.split)
next
  case (LAcquire granted chain_id wallet floor)
  have "guard_nonce locks k \<le> floor" if "\<not> bt_contains locks k" for k
    using that by (auto simp: guard_nonce_def bt_contains_iff split: option.split)
  then show ?thesis
    by (auto simp: LAcquire acquire_process_nonce_lock_def Let_def)
qed (auto simp: advance_to_at_least_def)

lemma after_broadcast_grows:
  assumes "is_ok (snd (advance_after_broadcast key n locks))"
  shows "guard_nonce locks key = n \<and> n < guard_nonce (fst (advance_after_broadcast key n locks)) key"
proof -
  have "n < m" if "checked_add n 1 = Some m" for m
    using that by (simp add: checked_simps word_less_nat_alt)
  then show ?thesis
    using assms by (auto simp: advance_after_broadcast_def is_ok_def split: if_splits option.splits)
qed

lemma broadcast_nonces_bound: "n \<in> set (broadcast_nonces key calls locks) \<Longrightarrow> guard_nonce locks key \<le> n"
proof (induction calls arbitrary: locks)
  case (Cons call calls)
  then show ?case
    using lock_apply_mono [of locks key call] after_broadcast_grows [of key n locks]
    by (fastforce split: lock_call.splits if_splits)
qed simp

section \<open>Recoveries\<close>

lemma reviewed_rejection_proof:
  assumes "review_rejection c obs1 obs2 expected content = Inr (Some (oper, j))"
  shows "journal_open c content = Inr j \<and> operation j (rpr_operation_id expected) = Some oper \<and>
    jo_status oper = OutcomeUnknown (rpr_transaction_hash expected) BroadcastRejected \<and>
    (\<exists>a b. obs1 = Inr a \<and> obs2 = Inr b \<and> unseen a \<and> unseen b \<and>
       ro_pending_nonce a = rpr_nonce expected \<and> ro_pending_nonce b = rpr_nonce expected)"
  using assms
  by (auto simp: review_rejection_def reviewed_status_def check_unused_def Let_def
      split: option.splits journal_status.splits unknown_outcome_reason.splits)

lemma reviewed_collision_proof:
  assumes "review_collision c keccak obs1 obs2 expected content = Inr (Some (oper, j))"
  shows "journal_open c content = Inr j \<and> operation j (rcc_operation_id expected) = Some oper \<and>
    jo_status oper = OutcomeUnknown (rcc_rejected_transaction_hash expected) BroadcastRejected \<and>
    (\<exists>a ra ta b rb tb. obs1 = Inr (a, Some ra, Some ta) \<and> obs2 = Inr (b, Some rb, Some tb) \<and>
       unseen a \<and> unseen b \<and> rtx_nonce tb = joi_nonce (ji_identity (jo_intent oper)) \<and>
       rtx_from tb = joi_wallet (ji_identity (jo_intent oper)) \<and>
       rtx_hash tb \<noteq> rcc_rejected_transaction_hash expected \<and> trc_status rb = 1)"
  using assms
  by (auto simp: review_collision_def reviewed_status_def check_collision_def
      validate_consumed_nonce_replacement_def Let_def
      split: option.splits journal_status.splits unknown_outcome_reason.splits)

lemma check_nonce_too_low_Inr:
  "check_nonce_too_low i answer proven = Inr p \<longleftrightarrow> (\<exists>obs. answer = Inr obs \<and>
     ro_latest_nonce obs > joi_nonce i \<and> ro_pending_nonce obs \<ge> ro_latest_nonce obs \<and> unseen obs \<and>
     (\<forall>previous. proven = Some previous \<longrightarrow> ro_pending_nonce obs \<ge> previous) \<and>
     p = Some (ro_pending_nonce obs))"
  by (auto simp: check_nonce_too_low_def split: option.splits)

lemma consumed_rejection_stored:
  assumes codec: "codec_ok c" and st: "ln_state (fst sys) = NRecoveryRequired i (Some h)"
    and n: "n > joi_nonce i" and rec: "record_consumed_nonce_rejection c env h n sys = (sys', Inr ())"
    and op: "operation (snd sys) (joi_operation_id i) = Some oper"
  shows "ln_state (fst sys') = NReady n \<and>
    operation (snd sys') (joi_operation_id i) = Some (oper\<lparr>jo_status := RejectedBeforeBroadcast h\<rparr>)"
proof -
  from rec st n obtain j' where j': "sys' = (fst sys\<lparr>ln_state := NReady n\<rparr>, j')"
    "journal_call_apply c (fst env) (snd env) (RecordRejectedBeforeBroadcast i h) (snd sys) = (j', Inr ())"
    by (auto simp: record_consumed_nonce_rejection_def after_journal_def split: prod.splits sum.splits)
  have "operation j' (joi_operation_id i) = Some (oper\<lparr>jo_status := RejectedBeforeBroadcast h\<rparr>)"
  proof (rule journal_call_step [OF codec j'(2)])
    fix oper'
    assume "bt_get (tj_operations (snd sys)) (joi_operation_id (call_identity (RecordRejectedBeforeBroadcast i h))) =
        Some oper'"
      "tj_operations j' = bt_insert (joi_operation_id (call_identity (RecordRejectedBeforeBroadcast i h)))
        (oper'\<lparr>jo_status := call_status (RecordRejectedBeforeBroadcast i h)\<rparr>) (tj_operations (snd sys))"
    then show ?thesis using op by (simp add: operation_def)
  qed simp
  with j'(1) show ?thesis by simp
qed

text \<open>
  A reserved lane that is given the receipt of another operation becomes ready, while the journal keeps
  the reserved operation as one that blocks recovery.
\<close>

lemma receipt_drops_reservation:
  assumes lane: "ln_state (fst sys) = NReserved i" and ok: "sys_ok sys"
    and op: "operation_by_transaction_hash (snd sys) (trc_transaction_hash receipt) = Some oper"
    and other: "joi_operation_id (ji_identity (jo_intent oper)) \<noteq> joi_operation_id i"
    and status: "trc_status receipt \<le> 1" and codec: "codec_ok c"
    and mined: "journal_call_apply c (fst env) (snd env) (RecordMined (ji_identity (jo_intent oper))
      (trc_transaction_hash receipt) (trc_block_number receipt) (trc_status receipt = 1)) (snd sys) = (j', Inr ())"
    and nonce: "checked_add (joi_nonce (ji_identity (jo_intent oper))) 1 = Some n"
  shows "lane_record_receipt c env receipt sys = ((fst sys\<lparr>ln_state := NReady n\<rparr>, j'), Inr ()) \<and>
    bt_get (tj_operations j') (joi_operation_id i) = bt_get (tj_operations (snd sys)) (joi_operation_id i)"
proof -
  have "lane_record_receipt c env receipt sys = ((fst sys\<lparr>ln_state := NReady n\<rparr>, j'), Inr ())"
    using lane op status mined nonce
    by (simp add: lane_record_receipt_def receipt_operation_def after_journal_def not_less)
  moreover obtain oper' where "tj_operations j' = bt_insert (joi_operation_id (ji_identity (jo_intent oper)))
      oper' (tj_operations (snd sys))"
    using journal_call_step [OF codec mined] by auto
  ultimately show ?thesis using other by simp
qed

section \<open>Properties\<close>

text \<open>
  (C22) The lane and its journal agree.  Take a journal that was opened, a lane hydrated from it, and any
  lane operations with any clock answers, write failures and RPC answers, in which a receipt is only
  given to a lane that has a hash or no operation.  Then every operation that would block the next
  start is the one the lane is on, the lane's operation is in the journal with the lane's identity
  and transaction hash, and a lane that is ready has nothing to recover.
\<close>

theorem lane_tracks_journal:
  assumes codec: "codec_ok c" and opened: "journal_open c content = Inr j0"
    and hydrated: "hydrate chain_id wallet latest pending j0 = Inr lane0"
    and receipts: "receipts_expected c keccak evs (lane0, j0)"
    and bound: "unat (tj_next_sequence j0) + length evs < 2 ^ 64"
    and run: "lane_run c keccak evs (lane0, j0) = (lane, j)"
  shows "(\<forall>oper\<in>set (recovery_blocking_for j chain_id wallet).
      state_identity (ln_state lane) = Some (ji_identity (jo_intent oper))) \<and>
    (\<forall>i. state_identity (ln_state lane) = Some i \<longrightarrow>
      (\<exists>oper. operation j (joi_operation_id i) = Some oper \<and> ji_identity (jo_intent oper) = i \<and>
         transaction_hash (jo_status oper) = state_hash (ln_state lane))) \<and>
    (lane_ready lane \<longrightarrow> recovery_blocking_for j chain_id wallet = [])"
proof -
  have start: "sys_ok (lane0, j0)" "ln_chain_id lane0 = chain_id" "ln_wallet lane0 = wallet"
    using hydrate_lane_ok [OF hydrated open_keys_ok [OF opened]] open_keys_ok [OF opened]
    by (simp_all add: sys_ok_def)
  have "sys_ok (lane, j)" using lane_run_ok [OF codec start(1) receipts] bound by (simp add: run)
  then have ok: "lane_ok lane (tj_operations j)" and keys: "keys_ok (tj_operations j)" by (simp_all add: sys_ok_def)
  have lane: "ln_chain_id lane = chain_id" "ln_wallet lane = wallet"
    using lane_run_chain [of c keccak evs "(lane0, j0)"] start by (simp_all add: run)
  have own: "state_identity (ln_state lane) = Some (ji_identity (jo_intent oper))"
    if b: "oper \<in> set (recovery_blocking_for j chain_id wallet)" for oper
  proof -
    from b obtain k where k: "bt_get (tj_operations j) k = Some oper" "blocking chain_id wallet (tj_operations j) k"
      by (auto simp: set_recovery_blocking blocking_def)
    with ok obtain i where "state_identity (ln_state lane) = Some i" "joi_operation_id i = k"
      by (auto simp: lane_ok_def lane)
    with ok k show ?thesis by (auto simp: lane_ok_def lane_on_def)
  qed
  moreover have "recovery_blocking_for j chain_id wallet = []" if "lane_ready lane"
  proof -
    have "state_identity (ln_state lane) = None"
      using that by (simp add: lane_ready_def split: nonce_lane_state.splits)
    with own show ?thesis by (metis list.set_intros(1) neq_Nil_conv option.distinct(1))
  qed
  moreover have "\<exists>oper. operation j (joi_operation_id i) = Some oper \<and> ji_identity (jo_intent oper) = i \<and>
      transaction_hash (jo_status oper) = state_hash (ln_state lane)"
    if "state_identity (ln_state lane) = Some i" for i
    using ok that by (auto simp: lane_ok_def lane_on_def operation_def)
  ultimately show ?thesis by blast
qed

text \<open>
  (C23) One allocator per chain and wallet: whatever the executors of the process do with the lock, the
  nonces confirmed as broadcast under one key strictly increase, and start at or above the value the
  lock had.
\<close>

theorem process_nonces_increase:
  "sorted_wrt (<) (broadcast_nonces key calls locks) \<and>
   guard_nonce locks key \<le> Min (insert (- 1) (set (broadcast_nonces key calls locks)))"
proof -
  have "sorted_wrt (<) (broadcast_nonces key calls locks)"
  proof (induction calls arbitrary: locks)
    case (Cons call calls)
    have "n < n'" if "call = LAfterBroadcast key n" "is_ok (snd (advance_after_broadcast key n locks))"
      "n' \<in> set (broadcast_nonces key calls (lock_apply call locks))" for n n'
      using after_broadcast_grows [OF that(2)] broadcast_nonces_bound [OF that(3)] that(1) by auto
    then show ?case using Cons.IH by (auto simp: sorted_wrt.simps(2) split: lock_call.split)
  qed simp
  then show ?thesis by (simp add: broadcast_nonces_bound)
qed

text \<open>
  (C24) A nonce-too-low rejection is closed only on proof: the recovery changes the lane or the journal
  only when the journal holds that unknown outcome and two answers of the node show no receipt and no
  transaction for the hash and an account nonce past the lane's; on success the lane continues past
  the rejected nonce and the operation is recorded as rejected.
\<close>

theorem nonce_too_low_needs_proof:
  assumes "recover_proven_nonce_too_low c env obs1 obs2 sys = (sys', r)" and "sys' \<noteq> sys \<or> r \<noteq> Inr None"
    and "\<not> (\<exists>e. r = Inl e)" and codec: "codec_ok c"
  shows "\<exists>i h oper a b n. ln_state (fst sys) = NRecoveryRequired i (Some h) \<and>
    operation (snd sys) (joi_operation_id i) = Some oper \<and> jo_status oper = OutcomeUnknown h NonceTooLow \<and>
    obs1 = Inr a \<and> obs2 = Inr b \<and> unseen a \<and> unseen b \<and> ro_latest_nonce a > joi_nonce i \<and>
    ro_latest_nonce b > joi_nonce i \<and> r = Inr (Some n) \<and> n = ro_pending_nonce b \<and> n > joi_nonce i \<and>
    ln_state (fst sys') = NReady n \<and>
    operation (snd sys') (joi_operation_id i) = Some (oper\<lparr>jo_status := RejectedBeforeBroadcast h\<rparr>)"
proof -
  let ?loop = "\<lambda>i. bind_res (for_each (check_nonce_too_low i) [obs1, obs2] None)
    (\<lambda>proven. context_opt proven ''nonce-too-low recovery produced no observation'')"
  note rec_def = recover_proven_nonce_too_low_def
  obtain i h where st: "ln_state (fst sys) = NRecoveryRequired i (Some h)"
  proof (cases "ln_state (fst sys)")
    case (NRecoveryRequired i ho)
    then show thesis using assms(1,2) that by (cases ho) (auto simp: rec_def)
  qed (use assms(1,2) in \<open>auto simp: rec_def\<close>)
  obtain oper where op: "operation (snd sys) (joi_operation_id i) = Some oper"
    using assms(1,3) st by (cases "operation (snd sys) (joi_operation_id i)") (auto simp: rec_def)
  have status: "jo_status oper = OutcomeUnknown h NonceTooLow"
    using assms(1,2) st op by (cases "jo_status oper = OutcomeUnknown h NonceTooLow") (auto simp: rec_def)
  have unfolded: "(sys', r) = (case ?loop i of Inl e \<Rightarrow> (sys, Inl e) | Inr n \<Rightarrow>
      (case record_consumed_nonce_rejection c env h n sys of
         (sys', Inl e) \<Rightarrow> (sys', Inl e) | (sys', Inr _) \<Rightarrow> (sys', Inr (Some n))))"
    using assms(1) by (simp only: rec_def st op status nonce_lane_state.case option.case if_False simp_thms)
  obtain n where loop: "?loop i = Inr n" using unfolded assms(3) by (cases "?loop i") auto
  obtain x y where xy: "record_consumed_nonce_rejection c env h n sys = (x, y)" by fastforce
  then have rec: "record_consumed_nonce_rejection c env h n sys = (sys', Inr ())" and r: "r = Inr (Some n)"
    using unfolded assms(3) unfolding loop by (cases y; simp)+
  from loop obtain a b where ab: "obs1 = Inr a" "obs2 = Inr b" "unseen a" "unseen b"
    "ro_latest_nonce a > joi_nonce i" "ro_latest_nonce b > joi_nonce i"
    "ro_pending_nonce b \<ge> ro_latest_nonce b" "n = ro_pending_nonce b"
    by (auto simp: check_nonce_too_low_Inr)
  have n: "n > joi_nonce i" using ab by simp
  from consumed_rejection_stored [OF codec st n rec op]
  show ?thesis
    by (intro exI [of _ i] exI [of _ h] exI [of _ oper] exI [of _ a] exI [of _ b] exI [of _ n] conjI)
      (use st op status r ab n in simp_all)
qed

section \<open>A concrete lane\<close>

definition demo_lane :: nonce_lane where
  "demo_lane = \<lparr>ln_chain_id = 10, ln_wallet = 2, ln_state = NReady 3, ln_journal_scope = None\<rparr>"

definition demo_call :: wallet_call where
  "demo_call = \<lparr>wcl_target = 2, wcl_value = 0, wcl_calldata = []\<rparr>"

lemma demo_hydrate: "hydrate 10 2 3 3 demo_opened = Inr demo_lane"
  by (simp add: hydrate_def demo_opened_def demo_lane_def highest_consumed_nonce_def
      recovery_blocking_for_def bt_values_def Let_def)

lemma demo_lane_reserve:
  "lane_run demo_codec (\<lambda>_. 2) [EReserve (Inr 5, Durable) ''op-1'' ''swap'' demo_call] (demo_lane, demo_opened) =
     (demo_lane\<lparr>ln_state := NReserved demo_identity\<rparr>, demo_recorded)"
proof -
  have "journal_call_apply demo_codec (Inr 5) Durable (RecordIntent demo_intent) demo_opened =
      (demo_recorded, Inr ())"
    using demo_prepare_intent demo_intent_ok
    by (simp add: journal_call_apply_def append_record_def Let_def checked_add_def demo_intent_def)
      (simp add: demo_opened_def demo_recorded_def demo_intent_def)
  then show ?thesis
    by (simp add: lane_run_def lane_reserve_def reserve_with_nonce_def demo_lane_def demo_call_def
        after_journal_def Let_def demo_identity_def [symmetric] demo_intent_def [symmetric])
qed

theorem lane_tracks_journal_witness:
  "ln_state (fst (lane_run demo_codec (\<lambda>_. 2)
     [EReserve (Inr 5, Durable) ''op-1'' ''swap'' demo_call] (demo_lane, demo_opened))) =
     NReserved demo_identity \<and>
   (\<exists>oper. operation demo_recorded ''op-1'' = Some oper \<and> ji_identity (jo_intent oper) = demo_identity \<and>
      transaction_hash (jo_status oper) = None)"
proof -
  have receipts: "receipts_expected demo_codec (\<lambda>_. 2)
      [EReserve (Inr 5, Durable) ''op-1'' ''swap'' demo_call] (demo_lane, demo_opened)"
    by (simp add: receipt_expected_def)
  have bound: "unat (tj_next_sequence demo_opened) +
      length [EReserve (Inr 5, Durable) ''op-1'' ''swap'' demo_call] < 2 ^ 64"
    by (simp add: demo_opened_def)
  from lane_tracks_journal [OF demo_codec_ok demo_open demo_hydrate receipts bound demo_lane_reserve]
  have "\<exists>oper. operation demo_recorded ''op-1'' = Some oper \<and> ji_identity (jo_intent oper) = demo_identity \<and>
      transaction_hash (jo_status oper) = None" by simp
  then show ?thesis unfolding demo_lane_reserve by simp
qed

text \<open>A lane stopped by a nonce-too-low answer, and a codec for the record that closes it.\<close>

definition low_journal :: transaction_journal where
  "low_journal = \<lparr>tj_file = [],
     tj_operations = bt_insert ''op-1'' \<lparr>jo_intent = demo_intent, jo_status = OutcomeUnknown 4 NonceTooLow\<rparr> bt_empty,
     tj_next_sequence = 3, tj_poisoned = False\<rparr>"

definition low_record :: wire_record where
  "low_record = demo_record 3 7 (WRejectedBeforeBroadcast (unary (4 :: b256)))"

definition low_codec :: wire_codec where
  "low_codec = demo_codec\<lparr>wc_record_to_vec := (\<lambda>r. if r = low_record then Some ''C'' else None),
     wc_record_from_slice := (\<lambda>b. if b = ''C'' then Some low_record else None)\<rparr>"

definition low_observation :: rpc_observation where
  "low_observation = \<lparr>ro_latest_nonce = 5, ro_pending_nonce = 6, ro_receipt = None, ro_transaction = None\<rparr>"

definition low_lane :: nonce_lane where
  "low_lane = demo_lane\<lparr>ln_state := NRecoveryRequired demo_identity (Some 4)\<rparr>"

lemma low_codec_ok: "codec_ok low_codec"
  by (auto simp: codec_ok_def low_codec_def nl_def split: if_splits)

lemma low_codec_sel [simp]:
  "wc_address_from_str low_codec = of_unary" "wc_address_to_string low_codec = unary"
  "wc_b256_from_str low_codec = of_unary" "wc_b256_to_string low_codec = unary"
  "wc_record_to_vec low_codec low_record = Some ''C''" "payload_checksum low_codec p = Inr ''h''"
  by (simp_all add: low_codec_def payload_checksum_def) (simp_all add: demo_codec_def)

lemma low_call:
  "journal_call_apply low_codec (Inr 7) Durable (RecordRejectedBeforeBroadcast demo_identity 4) low_journal =
     (\<lparr>tj_file = ''C'' @ [nl], tj_operations = bt_insert ''op-1''
         \<lparr>jo_intent = demo_intent, jo_status = RejectedBeforeBroadcast 4\<rparr> bt_empty,
       tj_next_sequence = 4, tj_poisoned = False\<rparr>, Inr ())"
proof -
  let ?p = "append_payload low_codec 7 demo_identity (WRejectedBeforeBroadcast (unary (4 :: b256))) low_journal"
  let ?ops = "bt_insert ''op-1'' \<lparr>jo_intent = demo_intent, jo_status = RejectedBeforeBroadcast 4\<rparr> bt_empty"
  have p: "?p = wr_payload low_record"
    by (simp add: append_payload_def low_record_def demo_record_def demo_payload_def journal_version_def
        low_journal_def)
  have rcd: "wire_record_new low_codec ?p = Inr low_record"
    unfolding p by (simp add: wire_record_new_def low_record_def demo_record_def)
  have "apply_payload low_codec ?p (tj_operations low_journal) = Inr ?ops"
    unfolding p using demo_identity_ok
    by (simp add: apply_payload_def low_record_def demo_record_def demo_payload_def Let_def low_journal_def
        demo_intent_def demo_identity_def parse_hash_def ensure_hash_transition_def bt.insert_insert)
  then have "prepare_append low_codec (Inr 7) demo_identity (WRejectedBeforeBroadcast (unary (4 :: b256)))
      low_journal = Inr (?ops, ''C'')"
    using rcd demo_identity_ok
    by (simp add: prepare_append_def Let_def max_journal_line_bytes_def) (simp add: low_journal_def)
  then show ?thesis
    by (simp add: journal_call_apply_def append_record_def Let_def checked_add_def low_journal_def)
qed

theorem nonce_too_low_needs_proof_witness:
  "ln_state (fst (fst (recover_proven_nonce_too_low low_codec (Inr 7, Durable) (Inr low_observation)
     (Inr low_observation) (low_lane, low_journal)))) = NReady 6"
proof -
  let ?r = "recover_proven_nonce_too_low low_codec (Inr 7, Durable) (Inr low_observation)
     (Inr low_observation) (low_lane, low_journal)"
  have proven: "for_each (check_nonce_too_low demo_identity) [Inr low_observation, Inr low_observation] None =
      Inr (Some 6)"
    by (simp add: check_nonce_too_low_def low_observation_def unseen_def)
  have "operation low_journal ''op-1'' =
      Some \<lparr>jo_intent = demo_intent, jo_status = OutcomeUnknown 4 NonceTooLow\<rparr>"
    by (simp add: operation_def low_journal_def)
  then have ok: "snd ?r = Inr (Some 6)"
    using proven low_call
    by (simp add: recover_proven_nonce_too_low_def low_lane_def record_consumed_nonce_rejection_def
        after_journal_def del: for_each.simps)
  then have r: "?r = (fst ?r, Inr (Some 6))" by (metis prod.collapse)
  have "\<exists>n. Inr (Some 6) = (Inr (Some n) :: u64 option result) \<and> ln_state (fst (fst ?r)) = NReady n"
    using nonce_too_low_needs_proof [OF r _ _ low_codec_ok] by blast
  then show ?thesis by simp
qed

end
