(* ===== verification/Order_Journal.thy ===== *)
theory Order_Journal
  imports Durable_Log BTree_Map
begin

text \<open>
  The journal of Binance orders, \<open>src/src/binance/order_journal.rs\<close>: the life of one order, the checks
  on the snapshots that are appended, the adoption of an order found on the venue, and the replay of
  the file.

  \<open>rust_decimal\<close>'s number is the type variable \<open>'d\<close>; its text form and its equality, \<open>serde_json\<close> and
  SHA-256 are the fields of \<open>order_codec\<close>, and \<open>order_codec_ok\<close> states what is used of them.
\<close>

section \<open>Data\<close>

record order_scope =
  os_schema_version :: u16
  os_account_id :: string
  os_strategy_id :: string

record order_intent =
  oi_scope :: "order_scope option"
  oi_operation_id :: string
  oi_client_order_id :: string
  oi_symbol :: string
  oi_side :: string
  oi_order_type :: string
  oi_quantity :: "string option"
  oi_quote_order_quantity :: "string option"
  oi_limit_price :: "string option"

record 'd order_fill =
  of_price :: 'd
  of_qty :: 'd
  of_commission :: 'd
  of_commission_asset :: string
  of_trade_id :: int

record 'd order_result =
  or_symbol :: string
  or_order_id :: u64
  or_client_order_id :: string
  or_transact_time :: "u64 option"
  or_price :: 'd
  or_orig_qty :: 'd
  or_executed_qty :: 'd
  or_orig_quote_order_qty :: 'd
  or_cummulative_quote_qty :: 'd
  or_status :: string
  or_time_in_force :: string
  or_order_type :: string
  or_side :: string
  or_fills :: "'d order_fill list"

text \<open>\<open>i64\<close> is its value; the journal only stores it.\<close>

datatype 'd order_progress =
    OIntentRecorded
  | OSubmitted u64 string string string "'d order_result option"
  | OOutcomeUnknown string
  | ORejected u16 int string
  | OTerminal u64 string string string "'d order_result option"

fun terminal :: "'d order_progress \<Rightarrow> bool" where
  "terminal (ORejected _ _ _) = True"
| "terminal (OTerminal _ _ _ _ _) = True"
| "terminal _ = False"

record 'd order_operation =
  oo_intent :: order_intent
  oo_progress :: "'d order_progress"

type_synonym 'd order_operations = "(string, 'd order_operation) btmap"

record 'd order_payload =
  op_version :: u16
  op_sequence :: u64
  op_recorded_at_unix_ms :: u64
  op_operation :: "'d order_operation"

record 'd order_record =
  orr_payload :: "'d order_payload"
  orr_checksum_sha256 :: string

record 'd order_journal =
  oj_file :: string
  oj_operations :: "'d order_operations"
  oj_next_sequence :: u64
  oj_poisoned :: bool

record 'd order_codec =
  oc_record_to_vec :: "'d order_record \<Rightarrow> string option"
  oc_record_from_slice :: "string \<Rightarrow> 'd order_record option"
  oc_payload_to_vec :: "'d order_payload \<Rightarrow> string option"
  oc_sha256_hex :: "string \<Rightarrow> string"
  oc_decimal_parse :: "string \<Rightarrow> 'd option"
  oc_decimal_eq :: "'d \<Rightarrow> 'd \<Rightarrow> bool"
  oc_decimal_to_string :: "'d \<Rightarrow> string"

text \<open>
  A record reads back as the record that was written, and compact JSON has no line break.  This includes
  \<open>deserialize_decimal\<close> of \<open>ws_api.rs\<close>, which reads a decimal with \<open>Decimal::from_str\<close> from the text that
  the decimal crate wrote.
\<close>

definition order_codec_ok :: "'d order_codec \<Rightarrow> bool" where
  "order_codec_ok c \<longleftrightarrow>
     (\<forall>r bytes. oc_record_to_vec c r = Some bytes \<longrightarrow>
        oc_record_from_slice c bytes = Some r \<and> nl \<notin> set bytes)"

definition order_version :: u16 where
  "order_version = 1"

definition max_line_bytes :: nat where
  "max_line_bytes = 32 * 1024"

definition max_reason_bytes :: nat where
  "max_reason_bytes = 1024"

definition order_scope_schema_version :: u16 where
  "order_scope_schema_version = 2"

definition order_scope_validate :: "order_scope \<Rightarrow> unit result" where
  "order_scope_validate s =
     ensure (os_schema_version s = order_scope_schema_version)
       ''unsupported Binance order journal scope schema version''
     (ensure (\<not> trim_is_empty (os_account_id s) \<and> \<not> trim_is_empty (os_strategy_id s))
       ''Binance order journal scope is incomplete''
     (Inr ()))"

section \<open>Validation\<close>

definition text_byte :: "char \<Rightarrow> bool" where
  "text_byte b =
     (is_ascii_alphanumeric b \<or> b \<in> {CHR ''-'', CHR ''_'', CHR ''.'', CHR '':'', CHR ''/''})"

definition validate_text :: "string \<Rightarrow> string \<Rightarrow> nat \<Rightarrow> unit result" where
  "validate_text name v maximum =
     ensure (v \<noteq> []) (''Binance journal '' @ name @ '' is empty'')
     (ensure (length v \<le> maximum) (''Binance journal '' @ name @ '' is too long'')
     (ensure (list_all text_byte v)
       (''Binance journal '' @ name @ '' contains unsupported characters'')
     (Inr ())))"

definition validate_limit_fields :: "order_intent \<Rightarrow> unit result" where
  "validate_limit_fields i =
     (if oi_order_type i = ''LIMIT'' then
        ensure (oi_limit_price i \<noteq> None) ''LIMIT order requires a price''
        (ensure (oi_quantity i \<noteq> None) ''LIMIT order requires base quantity'' (Inr ()))
      else ensure (oi_limit_price i = None) ''MARKET order cannot have a price'' (Inr ()))"

fun validate_progress :: "'d order_progress \<Rightarrow> unit result" where
  "validate_progress (OOutcomeUnknown reason) =
     ensure (reason \<noteq> [] \<and> length reason \<le> max_reason_bytes) ''Binance journal reason is invalid''
       (Inr ())"
| "validate_progress (ORejected _ _ reason) =
     ensure (reason \<noteq> [] \<and> length reason \<le> max_reason_bytes) ''Binance journal reason is invalid''
       (Inr ())"
| "validate_progress (OSubmitted _ status _ _ _) = validate_text ''order status'' status 24"
| "validate_progress (OTerminal _ status _ _ _) = validate_text ''order status'' status 24"
| "validate_progress OIntentRecorded = Inr ()"

definition validate_operation :: "'d order_operation \<Rightarrow> unit result" where
  "validate_operation oper =
     (let i = oo_intent oper in
      bind_res (validate_text ''operation id'' (oi_operation_id i) 96) (\<lambda>_.
      bind_res (validate_text ''client order id'' (oi_client_order_id i) 36) (\<lambda>_.
      ensure (starts_with (oi_client_order_id i) ''rustval'' \<or>
              starts_with (oi_client_order_id i) ''rustarb'')
        ''Binance client id must use a Rust-owned namespace''
      (bind_res (validate_text ''symbol'' (oi_symbol i) 24) (\<lambda>_.
       ensure (oi_side i \<in> {''BUY'', ''SELL''}) ''invalid side''
       (ensure (oi_order_type i \<in> {''MARKET'', ''LIMIT''}) ''invalid order type''
       (ensure ((oi_quantity i \<noteq> None) \<noteq> (oi_quote_order_quantity i \<noteq> None))
         ''exactly one Binance quantity field is required''
       (bind_res (validate_limit_fields i) (\<lambda>_. validate_progress (oo_progress oper))))))))))"

fun reconciles :: "'d order_progress \<Rightarrow> bool" where
  "reconciles OIntentRecorded = False"
| "reconciles _ = True"

definition validate_transition :: "'d order_progress \<Rightarrow> 'd order_progress \<Rightarrow> unit result" where
  "validate_transition previous nxt =
     ensure (\<not> terminal previous) ''Binance order is already terminal''
     (ensure (nxt \<noteq> OIntentRecorded) ''Binance order intent cannot be recorded twice''
     (ensure ((case previous of OOutcomeUnknown _ \<Rightarrow> False | _ \<Rightarrow> True) \<or> reconciles nxt)
       ''an unknown Binance outcome can only be reconciled from the exchange''
     (Inr ())))"

definition apply_snapshot ::
  "'d order_operation \<Rightarrow> 'd order_operations \<Rightarrow> 'd order_operations result" where
  "apply_snapshot oper operations =
     bind_res (validate_operation oper) (\<lambda>_.
     bind_res (case bt_get operations (oi_client_order_id (oo_intent oper)) of
         Some previous \<Rightarrow>
           ensure (oo_intent previous = oo_intent oper) ''Binance order journal intent changed''
           (validate_transition (oo_progress previous) (oo_progress oper))
       | None \<Rightarrow>
           ensure (oo_progress oper = OIntentRecorded)
             ''first Binance order journal state must be intent_recorded'' (Inr ())) (\<lambda>_.
     Inr (bt_insert (oi_client_order_id (oo_intent oper)) oper operations)))"

section \<open>Opening\<close>

definition order_checksum :: "'d order_codec \<Rightarrow> 'd order_payload \<Rightarrow> string result" where
  "order_checksum c p =
     bind_res (context_opt (oc_payload_to_vec c p) ''failed to encode Binance checksum input'') (\<lambda>bytes.
     Inr (oc_sha256_hex c bytes))"

definition order_record_new :: "'d order_codec \<Rightarrow> 'd order_payload \<Rightarrow> 'd order_record result" where
  "order_record_new c p =
     bind_res (order_checksum c p) (\<lambda>s. Inr \<lparr>orr_payload = p, orr_checksum_sha256 = s\<rparr>)"

definition order_validate_checksum :: "'d order_codec \<Rightarrow> 'd order_record \<Rightarrow> unit result" where
  "order_validate_checksum c r =
     bind_res (order_checksum c (orr_payload r)) (\<lambda>s.
     ensure (orr_checksum_sha256 r = s) ''Binance order journal checksum mismatch'' (Inr ()))"

definition order_replay_record ::
  "'d order_codec \<Rightarrow> string \<Rightarrow> 'd order_operations \<times> u64 \<Rightarrow> ('d order_operations \<times> u64) result" where
  "order_replay_record c line st =
     (case st of (operations, expected_sequence) \<Rightarrow>
        bind_res (context_opt (oc_record_from_slice c line)
                    ''Binance order journal contains invalid JSON'') (\<lambda>rcd.
        bind_res (order_validate_checksum c rcd) (\<lambda>_.
        ensure (op_version (orr_payload rcd) = order_version)
          ''unsupported Binance order journal version''
        (ensure (op_sequence (orr_payload rcd) = expected_sequence)
          ''Binance order journal sequence mismatch''
        (bind_res (apply_snapshot (op_operation (orr_payload rcd)) operations) (\<lambda>operations.
         bind_res (context_opt (checked_add expected_sequence 1)
                     ''Binance order journal sequence overflow'') (\<lambda>expected_sequence.
         Inr (operations, expected_sequence))))))))"

definition order_replay_file :: "'d order_codec \<Rightarrow> string \<Rightarrow> ('d order_operations \<times> u64) result" where
  "order_replay_file c content =
     replay_lines max_line_bytes ''Binance order journal record is too large''
       ''Binance order journal ends with a partial record'' (order_replay_record c) content (bt_empty, 0)"

definition order_journal_open :: "'d order_codec \<Rightarrow> string \<Rightarrow> 'd order_journal result" where
  "order_journal_open c content =
     bind_res (order_replay_file c content) (\<lambda>(operations, expected_sequence).
     Inr \<lparr>oj_file = content, oj_operations = operations, oj_next_sequence = expected_sequence,
          oj_poisoned = False\<rparr>)"

definition active_operations :: "'d order_journal \<Rightarrow> 'd order_operation list" where
  "active_operations j =
     filter (\<lambda>oper. \<not> terminal (oo_progress oper)) (bt_values (oj_operations j))"

section \<open>Appending\<close>

text \<open>\<open>append\<close> up to the write; \<open>now\<close> is the answer of the system clock.\<close>

definition order_prepare ::
  "'d order_codec \<Rightarrow> u64 result \<Rightarrow> 'd order_operation \<Rightarrow> 'd order_journal \<Rightarrow>
   ('d order_operations \<times> string) result" where
  "order_prepare c now oper j =
     ensure (\<not> oj_poisoned j) ''Binance order journal is poisoned''
     (bind_res (validate_operation oper) (\<lambda>_.
      bind_res now (\<lambda>recorded_at.
      let payload = \<lparr>op_version = order_version, op_sequence = oj_next_sequence j,
                     op_recorded_at_unix_ms = recorded_at, op_operation = oper\<rparr> in
      bind_res (apply_snapshot (op_operation payload) (oj_operations j)) (\<lambda>next_operations.
      bind_res (order_record_new c payload) (\<lambda>rcd.
      bind_res (context_opt (oc_record_to_vec c rcd) ''failed to encode Binance order journal'') (\<lambda>encoded.
      ensure (length encoded < max_line_bytes) ''Binance order journal record is too large''
      (Inr (next_operations, encoded))))))))"

definition order_append ::
  "'d order_codec \<Rightarrow> append_env \<Rightarrow> 'd order_operation \<Rightarrow> 'd order_journal \<Rightarrow>
   'd order_journal \<times> unit result" where
  "order_append c env oper j =
     (case order_prepare c (fst env) oper j of
        Inl e \<Rightarrow> (j, Inl e)
      | Inr (next_operations, encoded) \<Rightarrow>
          (let j' = j\<lparr>oj_file := write_bytes (snd env) (encoded @ [nl]) (oj_file j)\<rparr> in
           case snd env of
             Failed _ \<Rightarrow>
               (j'\<lparr>oj_poisoned := True\<rparr>,
                Inl (Bail ''failed to durably append Binance order journal record''))
           | Durable \<Rightarrow>
               (case checked_add (oj_next_sequence j) 1 of
                  None \<Rightarrow> (j'\<lparr>oj_operations := next_operations\<rparr>,
                           Inl (Bail ''Binance order journal sequence overflow''))
                | Some s \<Rightarrow>
                    (j'\<lparr>oj_operations := next_operations, oj_next_sequence := s\<rparr>, Inr ()))))"

definition record_intent ::
  "'d order_codec \<Rightarrow> append_env \<Rightarrow> order_intent \<Rightarrow> 'd order_journal \<Rightarrow> 'd order_journal \<times> unit result" where
  "record_intent c env intent j =
     (if bt_contains (oj_operations j) (oi_client_order_id intent)
      then (j, Inl (Bail ''Binance client order id already exists in journal''))
      else order_append c env \<lparr>oo_intent = intent, oo_progress = OIntentRecorded\<rparr> j)"

definition advance ::
  "'d order_codec \<Rightarrow> append_env \<Rightarrow> string \<Rightarrow> 'd order_progress \<Rightarrow> 'd order_journal \<Rightarrow>
   'd order_journal \<times> unit result" where
  "advance c env client_order_id progress j =
     (case bt_get (oj_operations j) client_order_id of
        None \<Rightarrow> (j, Inl (Bail (''unknown Binance order '' @ client_order_id)))
      | Some current \<Rightarrow>
          (case validate_transition (oo_progress current) progress of
             Inl e \<Rightarrow> (j, Inl e)
           | Inr _ \<Rightarrow> order_append c env \<lparr>oo_intent = oo_intent current, oo_progress = progress\<rparr> j))"

definition terminal_statuses :: "string list" where
  "terminal_statuses = [''FILLED'', ''CANCELED'', ''EXPIRED'', ''EXPIRED_IN_MATCH'', ''REJECTED'']"

text \<open>The checks of \<open>record_discovered_terminal\<close> before it writes anything.\<close>

definition check_discovered ::
  "'d order_codec \<Rightarrow> order_intent \<Rightarrow> 'd order_result \<Rightarrow> 'd order_journal \<Rightarrow> unit result" where
  "check_discovered c intent order j =
     ensure (\<not> bt_contains (oj_operations j) (oi_client_order_id intent))
       ''discovered Binance client order id already exists in journal''
     (ensure (or_client_order_id order = oi_client_order_id intent \<and>
              or_symbol order = oi_symbol intent \<and> or_side order = oi_side intent \<and>
              or_order_type order = oi_order_type intent)
       ''discovered Binance order does not match its operator intent''
     (bind_res (case oi_quantity intent of
         None \<Rightarrow> Inr ()
       | Some quantity \<Rightarrow>
           bind_res (context_opt (oc_decimal_parse c quantity)
                       ''discovered Binance intent quantity is not an exact decimal'') (\<lambda>q.
           ensure (oc_decimal_eq c q (or_orig_qty order))
             ''discovered Binance order quantity differs from its operator intent'' (Inr ()))) (\<lambda>_.
      bind_res (case oi_quote_order_quantity intent of
         None \<Rightarrow> Inr ()
       | Some quote_quantity \<Rightarrow>
           bind_res (context_opt (oc_decimal_parse c quote_quantity)
                       ''discovered Binance intent quote quantity is not an exact decimal'') (\<lambda>q.
           ensure (oc_decimal_eq c q (or_orig_quote_order_qty order))
             ''discovered Binance quote quantity differs from its operator intent'' (Inr ()))) (\<lambda>_.
      ensure (or_status order \<in> set terminal_statuses) ''discovered Binance order is not terminal''
      (Inr ())))))"

definition record_discovered_terminal ::
  "'d order_codec \<Rightarrow> append_env \<Rightarrow> append_env \<Rightarrow> order_intent \<Rightarrow> 'd order_result \<Rightarrow> 'd order_journal \<Rightarrow>
   'd order_journal \<times> unit result" where
  "record_discovered_terminal c env1 env2 intent order j =
     (case check_discovered c intent order j of
        Inl e \<Rightarrow> (j, Inl e)
      | Inr _ \<Rightarrow>
          (case record_intent c env1 intent j of
             (j', Inl e) \<Rightarrow> (j', Inl e)
           | (j', Inr _) \<Rightarrow>
               advance c env2 (or_client_order_id order)
                 (OTerminal (or_order_id order) (or_status order)
                    (oc_decimal_to_string c (or_executed_qty order))
                    (oc_decimal_to_string c (or_cummulative_quote_qty order)) (Some order)) j'))"

text \<open>The public calls that change the journal.\<close>

datatype 'd order_call =
    CallIntent append_env order_intent
  | CallDiscovered append_env append_env order_intent "'d order_result"
  | CallAdvance append_env string "'d order_progress"

fun order_call_apply ::
  "'d order_codec \<Rightarrow> 'd order_call \<Rightarrow> 'd order_journal \<Rightarrow> 'd order_journal \<times> unit result" where
  "order_call_apply c (CallIntent env intent) j = record_intent c env intent j"
| "order_call_apply c (CallDiscovered env1 env2 intent order) j =
     record_discovered_terminal c env1 env2 intent order j"
| "order_call_apply c (CallAdvance env client_order_id progress) j =
     advance c env client_order_id progress j"

section \<open>The journal as a durable log\<close>

definition order_written ::
  "'d order_codec \<Rightarrow> 'd order_operations \<times> u64 \<Rightarrow> string \<Rightarrow> 'd order_operations \<times> u64 \<Rightarrow> bool" where
  "order_written c st line st' \<longleftrightarrow> order_codec_ok c \<and>
     (\<exists>now oper j. order_prepare c now oper j = Inr (fst st', line) \<and>
        st = (oj_operations j, oj_next_sequence j) \<and> checked_add (snd st) 1 = Some (snd st'))"

lemma order_prepare_Inr:
  assumes "order_prepare c now oper j = Inr (ops', line)"
  obtains payload rcd where "\<not> oj_poisoned j" "op_version payload = order_version"
    "op_sequence payload = oj_next_sequence j" "op_operation payload = oper"
    "apply_snapshot oper (oj_operations j) = Inr ops'"
    "order_record_new c payload = Inr rcd" "oc_record_to_vec c rcd = Some line"
    "length line < max_line_bytes"
proof -
  from assms obtain t rcd where "\<not> oj_poisoned j" "apply_snapshot oper (oj_operations j) = Inr ops'"
    "order_record_new c \<lparr>op_version = order_version, op_sequence = oj_next_sequence j,
       op_recorded_at_unix_ms = t, op_operation = oper\<rparr> = Inr rcd"
    "oc_record_to_vec c rcd = Some line" "length line < max_line_bytes"
    by (auto simp: order_prepare_def Let_def)
  then show thesis by (intro that [OF _ _ _ _ _ _ _ _]) simp_all
qed

lemma order_written_replay:
  assumes "order_written c st line st'"
  shows "order_replay_record c line st = Inr st' \<and> nl \<notin> set line \<and> length line < max_line_bytes"
proof -
  from assms obtain now oper j where ok: "order_codec_ok c"
    and prep: "order_prepare c now oper j = Inr (fst st', line)"
    and st: "st = (oj_operations j, oj_next_sequence j)"
    and seq: "checked_add (oj_next_sequence j) 1 = Some (snd st')"
    by (auto simp: order_written_def)
  from prep obtain payload rcd where p: "op_version payload = order_version"
    "op_sequence payload = oj_next_sequence j" "op_operation payload = oper"
    "apply_snapshot oper (oj_operations j) = Inr (fst st')"
    "order_record_new c payload = Inr rcd" "oc_record_to_vec c rcd = Some line"
    "length line < max_line_bytes"
    by (rule order_prepare_Inr)
  from p(5) obtain s where s: "order_checksum c payload = Inr s"
    "rcd = \<lparr>orr_payload = payload, orr_checksum_sha256 = s\<rparr>" by (auto simp: order_record_new_def)
  have "oc_record_from_slice c line = Some rcd" "nl \<notin> set line"
    using ok p(6) by (auto simp: order_codec_ok_def)
  then show ?thesis
    using p s st seq by (simp add: order_replay_record_def order_validate_checksum_def)
qed

interpretation order_log: durable_log max_line_bytes "''Binance order journal record is too large''"
  "''Binance order journal ends with a partial record''" "order_replay_record c" "order_written c" for c
  by unfold_locales (auto dest: order_written_replay)

definition order_view :: "'d order_journal \<Rightarrow> string \<times> ('d order_operations \<times> u64) \<times> bool" where
  "order_view j = (oj_file j, (oj_operations j, oj_next_sequence j), oj_poisoned j)"

text \<open>An append leaves the journal alone, poisons it after a failed write, or makes one recorded step.\<close>

lemma order_append_cases:
  obtains (refused) e where "order_append c env oper j = (j, Inl e)" "order_prepare c (fst env) oper j = Inl e"
    | (failed) k ops' line e where "\<not> oj_poisoned j" "snd env = Failed k"
      "order_prepare c (fst env) oper j = Inr (ops', line)"
      "order_append c env oper j =
         (j\<lparr>oj_file := write_bytes (Failed k) (line @ [nl]) (oj_file j), oj_poisoned := True\<rparr>, Inl e)"
    | (stored) ops' line where "\<not> oj_poisoned j" "snd env = Durable"
      "order_prepare c (fst env) oper j = Inr (ops', line)"
      "order_append c env oper j =
         (case checked_add (oj_next_sequence j) 1 of
            None \<Rightarrow> (j\<lparr>oj_file := write_bytes Durable (line @ [nl]) (oj_file j), oj_operations := ops'\<rparr>,
                     Inl (Bail ''Binance order journal sequence overflow''))
          | Some s \<Rightarrow> (j\<lparr>oj_file := write_bytes Durable (line @ [nl]) (oj_file j), oj_operations := ops',
                        oj_next_sequence := s\<rparr>, Inr ()))"
proof (cases "order_prepare c (fst env) oper j")
  case (Inl e)
  then show thesis by (intro refused) (simp_all add: order_append_def)
next
  case (Inr r)
  obtain ops' line where r: "r = (ops', line)" by fastforce
  have np: "\<not> oj_poisoned j" using Inr by (auto simp: order_prepare_def)
  show thesis
  proof (cases "snd env")
    case Durable
    then show thesis using Inr r np
      by (intro stored [of ops' line]) (simp_all add: order_append_def Let_def split: option.split)
  next
    case (Failed k)
    then show thesis using Inr r np
      by (intro failed [of k ops' line]) (simp_all add: order_append_def Let_def)
  qed
qed

lemma order_append_log:
  assumes ok: "order_codec_ok c" and seq: "unat (oj_next_sequence j) + 1 < 2 ^ 64"
  shows "log_step (order_written c) (order_view j) (order_view (fst (order_append c env oper j)))"
proof -
  obtain s where s: "checked_add (oj_next_sequence j) 1 = Some s" using seq by (simp add: checked_add_def)
  have written: "order_written c (oj_operations j, oj_next_sequence j) line (ops', s)"
    if "order_prepare c now oper j = Inr (ops', line)" for now ops' line
    using that ok s by (auto simp: order_written_def)
  show ?thesis
  proof (cases rule: order_append_cases [where c = c and env = env and oper = oper and j = j])
    case (refused e)
    then show ?thesis by (simp add: log_step.refused)
  next
    case (failed k ops' line e)
    then show ?thesis
      using log_step.failed [where written = "order_written c", OF written [OF failed(3)],
          where disk = "oj_file j" and k = k]
      by (simp add: order_view_def)
  next
    case (stored ops' line)
    then show ?thesis
      using log_step.stored [where written = "order_written c", OF written [OF stored(3)],
          where disk = "oj_file j"] s
      by (simp add: order_view_def)
  qed
qed

lemma order_append_seq:
  "unat (oj_next_sequence (fst (order_append c env oper j))) \<le> unat (oj_next_sequence j) + 1"
  by (cases rule: order_append_cases [where c = c and env = env and oper = oper and j = j])
    (auto simp: checked_simps split: option.splits)

text \<open>A call is at most two appends.\<close>

lemma order_call_appends:
  obtains (none) "fst (order_call_apply c call j) = j"
    | (one) env oper where "fst (order_call_apply c call j) = fst (order_append c env oper j)"
    | (two) env oper env' oper' where "fst (order_call_apply c call j) =
        fst (order_append c env' oper' (fst (order_append c env oper j)))"
proof -
  have rec: "fst (record_intent c env i j) = j \<or>
      (\<exists>oper. fst (record_intent c env i j) = fst (order_append c env oper j))" for env i
    by (auto simp: record_intent_def)
  have adv: "fst (advance c env i p j) = j \<or>
      (\<exists>oper. fst (advance c env i p j) = fst (order_append c env oper j))" for env i p j
    by (auto simp: advance_def split: option.split sum.split)
  show thesis
  proof (cases call)
    case (CallIntent env i)
    then show thesis using rec [of env i] none one by (metis order_call_apply.simps(1))
  next
    case (CallAdvance env i p)
    then show thesis using adv [of env i p j] none one by (metis order_call_apply.simps(3))
  next
    case (CallDiscovered env env' i order)
    let ?j = "fst (record_intent c env i j)"
    have "fst (order_call_apply c call j) = j \<or> fst (order_call_apply c call j) = ?j \<or>
        (\<exists>x p. fst (order_call_apply c call j) = fst (advance c env' x p ?j))"
      unfolding CallDiscovered
      by (auto simp: record_discovered_terminal_def split: sum.split prod.split)
    then show thesis using rec [of env i] adv [of env' _ _ ?j] none one two by metis
  qed
qed

lemma order_call_log:
  assumes ok: "order_codec_ok c" and seq: "unat (oj_next_sequence j) + 2 < 2 ^ 64"
  shows "(log_step (order_written c))\<^sup>*\<^sup>* (order_view j) (order_view (fst (order_call_apply c call j)))"
proof (cases rule: order_call_appends [where c = c and call = call and j = j])
  case (two env oper env' oper')
  let ?j = "fst (order_append c env oper j)"
  have "unat (oj_next_sequence ?j) + 1 < 2 ^ 64" using order_append_seq [of c env oper j] seq by linarith
  then show ?thesis
    using order_append_log [OF ok, of j env oper] order_append_log [OF ok, of ?j env' oper'] seq two
    by (simp add: converse_rtranclp_into_rtranclp)
qed (use order_append_log [OF ok, of j] seq in auto)

lemma order_call_seq:
  "unat (oj_next_sequence (fst (order_call_apply c call j))) \<le> unat (oj_next_sequence j) + 2"
proof (cases rule: order_call_appends [where c = c and call = call and j = j])
  case (one env oper)
  then show ?thesis using order_append_seq [of c env oper j] by simp
next
  case (two env oper env' oper')
  then show ?thesis
    using order_append_seq [of c env oper j] order_append_seq [of c env' oper' "fst (order_append c env oper j)"]
    by simp
qed simp

definition order_run :: "'d order_codec \<Rightarrow> 'd order_call list \<Rightarrow> 'd order_journal \<Rightarrow> 'd order_journal" where
  "order_run c calls j = fold (\<lambda>call j. fst (order_call_apply c call j)) calls j"

lemma order_run_log:
  assumes ok: "order_codec_ok c" and "unat (oj_next_sequence j) + 2 * length calls < 2 ^ 64"
  shows "(log_step (order_written c))\<^sup>*\<^sup>* (order_view j) (order_view (order_run c calls j))"
  using assms(2)
proof (induction calls arbitrary: j)
  case (Cons call calls)
  let ?j = "fst (order_call_apply c call j)"
  have "(log_step (order_written c))\<^sup>*\<^sup>* (order_view j) (order_view ?j)"
    using Cons.prems by (intro order_call_log [OF ok]) simp
  moreover have "(log_step (order_written c))\<^sup>*\<^sup>* (order_view ?j) (order_view (order_run c calls ?j))"
    using Cons.prems order_call_seq [of c call j] by (intro Cons.IH) simp
  ultimately show ?case by (simp add: order_run_def)
qed (simp add: order_run_def)

section \<open>Snapshots\<close>

definition snapshot_step :: "'d order_operations \<Rightarrow> 'd order_operations \<Rightarrow> bool" where
  "snapshot_step ops ops' \<longleftrightarrow> (\<exists>oper. apply_snapshot oper ops = Inr ops')"

lemma order_append_snapshot:
  "snapshot_step\<^sup>*\<^sup>* (oj_operations j) (oj_operations (fst (order_append c env oper j)))"
  by (cases rule: order_append_cases [where c = c and env = env and oper = oper and j = j])
    (auto simp: snapshot_step_def elim!: order_prepare_Inr split: option.split
      intro!: r_into_rtranclp)

lemma order_call_snapshot:
  "snapshot_step\<^sup>*\<^sup>* (oj_operations j) (oj_operations (fst (order_call_apply c call j)))"
  by (cases rule: order_call_appends [where c = c and call = call and j = j])
    (auto intro: order_append_snapshot rtranclp_trans)

lemma order_run_snapshot: "snapshot_step\<^sup>*\<^sup>* (oj_operations j) (oj_operations (order_run c calls j))"
proof (induction calls arbitrary: j)
  case (Cons call calls)
  then show ?case
    using order_call_snapshot [of j c call] Cons.IH [of "fst (order_call_apply c call j)"]
    by (auto simp: order_run_def intro: rtranclp_trans)
qed (simp add: order_run_def)

lemma apply_snapshot_Inr:
  "apply_snapshot oper ops = Inr ops' \<longleftrightarrow> validate_operation oper = Inr () \<and>
     ops' = bt_insert (oi_client_order_id (oo_intent oper)) oper ops \<and>
     (case bt_get ops (oi_client_order_id (oo_intent oper)) of
        None \<Rightarrow> oo_progress oper = OIntentRecorded
      | Some previous \<Rightarrow> oo_intent previous = oo_intent oper \<and> \<not> terminal (oo_progress previous) \<and>
          oo_progress oper \<noteq> OIntentRecorded)"
proof -
  have "reconciles p \<longleftrightarrow> p \<noteq> OIntentRecorded" for p :: "'a order_progress" by (cases p) simp_all
  then have "validate_transition p q = Inr () \<longleftrightarrow> \<not> terminal p \<and> q \<noteq> OIntentRecorded"
    for p q :: "'a order_progress"
    by (auto simp: validate_transition_def)
  then show ?thesis
    by (auto simp: apply_snapshot_def split: option.split)
qed

definition orders_valid :: "'d order_operations \<Rightarrow> bool" where
  "orders_valid ops \<longleftrightarrow> (\<forall>k oper. bt_get ops k = Some oper \<longrightarrow>
     oi_client_order_id (oo_intent oper) = k \<and> validate_operation oper = Inr ())"

definition orders_evolve :: "'d order_operations \<Rightarrow> 'd order_operations \<Rightarrow> bool" where
  "orders_evolve ops ops' \<longleftrightarrow> (\<forall>k oper. bt_get ops k = Some oper \<longrightarrow>
     (\<exists>oper'. bt_get ops' k = Some oper' \<and> oo_intent oper' = oo_intent oper \<and>
        (oper' = oper \<or> \<not> terminal (oo_progress oper) \<and> oo_progress oper' \<noteq> OIntentRecorded)))"

lemma snapshot_step_valid: "snapshot_step ops ops' \<Longrightarrow> orders_valid ops \<Longrightarrow> orders_valid ops'"
  by (auto simp: snapshot_step_def apply_snapshot_Inr orders_valid_def split: if_splits)

lemma snapshot_step_evolve: "snapshot_step ops ops' \<Longrightarrow> orders_evolve ops ops'"
  by (auto simp: snapshot_step_def apply_snapshot_Inr orders_evolve_def split: option.splits)

lemma orders_evolve_trans: "orders_evolve a b \<Longrightarrow> orders_evolve b c \<Longrightarrow> orders_evolve a c"
  unfolding orders_evolve_def by metis

lemma snapshot_steps_evolve: "snapshot_step\<^sup>*\<^sup>* ops ops' \<Longrightarrow> orders_evolve ops ops'"
proof (induction rule: rtranclp_induct)
  case base
  then show ?case by (simp add: orders_evolve_def)
next
  case (step y z)
  then show ?case using orders_evolve_trans snapshot_step_evolve by blast
qed

lemma snapshot_steps_valid: "snapshot_step\<^sup>*\<^sup>* ops ops' \<Longrightarrow> orders_valid ops \<Longrightarrow> orders_valid ops'"
  by (induction rule: rtranclp_induct) (auto intro: snapshot_step_valid)

lemma order_open_Inr:
  "order_journal_open c content = Inr j \<longleftrightarrow>
     order_replay_file c content = Inr (oj_operations j, oj_next_sequence j) \<and> oj_file j = content \<and>
     \<not> oj_poisoned j"
  by (cases j) (auto simp: order_journal_open_def)

lemma order_open_valid:
  assumes "order_journal_open c content = Inr j"
  shows "orders_valid (oj_operations j)"
proof -
  have "orders_valid (fst (oj_operations j, oj_next_sequence j))"
    using assms unfolding order_open_Inr order_replay_file_def
    by (elim conjE replay_lines_invariant [where P = "\<lambda>st. orders_valid (fst st)", rotated 2])
      (auto simp: order_replay_record_def orders_valid_def apply_snapshot_Inr split: prod.splits if_splits)
  then show ?thesis by simp
qed

lemma order_prepare_cong:
  assumes "oj_operations j = oj_operations j'" "oj_next_sequence j = oj_next_sequence j'"
    "oj_poisoned j = oj_poisoned j'"
  shows "order_prepare c now oper j = order_prepare c now oper j'"
  using assms by (simp add: order_prepare_def Let_def)

lemma order_written_prepare:
  assumes "order_written c (oj_operations j, oj_next_sequence j) line st'"
  shows "\<exists>now oper. order_prepare c now oper (j\<lparr>oj_poisoned := False\<rparr>) = Inr (fst st', line)"
proof -
  from assms obtain now oper j1 where p: "order_prepare c now oper j1 = Inr (fst st', line)"
    and eq: "oj_operations j = oj_operations j1" "oj_next_sequence j = oj_next_sequence j1"
    by (auto simp: order_written_def)
  from p have "\<not> oj_poisoned j1" by (rule order_prepare_Inr)
  with eq have "order_prepare c now oper (j\<lparr>oj_poisoned := False\<rparr>) = order_prepare c now oper j1"
    by (intro order_prepare_cong) simp_all
  with p show ?thesis by auto
qed

lemma order_append_result:
  assumes "order_append c env oper j = (j', r)" "unat (oj_next_sequence j) + 1 < 2 ^ 64"
  shows "case r of Inr _ \<Rightarrow> apply_snapshot oper (oj_operations j) = Inr (oj_operations j')
    | Inl _ \<Rightarrow> oj_operations j' = oj_operations j"
proof -
  obtain s where s: "checked_add (oj_next_sequence j) 1 = Some s" using assms(2) by (simp add: checked_add_def)
  show ?thesis
    by (cases rule: order_append_cases [where c = c and env = env and oper = oper and j = j])
      (use assms(1) s in \<open>auto elim!: order_prepare_Inr\<close>)
qed

section \<open>Properties\<close>

text \<open>
  (C19) Crash recovery of the order journal: after any calls, clock answers and write failures, reopening
  the file gives the journal in memory; after a failed write it gives the orders in memory, or those
  with the one snapshot whose write failed, or it refuses a partial record.
\<close>

theorem reopen_recovers_orders:
  assumes codec: "order_codec_ok c" and opened: "order_journal_open c content = Inr j0"
    and bound: "unat (oj_next_sequence j0) + 2 * length calls < 2 ^ 64"
    and j: "j = order_run c calls j0"
  shows "if \<not> oj_poisoned j then order_journal_open c (oj_file j) = Inr j
    else order_journal_open c (oj_file j) = Inr (j\<lparr>oj_poisoned := False\<rparr>) \<or>
      order_journal_open c (oj_file j) = Inl (Bail ''Binance order journal ends with a partial record'') \<or>
      (\<exists>j' now oper line. order_journal_open c (oj_file j) = Inr j' \<and>
         order_prepare c now oper (j\<lparr>oj_poisoned := False\<rparr>) = Inr (oj_operations j', line))"
proof -
  let ?ok = "\<lambda>j. log_ok (order_replay_file c) ''Binance order journal ends with a partial record''
    (order_written c) (order_view j)"
  have "?ok j0" using opened by (simp add: order_open_Inr order_view_def)
  then have d: "?ok j"
    using order_log.log_steps_ok [OF order_run_log [OF codec bound]] j
    unfolding order_replay_file_def by blast
  show ?thesis
  proof (cases "oj_poisoned j")
    case False
    then show ?thesis using d by (simp add: order_view_def order_open_Inr)
  next
    case True
    then consider "order_replay_file c (oj_file j) = Inr (oj_operations j, oj_next_sequence j)"
      | "order_replay_file c (oj_file j) = Inl (Bail ''Binance order journal ends with a partial record'')"
      | l st' where "order_written c (oj_operations j, oj_next_sequence j) l st'"
        "order_replay_file c (oj_file j) = Inr st'"
      using d by (auto simp: order_view_def)
    then show ?thesis
    proof cases
      case 1
      then show ?thesis using True by (simp add: order_open_Inr)
    next
      case 2
      then show ?thesis using True by (simp add: order_journal_open_def)
    next
      case (3 l st')
      then have "\<exists>j'. order_journal_open c (oj_file j) = Inr j' \<and> oj_operations j' = fst st'"
        by (auto simp: order_journal_open_def split: prod.split)
      with order_written_prepare [OF 3(1)] True show ?thesis by fastforce
    qed
  qed
qed

text \<open>
  (C20) The life of an order: in every journal that was opened and then used, each order is well formed
  and stored under its own client id; whatever calls follow, an order is kept with its intent, a
  terminal order never changes, and an order that has left its intent never returns to it.
\<close>

theorem orders_never_rewritten:
  assumes opened: "order_journal_open c content = Inr j0" and j: "j = order_run c calls j0"
    and oper: "bt_get (oj_operations j) k = Some oper"
  shows "oi_client_order_id (oo_intent oper) = k \<and> validate_operation oper = Inr () \<and>
    (\<exists>oper'. bt_get (oj_operations (order_run c calls' j)) k = Some oper' \<and>
       oo_intent oper' = oo_intent oper \<and> (terminal (oo_progress oper) \<longrightarrow> oper' = oper) \<and>
       (oo_progress oper \<noteq> OIntentRecorded \<longrightarrow> oo_progress oper' \<noteq> OIntentRecorded))"
proof -
  have "orders_valid (oj_operations j)"
    using snapshot_steps_valid [OF order_run_snapshot] order_open_valid [OF opened] j by blast
  moreover have "orders_evolve (oj_operations j) (oj_operations (order_run c calls' j))"
    by (rule snapshot_steps_evolve [OF order_run_snapshot])
  ultimately show ?thesis
    using oper unfolding orders_valid_def orders_evolve_def by metis
qed

lemma check_discovered_Inr:
  assumes "check_discovered c intent order j = Inr u"
  shows "or_client_order_id order = oi_client_order_id intent" "or_symbol order = oi_symbol intent"
    "or_side order = oi_side intent" "or_order_type order = oi_order_type intent"
    "\<forall>q. oi_quantity intent = Some q \<longrightarrow>
       (\<exists>v. oc_decimal_parse c q = Some v \<and> oc_decimal_eq c v (or_orig_qty order))"
    "\<forall>q. oi_quote_order_quantity intent = Some q \<longrightarrow>
       (\<exists>v. oc_decimal_parse c q = Some v \<and> oc_decimal_eq c v (or_orig_quote_order_qty order))"
    "or_status order = ''FILLED'' \<or> or_status order = ''CANCELED'' \<or> or_status order = ''EXPIRED'' \<or>
       or_status order = ''EXPIRED_IN_MATCH'' \<or> or_status order = ''REJECTED''"
  using assms by (auto simp: check_discovered_def terminal_statuses_def)

text \<open>
  (C21) Adopting an order found on the venue: on success exactly one order is new, stored as terminal with
  the venue's result under the operator's intent; the two agree on id, symbol, side, type and on each
  quantity the intent gives, and the venue's status is one of its five final ones.  On an error the journal holds at most the bare intent, never a terminal state.
\<close>

theorem discovered_terminal_adopted:
  assumes "record_discovered_terminal c env1 env2 intent order j = (j', r)"
    and seq: "unat (oj_next_sequence j) + 2 < 2 ^ 64"
  shows "case r of
      Inr _ \<Rightarrow> bt_get (oj_operations j) (oi_client_order_id intent) = None \<and>
        oj_operations j' = bt_insert (oi_client_order_id intent)
          \<lparr>oo_intent = intent, oo_progress = OTerminal (or_order_id order) (or_status order)
             (oc_decimal_to_string c (or_executed_qty order))
             (oc_decimal_to_string c (or_cummulative_quote_qty order)) (Some order)\<rparr> (oj_operations j) \<and>
        or_client_order_id order = oi_client_order_id intent \<and> or_symbol order = oi_symbol intent \<and>
        or_side order = oi_side intent \<and> or_order_type order = oi_order_type intent \<and>
        (\<forall>q. oi_quantity intent = Some q \<longrightarrow>
           (\<exists>v. oc_decimal_parse c q = Some v \<and> oc_decimal_eq c v (or_orig_qty order))) \<and>
        (\<forall>q. oi_quote_order_quantity intent = Some q \<longrightarrow>
           (\<exists>v. oc_decimal_parse c q = Some v \<and> oc_decimal_eq c v (or_orig_quote_order_qty order))) \<and>
        or_status order \<in> {''FILLED'', ''CANCELED'', ''EXPIRED'', ''EXPIRED_IN_MATCH'', ''REJECTED''}
    | Inl _ \<Rightarrow> oj_operations j' = oj_operations j \<or>
        oj_operations j' = bt_insert (oi_client_order_id intent)
          \<lparr>oo_intent = intent, oo_progress = OIntentRecorded\<rparr> (oj_operations j)"
proof (cases "check_discovered c intent order j")
  case (Inl e)
  then have "r = Inl e" "j' = j" using assms(1) by (simp_all add: record_discovered_terminal_def)
  then show ?thesis by simp
next
  case ok: (Inr u)
  let ?id = "oi_client_order_id intent"
  let ?i = "\<lparr>oo_intent = intent, oo_progress = OIntentRecorded\<rparr> :: 'a order_operation"
  have fresh: "\<not> bt_contains (oj_operations j) ?id" and same: "or_client_order_id order = ?id"
    using ok by (auto simp: check_discovered_def)
  obtain j1 r1 where j1: "order_append c env1 ?i j = (j1, r1)" by fastforce
  then have rec: "record_intent c env1 intent j = (j1, r1)" using fresh by (simp add: record_intent_def)
  have seq1: "unat (oj_next_sequence j1) + 1 < 2 ^ 64"
    using order_append_seq [of c env1 ?i j] seq j1 by simp
  note first = order_append_result [OF j1]
  show ?thesis
  proof (cases r1)
    case (Inl e)
    then have "r = Inl e" "j' = j1" using assms(1) ok rec by (simp_all add: record_discovered_terminal_def)
    then show ?thesis using Inl first seq by simp
  next
    case (Inr u1)
    then have ops1: "oj_operations j1 = bt_insert ?id ?i (oj_operations j)"
      using first seq by (simp add: apply_snapshot_Inr)
    let ?t = "\<lparr>oo_intent = intent, oo_progress = OTerminal (or_order_id order) (or_status order)
      (oc_decimal_to_string c (or_executed_qty order))
      (oc_decimal_to_string c (or_cummulative_quote_qty order)) (Some order)\<rparr>"
    have "order_append c env2 ?t j1 = (j', r)"
      using assms(1) ok rec Inr same ops1
      by (simp add: record_discovered_terminal_def advance_def validate_transition_def)
    from order_append_result [OF this seq1] show ?thesis
      using ops1 fresh check_discovered_Inr [OF ok] by (auto simp: apply_snapshot_Inr bt_contains_iff bt.insert_insert split: sum.splits)
  qed
qed

section \<open>A concrete order\<close>

text \<open>Decimals are numbers in unary; the codec knows the two records of one adopted order.\<close>

definition venue_intent :: order_intent where
  "venue_intent = \<lparr>oi_scope = None, oi_operation_id = ''op'', oi_client_order_id = ''rustval1'',
     oi_symbol = ''WLD'', oi_side = ''BUY'', oi_order_type = ''MARKET'', oi_quantity = Some ''11'',
     oi_quote_order_quantity = None, oi_limit_price = None\<rparr>"

definition venue_order :: "nat order_result" where
  "venue_order = \<lparr>or_symbol = ''WLD'', or_order_id = 42, or_client_order_id = ''rustval1'',
     or_transact_time = None, or_price = 1, or_orig_qty = 2, or_executed_qty = 2,
     or_orig_quote_order_qty = 0, or_cummulative_quote_qty = 2, or_status = ''FILLED'',
     or_time_in_force = ''GTC'', or_order_type = ''MARKET'', or_side = ''BUY'', or_fills = []\<rparr>"

definition venue_intended :: "nat order_operation" where
  "venue_intended = \<lparr>oo_intent = venue_intent, oo_progress = OIntentRecorded\<rparr>"

definition venue_filled :: "nat order_operation" where
  "venue_filled = \<lparr>oo_intent = venue_intent,
     oo_progress = OTerminal 42 ''FILLED'' ''11'' ''11'' (Some venue_order)\<rparr>"

definition venue_record :: "u64 \<Rightarrow> u64 \<Rightarrow> nat order_operation \<Rightarrow> nat order_record" where
  "venue_record seq t oper = \<lparr>orr_payload = \<lparr>op_version = 1, op_sequence = seq,
     op_recorded_at_unix_ms = t, op_operation = oper\<rparr>, orr_checksum_sha256 = ''h''\<rparr>"

definition venue_codec :: "nat order_codec" where
  "venue_codec = \<lparr>
     oc_record_to_vec = (\<lambda>r. if r = venue_record 0 5 venue_intended then Some ''A''
                            else if r = venue_record 1 6 venue_filled then Some ''B'' else None),
     oc_record_from_slice = (\<lambda>b. if b = ''A'' then Some (venue_record 0 5 venue_intended)
                                else if b = ''B'' then Some (venue_record 1 6 venue_filled) else None),
     oc_payload_to_vec = (\<lambda>_. Some []), oc_sha256_hex = (\<lambda>_. ''h''),
     oc_decimal_parse = (\<lambda>s. Some (length s)), oc_decimal_eq = (=),
     oc_decimal_to_string = (\<lambda>n. replicate n CHR ''1'')\<rparr>"

definition venue_empty :: "nat order_journal" where
  "venue_empty = \<lparr>oj_file = [], oj_operations = bt_empty, oj_next_sequence = 0, oj_poisoned = False\<rparr>"

definition venue_adopted :: "nat order_journal" where
  "venue_adopted = \<lparr>oj_file = ''A'' @ nl # ''B'' @ [nl],
     oj_operations = bt_insert ''rustval1'' venue_filled bt_empty, oj_next_sequence = 2,
     oj_poisoned = False\<rparr>"

lemma venue_codec_ok: "order_codec_ok venue_codec"
  by (auto simp: order_codec_ok_def venue_codec_def nl_def split: if_splits)

lemma venue_open: "order_journal_open venue_codec [] = Inr venue_empty"
  by (simp add: order_journal_open_def order_replay_file_def venue_empty_def)

lemma venue_codec_sel [simp]:
  "oc_record_to_vec venue_codec (venue_record 0 5 venue_intended) = Some ''A''"
  "oc_record_to_vec venue_codec (venue_record 1 6 venue_filled) = Some ''B''"
  "order_checksum venue_codec p = Inr ''h''"
  by (simp_all add: venue_codec_def order_checksum_def venue_record_def)

lemma venue_valid: "validate_operation venue_intended = Inr ()" "validate_operation venue_filled = Inr ()"
  by (simp_all add: validate_operation_def venue_intended_def venue_filled_def venue_intent_def
      validate_text_def text_byte_def is_ascii_alphanumeric_def byte_def starts_with_def
      validate_limit_fields_def)

lemma venue_intended_step:
  "order_append venue_codec (Inr 5, Durable) venue_intended venue_empty =
     (\<lparr>oj_file = ''A'' @ [nl], oj_operations = bt_insert ''rustval1'' venue_intended bt_empty,
       oj_next_sequence = 1, oj_poisoned = False\<rparr>, Inr ())"
proof -
  have rcd: "order_record_new venue_codec \<lparr>op_version = order_version, op_sequence = 0,
      op_recorded_at_unix_ms = 5, op_operation = venue_intended\<rparr> = Inr (venue_record 0 5 venue_intended)"
    by (simp add: order_record_new_def venue_record_def order_version_def)
  have key: "oi_client_order_id (oo_intent venue_intended) = ''rustval1''" "oo_progress venue_intended = OIntentRecorded"
    by (simp_all add: venue_intended_def venue_intent_def)
  have "apply_snapshot venue_intended bt_empty = Inr (bt_insert ''rustval1'' venue_intended bt_empty)"
    using venue_valid key by (simp add: apply_snapshot_Inr)
  then have "order_prepare venue_codec (Inr 5) venue_intended venue_empty =
      Inr (bt_insert ''rustval1'' venue_intended bt_empty, ''A'')"
    using rcd venue_valid by (simp add: order_prepare_def venue_empty_def max_line_bytes_def)
  then show ?thesis by (simp add: order_append_def Let_def venue_empty_def checked_add_def)
qed

lemma venue_filled_step:
  "order_append venue_codec (Inr 6, Durable) venue_filled
     \<lparr>oj_file = ''A'' @ [nl], oj_operations = bt_insert ''rustval1'' venue_intended bt_empty,
      oj_next_sequence = 1, oj_poisoned = False\<rparr> = (venue_adopted, Inr ())"
proof -
  let ?ops = "bt_insert ''rustval1'' venue_intended bt_empty"
  have rcd: "order_record_new venue_codec \<lparr>op_version = order_version, op_sequence = 1,
      op_recorded_at_unix_ms = 6, op_operation = venue_filled\<rparr> = Inr (venue_record 1 6 venue_filled)"
    by (simp add: order_record_new_def venue_record_def order_version_def)
  have key: "oi_client_order_id (oo_intent venue_filled) = ''rustval1''"
    "oo_progress venue_filled \<noteq> OIntentRecorded" "oo_intent venue_intended = oo_intent venue_filled"
    "\<not> terminal (oo_progress venue_intended)"
    by (simp_all add: venue_filled_def venue_intended_def venue_intent_def)
  have "apply_snapshot venue_filled ?ops = Inr (bt_insert ''rustval1'' venue_filled bt_empty)"
    using venue_valid key by (simp add: apply_snapshot_Inr bt.insert_insert)
  then have "order_prepare venue_codec (Inr 6) venue_filled
      \<lparr>oj_file = ''A'' @ [nl], oj_operations = ?ops, oj_next_sequence = 1, oj_poisoned = False\<rparr> =
      Inr (bt_insert ''rustval1'' venue_filled bt_empty, ''B'')"
    using rcd venue_valid by (simp add: order_prepare_def max_line_bytes_def)
  then show ?thesis by (simp add: order_append_def Let_def checked_add_def venue_adopted_def)
qed

lemma venue_filled_eq: "\<lparr>oo_intent = venue_intent, oo_progress = OTerminal (or_order_id venue_order)
     (or_status venue_order) (oc_decimal_to_string venue_codec (or_executed_qty venue_order))
     (oc_decimal_to_string venue_codec (or_cummulative_quote_qty venue_order)) (Some venue_order)\<rparr> =
     venue_filled"
  by (simp add: venue_filled_def venue_order_def venue_codec_def numeral_2_eq_2)

lemma venue_adopt:
  "record_discovered_terminal venue_codec (Inr 5, Durable) (Inr 6, Durable) venue_intent venue_order
     venue_empty = (venue_adopted, Inr ())"
proof -
  have check: "check_discovered venue_codec venue_intent venue_order venue_empty = Inr ()"
    by (simp add: check_discovered_def venue_intent_def venue_order_def venue_empty_def venue_codec_def
        terminal_statuses_def)
  have rec: "record_intent venue_codec (Inr 5, Durable) venue_intent venue_empty =
      (\<lparr>oj_file = ''A'' @ [nl], oj_operations = bt_insert ''rustval1'' venue_intended bt_empty,
        oj_next_sequence = 1, oj_poisoned = False\<rparr>, Inr ())"
    using venue_intended_step by (simp add: record_intent_def venue_intended_def) (simp add: venue_empty_def)
  have ids: "or_client_order_id venue_order = ''rustval1''" "oo_intent venue_intended = venue_intent"
    "oo_progress venue_intended = OIntentRecorded"
    by (simp_all add: venue_order_def venue_intended_def)
  show ?thesis
    using venue_filled_step
    by (simp add: record_discovered_terminal_def check rec advance_def ids validate_transition_def venue_filled_eq)
qed

theorem reopen_recovers_orders_witness:
  "order_journal_open venue_codec (''A'' @ nl # ''B'' @ [nl]) = Inr venue_adopted"
proof -
  let ?calls = "[CallDiscovered (Inr 5, Durable) (Inr 6, Durable) venue_intent venue_order]"
  have run: "venue_adopted = order_run venue_codec ?calls venue_empty"
    by (simp add: order_run_def venue_adopt)
  have bound: "unat (oj_next_sequence venue_empty) + 2 * length ?calls < 2 ^ 64"
    by (simp add: venue_empty_def)
  have np: "\<not> oj_poisoned venue_adopted" and f: "oj_file venue_adopted = ''A'' @ nl # ''B'' @ [nl]"
    by (simp_all add: venue_adopted_def)
  from reopen_recovers_orders [OF venue_codec_ok venue_open bound run, unfolded if_P [OF np] f]
  show ?thesis .
qed

theorem orders_never_rewritten_witness:
  "bt_get (oj_operations (order_run venue_codec
     [CallAdvance (Inr 7, Durable) ''rustval1'' (OOutcomeUnknown ''timeout'')] venue_adopted)) ''rustval1'' =
     Some venue_filled"
proof -
  let ?calls = "[CallDiscovered (Inr 5, Durable) (Inr 6, Durable) venue_intent venue_order]"
  have run: "venue_adopted = order_run venue_codec ?calls venue_empty"
    by (simp add: order_run_def venue_adopt)
  have get: "bt_get (oj_operations venue_adopted) ''rustval1'' = Some venue_filled"
    by (simp add: venue_adopted_def)
  have "terminal (oo_progress venue_filled)" by (simp add: venue_filled_def)
  with orders_never_rewritten [OF venue_open run get,
      of "[CallAdvance (Inr 7, Durable) ''rustval1'' (OOutcomeUnknown ''timeout'')]"]
  show ?thesis by auto
qed

theorem discovered_terminal_adopted_witness:
  "bt_get (oj_operations venue_empty) ''rustval1'' = None \<and>
   bt_get (oj_operations venue_adopted) ''rustval1'' = Some venue_filled \<and>
   or_symbol venue_order = oi_symbol venue_intent \<and> or_side venue_order = oi_side venue_intent \<and>
   or_status venue_order \<in> {''FILLED'', ''CANCELED'', ''EXPIRED'', ''EXPIRED_IN_MATCH'', ''REJECTED''}"
proof -
  have "unat (oj_next_sequence venue_empty) + 2 < 2 ^ 64" by (simp add: venue_empty_def)
  moreover have "oi_client_order_id venue_intent = ''rustval1''" by (simp add: venue_intent_def)
  ultimately show ?thesis
    using discovered_terminal_adopted [OF venue_adopt] by (simp add: venue_filled_eq venue_empty_def)
qed

end
