(* ===== verification/Clmm_Pool.thy ===== *)
theory Clmm_Pool
  imports Prelude
begin

text \<open>
  The local mirror of a concentrated-liquidity pool, \<open>src/src/dex/clmm.rs\<close>: the pool and its tick maps,
  the swap loops that quote an exact input or an exact output, and the prepared curves that answer
  the same questions from precomputed segments.

  The arithmetic of one swap step, of ticks and prices, and the bitmap of spacing-compressed pools come
  from the crate \<open>uniswap_v3_math\<close>: they are the fields of \<open>v3_math\<close>, an argument of every operation that
  uses them.  The bitmap of Algebra pools is this file's own code.  Ticks and net liquidities are
  \<open>int\<close> with the range of \<open>i32\<close> and \<open>i128\<close>; hash maps are maps.
\<close>

unbundle bit_operations_syntax

section \<open>Data\<close>

datatype tick_traversal = SpacingCompressed | AlgebraRaw

datatype fee_profile = Static | AlgebraDirectional | AlgebraSingle

record tick_liquidity =
  tl_gross :: u128
  tl_net :: int

type_synonym tick_table = "int \<rightharpoonup> u256"

record clmm_pool =
  cp_fee_pips :: u32
  cp_one_for_zero_fee_pips :: u32
  cp_tick_spacing :: int
  cp_sqrt_price_x96 :: u256
  cp_tick :: int
  cp_liquidity :: u128
  cp_tick_bitmap :: tick_table
  cp_ticks :: "int \<rightharpoonup> tick_liquidity"
  cp_word_boundary_sqrt_ratios :: "int \<rightharpoonup> u256"
  cp_tick_traversal :: tick_traversal
  cp_fee_profile :: fee_profile

record local_quote =
  lq_amount_out :: u256
  lq_sqrt_price_after_x96 :: u256
  lq_tick_after :: int
  lq_liquidity_after :: u128
  lq_initialized_ticks_crossed :: u32

datatype prepared_quote_kind = ExactInput | ExactOutput

record prepared_quote_segment =
  sg_specified_end :: u256
  sg_result_end :: u256
  sg_sqrt_price_start_x96 :: u256
  sg_sqrt_price_target_x96 :: u256
  sg_liquidity :: u128

record prepared_quote_curve =
  cv_kind :: prepared_quote_kind
  cv_fee_pips :: u32
  cv_segments :: "prepared_quote_segment list"

datatype clmm_cause = InsufficientLiquidity

type_synonym 'a clmm_res = "(clmm_cause, 'a) res"

text \<open>
  The library.  A step takes the current and the target price, the liquidity, the remaining amount
  (positive for an exact input, negative for an exact output) and the fee, and returns the price
  after it, the input, the output and the fee.
\<close>

record v3_math =
  vm_min_tick :: int
  vm_max_tick :: int
  vm_min_sqrt_ratio :: u256
  vm_max_sqrt_ratio :: u256
  vm_compute_swap_step :: "u256 \<Rightarrow> u256 \<Rightarrow> u128 \<Rightarrow> int \<Rightarrow> u32 \<Rightarrow> (u256 \<times> u256 \<times> u256 \<times> u256) option"
  vm_add_delta :: "u128 \<Rightarrow> int \<Rightarrow> u128 option"
  vm_flip_tick :: "tick_table \<Rightarrow> int \<Rightarrow> int \<Rightarrow> tick_table option"
  vm_next_tick :: "tick_table \<Rightarrow> int \<Rightarrow> int \<Rightarrow> bool \<Rightarrow> (int \<times> bool) option"
  vm_sqrt_ratio_at_tick :: "int \<Rightarrow> u256 option"
  vm_tick_at_sqrt_ratio :: "u256 \<Rightarrow> int option"

section \<open>Construction\<close>

definition clamp :: "int \<Rightarrow> int \<Rightarrow> int \<Rightarrow> int" where
  "clamp low high x = (if x < low then low else if x > high then high else x)"

definition cache_ratio ::
  "v3_math \<Rightarrow> string \<Rightarrow> int \<Rightarrow> (int \<rightharpoonup> u256) \<Rightarrow> (int \<rightharpoonup> u256) clmm_res" where
  "cache_ratio vm msg tick ratios =
     bind_res (context_opt (vm_sqrt_ratio_at_tick vm tick) msg) (\<lambda>ratio.
     Inr (case ratios tick of None \<Rightarrow> ratios(tick \<mapsto> ratio) | Some _ \<Rightarrow> ratios))"

definition cache_word ::
  "v3_math \<Rightarrow> int \<Rightarrow> int \<Rightarrow> (int \<rightharpoonup> u256) \<Rightarrow> (int \<rightharpoonup> u256) clmm_res" where
  "cache_word vm scale word ratios =
     (let word_start = word * 256;
          lower = clamp (vm_min_tick vm) (vm_max_tick vm) (word_start * scale);
          upper = clamp (vm_min_tick vm) (vm_max_tick vm) ((word_start + 255) * scale) in
      for_each (cache_ratio vm ''failed to cache word-boundary price'') [lower, upper] ratios)"

text \<open>
  The function behind the process-wide cache of \<open>word_boundary_sqrt_ratios\<close>; \<open>div\<close> is the Euclidean
  division and the arithmetic shift of the source, because divisors are positive.
\<close>

definition word_boundary_sqrt_ratios ::
  "v3_math \<Rightarrow> int \<Rightarrow> tick_traversal \<Rightarrow> (int \<rightharpoonup> u256) clmm_res" where
  "word_boundary_sqrt_ratios vm tick_spacing traversal =
     (let (minimum_word, maximum_word, scale) =
        (case traversal of
           SpacingCompressed \<Rightarrow>
             (vm_min_tick vm div tick_spacing div 256, vm_max_tick vm div tick_spacing div 256, tick_spacing)
         | AlgebraRaw \<Rightarrow> (vm_min_tick vm div 256, vm_max_tick vm div 256, 1)) in
      bind_res (for_each (cache_word vm scale) [minimum_word..maximum_word] Map.empty)
        (for_each (cache_ratio vm ''failed to cache terminal price'') [vm_min_tick vm, vm_max_tick vm]))"

definition new_with_profile ::
  "v3_math \<Rightarrow> u32 \<Rightarrow> u32 \<Rightarrow> int \<Rightarrow> u256 \<Rightarrow> int \<Rightarrow> u128 \<Rightarrow> fee_profile \<Rightarrow> clmm_pool clmm_res" where
  "new_with_profile vm fee01 fee10 tick_spacing sqrt_price_x96 tick liquidity profile =
     ensure (fee01 < 1000000 \<and> fee10 < 1000000) ''fee must be below 1_000_000 pips''
     (ensure (tick_spacing > 0) ''tick spacing must be positive''
     (ensure (vm_min_tick vm \<le> tick \<and> tick \<le> vm_max_tick vm) ''tick is out of range''
     (ensure (sqrt_price_x96 \<ge> vm_min_sqrt_ratio vm \<and> sqrt_price_x96 < vm_max_sqrt_ratio vm)
       ''sqrt price is out of range''
     (ensure (liquidity > 0) ''active liquidity must be positive''
     (let traversal = (case profile of Static \<Rightarrow> SpacingCompressed | _ \<Rightarrow> AlgebraRaw) in
      bind_res (word_boundary_sqrt_ratios vm tick_spacing traversal) (\<lambda>ratios.
      Inr \<lparr>cp_fee_pips = fee01, cp_one_for_zero_fee_pips = fee10, cp_tick_spacing = tick_spacing,
           cp_sqrt_price_x96 = sqrt_price_x96, cp_tick = tick, cp_liquidity = liquidity,
           cp_tick_bitmap = Map.empty, cp_ticks = Map.empty, cp_word_boundary_sqrt_ratios = ratios,
           cp_tick_traversal = traversal, cp_fee_profile = profile\<rparr>))))))"

definition pool_new :: "v3_math \<Rightarrow> u32 \<Rightarrow> int \<Rightarrow> u256 \<Rightarrow> int \<Rightarrow> u128 \<Rightarrow> clmm_pool clmm_res" where
  "pool_new vm fee_pips tick_spacing sqrt_price_x96 tick liquidity =
     new_with_profile vm fee_pips fee_pips tick_spacing sqrt_price_x96 tick liquidity Static"

definition new_algebra_v1_9 ::
  "v3_math \<Rightarrow> u32 \<Rightarrow> u32 \<Rightarrow> int \<Rightarrow> u256 \<Rightarrow> int \<Rightarrow> u128 \<Rightarrow> clmm_pool clmm_res" where
  "new_algebra_v1_9 vm fee01 fee10 tick_spacing sqrt_price_x96 tick liquidity =
     new_with_profile vm fee01 fee10 tick_spacing sqrt_price_x96 tick liquidity AlgebraDirectional"

definition new_single_fee_algebra_v1_9 ::
  "v3_math \<Rightarrow> u16 \<Rightarrow> int \<Rightarrow> u256 \<Rightarrow> int \<Rightarrow> u128 \<Rightarrow> clmm_pool clmm_res" where
  "new_single_fee_algebra_v1_9 vm fee_pips tick_spacing sqrt_price_x96 tick liquidity =
     new_with_profile vm (ucast fee_pips) (ucast fee_pips) tick_spacing sqrt_price_x96 tick liquidity
       AlgebraSingle"

section \<open>Fees\<close>

definition fee_pips_for_direction :: "clmm_pool \<Rightarrow> bool \<Rightarrow> u32" where
  "fee_pips_for_direction pool zero_for_one =
     (if zero_for_one then cp_fee_pips pool else cp_one_for_zero_fee_pips pool)"

definition directional_fee_pips :: "clmm_pool \<Rightarrow> u32 \<times> u32" where
  "directional_fee_pips pool = (cp_fee_pips pool, cp_one_for_zero_fee_pips pool)"

definition set_algebra_directional_fees ::
  "u32 \<Rightarrow> u32 \<Rightarrow> clmm_pool \<Rightarrow> clmm_pool \<times> unit clmm_res" where
  "set_algebra_directional_fees fee01 fee10 pool =
     (if \<not> (cp_tick_traversal pool = AlgebraRaw \<and> cp_fee_profile pool = AlgebraDirectional) then
        (pool, Inl (Bail ''directional fees require the directional Algebra V1.9 profile''))
      else if \<not> (fee01 < 1000000 \<and> fee10 < 1000000) then
        (pool, Inl (Bail ''fee must be below 1_000_000 pips''))
      else (pool\<lparr>cp_fee_pips := fee01, cp_one_for_zero_fee_pips := fee10\<rparr>, Inr ()))"

definition set_algebra_single_fee :: "u16 \<Rightarrow> clmm_pool \<Rightarrow> clmm_pool \<times> unit clmm_res" where
  "set_algebra_single_fee fee pool =
     (if \<not> (cp_tick_traversal pool = AlgebraRaw \<and> cp_fee_profile pool = AlgebraSingle) then
        (pool, Inl (Bail ''single fee requires the single-fee Algebra V1.9 profile''))
      else (pool\<lparr>cp_fee_pips := ucast fee, cp_one_for_zero_fee_pips := ucast fee\<rparr>, Inr ()))"

section \<open>Ticks\<close>

definition tick_liquidity_at :: "clmm_pool \<Rightarrow> int \<Rightarrow> tick_liquidity option" where
  "tick_liquidity_at pool index = cp_ticks pool index"

definition pool_flip_tick :: "v3_math \<Rightarrow> int \<Rightarrow> clmm_pool \<Rightarrow> clmm_pool clmm_res" where
  "pool_flip_tick vm tick pool =
     (case cp_tick_traversal pool of
        SpacingCompressed \<Rightarrow>
          bind_res (context_opt (vm_flip_tick vm (cp_tick_bitmap pool) tick (cp_tick_spacing pool))
                      ''failed to toggle spacing-compressed tick'') (\<lambda>bitmap.
          Inr (pool\<lparr>cp_tick_bitmap := bitmap\<rparr>))
      | AlgebraRaw \<Rightarrow>
          bind_res (context_opt (i16_try_from (tick div 256)) ''Algebra tick row exceeds int16'') (\<lambda>word.
          let entry = (case cp_tick_bitmap pool word of None \<Rightarrow> 0 | Some row \<Rightarrow> row) in
          Inr (pool\<lparr>cp_tick_bitmap := (cp_tick_bitmap pool)
                 (word \<mapsto> entry XOR push_bit (nat (tick mod 256)) 1)\<rparr>)))"

definition set_tick ::
  "v3_math \<Rightarrow> int \<Rightarrow> u128 \<Rightarrow> int \<Rightarrow> clmm_pool \<Rightarrow> clmm_pool \<times> unit clmm_res" where
  "set_tick vm index gross net pool =
     (if index mod cp_tick_spacing pool \<noteq> 0 then (pool, Inl (Bail ''tick does not align to spacing''))
      else if \<not> (vm_min_tick vm \<le> index \<and> index \<le> vm_max_tick vm) then
        (pool, Inl (Bail ''tick is out of range''))
      else
        (case cp_ticks pool index of
           None \<Rightarrow>
             (if gross = 0 then (pool, Inr ())
              else case pool_flip_tick vm index pool of
                Inl _ \<Rightarrow> (pool, Inl (Bail ''failed to initialize tick bitmap bit''))
              | Inr pool' \<Rightarrow>
                  (pool'\<lparr>cp_ticks := (cp_ticks pool')(index \<mapsto> \<lparr>tl_gross = gross, tl_net = net\<rparr>)\<rparr>, Inr ()))
         | Some _ \<Rightarrow>
             (if gross = 0 then
                (case pool_flip_tick vm index pool of
                   Inl _ \<Rightarrow> (pool, Inl (Bail ''failed to clear tick bitmap bit''))
                 | Inr pool' \<Rightarrow> (pool'\<lparr>cp_ticks := (cp_ticks pool')(index := None)\<rparr>, Inr ()))
              else
                (pool\<lparr>cp_ticks := (cp_ticks pool)(index \<mapsto> \<lparr>tl_gross = gross, tl_net = net\<rparr>)\<rparr>, Inr ()))))"

definition apply_swap_head ::
  "v3_math \<Rightarrow> u256 \<Rightarrow> int \<Rightarrow> u128 \<Rightarrow> clmm_pool \<Rightarrow> clmm_pool \<times> unit clmm_res" where
  "apply_swap_head vm sqrt_price_x96 tick liquidity pool =
     (if \<not> (sqrt_price_x96 \<ge> vm_min_sqrt_ratio vm \<and> sqrt_price_x96 < vm_max_sqrt_ratio vm) then
        (pool, Inl (Bail ''sqrt price is out of range''))
      else if \<not> (vm_min_tick vm \<le> tick \<and> tick \<le> vm_max_tick vm) then
        (pool, Inl (Bail ''tick is out of range''))
      else if \<not> liquidity > 0 then (pool, Inl (Bail ''active liquidity must be positive''))
      else
        (pool\<lparr>cp_sqrt_price_x96 := sqrt_price_x96, cp_tick := tick, cp_liquidity := liquidity\<rparr>, Inr ()))"

definition checked_neg_i128 :: "int \<Rightarrow> int option" where
  "checked_neg_i128 x = checked_i128 (- x)"

definition updated_boundary ::
  "tick_liquidity option \<Rightarrow> u128 \<Rightarrow> int \<Rightarrow> bool \<Rightarrow> tick_liquidity clmm_res" where
  "updated_boundary current amount net_delta adding =
     (let current = (case current of Some t \<Rightarrow> t | None \<Rightarrow> \<lparr>tl_gross = 0, tl_net = 0\<rparr>) in
      bind_res (if adding
                then context_opt (checked_add (tl_gross current) amount) ''gross tick liquidity overflow''
                else context_opt (checked_sub (tl_gross current) amount)
                       ''removed more gross tick liquidity than hydrated'') (\<lambda>gross.
      bind_res (context_opt (checked_i128 (tl_net current + net_delta)) ''net tick liquidity overflow'') (\<lambda>net.
      ensure (gross \<noteq> 0 \<or> net = 0) ''zero gross tick liquidity has non-zero net liquidity''
      (Inr \<lparr>tl_gross = gross, tl_net = net\<rparr>))))"

text \<open>
  \<open>apply_liquidity_delta\<close> up to its writes: the two boundaries and the new active liquidity, if the
  current tick is in the range.
\<close>

definition liquidity_delta_plan ::
  "v3_math \<Rightarrow> int \<Rightarrow> int \<Rightarrow> int \<Rightarrow> clmm_pool \<Rightarrow>
   (tick_liquidity \<times> tick_liquidity \<times> u128 option) clmm_res" where
  "liquidity_delta_plan vm tick_lower tick_upper delta pool =
     (let amount = of_int \<bar>delta\<bar> in
      bind_res (updated_boundary (cp_ticks pool tick_lower) amount delta (delta > 0)) (\<lambda>lower.
      bind_res (context_opt (checked_neg_i128 delta) ''liquidity delta overflow'') (\<lambda>upper_net_delta.
      bind_res (updated_boundary (cp_ticks pool tick_upper) amount upper_net_delta (delta > 0)) (\<lambda>upper.
      bind_res (if tick_lower \<le> cp_tick pool \<and> cp_tick pool < tick_upper
                then bind_res (context_opt (vm_add_delta vm (cp_liquidity pool) delta)
                                 ''active liquidity update failed'') (\<lambda>l. Inr (Some l))
                else Inr None) (\<lambda>active_liquidity.
      Inr (lower, upper, active_liquidity))))))"

definition apply_liquidity_delta ::
  "v3_math \<Rightarrow> int \<Rightarrow> int \<Rightarrow> int \<Rightarrow> clmm_pool \<Rightarrow> clmm_pool \<times> unit clmm_res" where
  "apply_liquidity_delta vm tick_lower tick_upper delta pool =
     (if \<not> tick_lower < tick_upper then (pool, Inl (Bail ''liquidity range is empty''))
      else if \<not> (tick_lower mod cp_tick_spacing pool = 0 \<and> tick_upper mod cp_tick_spacing pool = 0) then
        (pool, Inl (Bail ''liquidity range does not align to tick spacing''))
      else if \<not> (vm_min_tick vm \<le> tick_lower \<and> tick_lower \<le> vm_max_tick vm \<and>
                 vm_min_tick vm \<le> tick_upper \<and> tick_upper \<le> vm_max_tick vm) then
        (pool, Inl (Bail ''liquidity range is out of bounds''))
      else if delta = 0 then (pool, Inr ())
      else
        (case liquidity_delta_plan vm tick_lower tick_upper delta pool of
           Inl e \<Rightarrow> (pool, Inl e)
         | Inr (lower, upper, active_liquidity) \<Rightarrow>
             (case set_tick vm tick_lower (tl_gross lower) (tl_net lower) pool of
                (pool1, Inl e) \<Rightarrow> (pool1, Inl e)
              | (pool1, Inr _) \<Rightarrow>
                  (case set_tick vm tick_upper (tl_gross upper) (tl_net upper) pool1 of
                     (pool2, Inl e) \<Rightarrow> (pool2, Inl e)
                   | (pool2, Inr _) \<Rightarrow>
                       (case active_liquidity of
                          Some l \<Rightarrow> (pool2\<lparr>cp_liquidity := l\<rparr>, Inr ())
                        | None \<Rightarrow> (pool2, Inr ()))))))"

section \<open>Traversal\<close>

text \<open>\<open>leading_zeros\<close> and \<open>trailing_zeros\<close> of a non-zero row, as the highest and the lowest set bit.\<close>

definition leading_zeros :: "u256 \<Rightarrow> nat" where
  "leading_zeros w = length (takeWhile (\<lambda>n. \<not> bit w n) (rev [0..<256]))"

definition trailing_zeros :: "u256 \<Rightarrow> nat" where
  "trailing_zeros w = length (takeWhile (\<lambda>n. \<not> bit w n) [0..<256])"

definition next_algebra_tick_in_same_row ::
  "v3_math \<Rightarrow> tick_table \<Rightarrow> int \<Rightarrow> bool \<Rightarrow> int \<times> bool" where
  "next_algebra_tick_in_same_row vm table tick zero_for_one =
     (let search_tick = (if zero_for_one then tick else saturate_i32 (tick + 1));
          word = wrap_i16 (search_tick div 256);
          b = nat (search_tick mod 256);
          row = (case table word of Some r \<Rightarrow> r | None \<Rightarrow> 0);
          (nxt, initialized) =
            (if zero_for_one then
               (let masked = row AND (if b = 255 then - 1 else push_bit (b + 1) 1 - 1) in
                if masked = 0 then (word * 256, False)
                else (word * 256 + (255 - int (leading_zeros masked)), True))
             else
               (let masked = row AND push_bit b (- 1) in
                if masked = 0 then (word * 256 + 255, False)
                else (word * 256 + int (trailing_zeros masked), True))) in
      (clamp (vm_min_tick vm) (vm_max_tick vm) nxt, initialized))"

definition next_initialized_tick :: "v3_math \<Rightarrow> clmm_pool \<Rightarrow> int \<Rightarrow> bool \<Rightarrow> (int \<times> bool) clmm_res" where
  "next_initialized_tick vm pool tick zero_for_one =
     (case cp_tick_traversal pool of
        SpacingCompressed \<Rightarrow>
          context_opt (vm_next_tick vm (cp_tick_bitmap pool) tick (cp_tick_spacing pool) zero_for_one)
            ''failed to find spacing-compressed tick''
      | AlgebraRaw \<Rightarrow> Inr (next_algebra_tick_in_same_row vm (cp_tick_bitmap pool) tick zero_for_one))"

definition sqrt_ratio_at_traversal_tick ::
  "v3_math \<Rightarrow> clmm_pool \<Rightarrow> int \<Rightarrow> bool \<Rightarrow> u256 clmm_res" where
  "sqrt_ratio_at_traversal_tick vm pool tick initialized =
     (if \<not> initialized then
        context_opt (cp_word_boundary_sqrt_ratios pool tick)
          (''missing cached sqrt ratio for word boundary '' @ show_int tick)
      else context_opt (vm_sqrt_ratio_at_tick vm tick) ''failed to price initialized tick'')"

definition sqrt_price_limit :: "v3_math \<Rightarrow> bool \<Rightarrow> u256" where
  "sqrt_price_limit vm zero_for_one =
     (if zero_for_one then vm_min_sqrt_ratio vm + 1 else vm_max_sqrt_ratio vm - 1)"

text \<open>
  The head of every swap loop: the next tick, whether it is initialized, its price, and the price the
  step aims at.
\<close>

definition traversal_target ::
  "v3_math \<Rightarrow> clmm_pool \<Rightarrow> bool \<Rightarrow> int \<Rightarrow> (int \<times> bool \<times> u256 \<times> u256) clmm_res" where
  "traversal_target vm pool zero_for_one tick =
     bind_res (next_initialized_tick vm pool tick zero_for_one) (\<lambda>(tick_next, initialized).
     let tick_next = clamp (vm_min_tick vm) (vm_max_tick vm) tick_next in
     bind_res (sqrt_ratio_at_traversal_tick vm pool tick_next initialized) (\<lambda>sqrt_price_next_x96.
     Inr (tick_next, initialized, sqrt_price_next_x96,
          if zero_for_one then max sqrt_price_next_x96 (sqrt_price_limit vm zero_for_one)
          else min sqrt_price_next_x96 (sqrt_price_limit vm zero_for_one))))"

text \<open>The tail of every swap loop: the liquidity past the tick, and the tick to go on from.\<close>

definition cross_tick ::
  "v3_math \<Rightarrow> clmm_pool \<Rightarrow> bool \<Rightarrow> string \<Rightarrow> int \<Rightarrow> bool \<Rightarrow> u128 \<Rightarrow> u128 clmm_res" where
  "cross_tick vm pool zero_for_one msg tick_next initialized liquidity =
     (if initialized then
        bind_res (context_opt (cp_ticks pool tick_next)
                    (''bitmap references missing tick '' @ show_int tick_next)) (\<lambda>tick_state.
        bind_res (if zero_for_one
                  then context_opt (checked_neg_i128 (tl_net tick_state)) ''liquidity net overflow''
                  else Inr (tl_net tick_state)) (\<lambda>liquidity_net.
        context_opt (vm_add_delta vm liquidity liquidity_net) msg))
      else Inr liquidity)"

definition tick_past :: "bool \<Rightarrow> int \<Rightarrow> int" where
  "tick_past zero_for_one tick_next = (if zero_for_one then saturate_i32 (tick_next - 1) else tick_next)"

section \<open>Direct quotes\<close>

text \<open>\<open>i256 x\<close> is \<open>I256::from_raw\<close>.\<close>

definition i256 :: "u256 \<Rightarrow> int" where
  "i256 x = sint x"

definition swap_step ::
  "v3_math \<Rightarrow> string \<Rightarrow> u256 \<Rightarrow> u256 \<Rightarrow> u128 \<Rightarrow> int \<Rightarrow> u32 \<Rightarrow> (u256 \<times> u256 \<times> u256 \<times> u256) clmm_res" where
  "swap_step vm msg price target liquidity amount fee =
     context_opt (vm_compute_swap_step vm price target liquidity amount fee) msg"

record quote_state =
  qs_remaining :: u256
  qs_amount :: u256
  qs_capacity :: u256
  qs_price :: u256
  qs_tick :: int
  qs_liquidity :: u128
  qs_crossed :: u32

definition quote_start :: "clmm_pool \<Rightarrow> u256 \<Rightarrow> quote_state" where
  "quote_start pool amount =
     \<lparr>qs_remaining = amount, qs_amount = 0, qs_capacity = 0, qs_price = cp_sqrt_price_x96 pool,
      qs_tick = cp_tick pool, qs_liquidity = cp_liquidity pool, qs_crossed = 0\<rparr>"

definition exact_in_body ::
  "v3_math \<Rightarrow> clmm_pool \<Rightarrow> bool \<Rightarrow> bool \<Rightarrow> quote_state \<Rightarrow> quote_state loop_control clmm_res" where
  "exact_in_body vm pool include_after_state zero_for_one st =
     (if qs_remaining st = 0 \<or> qs_price st = sqrt_price_limit vm zero_for_one then Inr (Done st)
      else
        bind_res (traversal_target vm pool zero_for_one (qs_tick st))
          (\<lambda>(tick_next, initialized, sqrt_price_next_x96, target).
        bind_res (swap_step vm ''failed to compute swap step'' (qs_price st) target (qs_liquidity st)
                    (i256 (qs_remaining st)) (fee_pips_for_direction pool zero_for_one))
          (\<lambda>(sqrt_after, step_in, step_out, fee_amount).
        bind_res (context_opt (checked_add step_in fee_amount) ''swap input overflow'') (\<lambda>consumed.
        bind_res (context_opt (checked_sub (qs_remaining st) consumed)
                    ''swap consumed more than remaining input'') (\<lambda>remaining.
        bind_res (context_opt (checked_add (qs_amount st) step_out) ''swap output overflow'') (\<lambda>amount_out.
        let st' = st\<lparr>qs_remaining := remaining, qs_amount := amount_out, qs_price := sqrt_after\<rparr> in
        if sqrt_after = sqrt_price_next_x96 then
          bind_res (cross_tick vm pool zero_for_one ''failed to cross initialized tick'' tick_next
                      initialized (qs_liquidity st)) (\<lambda>liquidity.
          Inr (Again (st'\<lparr>qs_liquidity := liquidity, qs_tick := tick_past zero_for_one tick_next,
                          qs_crossed := (if initialized then qs_crossed st + 1 else qs_crossed st)\<rparr>)))
        else if include_after_state then
          bind_res (context_opt (vm_tick_at_sqrt_ratio vm sqrt_after)
                      ''failed to derive tick after partial swap step'') (\<lambda>tick.
          Inr (Done (st'\<lparr>qs_tick := tick\<rparr>)))
        else Inr (Done st')))))))"

text \<open>A loop that does not end has the value None.\<close>

definition quote_exact_in_impl ::
  "v3_math \<Rightarrow> clmm_pool \<Rightarrow> bool \<Rightarrow> bool \<Rightarrow> u256 \<Rightarrow> local_quote clmm_res option" where
  "quote_exact_in_impl vm pool include_after_state zero_for_one amount_in =
     (if amount_in = 0 then Some (Inl (Bail ''amount in must be positive''))
      else if \<not> amount_in < push_bit 255 1 then Some (Inl (Bail ''amount in exceeds int256''))
      else
        map_option (\<lambda>r. bind_res r (\<lambda>st.
            if qs_remaining st \<noteq> 0 then Inl (Cause InsufficientLiquidity)
            else Inr \<lparr>lq_amount_out = qs_amount st, lq_sqrt_price_after_x96 = qs_price st,
                      lq_tick_after = qs_tick st, lq_liquidity_after = qs_liquidity st,
                      lq_initialized_ticks_crossed = qs_crossed st\<rparr>))
          (loop_res (exact_in_body vm pool include_after_state zero_for_one) (quote_start pool amount_in)))"

definition quote_exact_in ::
  "v3_math \<Rightarrow> clmm_pool \<Rightarrow> bool \<Rightarrow> u256 \<Rightarrow> local_quote clmm_res option" where
  "quote_exact_in vm pool zero_for_one amount_in = quote_exact_in_impl vm pool True zero_for_one amount_in"

definition quote_exact_in_amount_out ::
  "v3_math \<Rightarrow> clmm_pool \<Rightarrow> bool \<Rightarrow> u256 \<Rightarrow> u256 clmm_res option" where
  "quote_exact_in_amount_out vm pool zero_for_one amount_in =
     map_option (\<lambda>r. bind_res r (\<lambda>q. Inr (lq_amount_out q)))
       (quote_exact_in_impl vm pool False zero_for_one amount_in)"

definition exact_out_body ::
  "v3_math \<Rightarrow> clmm_pool \<Rightarrow> bool \<Rightarrow> quote_state \<Rightarrow> quote_state loop_control clmm_res" where
  "exact_out_body vm pool zero_for_one st =
     (if qs_remaining st = 0 \<or> qs_price st = sqrt_price_limit vm zero_for_one \<or> qs_liquidity st = 0
      then Inr (Done st)
      else
        bind_res (traversal_target vm pool zero_for_one (qs_tick st))
          (\<lambda>(tick_next, initialized, sqrt_price_next_x96, target).
        bind_res (swap_step vm ''failed to compute exact-output swap step'' (qs_price st) target
                    (qs_liquidity st) (- i256 (qs_remaining st)) (fee_pips_for_direction pool zero_for_one))
          (\<lambda>(sqrt_after, step_in, step_out, fee_amount).
        bind_res (context_opt (checked_sub (qs_remaining st) step_out)
                    ''swap produced more than remaining output'') (\<lambda>remaining.
        bind_res (context_opt (checked_add (qs_amount st) step_in) ''swap input overflow'') (\<lambda>v.
        bind_res (context_opt (checked_add v fee_amount) ''swap input overflow'') (\<lambda>amount_in.
        let st' = st\<lparr>qs_remaining := remaining, qs_amount := amount_in, qs_price := sqrt_after,
                     qs_capacity := (if step_out \<noteq> 0 then amount_in else qs_capacity st)\<rparr> in
        if sqrt_after = sqrt_price_next_x96 then
          bind_res (cross_tick vm pool zero_for_one ''failed to cross initialized tick'' tick_next
                      initialized (qs_liquidity st)) (\<lambda>liquidity.
          Inr (Again (st'\<lparr>qs_liquidity := liquidity, qs_tick := tick_past zero_for_one tick_next\<rparr>)))
        else Inr (Done st')))))))"

definition quote_exact_out_amount_in_impl ::
  "v3_math \<Rightarrow> clmm_pool \<Rightarrow> bool \<Rightarrow> u256 \<Rightarrow> bool \<Rightarrow> u256 clmm_res option" where
  "quote_exact_out_amount_in_impl vm pool zero_for_one amount_out require_full_output =
     (if amount_out = 0 then Some (Inl (Bail ''amount out must be positive''))
      else if \<not> amount_out < push_bit 255 1 then Some (Inl (Bail ''amount out exceeds int256''))
      else
        map_option (\<lambda>r. bind_res r (\<lambda>st.
            if require_full_output \<and> qs_remaining st \<noteq> 0 then Inl (Cause InsufficientLiquidity)
            else Inr (if require_full_output then qs_amount st else qs_capacity st)))
          (loop_res (exact_out_body vm pool zero_for_one) (quote_start pool amount_out)))"

definition quote_exact_out_amount_in ::
  "v3_math \<Rightarrow> clmm_pool \<Rightarrow> bool \<Rightarrow> u256 \<Rightarrow> u256 clmm_res option" where
  "quote_exact_out_amount_in vm pool zero_for_one amount_out =
     quote_exact_out_amount_in_impl vm pool zero_for_one amount_out True"

section \<open>Prepared curves\<close>

record curve_state =
  cs_segments :: "prepared_quote_segment list"
  cs_specified_total :: u256
  cs_result_total :: u256
  cs_result_remaining :: u256
  cs_price :: u256
  cs_tick :: int
  cs_liquidity :: u128
  cs_last_productive :: nat

definition curve_start :: "clmm_pool \<Rightarrow> u256 \<Rightarrow> curve_state" where
  "curve_start pool result_remaining =
     \<lparr>cs_segments = [], cs_specified_total = 0, cs_result_total = 0,
      cs_result_remaining = result_remaining, cs_price = cp_sqrt_price_x96 pool, cs_tick = cp_tick pool,
      cs_liquidity = cp_liquidity pool, cs_last_productive = 0\<rparr>"

definition push_segment ::
  "u256 \<Rightarrow> u256 \<Rightarrow> u256 \<Rightarrow> u256 \<Rightarrow> curve_state \<Rightarrow> prepared_quote_segment list" where
  "push_segment specified_step specified_end result_end target st =
     (if specified_step \<noteq> 0
      then cs_segments st @ [\<lparr>sg_specified_end = specified_end, sg_result_end = result_end,
             sg_sqrt_price_start_x96 = cs_price st, sg_sqrt_price_target_x96 = target,
             sg_liquidity = cs_liquidity st\<rparr>]
      else cs_segments st)"

definition curve_body ::
  "v3_math \<Rightarrow> clmm_pool \<Rightarrow> bool \<Rightarrow> prepared_quote_kind \<Rightarrow> u256 \<Rightarrow> curve_state \<Rightarrow>
   curve_state loop_control clmm_res" where
  "curve_body vm pool zero_for_one kind maximum_specified st =
     (if \<not> cs_specified_total st < maximum_specified \<or> cs_price st = sqrt_price_limit vm zero_for_one \<or>
         cs_liquidity st = 0
      then Inr (Done st)
      else
        bind_res (context_opt (checked_sub maximum_specified (cs_specified_total st))
                    ''prepared specified amount exceeded its maximum'') (\<lambda>specified_remaining.
        let specified_delta = (case kind of
              ExactInput \<Rightarrow> i256 specified_remaining | ExactOutput \<Rightarrow> - i256 specified_remaining) in
        bind_res (traversal_target vm pool zero_for_one (cs_tick st))
          (\<lambda>(tick_next, initialized, sqrt_price_next_x96, target).
        bind_res (swap_step vm ''failed to build prepared swap segment'' (cs_price st) target
                    (cs_liquidity st) specified_delta (fee_pips_for_direction pool zero_for_one))
          (\<lambda>(sqrt_after, step_in, step_out, fee_amount).
        bind_res (context_opt (checked_add step_in fee_amount) ''prepared swap input overflow'')
          (\<lambda>input_with_fee.
        let (specified_step, result_step) = (case kind of
              ExactInput \<Rightarrow> (input_with_fee, step_out) | ExactOutput \<Rightarrow> (step_out, input_with_fee)) in
        bind_res (context_opt (checked_add (cs_specified_total st) specified_step)
                    ''prepared specified amount overflow'') (\<lambda>specified_end.
        bind_res (context_opt (checked_add (cs_result_total st) result_step)
                    ''prepared result amount overflow'') (\<lambda>result_end.
        let st' = st\<lparr>cs_segments := push_segment specified_step specified_end result_end target st,
                     cs_specified_total := specified_end, cs_result_total := result_end,
                     cs_price := sqrt_after\<rparr> in
        if sqrt_after \<noteq> sqrt_price_next_x96 then Inr (Done st')
        else
          bind_res (cross_tick vm pool zero_for_one ''failed to cross prepared initialized tick'' tick_next
                      initialized (cs_liquidity st)) (\<lambda>liquidity.
          Inr (Again (st'\<lparr>cs_liquidity := liquidity, cs_tick := tick_past zero_for_one tick_next\<rparr>))))))))))"

text \<open>The allocation that \<open>prepare_quote_curve_reusing\<close> takes over is cleared first, so it has no effect.\<close>

definition prepare_quote_curve ::
  "v3_math \<Rightarrow> clmm_pool \<Rightarrow> bool \<Rightarrow> prepared_quote_kind \<Rightarrow> u256 \<Rightarrow> prepared_quote_curve clmm_res option" where
  "prepare_quote_curve vm pool zero_for_one kind maximum_specified =
     (if maximum_specified = 0 then Some (Inl (Bail ''prepared curve maximum must be positive''))
      else if \<not> maximum_specified < push_bit 255 1 then
        Some (Inl (Bail ''prepared curve maximum exceeds int256''))
      else
        map_option (\<lambda>r. bind_res r (\<lambda>st.
            Inr \<lparr>cv_kind = kind, cv_fee_pips = fee_pips_for_direction pool zero_for_one,
                 cv_segments = cs_segments st\<rparr>))
          (loop_res (curve_body vm pool zero_for_one kind maximum_specified) (curve_start pool 0)))"

definition prepare_exact_input_curve_bounded ::
  "v3_math \<Rightarrow> clmm_pool \<Rightarrow> bool \<Rightarrow> u256 \<Rightarrow> prepared_quote_curve clmm_res option" where
  "prepare_exact_input_curve_bounded vm pool zero_for_one maximum_amount_in =
     prepare_quote_curve vm pool zero_for_one ExactInput maximum_amount_in"

definition prepare_exact_input_curve ::
  "v3_math \<Rightarrow> clmm_pool \<Rightarrow> bool \<Rightarrow> prepared_quote_curve clmm_res option" where
  "prepare_exact_input_curve vm pool zero_for_one =
     prepare_exact_input_curve_bounded vm pool zero_for_one (push_bit 255 1 - 1)"

definition prepare_exact_output_curve_bounded ::
  "v3_math \<Rightarrow> clmm_pool \<Rightarrow> bool \<Rightarrow> u256 \<Rightarrow> prepared_quote_curve clmm_res option" where
  "prepare_exact_output_curve_bounded vm pool zero_for_one maximum_amount_out =
     prepare_quote_curve vm pool zero_for_one ExactOutput maximum_amount_out"

definition prepare_exact_output_curve ::
  "v3_math \<Rightarrow> clmm_pool \<Rightarrow> bool \<Rightarrow> prepared_quote_curve clmm_res option" where
  "prepare_exact_output_curve vm pool zero_for_one =
     prepare_exact_output_curve_bounded vm pool zero_for_one (push_bit 255 1 - 1)"

text \<open>The step of the fused builder: what a step adds to the specified and the result amount.\<close>

definition fused_amounts ::
  "v3_math \<Rightarrow> u256 \<Rightarrow> u256 \<Rightarrow> u128 \<Rightarrow> u32 \<Rightarrow> bool \<Rightarrow> u256 \<Rightarrow> u256 \<Rightarrow> (u256 \<times> u256) clmm_res" where
  "fused_amounts vm price target liquidity fee partial_step input_with_fee step_out =
     (if partial_step then
        bind_res (swap_step vm ''failed to finalize fused exact-input segment'' price target liquidity
                    (i256 input_with_fee) fee) (\<lambda>(_, exact_in, exact_out, exact_fee).
        bind_res (context_opt (checked_add exact_in exact_fee)
                    ''fused exact-input specified amount overflow'') (\<lambda>specified.
        Inr (specified, exact_out)))
      else Inr (input_with_fee, step_out))"

definition fused_body ::
  "v3_math \<Rightarrow> clmm_pool \<Rightarrow> bool \<Rightarrow> curve_state \<Rightarrow> curve_state loop_control clmm_res" where
  "fused_body vm pool zero_for_one st =
     (if cs_result_remaining st = 0 \<or> cs_price st = sqrt_price_limit vm zero_for_one \<or>
         cs_liquidity st = 0
      then Inr (Done st)
      else
        bind_res (traversal_target vm pool zero_for_one (cs_tick st))
          (\<lambda>(tick_next, initialized, sqrt_price_next_x96, target).
        bind_res (swap_step vm ''failed to build fused exact-output boundary'' (cs_price st) target
                    (cs_liquidity st) (- i256 (cs_result_remaining st))
                    (fee_pips_for_direction pool zero_for_one))
          (\<lambda>(sqrt_after, step_in, step_out, fee_amount).
        bind_res (context_opt (checked_add step_in fee_amount) ''fused prepared swap input overflow'')
          (\<lambda>input_with_fee.
        let partial_step = (sqrt_after \<noteq> sqrt_price_next_x96) in
        bind_res (fused_amounts vm (cs_price st) target (cs_liquidity st)
                    (fee_pips_for_direction pool zero_for_one) partial_step input_with_fee step_out)
          (\<lambda>(specified_step, result_step).
        bind_res (context_opt (checked_add (cs_specified_total st) specified_step)
                    ''fused prepared specified amount overflow'') (\<lambda>specified_end.
        bind_res (context_opt (checked_add (cs_result_total st) result_step)
                    ''fused prepared result amount overflow'') (\<lambda>result_end.
        let segments = push_segment specified_step specified_end result_end target st in
        bind_res (context_opt (checked_sub (cs_result_remaining st) step_out)
                    ''fused swap produced more than remaining output'') (\<lambda>result_remaining.
        let st' = st\<lparr>cs_segments := segments, cs_specified_total := specified_end,
                     cs_result_total := result_end,
                     cs_last_productive := (if step_out \<noteq> 0 then length segments else cs_last_productive st),
                     cs_result_remaining := result_remaining, cs_price := sqrt_after\<rparr> in
        if partial_step then Inr (Done st')
        else
          bind_res (cross_tick vm pool zero_for_one ''failed to cross fused prepared initialized tick''
                      tick_next initialized (cs_liquidity st)) (\<lambda>liquidity.
          Inr (Again (st'\<lparr>cs_liquidity := liquidity, cs_tick := tick_past zero_for_one tick_next\<rparr>)))))))))))"

definition prepare_exact_input_curve_bounded_by_exact_output ::
  "v3_math \<Rightarrow> clmm_pool \<Rightarrow> bool \<Rightarrow> u256 \<Rightarrow> prepared_quote_curve clmm_res option" where
  "prepare_exact_input_curve_bounded_by_exact_output vm pool zero_for_one maximum_amount_out =
     (if maximum_amount_out = 0 then
        Some (Inl (Bail ''prepared curve output maximum must be positive''))
      else if \<not> maximum_amount_out < push_bit 255 1 then
        Some (Inl (Bail ''prepared curve output maximum exceeds int256''))
      else
        map_option (\<lambda>r. bind_res r (\<lambda>st.
            Inr \<lparr>cv_kind = ExactInput, cv_fee_pips = fee_pips_for_direction pool zero_for_one,
                 cv_segments = take (cs_last_productive st) (cs_segments st)\<rparr>))
          (loop_res (fused_body vm pool zero_for_one) (curve_start pool maximum_amount_out)))"

section \<open>Quotes from a curve\<close>

text \<open>\<open>partition_point\<close> on segments whose ends increase: how many lie before the amount.\<close>

definition partition_point :: "('a \<Rightarrow> bool) \<Rightarrow> 'a list \<Rightarrow> nat" where
  "partition_point P xs = length (takeWhile P xs)"

definition curve_quote :: "v3_math \<Rightarrow> prepared_quote_curve \<Rightarrow> u256 \<Rightarrow> u256 clmm_res" where
  "curve_quote vm curve specified_amount =
     ensure (specified_amount \<noteq> 0) ''specified amount must be positive''
     (ensure (specified_amount < push_bit 255 1) ''specified amount exceeds int256''
     (let segment_index = partition_point (\<lambda>s. sg_specified_end s < specified_amount) (cv_segments curve) in
      if \<not> segment_index < length (cv_segments curve) then Inl (Cause InsufficientLiquidity)
      else
        let segment = cv_segments curve ! segment_index in
        if specified_amount = sg_specified_end segment then Inr (sg_result_end segment)
        else
          let (specified_start, result_start) =
            (if segment_index = 0 then (0, 0)
             else let previous = cv_segments curve ! (segment_index - 1) in
               (sg_specified_end previous, sg_result_end previous)) in
          bind_res (context_opt (checked_sub specified_amount specified_start)
                      ''prepared quote amount precedes segment'') (\<lambda>remaining.
          bind_res (swap_step vm ''failed to quote prepared swap segment'' (sg_sqrt_price_start_x96 segment)
                      (sg_sqrt_price_target_x96 segment) (sg_liquidity segment)
                      (case cv_kind curve of ExactInput \<Rightarrow> i256 remaining | ExactOutput \<Rightarrow> - i256 remaining)
                      (cv_fee_pips curve)) (\<lambda>(_, step_in, step_out, fee_amount).
          bind_res (case cv_kind curve of
              ExactInput \<Rightarrow> Inr step_out
            | ExactOutput \<Rightarrow>
                context_opt (checked_add step_in fee_amount) ''prepared exact-output input overflow'')
            (\<lambda>step_result.
          context_opt (checked_add result_start step_result) ''prepared quote result overflow'')))))"

definition segment_count :: "prepared_quote_curve \<Rightarrow> nat" where
  "segment_count curve = length (cv_segments curve)"

definition specified_boundaries :: "prepared_quote_curve \<Rightarrow> u256 list" where
  "specified_boundaries curve = map sg_specified_end (cv_segments curve)"

definition specified_capacity :: "prepared_quote_curve \<Rightarrow> u256" where
  "specified_capacity curve =
     (if cv_segments curve = [] then 0 else sg_specified_end (last (cv_segments curve)))"

definition result_capacity :: "prepared_quote_curve \<Rightarrow> u256" where
  "result_capacity curve =
     (if cv_segments curve = [] then 0 else sg_result_end (last (cv_segments curve)))"

end
