(* ===== verification/Clmm_Curve.thy ===== *)
theory Clmm_Curve
  imports Clmm_Pool
begin

text \<open>
  Prepared curves against the swap loop of \<open>src/src/dex/clmm.rs\<close>.  First what the swap step of the library
  promises; then the path of a swap, the curves that follow it, and the two builders; then the direct
  loop along the same path; last a small library and a pool on which the loops run.
\<close>

section \<open>What a swap step promises\<close>

text \<open>
  The documented behaviour of \<open>compute_swap_step\<close>.  The price stays between the current
  and the target price; input and fee together are an \<open>int256\<close>, and nothing is paid out for nothing.  Of an
  exact input no more than the remaining amount is taken, and all of it when the target is not
  reached.  A step to the target has the input and the fee that every larger input has, and less input
  does not reach the target.  Its output is the same too, unless it is what an exact output still
  asked for: rounding may reach the target early, and the output is then capped.
\<close>

definition step_law ::
  "v3_math \<Rightarrow> u256 \<Rightarrow> u256 \<Rightarrow> u128 \<Rightarrow> u32 \<Rightarrow> int \<Rightarrow> u256 \<times> u256 \<times> u256 \<times> u256 \<Rightarrow> bool" where
  "step_law vm p t l fee a step \<longleftrightarrow>
     (case step of (after, i, o', e) \<Rightarrow>
        min p t \<le> after \<and> after \<le> max p t \<and> unat i + unat e < 2 ^ 255 \<and>
        (unat i + unat e = 0 \<longrightarrow> o' = 0) \<and>
        (0 \<le> a \<longrightarrow> int (unat i + unat e) \<le> a \<and> (after \<noteq> t \<longrightarrow> int (unat i + unat e) = a)) \<and>
        (after = t \<longrightarrow>
           (\<exists>out. (out = o' \<or> a < 0 \<and> int (unat o') = - a) \<and>
              (\<forall>b. int (unat i + unat e) \<le> b \<and> b < 2 ^ 255 \<longrightarrow>
                 vm_compute_swap_step vm p t l b fee = Some (t, i, out, e))) \<and>
           (\<forall>b r. 0 \<le> b \<and> b < int (unat i + unat e) \<longrightarrow>
              vm_compute_swap_step vm p t l b fee = Some r \<longrightarrow> fst r \<noteq> t)))"

definition lawful :: "v3_math \<Rightarrow> u32 \<Rightarrow> u256 \<Rightarrow> u256 \<Rightarrow> bool" where
  "lawful vm fee p t \<longleftrightarrow>
     (\<forall>l a step. vm_compute_swap_step vm p t l a fee = Some step \<longrightarrow> step_law vm p t l fee a step)"

text \<open>
  The law is asked only where a swap of the pool goes: at the fee of its direction and between the prices it
  meets, which are the price it starts from and those it aims at.  The library documents it for fees
  below 1000000 and prices of 160 bits; \<open>documented_swap_law\<close> in \<open>Clmm_Ticks\<close> derives the law of a pool
  from that.
\<close>

definition swap_price :: "v3_math \<Rightarrow> clmm_pool \<Rightarrow> bool \<Rightarrow> u256 \<Rightarrow> bool" where
  "swap_price vm pool zfo p \<longleftrightarrow> p = cp_sqrt_price_x96 pool \<or>
     (\<exists>tick tn ini sn. traversal_target vm pool zfo tick = Inr (tn, ini, sn, p))"

definition swap_law :: "v3_math \<Rightarrow> clmm_pool \<Rightarrow> bool \<Rightarrow> bool" where
  "swap_law vm pool zfo \<longleftrightarrow>
     (\<forall>p t. swap_price vm pool zfo p \<and> swap_price vm pool zfo t \<longrightarrow>
        lawful vm (fee_pips_for_direction pool zfo) p t)"

lemma lawfulD:
  "lawful vm fee p t \<Longrightarrow> vm_compute_swap_step vm p t l a fee = Some step \<Longrightarrow> step_law vm p t l fee a step"
  unfolding lawful_def by blast

lemma lawful_between:
  "lawful vm fee p t \<Longrightarrow> vm_compute_swap_step vm p t l a fee = Some (after, i, o', e) \<Longrightarrow>
     min p t \<le> after \<and> after \<le> max p t \<and> unat i + unat e < 2 ^ 255"
  by (drule (1) lawfulD) (simp add: step_law_def)

lemma lawful_in:
  assumes "lawful vm fee p t" "vm_compute_swap_step vm p t l a fee = Some (after, i, o', e)" "0 \<le> a"
  shows "int (unat i + unat e) \<le> a" "after \<noteq> t \<Longrightarrow> int (unat i + unat e) = a"
  using lawfulD [OF assms(1,2)] assms(3) by (simp_all add: step_law_def)

lemma lawful_nothing:
  assumes "lawful vm fee p t" "vm_compute_swap_step vm p t l a fee = Some (after, i, o', e)"
  shows "unat i + unat e = 0 \<Longrightarrow> o' = 0"
  using lawfulD [OF assms] by (simp add: step_law_def)

lemma lawful_full:
  assumes "lawful vm fee p t" "vm_compute_swap_step vm p t l a fee = Some (t, i, o', e)" "0 \<le> a"
  shows "int (unat i + unat e) \<le> b \<Longrightarrow> b < 2 ^ 255 \<Longrightarrow> vm_compute_swap_step vm p t l b fee = Some (t, i, o', e)"
    "0 \<le> b \<Longrightarrow> b < int (unat i + unat e) \<Longrightarrow> vm_compute_swap_step vm p t l b fee = Some r \<Longrightarrow> fst r \<noteq> t"
proof -
  have "\<not> a < 0" using assms(3) by simp
  then show "vm_compute_swap_step vm p t l b fee = Some (t, i, o', e)"
    if "int (unat i + unat e) \<le> b" "b < 2 ^ 255"
    using lawfulD [OF assms(1,2)] that unfolding step_law_def prod.case by blast
  show "fst r \<noteq> t"
    if "0 \<le> b" "b < int (unat i + unat e)" "vm_compute_swap_step vm p t l b fee = Some r"
    using lawfulD [OF assms(1,2)] that unfolding step_law_def prod.case by blast
qed

lemma lawful_capped:
  assumes "lawful vm fee p t" "vm_compute_swap_step vm p t l a fee = Some (t, i, o', e)"
  obtains out where "vm_compute_swap_step vm p t l (int (unat i + unat e)) fee = Some (t, i, out, e)"
    "out = o' \<or> int (unat o') = - a"
proof -
  have "unat i + unat e < 2 ^ 255" using lawfulD [OF assms] by (simp add: step_law_def)
  then have "int (unat i + unat e) < int (2 ^ 255)" by (simp only: of_nat_less_iff)
  then have "int (unat i + unat e) < 2 ^ 255" by simp
  then show thesis using lawfulD [OF assms] that unfolding step_law_def prod.case by blast
qed

lemma unat_half: "unat (push_bit 255 (1 :: u256)) = 2 ^ 255"
  by simp

lemma i256_small:
  assumes "x < push_bit 255 1"
  shows "i256 x = int (unat x)"
proof -
  have "unat x < 2 ^ 255" using assms unfolding word_less_nat_alt unat_half .
  then have "int (unat x) < int (2 ^ 255)" by (simp only: of_nat_less_iff)
  moreover have "int (unat x) = uint x" by simp
  ultimately have "signed_take_bit 255 (uint x) = uint x"
    by (intro signed_take_bit_int_eq_self) (simp_all add: order.trans [OF _ uint_ge_0])
  then show ?thesis by (simp add: i256_def sint_uint)
qed

lemma cross_tick_msg:
  "cross_tick vm pool zfo msg tn ini l = Inr l' \<Longrightarrow> cross_tick vm pool zfo msg' tn ini l = Inr l'"
  by (auto simp: cross_tick_def split: if_splits)

section \<open>Curves along the swap path\<close>

text \<open>
  A state of the path is a price, a tick and a liquidity.  \<open>curve_ok s S R segs\<close>: from the state \<open>s\<close>, with
  \<open>S\<close> specified and \<open>R\<close> returned so far, the segments are those of successive swap steps; only the last
  one may stop short of its target.  With \<open>safe\<close> the tick at the end of the last one can be crossed, and
  the result at that end is the one of the swap step.
\<close>

type_synonym path_state = "u256 \<times> int \<times> u128"

definition segment_of ::
  "u256 \<Rightarrow> u256 \<Rightarrow> u256 \<Rightarrow> u256 \<Rightarrow> u128 \<Rightarrow> prepared_quote_segment" where
  "segment_of specified_end result_end price target liquidity =
     \<lparr>sg_specified_end = specified_end, sg_result_end = result_end, sg_sqrt_price_start_x96 = price,
      sg_sqrt_price_target_x96 = target, sg_liquidity = liquidity\<rparr>"

inductive curve_ok ::
  "v3_math \<Rightarrow> clmm_pool \<Rightarrow> bool \<Rightarrow> bool \<Rightarrow> path_state \<Rightarrow> u256 \<Rightarrow> u256 \<Rightarrow> prepared_quote_segment list \<Rightarrow> bool"
  for vm pool safe zfo where
  nil: "curve_ok vm pool safe zfo s S R []"
| skip: "p \<noteq> sqrt_price_limit vm zfo \<Longrightarrow>
    traversal_target vm pool zfo tick = Inr (tn, ini, t, t) \<Longrightarrow> 0 \<le> A \<Longrightarrow>
    vm_compute_swap_step vm p t l A (fee_pips_for_direction pool zfo) = Some (t, i, o', e) \<Longrightarrow>
    unat i + unat e = 0 \<Longrightarrow> o' = 0 \<Longrightarrow>
    cross_tick vm pool zfo msg tn ini l = Inr l' \<Longrightarrow>
    curve_ok vm pool safe zfo (t, tick_past zfo tn, l') S R segs \<Longrightarrow>
    curve_ok vm pool safe zfo (p, tick, l) S R segs"
| final: "p \<noteq> sqrt_price_limit vm zfo \<Longrightarrow>
    traversal_target vm pool zfo tick = Inr (tn, ini, sn, t) \<Longrightarrow> 0 \<le> A \<Longrightarrow>
    vm_compute_swap_step vm p t l A (fee_pips_for_direction pool zfo) = Some (after, i, o', e) \<Longrightarrow>
    (safe \<and> t = sn \<and> after = t \<Longrightarrow> \<exists>l'. cross_tick vm pool zfo msg tn ini l = Inr l') \<Longrightarrow>
    unat E = unat S + unat i + unat e \<Longrightarrow> (safe \<Longrightarrow> unat Q = unat R + unat o') \<Longrightarrow>
    curve_ok vm pool safe zfo (p, tick, l) S R [segment_of E Q p t l]"
| cons: "p \<noteq> sqrt_price_limit vm zfo \<Longrightarrow>
    traversal_target vm pool zfo tick = Inr (tn, ini, t, t) \<Longrightarrow> 0 \<le> A \<Longrightarrow>
    vm_compute_swap_step vm p t l A (fee_pips_for_direction pool zfo) = Some (t, i, o', e) \<Longrightarrow>
    cross_tick vm pool zfo msg tn ini l = Inr l' \<Longrightarrow>
    unat E = unat S + unat i + unat e \<Longrightarrow> unat Q = unat R + unat o' \<Longrightarrow>
    curve_ok vm pool safe zfo (t, tick_past zfo tn, l') E Q segs \<Longrightarrow>
    curve_ok vm pool safe zfo (p, tick, l) S R (segment_of E Q p t l # segs)"

lemma curve_ok_take: "curve_ok vm pool safe zfo s S R segs \<Longrightarrow> curve_ok vm pool safe zfo s S R (take n segs)"
proof (induction arbitrary: n rule: curve_ok.induct)
  case (skip p tick tn ini t A l i o' e msg l' S R segs)
  then show ?case by (blast intro: curve_ok.skip)
next
  case (final p tick tn ini sn t A l after i o' e msg E S Q R)
  then show ?case by (cases n) (auto intro: curve_ok.nil curve_ok.final)
next
  case (cons p tick tn ini t A l i o' e msg l' E S Q R segs)
  then show ?case by (cases n) (auto intro: curve_ok.nil curve_ok.cons)
qed (simp add: curve_ok.nil)

text \<open>The quote of a curve, one segment at a time.\<close>

fun quote_from ::
  "v3_math \<Rightarrow> u32 \<Rightarrow> u256 \<Rightarrow> u256 \<Rightarrow> prepared_quote_segment list \<Rightarrow> u256 \<Rightarrow> u256 clmm_res" where
  "quote_from vm fee S R [] a = Inl (Cause InsufficientLiquidity)"
| "quote_from vm fee S R (s # segs) a =
     (if sg_specified_end s < a then quote_from vm fee (sg_specified_end s) (sg_result_end s) segs a
      else if a = sg_specified_end s then Inr (sg_result_end s)
      else
        bind_res (context_opt (checked_sub a S) ''prepared quote amount precedes segment'') (\<lambda>remaining.
        bind_res (swap_step vm ''failed to quote prepared swap segment'' (sg_sqrt_price_start_x96 s)
                    (sg_sqrt_price_target_x96 s) (sg_liquidity s) (i256 remaining) fee)
          (\<lambda>(_, step_in, step_out, fee_amount).
        context_opt (checked_add R step_out) ''prepared quote result overflow'')))"

lemma quote_from_index:
  fixes segs :: "prepared_quote_segment list"
  defines "k \<equiv> \<lambda>segs a. partition_point (\<lambda>s. sg_specified_end s < a) segs"
  shows "quote_from vm fee S R segs a =
    (if \<not> k segs a < length segs then Inl (Cause InsufficientLiquidity)
     else let s = segs ! k segs a in
       if a = sg_specified_end s then Inr (sg_result_end s)
       else let (S', R') = (if k segs a = 0 then (S, R)
              else (sg_specified_end (segs ! (k segs a - 1)), sg_result_end (segs ! (k segs a - 1)))) in
         bind_res (context_opt (checked_sub a S') ''prepared quote amount precedes segment'') (\<lambda>remaining.
         bind_res (swap_step vm ''failed to quote prepared swap segment'' (sg_sqrt_price_start_x96 s)
                     (sg_sqrt_price_target_x96 s) (sg_liquidity s) (i256 remaining) fee)
           (\<lambda>(_, step_in, step_out, fee_amount).
         context_opt (checked_add R' step_out) ''prepared quote result overflow'')))"
proof (induction segs arbitrary: S R)
  case Nil
  then show ?case by (simp add: k_def partition_point_def)
next
  case (Cons s segs)
  show ?case
  proof (cases "sg_specified_end s < a")
    case True
    then have k: "k (s # segs) a = Suc (k segs a)" by (simp add: k_def partition_point_def)
    show ?thesis using True Cons.IH [of "sg_specified_end s" "sg_result_end s"]
      by (cases "k segs a") (simp_all add: k Let_def)
  next
    case False
    then have "k (s # segs) a = 0" by (simp add: k_def partition_point_def)
    then show ?thesis using False by simp
  qed
qed

lemma curve_quote_from:
  assumes "a \<noteq> 0" "a < push_bit 255 1"
  shows "curve_quote vm \<lparr>cv_kind = ExactInput, cv_fee_pips = fee, cv_segments = segs\<rparr> a =
    quote_from vm fee 0 0 segs a"
  unfolding quote_from_index curve_quote_def using assms
  by (simp add: Let_def split: prod.split)

text \<open>The prices of a path are those a swap meets, and never pass the limit of the direction.\<close>

definition limit_ok :: "v3_math \<Rightarrow> clmm_pool \<Rightarrow> bool \<Rightarrow> u256 \<Rightarrow> bool" where
  "limit_ok vm pool zfo p \<longleftrightarrow> swap_price vm pool zfo p \<and>
     (if zfo then sqrt_price_limit vm zfo \<le> p else p \<le> sqrt_price_limit vm zfo)"

lemma traversal_target_Inr:
  "traversal_target vm pool zfo tick = Inr (tn, ini, sn, t) \<Longrightarrow>
     t = (if zfo then max sn (sqrt_price_limit vm zfo) else min sn (sqrt_price_limit vm zfo))"
  by (auto simp: traversal_target_def Let_def)

lemma target_limit:
  assumes "traversal_target vm pool zfo tick = Inr (tn, ini, sn, t)"
  shows "limit_ok vm pool zfo t"
  using traversal_target_Inr [OF assms] assms unfolding limit_ok_def swap_price_def by auto

lemma swap_lawful:
  assumes "swap_law vm pool zfo" "limit_ok vm pool zfo p" "traversal_target vm pool zfo tick = Inr (tn, ini, sn, t)"
  shows "lawful vm (fee_pips_for_direction pool zfo) p t"
  using assms(1,2) target_limit [OF assms(3)] by (simp add: swap_law_def limit_ok_def)

lemma step_reaches:
  assumes "swap_law vm pool zfo" "limit_ok vm pool zfo p" "traversal_target vm pool zfo tick = Inr (tn, ini, sn, t)"
    and "vm_compute_swap_step vm p t l a (fee_pips_for_direction pool zfo) = Some (sn, i, o', e)"
  shows "t = sn"
  using lawful_between [OF swap_lawful [OF assms(1-3)] assms(4)] traversal_target_Inr [OF assms(3)] assms(2)
  by (auto simp: limit_ok_def min_def max_def split: if_splits)

lemma swap_step_Inr: "swap_step vm msg p t l a fee = Inr r \<longleftrightarrow> vm_compute_swap_step vm p t l a fee = Some r"
  by (simp add: swap_step_def)

lemma curve_body_Inr:
  assumes "curve_body vm pool zfo ExactInput maximum st = Inr ctl"
  obtains (stop) "ctl = Done st"
    | (step) rem tn ini sn t after i o' e c E Q where
      "cs_price st \<noteq> sqrt_price_limit vm zfo" "unat maximum = unat (cs_specified_total st) + unat rem"
      "traversal_target vm pool zfo (cs_tick st) = Inr (tn, ini, sn, t)"
      "vm_compute_swap_step vm (cs_price st) t (cs_liquidity st) (i256 rem) (fee_pips_for_direction pool zfo) =
         Some (after, i, o', e)"
      "unat c = unat i + unat e" "unat E = unat (cs_specified_total st) + unat c"
      "unat Q = unat (cs_result_total st) + unat o'"
      "ctl = (if after \<noteq> sn then Done (st\<lparr>cs_segments := push_segment c E Q t st,
           cs_specified_total := E, cs_result_total := Q, cs_price := after\<rparr>) else ctl)"
      "after = sn \<Longrightarrow> \<exists>l'. cross_tick vm pool zfo ''failed to cross prepared initialized tick'' tn ini
           (cs_liquidity st) = Inr l' \<and>
         ctl = Again (st\<lparr>cs_segments := push_segment c E Q t st, cs_specified_total := E,
           cs_result_total := Q, cs_price := after, cs_liquidity := l', cs_tick := tick_past zfo tn\<rparr>)"
proof (cases "\<not> cs_specified_total st < maximum \<or> cs_price st = sqrt_price_limit vm zfo \<or> cs_liquidity st = 0")
  case True
  then show thesis using assms stop by (auto simp: curve_body_def)
next
  case False
  then obtain rem tn ini sn t after i o' e c E Q where s: "cs_price st \<noteq> sqrt_price_limit vm zfo"
      "unat maximum = unat (cs_specified_total st) + unat rem"
      "traversal_target vm pool zfo (cs_tick st) = Inr (tn, ini, sn, t)"
      "vm_compute_swap_step vm (cs_price st) t (cs_liquidity st) (i256 rem) (fee_pips_for_direction pool zfo) =
         Some (after, i, o', e)"
      "unat c = unat i + unat e" "unat E = unat (cs_specified_total st) + unat c"
      "unat Q = unat (cs_result_total st) + unat o'"
      "(if after \<noteq> sn then Inr (Done (st\<lparr>cs_segments := push_segment c E Q t st,
           cs_specified_total := E, cs_result_total := Q, cs_price := after\<rparr>))
        else bind_res (cross_tick vm pool zfo ''failed to cross prepared initialized tick'' tn ini
           (cs_liquidity st)) (\<lambda>l'. Inr (Again (st\<lparr>cs_segments := push_segment c E Q t st,
             cs_specified_total := E, cs_result_total := Q, cs_price := after, cs_liquidity := l',
             cs_tick := tick_past zfo tn\<rparr>)))) = Inr ctl"
    using assms unfolding curve_body_def swap_step_def
    by (auto simp: Let_def checked_simps simp del: bind_res_Inr split: if_splits prod.splits)
       (auto simp: checked_simps)
  show thesis by (rule step [OF s(1-7)]) (use s(8) in \<open>auto split: if_splits\<close>)
qed

definition curve_path :: "curve_state \<Rightarrow> path_state" where
  "curve_path st = (cs_price st, cs_tick st, cs_liquidity st)"

lemma push_segment_of:
  "push_segment c E Q t st =
     (if c = 0 then cs_segments st else cs_segments st @ [segment_of E Q (cs_price st) t (cs_liquidity st)])"
  by (simp add: push_segment_def segment_of_def)

text \<open>One step of a builder, followed by the curve of what comes after it.\<close>

lemma curve_ok_step:
  assumes law: "lawful vm (fee_pips_for_direction pool zfo) p t" and p: "p \<noteq> sqrt_price_limit vm zfo"
    and tt: "traversal_target vm pool zfo tick = Inr (tn, ini, t, t)"
    and step: "vm_compute_swap_step vm p t l A (fee_pips_for_direction pool zfo) = Some (t, i, o', e)"
    and A: "0 \<le> A" and cross: "cross_tick vm pool zfo msg tn ini l = Inr l'"
    and ends: "unat c = unat i + unat e" "unat E = unat S + unat c" "unat Q = unat R + unat o'"
    and rest: "curve_ok vm pool safe zfo (t, tick_past zfo tn, l') E Q segs"
  shows "curve_ok vm pool safe zfo (p, tick, l) S R ((if c = 0 then [] else [segment_of E Q p t l]) @ segs)"
proof (cases "c = 0")
  case True
  then have z: "unat i + unat e = 0" using ends(1) by simp
  then have "o' = 0" using lawful_nothing [OF law step] by simp
  moreover from this have "E = S" "Q = R" using ends True by (simp_all add: word_unat_eq_iff)
  ultimately show ?thesis using curve_ok.skip [OF p tt A step z _ cross] rest True by simp
next
  case False
  then show ?thesis using curve_ok.cons [OF p tt A step cross _ ends(3) rest] ends by simp
qed

lemma curve_build_ok:
  assumes law: "swap_law vm pool zfo" and "maximum < push_bit 255 1"
    and "loop_res (curve_body vm pool zfo ExactInput maximum) st = Some r"
  shows "limit_ok vm pool zfo (cs_price st) \<Longrightarrow> r = Inr st' \<Longrightarrow>
    \<exists>suf. cs_segments st' = cs_segments st @ suf \<and>
      curve_ok vm pool True zfo (curve_path st) (cs_specified_total st) (cs_result_total st) suf"
  using assms(3)
proof (induction rule: loop_res_induct [consumes 1, case_names fail stop go])
  case (stop st st1)
  then have ctl: "curve_body vm pool zfo ExactInput maximum st = Inr (Done st')" by simp
  then show ?case
  proof (cases rule: curve_body_Inr)
    case stop
    then show ?thesis by (auto intro: curve_ok.nil)
  next
    case (step rem tn ini sn t after i o' e c E Q)
    have after: "after \<noteq> sn" using step(9) by auto
    have "rem < push_bit 255 1"
      using step(2) assms(2) unfolding word_less_nat_alt by linarith
    then have A: "0 \<le> i256 rem" by (simp add: i256_small)
    have "curve_ok vm pool True zfo (cs_price st, cs_tick st, cs_liquidity st) (cs_specified_total st)
        (cs_result_total st) [segment_of E Q (cs_price st) t (cs_liquidity st)]"
      by (rule curve_ok.final [OF step(1,3) A step(4)]) (use after step(5-7) in auto)
    then show ?thesis
      using step(8) after by (auto simp: push_segment_of curve_path_def intro: curve_ok.nil)
  qed
next
  case (go st st1 r)
  from go(1) show ?case
  proof (cases rule: curve_body_Inr)
    case stop
    then show ?thesis by simp
  next
    case (step rem tn ini sn t after i o' e c E Q)
    have after: "after = sn" using step(8) by (auto split: if_splits)
    note lawful = swap_lawful [OF law go(3) step(3)]
    have t: "t = sn" using step_reaches [OF law go(3) step(3)] step(4) after by blast
    have "rem < push_bit 255 1"
      using step(2) assms(2) unfolding word_less_nat_alt by linarith
    then have A: "0 \<le> i256 rem" by (simp add: i256_small)
    obtain l' where l': "cross_tick vm pool zfo ''failed to cross prepared initialized tick'' tn ini
        (cs_liquidity st) = Inr l'"
      "st1 = st\<lparr>cs_segments := push_segment c E Q t st, cs_specified_total := E, cs_result_total := Q,
        cs_price := after, cs_liquidity := l', cs_tick := tick_past zfo tn\<rparr>"
      using step(9) [OF after] by auto
    obtain suf where suf: "cs_segments st' = cs_segments st1 @ suf"
      "curve_ok vm pool True zfo (t, tick_past zfo tn, l') E Q suf"
      using go(2) [OF _ go(4)] target_limit [OF step(3)] l'(2) after t by (auto simp: curve_path_def)
    have "curve_ok vm pool True zfo (cs_price st, cs_tick st, cs_liquidity st) (cs_specified_total st)
        (cs_result_total st) ((if c = 0 then [] else [segment_of E Q (cs_price st) t (cs_liquidity st)]) @ suf)"
      using curve_ok_step [OF lawful step(1) _ _ A l'(1) step(5-7) suf(2)] step(3,4) after t by simp
    then show ?thesis
      using suf(1) l'(2) by (cases "c = 0") (auto simp: push_segment_of curve_path_def)
  qed
qed simp

lemma fused_body_Inr:
  assumes "fused_body vm pool zfo st = Inr ctl"
  obtains (stop) "ctl = Done st"
    | (step) tn ini sn t after i o' e inp c o2 E Q rem n where
      "cs_result_remaining st \<noteq> 0" "cs_price st \<noteq> sqrt_price_limit vm zfo"
      "traversal_target vm pool zfo (cs_tick st) = Inr (tn, ini, sn, t)"
      "vm_compute_swap_step vm (cs_price st) t (cs_liquidity st) (- i256 (cs_result_remaining st))
         (fee_pips_for_direction pool zfo) = Some (after, i, o', e)"
      "unat inp = unat i + unat e"
      "fused_amounts vm (cs_price st) t (cs_liquidity st) (fee_pips_for_direction pool zfo) (after \<noteq> sn)
         inp o' = Inr (c, o2)"
      "unat E = unat (cs_specified_total st) + unat c" "unat Q = unat (cs_result_total st) + unat o2"
      "unat (cs_result_remaining st) = unat rem + unat o'"
      "after \<noteq> sn \<Longrightarrow> ctl = Done (st\<lparr>cs_segments := push_segment c E Q t st, cs_specified_total := E,
         cs_result_total := Q, cs_last_productive := n, cs_result_remaining := rem, cs_price := after\<rparr>)"
      "after = sn \<Longrightarrow> \<exists>l'. cross_tick vm pool zfo ''failed to cross fused prepared initialized tick'' tn ini
           (cs_liquidity st) = Inr l' \<and>
         ctl = Again (st\<lparr>cs_segments := push_segment c E Q t st, cs_specified_total := E,
           cs_result_total := Q, cs_last_productive := n, cs_result_remaining := rem, cs_price := after,
           cs_liquidity := l', cs_tick := tick_past zfo tn\<rparr>)"
proof (cases "cs_result_remaining st = 0 \<or> cs_price st = sqrt_price_limit vm zfo \<or> cs_liquidity st = 0")
  case True
  then show thesis using assms stop by (auto simp: fused_body_def)
next
  case False
  then obtain tn ini sn t after i o' e inp c o2 E Q rem n where s:
      "cs_result_remaining st \<noteq> 0" "cs_price st \<noteq> sqrt_price_limit vm zfo"
      "traversal_target vm pool zfo (cs_tick st) = Inr (tn, ini, sn, t)"
      "vm_compute_swap_step vm (cs_price st) t (cs_liquidity st) (- i256 (cs_result_remaining st))
         (fee_pips_for_direction pool zfo) = Some (after, i, o', e)"
      "unat inp = unat i + unat e"
      "fused_amounts vm (cs_price st) t (cs_liquidity st) (fee_pips_for_direction pool zfo) (after \<noteq> sn)
         inp o' = Inr (c, o2)"
      "unat E = unat (cs_specified_total st) + unat c" "unat Q = unat (cs_result_total st) + unat o2"
      "unat (cs_result_remaining st) = unat rem + unat o'"
      "(if after \<noteq> sn then Inr (Done (st\<lparr>cs_segments := push_segment c E Q t st, cs_specified_total := E,
           cs_result_total := Q, cs_last_productive := n, cs_result_remaining := rem, cs_price := after\<rparr>))
        else bind_res (cross_tick vm pool zfo ''failed to cross fused prepared initialized tick'' tn ini
           (cs_liquidity st)) (\<lambda>l'. Inr (Again (st\<lparr>cs_segments := push_segment c E Q t st,
             cs_specified_total := E, cs_result_total := Q, cs_last_productive := n,
             cs_result_remaining := rem, cs_price := after, cs_liquidity := l',
             cs_tick := tick_past zfo tn\<rparr>)))) = Inr ctl"
    using assms unfolding fused_body_def swap_step_def
    by (auto simp: Let_def checked_simps simp del: bind_res_Inr split: if_splits prod.splits)
       (auto simp: checked_simps)
  show thesis by (rule step [OF s(1-9), where n = n]) (use s(10) in \<open>auto split: if_splits\<close>)
qed

text \<open>A step to the target for an exact output: when its output is capped, it is the last one.\<close>

lemma fused_step_ok:
  assumes law: "lawful vm (fee_pips_for_direction pool zfo) p t" and p: "p \<noteq> sqrt_price_limit vm zfo"
    and tt: "traversal_target vm pool zfo tick = Inr (tn, ini, t, t)"
    and step: "vm_compute_swap_step vm p t l (- i256 r) (fee_pips_for_direction pool zfo) = Some (t, i, o', e)"
    and r: "r \<noteq> 0" "r < push_bit 255 1" and cross: "cross_tick vm pool zfo msg tn ini l = Inr l'"
    and ends: "unat c = unat i + unat e" "unat E = unat S + unat c" "unat Q = unat R + unat o'"
    and rem: "unat r = unat rem + unat o'" "rem = 0 \<Longrightarrow> segs = []"
    and rest: "curve_ok vm pool False zfo (t, tick_past zfo tn, l') E Q segs"
  shows "curve_ok vm pool False zfo (p, tick, l) S R ((if c = 0 then [] else [segment_of E Q p t l]) @ segs)"
proof -
  obtain out where out: "vm_compute_swap_step vm p t l (int (unat i + unat e)) (fee_pips_for_direction pool zfo) =
      Some (t, i, out, e)" "out = o' \<or> int (unat o') = i256 r"
    using lawful_capped [OF law step] by (metis minus_minus)
  have A: "0 \<le> int (unat i + unat e)" by simp
  show ?thesis
  proof (cases "out = o'")
    case True
    show ?thesis by (rule curve_ok_step [OF law p tt out(1) [unfolded True] A cross ends rest])
  next
    case False
    then have "int (unat o') = int (unat r)" using out(2) unfolding i256_small [OF r(2)] by blast
    then have "unat rem = 0" using rem(1) unfolding of_nat_eq_iff by linarith
    then have segs: "segs = []" using rem(2) by (simp add: word_unat_eq_iff)
    have "curve_ok vm pool False zfo (p, tick, l) S R [segment_of E Q p t l]"
      by (rule curve_ok.final [OF p tt A out(1)]) (use ends in auto)
    then show ?thesis using segs by (simp add: curve_ok.nil)
  qed
qed

lemma fused_build_ok:
  assumes law: "swap_law vm pool zfo" and "loop_res (fused_body vm pool zfo) st = Some r"
  shows "limit_ok vm pool zfo (cs_price st) \<Longrightarrow> cs_result_remaining st < push_bit 255 1 \<Longrightarrow> r = Inr st' \<Longrightarrow>
    \<exists>suf. cs_segments st' = cs_segments st @ suf \<and> (cs_result_remaining st = 0 \<longrightarrow> suf = []) \<and>
      curve_ok vm pool False zfo (curve_path st) (cs_specified_total st) (cs_result_total st) suf"
  using assms(2)
proof (induction rule: loop_res_induct [consumes 1, case_names fail stop go])
  case (stop st st1)
  then have ctl: "fused_body vm pool zfo st = Inr (Done st')" by simp
  then show ?case
  proof (cases rule: fused_body_Inr)
    case stop
    then show ?thesis by (auto intro: curve_ok.nil)
  next
    case (step tn ini sn t after i o' e inp c o2 E Q rem n)
    have after: "after \<noteq> sn" using step(11) by auto
    then obtain after2 i2 e2 where s2: "vm_compute_swap_step vm (cs_price st) t (cs_liquidity st) (i256 inp)
        (fee_pips_for_direction pool zfo) = Some (after2, i2, o2, e2)" "unat c = unat i2 + unat e2"
      using step(6) by (auto simp: fused_amounts_def swap_step_def checked_simps)
    have "unat inp < 2 ^ 255" using lawful_between [OF swap_lawful [OF law stop(2) step(3)] step(4)] step(5) by simp
    then have "inp < push_bit 255 1" unfolding word_less_nat_alt unat_half .
    then have A: "0 \<le> i256 inp" by (simp add: i256_small)
    have "curve_ok vm pool False zfo (cs_price st, cs_tick st, cs_liquidity st) (cs_specified_total st)
        (cs_result_total st) [segment_of E Q (cs_price st) t (cs_liquidity st)]"
      by (rule curve_ok.final [OF step(2,3) A s2(1)]) (use s2(2) step(7,8) in auto)
    then show ?thesis
      using step(10) [OF after] step(1) by (auto simp: push_segment_of curve_path_def intro: curve_ok.nil)
  qed
next
  case (go st st1 r)
  from go(1) show ?case
  proof (cases rule: fused_body_Inr)
    case stop
    then show ?thesis by simp
  next
    case (step tn ini sn t after i o' e inp c o2 E Q rem n)
    have after: "after = sn" using step(10) by auto
    note lawful = swap_lawful [OF law go(3) step(3)]
    have t: "t = sn" using step_reaches [OF law go(3) step(3)] step(4) after by blast
    have c: "c = inp" "o2 = o'" using step(6) after by (simp_all add: fused_amounts_def)
    obtain l' where l': "cross_tick vm pool zfo ''failed to cross fused prepared initialized tick'' tn ini
        (cs_liquidity st) = Inr l'"
      "st1 = st\<lparr>cs_segments := push_segment c E Q t st, cs_specified_total := E, cs_result_total := Q,
        cs_last_productive := n, cs_result_remaining := rem, cs_price := after, cs_liquidity := l',
        cs_tick := tick_past zfo tn\<rparr>"
      using step(11) [OF after] by auto
    have "rem < push_bit 255 1" using go(4) step(9) unfolding word_less_nat_alt by linarith
    then obtain suf where suf: "cs_segments st' = cs_segments st1 @ suf" "rem = 0 \<Longrightarrow> suf = []"
      "curve_ok vm pool False zfo (t, tick_past zfo tn, l') E Q suf"
      using go(2) [OF _ _ go(5)] target_limit [OF step(3)] l'(2) after t by (auto simp: curve_path_def)
    have "curve_ok vm pool False zfo (cs_price st, cs_tick st, cs_liquidity st) (cs_specified_total st)
        (cs_result_total st) ((if c = 0 then [] else [segment_of E Q (cs_price st) t (cs_liquidity st)]) @ suf)"
      by (rule fused_step_ok [OF lawful step(2) _ _ step(1) go(4) l'(1) _ step(7) _ step(9) suf(2,3)])
        (use step(3-5,8) after t c in auto)
    then show ?thesis
      using suf(1) l'(2) step(1) by (cases "c = 0") (auto simp: push_segment_of curve_path_def)
  qed
qed simp

section \<open>The direct quote along the path\<close>

lemma exact_in_body_step:
  assumes "qs_remaining st \<noteq> 0" "qs_price st \<noteq> sqrt_price_limit vm zfo"
    "traversal_target vm pool zfo (qs_tick st) = Inr (tn, ini, sn, t)"
    "vm_compute_swap_step vm (qs_price st) t (qs_liquidity st) (i256 (qs_remaining st))
       (fee_pips_for_direction pool zfo) = Some (after, i, o', e)"
    "unat i + unat e \<le> unat (qs_remaining st)" "unat Q = unat (qs_amount st) + unat o'"
  obtains rem where "unat (qs_remaining st) = unat rem + unat i + unat e"
    "exact_in_body vm pool False zfo st =
      (if after = sn then
         bind_res (cross_tick vm pool zfo ''failed to cross initialized tick'' tn ini (qs_liquidity st)) (\<lambda>l'.
         Inr (Again (st\<lparr>qs_remaining := rem, qs_amount := Q, qs_price := after, qs_liquidity := l',
           qs_tick := tick_past zfo tn, qs_crossed := (if ini then qs_crossed st + 1 else qs_crossed st)\<rparr>)))
       else Inr (Done (st\<lparr>qs_remaining := rem, qs_amount := Q, qs_price := after\<rparr>)))"
proof -
  have "unat i + unat e < 2 ^ LENGTH(256)" using assms(5) unat_lt [of "qs_remaining st"] by linarith
  then obtain c where c: "checked_add i e = Some c" by (simp add: checked_add_def)
  then have uc: "unat c = unat i + unat e" by (simp add: checked_simps)
  with assms(5) obtain rem where rem: "checked_sub (qs_remaining st) c = Some rem"
    by (auto simp: checked_sub_def word_le_nat_alt)
  have Q: "checked_add (qs_amount st) o' = Some Q" using assms(6) by (simp add: checked_simps)
  have "unat (qs_remaining st) = unat rem + unat i + unat e" using rem uc by (simp add: checked_simps)
  then show thesis
    by (rule that) (use assms(1-4) c rem Q in \<open>simp add: exact_in_body_def swap_step_def Let_def\<close>)
qed

lemma direct_full:
  assumes law: "lawful vm (fee_pips_for_direction pool zfo) (qs_price st) t" and "qs_remaining st \<noteq> 0" "qs_remaining st < push_bit 255 1"
    "qs_price st \<noteq> sqrt_price_limit vm zfo"
    and tt: "traversal_target vm pool zfo (qs_tick st) = Inr (tn, ini, t, t)"
    and step: "vm_compute_swap_step vm (qs_price st) t (qs_liquidity st) A (fee_pips_for_direction pool zfo) =
      Some (t, i, o', e)"
    and A: "0 \<le> A" and cross: "cross_tick vm pool zfo msg tn ini (qs_liquidity st) = Inr l'"
    and le: "unat i + unat e \<le> unat (qs_remaining st)" and Q: "unat Q = unat (qs_amount st) + unat o'"
  obtains st1 where "exact_in_body vm pool False zfo st = Inr (Again st1)"
    "unat (qs_remaining st) = unat (qs_remaining st1) + unat i + unat e" "qs_amount st1 = Q"
    "qs_price st1 = t" "qs_tick st1 = tick_past zfo tn" "qs_liquidity st1 = l'"
proof -
  have b: "i256 (qs_remaining st) = int (unat (qs_remaining st))" by (rule i256_small [OF assms(3)])
  have "unat (qs_remaining st) < 2 ^ 255" using assms(3) unfolding word_less_nat_alt unat_half .
  then have "int (unat (qs_remaining st)) < int (2 ^ 255)" by (simp only: of_nat_less_iff)
  moreover have "int (unat i + unat e) \<le> int (unat (qs_remaining st))" using le by (simp only: of_nat_le_iff)
  ultimately have "vm_compute_swap_step vm (qs_price st) t (qs_liquidity st) (i256 (qs_remaining st))
      (fee_pips_for_direction pool zfo) = Some (t, i, o', e)"
    unfolding b by (intro lawful_full(1) [OF law step A]) (simp_all only: of_nat_power of_nat_numeral)
  note s = this
  show thesis
  proof (rule exact_in_body_step [OF assms(2,4) tt s le Q])
    fix rem :: u256
    assume rem: "unat (qs_remaining st) = unat rem + unat i + unat e"
    assume "exact_in_body vm pool False zfo st = (if t = t then
        bind_res (cross_tick vm pool zfo ''failed to cross initialized tick'' tn ini (qs_liquidity st)) (\<lambda>l'.
        Inr (Again (st\<lparr>qs_remaining := rem, qs_amount := Q, qs_price := t, qs_liquidity := l',
          qs_tick := tick_past zfo tn, qs_crossed := (if ini then qs_crossed st + 1 else qs_crossed st)\<rparr>)))
      else Inr (Done (st\<lparr>qs_remaining := rem, qs_amount := Q, qs_price := t\<rparr>)))"
    then have "exact_in_body vm pool False zfo st = Inr (Again (st\<lparr>qs_remaining := rem, qs_amount := Q,
        qs_price := t, qs_liquidity := l', qs_tick := tick_past zfo tn,
        qs_crossed := (if ini then qs_crossed st + 1 else qs_crossed st)\<rparr>))"
      by (simp only: cross_tick_msg [OF cross] bind_res_simps if_True simp_thms)
    then show thesis by (rule that) (use rem in simp_all)
  qed
qed

lemma direct_partial:
  assumes law: "lawful vm (fee_pips_for_direction pool zfo) (qs_price st) t" and "qs_remaining st \<noteq> 0" "qs_remaining st < push_bit 255 1"
    "qs_price st \<noteq> sqrt_price_limit vm zfo"
    and tt: "traversal_target vm pool zfo (qs_tick st) = Inr (tn, ini, sn, t)"
    and step: "vm_compute_swap_step vm (qs_price st) t (qs_liquidity st) (i256 (qs_remaining st))
      (fee_pips_for_direction pool zfo) = Some (after, i, o', e)"
    and after: "after \<noteq> sn" and all: "after = t \<Longrightarrow> unat i + unat e = unat (qs_remaining st)"
    and Q: "unat Q = unat (qs_amount st) + unat o'"
  shows "\<exists>st'. loop_res (exact_in_body vm pool False zfo) st = Some (Inr st') \<and> qs_remaining st' = 0 \<and>
    qs_amount st' = Q"
proof -
  have b: "i256 (qs_remaining st) = int (unat (qs_remaining st))" by (rule i256_small [OF assms(3)])
  have "after \<noteq> t \<Longrightarrow> int (unat i + unat e) = int (unat (qs_remaining st))"
    using lawful_in(2) [OF law step] unfolding b by simp
  then have all: "unat i + unat e = unat (qs_remaining st)" using all by (metis of_nat_eq_iff)
  then obtain rem where "unat (qs_remaining st) = unat rem + unat i + unat e"
    "exact_in_body vm pool False zfo st =
       Inr (Done (st\<lparr>qs_remaining := rem, qs_amount := Q, qs_price := after\<rparr>))"
    using exact_in_body_step [OF assms(2,4) tt step _ Q] after by (metis order_refl)
  moreover from this(1) all have "rem = 0" by (simp add: word_unat_eq_iff)
  ultimately show ?thesis by (simp add: loop_res_simps(2))
qed

lemma direct_done:
  assumes "exact_in_body vm pool False zfo st = Inr (Again st1)" "qs_remaining st1 = 0"
  shows "loop_res (exact_in_body vm pool False zfo) st = Some (Inr st1)"
  using assms by (simp add: loop_res_simps(3) loop_res_simps(2) [of _ st1] exact_in_body_def [of _ _ _ _ st1])

text \<open>An amount that ends inside a segment: the direct loop stops in the same step.\<close>

lemma direct_inside:
  assumes law: "swap_law vm pool zfo" and r: "qs_remaining st \<noteq> 0" "qs_remaining st < push_bit 255 1"
    and p: "qs_price st \<noteq> sqrt_price_limit vm zfo" and lim: "limit_ok vm pool zfo (qs_price st)"
    and tt: "traversal_target vm pool zfo (qs_tick st) = Inr (tn, ini, sn, t)"
    and seg: "vm_compute_swap_step vm (qs_price st) t (qs_liquidity st) A (fee_pips_for_direction pool zfo) =
      Some (after, i, o', e)" "0 \<le> A" "unat (qs_remaining st) < unat i + unat e"
    and step: "vm_compute_swap_step vm (qs_price st) t (qs_liquidity st) (i256 (qs_remaining st))
      (fee_pips_for_direction pool zfo) = Some (after2, i2, o2, e2)"
    and Q: "unat Q = unat (qs_amount st) + unat o2"
  shows "\<exists>st'. loop_res (exact_in_body vm pool False zfo) st = Some (Inr st') \<and> qs_remaining st' = 0 \<and>
    qs_amount st' = Q"
proof -
  note lawful = swap_lawful [OF law lim tt]
  have b: "i256 (qs_remaining st) = int (unat (qs_remaining st))" by (rule i256_small [OF r(2)])
  have "after2 \<noteq> t"
  proof
    assume a2: "after2 = t"
    show False
    proof (cases "after = t")
      case True
      have "i256 (qs_remaining st) < int (unat i + unat e)" "0 \<le> i256 (qs_remaining st)"
        using seg(3) unfolding b by (simp_all only: of_nat_less_iff of_nat_0_le_iff)
      then show False
        using lawful_full(2) [OF lawful seg(1) [unfolded True] seg(2), of "i256 (qs_remaining st)"] step a2
        by (metis fst_conv)
    next
      case False
      note A = seg(2)
      have "int (unat i2 + unat e2) \<le> i256 (qs_remaining st)" using lawful_in(1) [OF lawful step] b by simp
      then have le: "int (unat i2 + unat e2) \<le> A"
        using lawful_in(1) [OF lawful seg(1) A] seg(3) b by linarith
      have "A < 2 ^ 255"
      proof -
        have "unat i + unat e < 2 ^ 255" using lawful_between [OF lawful seg(1)] by blast
        then have "int (unat i + unat e) < int (2 ^ 255)" by (simp only: of_nat_less_iff)
        then show ?thesis using lawful_in(2) [OF lawful seg(1) A False] by simp
      qed
      then show False using lawful_full(1) [OF lawful step [unfolded a2] _ le] seg(1) False b by simp
    qed
  qed
  then show ?thesis
    using step_reaches [OF law lim tt] step by (intro direct_partial [OF lawful r p tt step _ _ Q]) auto
qed

lemma segment_of_sel [simp]:
  "sg_specified_end (segment_of E Q p t l) = E" "sg_result_end (segment_of E Q p t l) = Q"
  "sg_sqrt_price_start_x96 (segment_of E Q p t l) = p" "sg_sqrt_price_target_x96 (segment_of E Q p t l) = t"
  "sg_liquidity (segment_of E Q p t l) = l"
  by (simp_all add: segment_of_def)

text \<open>The state of the direct loop when \<open>S\<close> has been spent of \<open>a\<close> and \<open>R\<close> received.\<close>

definition direct_at :: "v3_math \<Rightarrow> clmm_pool \<Rightarrow> bool \<Rightarrow> path_state \<Rightarrow> u256 \<Rightarrow> u256 \<Rightarrow> u256 \<Rightarrow> quote_state \<Rightarrow> bool" where
  "direct_at vm pool zfo s S R a st \<longleftrightarrow> s = (qs_price st, qs_tick st, qs_liquidity st) \<and>
     limit_ok vm pool zfo (qs_price st) \<and> unat a = unat S + unat (qs_remaining st) \<and> qs_remaining st \<noteq> 0 \<and>
     a < push_bit 255 1 \<and> qs_amount st = R"

definition direct_returns :: "v3_math \<Rightarrow> clmm_pool \<Rightarrow> bool \<Rightarrow> quote_state \<Rightarrow> u256 \<Rightarrow> bool" where
  "direct_returns vm pool zfo st out \<longleftrightarrow>
     (\<exists>st'. loop_res (exact_in_body vm pool False zfo) st = Some (Inr st') \<and> qs_remaining st' = 0 \<and>
        qs_amount st' = out)"

lemma direct_at_small: "direct_at vm pool zfo s S R a st \<Longrightarrow> qs_remaining st < push_bit 255 1"
  by (auto simp: direct_at_def word_less_nat_alt)

lemma direct_returns_Again:
  "exact_in_body vm pool False zfo st = Inr (Again st1) \<Longrightarrow> direct_returns vm pool zfo st1 out \<Longrightarrow>
     direct_returns vm pool zfo st out"
  by (simp add: direct_returns_def loop_res_simps(3))

lemma quote_from_inside:
  assumes "quote_from vm fee S R (segment_of E Q p t l # segs) a = Inr out" "\<not> E < a" "a \<noteq> E"
    and "unat a = unat S + unat r"
  obtains after i o' e where "vm_compute_swap_step vm p t l (i256 r) fee = Some (after, i, o', e)"
    "unat out = unat R + unat o'"
proof -
  have "checked_sub a S = Some r" using assms(4) by (simp add: checked_simps)
  then show thesis using assms(1-3) that by (auto simp: swap_step_def checked_add_Some)
qed

text \<open>One segment that the direct loop walks through, ends at, or stops inside.\<close>

lemma direct_segment:
  assumes law: "swap_law vm pool zfo" and at: "direct_at vm pool zfo (p, tick, l) S R a st"
    and p: "p \<noteq> sqrt_price_limit vm zfo" and tt: "traversal_target vm pool zfo tick = Inr (tn, ini, t, t)"
    and step: "vm_compute_swap_step vm p t l A (fee_pips_for_direction pool zfo) = Some (t, i, o', e)"
    and A: "0 \<le> A" and cross: "cross_tick vm pool zfo msg tn ini l = Inr l'"
    and E: "unat E = unat S + unat i + unat e" and Q: "unat Q = unat R + unat o'"
    and quote: "quote_from vm (fee_pips_for_direction pool zfo) S R (segment_of E Q p t l # segs) a = Inr out"
    and IH: "\<And>st1. direct_at vm pool zfo (t, tick_past zfo tn, l') E Q a st1 \<Longrightarrow> E < a \<Longrightarrow>
      direct_returns vm pool zfo st1 out"
  shows "direct_returns vm pool zfo st out"
proof (cases "E \<le> a")
  case True
  note d = at [unfolded direct_at_def]
  have lawful: "lawful vm (fee_pips_for_direction pool zfo) (qs_price st) t" using swap_lawful [OF law _ tt] d by blast
  have le: "unat i + unat e \<le> unat (qs_remaining st)" using True d E unfolding word_le_nat_alt by linarith
  obtain st1 where st1: "exact_in_body vm pool False zfo st = Inr (Again st1)"
    "unat (qs_remaining st) = unat (qs_remaining st1) + unat i + unat e" "qs_amount st1 = Q"
    "qs_price st1 = t" "qs_tick st1 = tick_past zfo tn" "qs_liquidity st1 = l'"
    by (rule direct_full [OF lawful, of tn ini A i o' e msg l' Q])
      (use d p tt step A cross le Q direct_at_small [OF at] in auto)
  show ?thesis
  proof (cases "a = E")
    case eq: True
    then have "qs_remaining st1 = 0" using d E st1(2) by (simp add: word_unat_eq_iff)
    moreover have "out = Q" using quote eq by simp
    ultimately show ?thesis using direct_done [OF st1(1)] st1(3) by (auto simp: direct_returns_def)
  next
    case False
    then have lt: "E < a" using True by simp
    have "limit_ok vm pool zfo t" by (rule target_limit [OF tt])
    then have "direct_at vm pool zfo (t, tick_past zfo tn, l') E Q a st1"
      using d E st1 lt by (auto simp: direct_at_def word_less_nat_alt)
    then show ?thesis using IH lt direct_returns_Again [OF st1(1)] by blast
  qed
next
  case False
  note d = at [unfolded direct_at_def]
  obtain after2 i2 o2 e2 where s2: "vm_compute_swap_step vm p t l (i256 (qs_remaining st))
      (fee_pips_for_direction pool zfo) = Some (after2, i2, o2, e2)" "unat out = unat R + unat o2"
    by (rule quote_from_inside [OF quote]) (use False d in auto)
  have lt: "unat (qs_remaining st) < unat i + unat e" using False d E unfolding word_le_nat_alt by linarith
  show ?thesis
    unfolding direct_returns_def
    by (rule direct_inside [OF law _ direct_at_small [OF at], of tn ini t t A t i o' e after2 i2 o2 e2])
      (use d p tt step A s2 lt in auto)
qed

lemma direct_final:
  assumes law: "swap_law vm pool zfo" and at: "direct_at vm pool zfo (p, tick, l) S R a st"
    and p: "p \<noteq> sqrt_price_limit vm zfo" and tt: "traversal_target vm pool zfo tick = Inr (tn, ini, sn, t)"
    and A: "0 \<le> A"
    and step: "vm_compute_swap_step vm p t l A (fee_pips_for_direction pool zfo) = Some (after, i, o', e)"
    and E: "unat E = unat S + unat i + unat e" and Q: "a = E \<Longrightarrow> unat Q = unat R + unat o'"
    and quote: "quote_from vm (fee_pips_for_direction pool zfo) S R [segment_of E Q p t l] a = Inr out"
    and stops: "a \<noteq> E \<or> after \<noteq> sn"
  shows "direct_returns vm pool zfo st out"
proof -
  note d = at [unfolded direct_at_def]
  have lawful: "lawful vm (fee_pips_for_direction pool zfo) p t" using swap_lawful [OF law _ tt] d by blast
  have "\<not> E < a" using quote by (auto split: if_splits)
  show ?thesis
  proof (cases "a = E")
    case True
    then have r: "unat (qs_remaining st) = unat i + unat e" using d E by simp
    have out: "out = Q" using quote True by simp
    have "vm_compute_swap_step vm p t l (i256 (qs_remaining st)) (fee_pips_for_direction pool zfo) =
        Some (after, i, o', e)"
    proof (cases "after = t")
      case at: True
      have "unat i + unat e < 2 ^ 255" using lawful_between [OF lawful step] by blast
      then have "int (unat i + unat e) < int (2 ^ 255)" by (simp only: of_nat_less_iff)
      then show ?thesis
        using lawful_full(1) [OF lawful step [unfolded at] A, of "int (unat i + unat e)"] at r
          i256_small [OF direct_at_small [OF assms(2)]] by simp
    next
      case False
      then have "A = int (unat i + unat e)" using lawful_in(2) [OF lawful step A] by simp
      then show ?thesis using step r i256_small [OF direct_at_small [OF at]] by simp
    qed
    note s = this
    show ?thesis
      unfolding direct_returns_def out
      by (rule direct_partial [OF _ _ direct_at_small [OF at], of vm pool zfo t tn ini sn after i o' e Q])
        (use lawful s d p tt r Q stops True in auto)
  next
    case False
    obtain after2 i2 o2 e2 where s2: "vm_compute_swap_step vm p t l (i256 (qs_remaining st))
        (fee_pips_for_direction pool zfo) = Some (after2, i2, o2, e2)" "unat out = unat R + unat o2"
      by (rule quote_from_inside [OF quote \<open>\<not> E < a\<close> False]) (use d in auto)
    have lt: "unat (qs_remaining st) < unat i + unat e"
      using False \<open>\<not> E < a\<close> d E by (auto simp: word_less_nat_alt word_unat_eq_iff)
    show ?thesis
      unfolding direct_returns_def
      by (rule direct_inside [OF law _ direct_at_small [OF at], of tn ini sn t A after i o' e after2 i2 o2 e2])
        (use d p tt step A s2 lt in auto)
  qed
qed

lemma curve_sound:
  assumes law: "swap_law vm pool zfo" and "curve_ok vm pool safe zfo s S R segs"
  shows "direct_at vm pool zfo s S R a st \<Longrightarrow>
    quote_from vm (fee_pips_for_direction pool zfo) S R segs a = Inr out \<Longrightarrow>
    safe \<or> a \<noteq> sg_specified_end (last segs) \<Longrightarrow> direct_returns vm pool zfo st out"
  using assms(2)
proof (induction arbitrary: st rule: curve_ok.induct)
  case (nil s S R)
  then show ?case by simp
next
  case (skip p tick tn ini t A l i o' e msg l' S R segs)
  note d = skip.prems(1) [unfolded direct_at_def]
  have lawful: "lawful vm (fee_pips_for_direction pool zfo) (qs_price st) t"
    using swap_lawful [OF law _ skip.hyps(2)] d by blast
  obtain st1 where st1: "exact_in_body vm pool False zfo st = Inr (Again st1)"
    "unat (qs_remaining st) = unat (qs_remaining st1) + unat i + unat e" "qs_amount st1 = R"
    "qs_price st1 = t" "qs_tick st1 = tick_past zfo tn" "qs_liquidity st1 = l'"
    by (rule direct_full [OF lawful, of tn ini A i o' e msg l' R])
      (use d skip.hyps direct_at_small [OF skip.prems(1)] in auto)
  have "limit_ok vm pool zfo t" by (rule target_limit [OF skip.hyps(2)])
  moreover have "qs_remaining st1 = qs_remaining st"
    using st1(2) skip.hyps(5) by (simp add: word_unat_eq_iff)
  ultimately have "direct_at vm pool zfo (t, tick_past zfo tn, l') S R a st1"
    using d st1(3-6) by (simp add: direct_at_def)
  then show ?case using skip.IH skip.prems(2,3) direct_returns_Again [OF st1(1)] by blast
next
  case (final p tick tn ini sn t A l after i o' e msg E S Q R)
  note d = final.prems(1) [unfolded direct_at_def]
  show ?case
  proof (cases "a \<noteq> E \<or> after \<noteq> sn")
    case True
    then show ?thesis
      by (intro direct_final [OF law final.prems(1) final.hyps(1-4) final.hyps(6) _ final.prems(2)])
      (use final.hyps(7) final.prems(3) True in auto)
  next
    case False
    then have t: "t = sn" using step_reaches [OF law _ final.hyps(2)] final.hyps(4) d by blast
    have safe using False final.prems(3) by simp
    then obtain l' where l': "cross_tick vm pool zfo msg tn ini l = Inr l'"
      using final.hyps(5) t False by auto
    have tt: "traversal_target vm pool zfo tick = Inr (tn, ini, t, t)" using final.hyps(2) t by simp
    have step: "vm_compute_swap_step vm p t l A (fee_pips_for_direction pool zfo) = Some (t, i, o', e)"
      using final.hyps(4) t False by simp
    show ?thesis
      by (rule direct_segment [OF law final.prems(1) final.hyps(1) tt step final.hyps(3) l' final.hyps(6) _ final.prems(2)])
        (use False final.hyps(7) \<open>safe\<close> in auto)
  qed
next
  case (cons p tick tn ini t A l i o' e msg l' E S Q R segs)
  have IH: "direct_returns vm pool zfo st1 out"
    if "direct_at vm pool zfo (t, tick_past zfo tn, l') E Q a st1" "E < a" for st1
  proof (rule cons.IH [OF that(1)])
    show q: "quote_from vm (fee_pips_for_direction pool zfo) E Q segs a = Inr out"
      using cons.prems(2) that(2) by simp
    then show "safe \<or> a \<noteq> sg_specified_end (last segs)"
      using cons.prems(3) by (cases "segs = []") auto
  qed
  show ?case
    by (rule direct_segment [OF law cons.prems(1) cons.hyps(1,2,4,3,5-7) cons.prems(2) IH])
qed

lemma limit_ok_start:
  assumes "vm_min_sqrt_ratio vm < cp_sqrt_price_x96 pool" "cp_sqrt_price_x96 pool < vm_max_sqrt_ratio vm"
  shows "limit_ok vm pool zfo (cp_sqrt_price_x96 pool)"
proof (cases zfo)
  case True
  then show ?thesis using assms(1) by (simp add: limit_ok_def swap_price_def sqrt_price_limit_def inc_le)
next
  case False
  have "1 \<le> vm_max_sqrt_ratio vm" using assms(2) by (simp add: word_le_nat_alt word_less_nat_alt)
  then show ?thesis
    using False assms(2)
    by (simp add: limit_ok_def swap_price_def sqrt_price_limit_def word_le_nat_alt word_less_nat_alt unat_sub)
qed

lemma built_curve_ok:
  assumes law: "swap_law vm pool zfo" and price: "vm_min_sqrt_ratio vm < cp_sqrt_price_x96 pool"
    "cp_sqrt_price_x96 pool < vm_max_sqrt_ratio vm"
  shows "prepare_exact_input_curve_bounded vm pool zfo maximum = Some (Inr curve) \<Longrightarrow>
      \<exists>segs. curve = \<lparr>cv_kind = ExactInput, cv_fee_pips = fee_pips_for_direction pool zfo, cv_segments = segs\<rparr> \<and>
        curve_ok vm pool True zfo (cp_sqrt_price_x96 pool, cp_tick pool, cp_liquidity pool) 0 0 segs"
    and "prepare_exact_input_curve_bounded_by_exact_output vm pool zfo maximum = Some (Inr curve) \<Longrightarrow>
      \<exists>segs. curve = \<lparr>cv_kind = ExactInput, cv_fee_pips = fee_pips_for_direction pool zfo, cv_segments = segs\<rparr> \<and>
        curve_ok vm pool False zfo (cp_sqrt_price_x96 pool, cp_tick pool, cp_liquidity pool) 0 0 segs"
proof -
  have lim: "limit_ok vm pool zfo (cs_price (curve_start pool x))" for x
    using limit_ok_start [OF price] by (simp add: curve_start_def)
  have start: "curve_path (curve_start pool x) = (cp_sqrt_price_x96 pool, cp_tick pool, cp_liquidity pool)"
    "cs_specified_total (curve_start pool x) = 0" "cs_result_total (curve_start pool x) = 0"
    "cs_segments (curve_start pool x) = []" for x
    by (simp_all add: curve_path_def curve_start_def)
  show "\<exists>segs. curve = \<lparr>cv_kind = ExactInput, cv_fee_pips = fee_pips_for_direction pool zfo, cv_segments = segs\<rparr> \<and>
      curve_ok vm pool True zfo (cp_sqrt_price_x96 pool, cp_tick pool, cp_liquidity pool) 0 0 segs"
    if "prepare_exact_input_curve_bounded vm pool zfo maximum = Some (Inr curve)"
  proof -
    from that obtain st' where st': "loop_res (curve_body vm pool zfo ExactInput maximum) (curve_start pool 0) =
        Some (Inr st')" "maximum < push_bit 255 1" "curve = \<lparr>cv_kind = ExactInput,
        cv_fee_pips = fee_pips_for_direction pool zfo, cv_segments = cs_segments st'\<rparr>"
      by (auto simp: prepare_exact_input_curve_bounded_def prepare_quote_curve_def split: if_splits)
    with curve_build_ok [OF law st'(2,1) lim refl] show ?thesis by (auto simp: start)
  qed
  show "\<exists>segs. curve = \<lparr>cv_kind = ExactInput, cv_fee_pips = fee_pips_for_direction pool zfo, cv_segments = segs\<rparr> \<and>
      curve_ok vm pool False zfo (cp_sqrt_price_x96 pool, cp_tick pool, cp_liquidity pool) 0 0 segs"
    if "prepare_exact_input_curve_bounded_by_exact_output vm pool zfo maximum = Some (Inr curve)"
  proof -
    from that obtain st' where st': "loop_res (fused_body vm pool zfo) (curve_start pool maximum) = Some (Inr st')"
      "maximum < push_bit 255 1" "curve = \<lparr>cv_kind = ExactInput, cv_fee_pips = fee_pips_for_direction pool zfo,
        cv_segments = take (cs_last_productive st') (cs_segments st')\<rparr>"
      by (auto simp: prepare_exact_input_curve_bounded_by_exact_output_def split: if_splits)
    have "cs_result_remaining (curve_start pool maximum) < push_bit 255 1"
      unfolding curve_start_def curve_state.simps by (rule st'(2))
    from fused_build_ok [OF law st'(1) lim this refl] have
      "curve_ok vm pool False zfo (cp_sqrt_price_x96 pool, cp_tick pool, cp_liquidity pool) 0 0 (cs_segments st')"
      unfolding start append_Nil by blast
    from curve_ok_take [OF this] st'(3) show ?thesis by blast
  qed
qed

section \<open>A library for concrete runs\<close>

text \<open>
  Prices that move by one per unit of input, without fee, and prices that are linear in the tick: enough
  of the library to run the loops.
\<close>

definition gap :: "u256 \<Rightarrow> u256 \<Rightarrow> u256" where
  "gap p t = (if t \<le> p then p - t else t - p)"

definition linear_step :: "u256 \<Rightarrow> u256 \<Rightarrow> u128 \<Rightarrow> int \<Rightarrow> u32 \<Rightarrow> (u256 \<times> u256 \<times> u256 \<times> u256) option" where
  "linear_step p t l a fee =
     (let d = gap p t; m = (if uint d \<le> \<bar>a\<bar> then d else of_int \<bar>a\<bar>) in
      if d \<ge> push_bit 255 1 then None else Some (if t \<le> p then p - m else p + m, m, m, 0))"

lemma gap_split:
  "t \<le> p \<Longrightarrow> unat p = unat t + unat (gap p t)" "\<not> t \<le> p \<Longrightarrow> unat t = unat p + unat (gap p t)"
  by (simp_all add: gap_def word_le_nat_alt unat_sub)

lemma uint_le_abs: "uint w \<le> \<bar>x\<bar> \<longleftrightarrow> unat w \<le> nat \<bar>x\<bar>"
  by (simp add: le_nat_iff)

lemma linear_step_Some:
  assumes "linear_step p t l a fee = Some (after, i, o', e)"
  shows "unat (gap p t) < 2 ^ 255" "e = 0" "o' = i" "unat i = min (nat \<bar>a\<bar>) (unat (gap p t))"
    "unat after = (if t \<le> p then unat p - unat i else unat p + unat i)"
proof -
  have d: "gap p t < push_bit 255 1" "i = (if uint (gap p t) \<le> \<bar>a\<bar> then gap p t else of_int \<bar>a\<bar>)"
    "after = (if t \<le> p then p - i else p + i)"
    using assms by (auto simp: linear_step_def Let_def not_le split: if_splits)
  show "unat (gap p t) < 2 ^ 255" using d(1) unfolding word_less_nat_alt unat_half .
  show "e = 0" "o' = i" using assms by (auto simp: linear_step_def Let_def split: if_splits)
  show i: "unat i = min (nat \<bar>a\<bar>) (unat (gap p t))"
  proof (cases "uint (gap p t) \<le> \<bar>a\<bar>")
    case True
    then show ?thesis using d(2) unfolding uint_le_abs by simp
  next
    case False
    then have "\<bar>a\<bar> < 2 ^ 256" using uint_lt2p [of "gap p t"] by simp
    then have "uint (of_int \<bar>a\<bar> :: u256) = \<bar>a\<bar>" by (simp add: uint_word_of_int_eq take_bit_int_eq_self)
    then have "unat i = nat \<bar>a\<bar>" using False d(2) by (simp add: unat_eq_nat_uint)
    then show ?thesis using False unfolding uint_le_abs by simp
  qed
  show "unat after = (if t \<le> p then unat p - unat i else unat p + unat i)"
  proof (cases "t \<le> p")
    case True
    then have "i \<le> p" using i gap_split(1) [OF True] unfolding word_le_nat_alt by linarith
    then show ?thesis using True d(3) by (simp add: unat_sub)
  next
    case False
    then have "unat p + unat i \<le> unat t" using i gap_split(2) [OF False] by linarith
    then have "unat p + unat i < 2 ^ LENGTH(256)" using unat_lt [of t] by linarith
    then show ?thesis using False d(3) by (simp add: unat_word_ariths)
  qed
qed

lemma linear_step_min:
  assumes "min (nat \<bar>b\<bar>) (unat (gap p t)) = min (nat \<bar>a\<bar>) (unat (gap p t))"
  shows "linear_step p t l b fee = linear_step p t l a fee"
proof -
  have "uint (gap p t) \<le> \<bar>b\<bar> \<longleftrightarrow> uint (gap p t) \<le> \<bar>a\<bar>"
    using assms unfolding uint_le_abs by (simp add: min_def split: if_splits)
  moreover have "\<bar>b\<bar> = \<bar>a\<bar>" if "\<not> uint (gap p t) \<le> \<bar>a\<bar>"
    using assms that unfolding uint_le_abs by (simp add: min_def split: if_splits)
  ultimately show ?thesis unfolding linear_step_def Let_def by presburger
qed

lemma linear_step_reach:
  assumes "linear_step p t l a fee = Some (after, i, o', e)"
  shows "min p t \<le> after" "after \<le> max p t" "after = t \<longleftrightarrow> unat (gap p t) \<le> nat \<bar>a\<bar>"
proof -
  define n where "n = nat \<bar>a\<bar>"
  note s = linear_step_Some [OF assms, folded n_def]
  have "min p t \<le> after \<and> after \<le> max p t \<and> (after = t \<longleftrightarrow> unat (gap p t) \<le> n)"
  proof (cases "t \<le> p")
    case True
    then show ?thesis using s(4,5) gap_split(1) [OF True] True
      by (auto simp: min_def max_def word_le_nat_alt word_unat_eq_iff)
  next
    case False
    then show ?thesis using s(4,5) gap_split(2) [OF False] False
      by (auto simp: min_def max_def word_le_nat_alt word_unat_eq_iff)
  qed
  then show "min p t \<le> after" "after \<le> max p t" "after = t \<longleftrightarrow> unat (gap p t) \<le> nat \<bar>a\<bar>"
    unfolding n_def by blast+
qed

lemma linear_step_law: "lawful (math\<lparr>vm_compute_swap_step := linear_step\<rparr>) fee p t"
  unfolding lawful_def
proof (intro allI impI)
  fix l :: u128 and a :: int and step
  let ?vm = "math\<lparr>vm_compute_swap_step := linear_step\<rparr>"
  assume "vm_compute_swap_step ?vm p t l a fee = Some step"
  then obtain after i o' e where step: "step = (after, i, o', e)" "linear_step p t l a fee = Some (after, i, o', e)"
    by (cases step) auto
  have vm: "vm_compute_swap_step ?vm = linear_step" by simp
  define g where "g = unat (gap p t)"
  note s = linear_step_Some [OF step(2), folded g_def] linear_step_reach [OF step(2), folded g_def]
  have ie: "int (unat i + unat e) = min \<bar>a\<bar> (int g)"
    using s(2,4) by (simp only: unsigned_0 add_0_right of_nat_min)
  have full: "linear_step p t l b fee = Some (t, i, o', e)"
    if "after = t" "int (unat i + unat e) \<le> b" for b
  proof -
    have "min (nat \<bar>b\<bar>) g = min (nat \<bar>a\<bar>) g" using that s(8) ie by simp
    then have "linear_step p t l b fee = linear_step p t l a fee" unfolding g_def by (rule linear_step_min)
    then show ?thesis using step(2) that(1) by simp
  qed
  have short: "fst r \<noteq> t"
    if "after = t" "0 \<le> b" "b < int (unat i + unat e)" "linear_step p t l b fee = Some r" for b r
    using linear_step_reach(3) [of p t l b fee "fst r", folded g_def] that s(8) ie by (cases r) auto
  have "unat i + unat e < 2 ^ 255" "unat i + unat e = 0 \<longrightarrow> o' = 0" using s(1-4)
    by (simp_all add: word_unat_eq_iff)
  moreover have "0 \<le> a \<longrightarrow> int (unat i + unat e) \<le> a \<and> (after \<noteq> t \<longrightarrow> int (unat i + unat e) = a)"
    using s(8) ie by auto
  ultimately show "step_law ?vm p t l fee a step"
    using s(6,7) full short unfolding step(1) step_law_def prod.case vm
    by (intro conjI impI exI [of _ o']; blast)
qed

definition demo_math :: v3_math where
  "demo_math = \<lparr>vm_min_tick = - 887272, vm_max_tick = 887272, vm_min_sqrt_ratio = 112728,
     vm_max_sqrt_ratio = 1887272, vm_compute_swap_step = linear_step,
     vm_add_delta = (\<lambda>l d. if 0 \<le> uint l + d \<and> uint l + d < 2 ^ 128 then Some (of_int (uint l + d)) else None),
     vm_flip_tick = (\<lambda>table tick spacing. if tick mod spacing = 0 then Some table else None),
     vm_next_tick = (\<lambda>table tick spacing zero_for_one. Some (if zero_for_one then tick else tick + 1, False)),
     vm_sqrt_ratio_at_tick = (\<lambda>t. if - 887272 \<le> t \<and> t \<le> 887272 then Some (of_int (t + 1000000)) else None),
     vm_tick_at_sqrt_ratio = (\<lambda>p. Some (uint p - 1000000))\<rparr>"

definition demo_pool :: clmm_pool where
  "demo_pool = \<lparr>cp_fee_pips = 0, cp_one_for_zero_fee_pips = 0, cp_tick_spacing = 10,
     cp_sqrt_price_x96 = 1000005, cp_tick = 5, cp_liquidity = 7,
     cp_tick_bitmap = [0 \<mapsto> push_bit 30 1 OR 1, - 1 \<mapsto> push_bit 236 1],
     cp_ticks = [- 20 \<mapsto> \<lparr>tl_gross = 4, tl_net = 4\<rparr>, 0 \<mapsto> \<lparr>tl_gross = 3, tl_net = 3\<rparr>,
       30 \<mapsto> \<lparr>tl_gross = 7, tl_net = - 7\<rparr>],
     cp_word_boundary_sqrt_ratios = vm_sqrt_ratio_at_tick demo_math,
     cp_tick_traversal = AlgebraRaw, cp_fee_profile = AlgebraSingle\<rparr>"

definition demo_curve :: prepared_quote_curve where
  "demo_curve = \<lparr>cv_kind = ExactInput, cv_fee_pips = 0, cv_segments =
     [segment_of 5 5 1000005 1000000 7, segment_of 12 12 1000000 999980 4]\<rparr>"

definition demo_state :: "prepared_quote_segment list \<Rightarrow> u256 \<Rightarrow> u256 \<Rightarrow> int \<Rightarrow> u128 \<Rightarrow> curve_state" where
  "demo_state segs done_so_far price tick l =
     \<lparr>cs_segments = segs, cs_specified_total = done_so_far, cs_result_total = done_so_far,
      cs_result_remaining = 0, cs_price = price, cs_tick = tick, cs_liquidity = l, cs_last_productive = 0\<rparr>"

lemma demo_zeros:
  "leading_zeros 1 = 255"
  "leading_zeros 110427941548649020598956093796432407239217743554726184882600387580788736 = 19"
  by code_simp+

lemmas demo_simps = demo_math_def demo_pool_def demo_curve_def segment_of_def swap_step_def linear_step_def
  gap_def checked_add_def checked_sub_def checked_neg_i128_def checked_i128_def i256_def Let_def
  traversal_target_def next_initialized_tick_def next_algebra_tick_in_same_row_def wrap_i16_def
  saturate_i32_def clamp_def sqrt_ratio_at_traversal_tick_def sqrt_price_limit_def cross_tick_def
  tick_past_def fee_pips_for_direction_def demo_zeros

lemma demo_curve_steps:
  "curve_body demo_math demo_pool True ExactInput 12 (curve_start demo_pool 0) =
     Inr (Again (demo_state [segment_of 5 5 1000005 1000000 7] 5 1000000 (- 1) 4))"
  "curve_body demo_math demo_pool True ExactInput 12 (demo_state [segment_of 5 5 1000005 1000000 7] 5 1000000 (- 1) 4) =
     Inr (Done (demo_state (cv_segments demo_curve) 12 999993 (- 1) 4))"
  by (simp_all add: curve_body_def curve_start_def demo_state_def push_segment_def demo_simps)

lemma demo_curve_built:
  "prepare_exact_input_curve_bounded demo_math demo_pool True 12 = Some (Inr demo_curve)"
  by (simp add: prepare_exact_input_curve_bounded_def prepare_quote_curve_def demo_curve_steps loop_res_simps)
    (simp add: demo_state_def demo_curve_def demo_pool_def fee_pips_for_direction_def)

lemma demo_math_law: "swap_law demo_math pool zfo"
proof -
  have "demo_math\<lparr>vm_compute_swap_step := linear_step\<rparr> = demo_math" by (simp add: demo_math_def)
  then show ?thesis using linear_step_law [of demo_math] by (simp add: swap_law_def)
qed

lemma demo_quote: "curve_quote demo_math demo_curve 9 = Inr 9"
  by (simp add: curve_quote_def demo_curve_def demo_math_def segment_of_def partition_point_def swap_step_def linear_step_def gap_def checked_add_def checked_sub_def i256_def ensure_def Let_def)

section \<open>Properties\<close>

text \<open>
  (C25) A prepared curve answers as the swap loop does.  For a curve built up to an input bound, and for one
  built up to an output bound below its last point, whatever the curve quotes for an input is what
  walking the pool quotes for it.  The walk ends.  The law of the swap step is asked at the fee and the
  prices of this pool.
\<close>

theorem prepared_quote_is_direct:
  assumes law: "swap_law vm pool zero_for_one" and price: "vm_min_sqrt_ratio vm < cp_sqrt_price_x96 pool"
    "cp_sqrt_price_x96 pool < vm_max_sqrt_ratio vm"
    and built: "prepare_exact_input_curve_bounded vm pool zero_for_one maximum = Some (Inr curve) \<or>
      prepare_exact_input_curve_bounded_by_exact_output vm pool zero_for_one maximum = Some (Inr curve) \<and>
      amount_in \<noteq> specified_capacity curve"
    and quote: "curve_quote vm curve amount_in = Inr amount_out"
  shows "quote_exact_in_amount_out vm pool zero_for_one amount_in = Some (Inr amount_out)"
proof -
  let ?s = "(cp_sqrt_price_x96 pool, cp_tick pool, cp_liquidity pool)"
  have a: "amount_in \<noteq> 0" "amount_in < push_bit 255 1" using quote by (auto simp: curve_quote_def)
  from built obtain safe segs where curve: "curve = \<lparr>cv_kind = ExactInput,
      cv_fee_pips = fee_pips_for_direction pool zero_for_one, cv_segments = segs\<rparr>"
    and ok: "curve_ok vm pool safe zero_for_one ?s 0 0 segs"
    and end_ok: "safe \<or> amount_in \<noteq> specified_capacity curve"
    using built_curve_ok [OF law price] by blast
  have from0: "quote_from vm (fee_pips_for_direction pool zero_for_one) 0 0 segs amount_in = Inr amount_out"
    using quote curve_quote_from [OF a] by (simp add: curve)
  have "segs \<noteq> []" using from0 by auto
  then have end_ok: "safe \<or> amount_in \<noteq> sg_specified_end (last segs)"
    using end_ok by (simp add: specified_capacity_def curve)
  have "direct_at vm pool zero_for_one ?s 0 0 amount_in (quote_start pool amount_in)"
    using a limit_ok_start [OF price] by (simp add: direct_at_def quote_start_def)
  from curve_sound [OF law ok this from0 end_ok] show ?thesis
    using a by (auto simp: direct_returns_def quote_exact_in_amount_out_def quote_exact_in_impl_def)
qed

theorem prepared_quote_is_direct_witness:
  "swap_law demo_math demo_pool True \<and> curve_quote demo_math demo_curve 9 = Inr 9 \<and>
   quote_exact_in_amount_out demo_math demo_pool True 9 = Some (Inr 9)"
  using prepared_quote_is_direct [OF demo_math_law _ _ _ demo_quote, of demo_pool True 12]
    demo_curve_built demo_math_law demo_quote
  by (simp add: demo_math_def demo_pool_def)

end
