(* ===== verification/Clmm_Ticks.thy ===== *)
theory Clmm_Ticks
  imports Clmm_Curve
begin

text \<open>
  The tick table, the cached boundary prices and the end of the swap loops of \<open>src/src/dex/clmm.rs\<close>: what the
  search of a row finds, which prices the cache holds, and that every round of a loop that goes on moves
  the tick towards the end of its range.
\<close>

unbundle bit_operations_syntax

section \<open>Rows of the tick table\<close>

definition tick_bit :: "tick_table \<Rightarrow> int \<Rightarrow> bool" where
  "tick_bit table t = (case table (t div 256) of Some row \<Rightarrow> bit row (nat (t mod 256)) | None \<Rightarrow> False)"

lemma bit_word_256: "bit (w :: u256) n \<Longrightarrow> n < 256"
  using bit_imp_le_length by fastforce

lemma some_bit: "(w :: u256) \<noteq> 0 \<Longrightarrow> \<exists>n. bit w n"
  by (metis bit_0_eq bit_word_eqI bot_apply bot_bool_def)

lemma highest_bit:
  fixes w :: u256
  assumes "w \<noteq> 0"
  obtains h where "h < 256" "bit w h" "\<And>n. h < n \<Longrightarrow> \<not> bit w n" "255 - int (leading_zeros w) = int h"
proof -
  obtain n where n: "bit w n" using some_bit [OF assms] by blast
  define h where "h = (GREATEST n. bit w n)"
  have bound: "n \<le> 256" if "bit w n" for n using bit_word_256 [OF that] by simp
  have h: "bit w h" "\<And>n. bit w n \<Longrightarrow> n \<le> h"
    unfolding h_def using GreatestI_nat [where P = "bit w", OF n bound]
      Greatest_le_nat [where P = "bit w", OF _ bound] by blast+
  have lt: "h < 256" by (rule bit_word_256 [OF h(1)])
  have "takeWhile (\<lambda>n. \<not> bit w n) (rev [0..<256]) = take (255 - h) (rev [0..<256])"
    using h(1) lt by (intro takeWhile_eq_take_P_nth)
      (auto simp: rev_nth simp del: upt_Suc upt_rec_numeral dest: h(2))
  then have "leading_zeros w = 255 - h" by (simp add: leading_zeros_def del: upt_Suc upt_rec_numeral)
  moreover have "\<not> bit w n" if "h < n" for n using h(2) [of n] that by linarith
  ultimately show thesis using that [OF lt h(1)] lt by simp
qed

lemma lowest_bit:
  fixes w :: u256
  assumes "w \<noteq> 0"
  obtains "trailing_zeros w < 256" "bit w (trailing_zeros w)" "\<And>n. n < trailing_zeros w \<Longrightarrow> \<not> bit w n"
proof -
  obtain n where n: "bit w n" using some_bit [OF assms] by blast
  define k where "k = (LEAST n. bit w n)"
  have k: "bit w k" "\<And>n. n < k \<Longrightarrow> \<not> bit w n"
    unfolding k_def using n by (rule LeastI, auto dest: not_less_Least)
  have lt: "k < 256" by (rule bit_word_256 [OF k(1)])
  have "takeWhile (\<lambda>n. \<not> bit w n) [0..<256] = take k [0..<256]"
    using k lt by (intro takeWhile_eq_take_P_nth) (auto simp del: upt_Suc upt_rec_numeral)
  then have "trailing_zeros w = k" using lt by (simp add: trailing_zeros_def del: upt_Suc upt_rec_numeral)
  then show thesis using that k lt by blast
qed

lemma wrap_i16_row: "- 32768 \<le> w \<Longrightarrow> w < 32768 \<Longrightarrow> wrap_i16 w = w"
  by (simp add: wrap_i16_def signed_take_bit_int_eq_self)

text \<open>The search towards lower ticks and towards higher ticks, within one row.\<close>

lemma bit_low_mask:
  assumes "b < 256"
  shows "bit (row AND (if b = 255 then - 1 else push_bit (b + 1) 1 - 1) :: u256) n \<longleftrightarrow> bit row n \<and> n \<le> b"
proof (cases "b = 255")
  case True
  then show ?thesis using bit_word_256 [of row n] by (auto simp: bit_simps)
next
  case False
  then have "push_bit (b + 1) 1 - 1 = (mask (b + 1) :: u256)"
    by (simp add: mask_eq_exp_minus_1 push_bit_eq_mult del: push_bit_of_1)
  then show ?thesis using False assms bit_word_256 [of row n] by (auto simp: bit_simps less_Suc_eq_le)
qed

lemma bit_high_mask:
  "bit (row AND push_bit b (- 1) :: u256) n \<longleftrightarrow> bit row n \<and> b \<le> n"
  using bit_word_256 [of row n] by (auto simp: bit_simps)

definition tick_range :: "v3_math \<Rightarrow> bool" where
  "tick_range vm \<longleftrightarrow> vm_min_tick vm = - 887272 \<and> vm_max_tick vm = 887272"

text \<open>The tick table has bits only for ticks of the range.\<close>

definition table_ok :: "tick_table \<Rightarrow> bool" where
  "table_ok table \<longleftrightarrow> (\<forall>t. tick_bit table t \<longrightarrow> - 887272 \<le> t \<and> t \<le> 887272)"

lemma same_row:
  "(256 * w + int n) div 256 = w" "nat ((256 * w + int n) mod 256) = n" if "n < 256"
  using that by (simp_all add: div_pos_pos_trivial mod_pos_pos_trivial)

lemma tick_bit_row:
  assumes "n < 256"
  shows "tick_bit table (256 * w + int n) \<longleftrightarrow> bit (case table w of Some r \<Rightarrow> r | None \<Rightarrow> 0) n"
  using same_row [OF assms, of w] by (simp add: tick_bit_def split: option.split)

text \<open>Where \<open>next_algebra_tick_in_same_row\<close> ends, on either side.\<close>

definition nearest_below :: "tick_table \<Rightarrow> int \<Rightarrow> int \<Rightarrow> bool \<Rightarrow> bool" where
  "nearest_below table tick n ini \<longleftrightarrow> n \<le> tick \<and> - 887272 \<le> n \<and> ini = tick_bit table n \<and>
     (\<forall>t. n < t \<and> t \<le> tick \<longrightarrow> \<not> tick_bit table t) \<and>
     (\<not> ini \<longrightarrow> n = max (- 887272) (256 * (tick div 256)))"

definition nearest_above :: "tick_table \<Rightarrow> int \<Rightarrow> int \<Rightarrow> bool \<Rightarrow> bool" where
  "nearest_above table tick n ini \<longleftrightarrow> tick < n \<and> n \<le> 887272 \<and> ini = tick_bit table n \<and>
     (\<forall>t. tick < t \<and> t < n \<longrightarrow> \<not> tick_bit table t) \<and>
     (\<not> ini \<longrightarrow> n = min 887272 (256 * ((tick + 1) div 256) + 255))"

lemma row_position: "(t :: int) = 256 * (t div 256) + int (nat (t mod 256))" "nat (t mod 256) < 256"
  by simp_all

text \<open>The masked row that either search looks at.\<close>

definition bits_below :: "tick_table \<Rightarrow> int \<Rightarrow> u256" where
  "bits_below table t = (case table (t div 256) of Some r \<Rightarrow> r | None \<Rightarrow> 0) AND
     (if nat (t mod 256) = 255 then - 1 else push_bit (nat (t mod 256) + 1) 1 - 1)"

definition bits_above :: "tick_table \<Rightarrow> int \<Rightarrow> u256" where
  "bits_above table t = (case table (t div 256) of Some r \<Rightarrow> r | None \<Rightarrow> 0) AND push_bit (nat (t mod 256)) (- 1)"

lemma bit_bits_below:
  "bit (bits_below table t) k \<longleftrightarrow> k \<le> nat (t mod 256) \<and> tick_bit table (256 * (t div 256) + int k)"
proof -
  have b: "nat (t mod 256) < 256" by simp
  show ?thesis
    unfolding bits_below_def bit_low_mask [OF b] using tick_bit_row [of k table "t div 256"] b by auto
qed

lemma bit_bits_above:
  "bit (bits_above table t) k \<longleftrightarrow> nat (t mod 256) \<le> k \<and> k < 256 \<and> tick_bit table (256 * (t div 256) + int k)"
  unfolding bits_above_def bit_high_mask using tick_bit_row [of k table "t div 256"] bit_word_256 by blast

lemma next_algebra_eq:
  assumes vm: "tick_range vm" and tick: "- 887272 \<le> tick" "tick \<le> 887272"
  shows "next_algebra_tick_in_same_row vm table tick True =
      (clamp (- 887272) 887272 (if bits_below table tick = 0 then 256 * (tick div 256)
         else 256 * (tick div 256) + (255 - int (leading_zeros (bits_below table tick)))),
       bits_below table tick \<noteq> 0)"
    and "next_algebra_tick_in_same_row vm table tick False =
      (clamp (- 887272) 887272 (if bits_above table (tick + 1) = 0 then 256 * ((tick + 1) div 256) + 255
         else 256 * ((tick + 1) div 256) + int (trailing_zeros (bits_above table (tick + 1)))),
       bits_above table (tick + 1) \<noteq> 0)"
proof -
  have w: "wrap_i16 (tick div 256) = tick div 256" "wrap_i16 ((tick + 1) div 256) = (tick + 1) div 256"
    using tick by (auto intro!: wrap_i16_row)
  have sat: "saturate_i32 (tick + 1) = tick + 1" using tick by (simp add: saturate_i32_def)
  show "next_algebra_tick_in_same_row vm table tick True =
      (clamp (- 887272) 887272 (if bits_below table tick = 0 then 256 * (tick div 256)
         else 256 * (tick div 256) + (255 - int (leading_zeros (bits_below table tick)))),
       bits_below table tick \<noteq> 0)"
    using vm unfolding next_algebra_tick_in_same_row_def Let_def if_True w
    by (simp add: bits_below_def tick_range_def mult.commute split: if_splits)
  show "next_algebra_tick_in_same_row vm table tick False =
      (clamp (- 887272) 887272 (if bits_above table (tick + 1) = 0 then 256 * ((tick + 1) div 256) + 255
         else 256 * ((tick + 1) div 256) + int (trailing_zeros (bits_above table (tick + 1)))),
       bits_above table (tick + 1) \<noteq> 0)"
    using vm unfolding next_algebra_tick_in_same_row_def Let_def if_False sat w
    by (simp add: bits_above_def tick_range_def mult.commute split: if_splits)
qed

lemma in_row_below: "256 * (tick div 256) \<le> t \<Longrightarrow> t \<le> tick \<Longrightarrow>
    \<exists>k. k \<le> nat (tick mod 256) \<and> t = 256 * (tick div 256) + int k" for t tick :: int
  unfolding minus_mult_div_eq_mod [symmetric] by (intro exI [of _ "nat (t - 256 * (tick div 256))"]) auto

lemma in_row_above: "t \<le> u \<Longrightarrow> u \<le> 256 * (t div 256) + 255 \<Longrightarrow>
    \<exists>k. nat (t mod 256) \<le> k \<and> k < 256 \<and> u = 256 * (t div 256) + int k" for t u :: int
  unfolding minus_mult_div_eq_mod [symmetric] by (intro exI [of _ "nat (u - 256 * (t div 256))"]) auto

lemma next_algebra_below:
  assumes vm: "tick_range vm" and ok: "table_ok table" and tick: "- 887272 \<le> tick" "tick \<le> 887272"
    and res: "next_algebra_tick_in_same_row vm table tick True = (n, ini)"
  shows "nearest_below table tick n ini"
proof (cases "bits_below table tick = 0")
  case True
  have free: "\<not> tick_bit table t" if "256 * (tick div 256) \<le> t" "t \<le> tick" for t
    using in_row_below [OF that] bit_bits_below [of table tick] True by auto
  have n: "n = max (- 887272) (256 * (tick div 256))" "\<not> ini"
    using res True tick next_algebra_eq(1) [OF vm tick, of table] by (auto simp: clamp_def)
  have le: "256 * (tick div 256) \<le> n" "n \<le> tick" "- 887272 \<le> n" using n(1) tick by auto
  have "\<not> tick_bit table t" if "n \<le> t" "t \<le> tick" for t using free that le by force
  then show ?thesis unfolding nearest_below_def using le n by simp
next
  case False
  let ?base = "256 * (tick div 256)"
  from highest_bit [OF False] obtain h where h: "bit (bits_below table tick) h"
    "\<And>n. h < n \<Longrightarrow> \<not> bit (bits_below table tick) n"
    "255 - int (leading_zeros (bits_below table tick)) = int h" by blast
  have t: "h \<le> nat (tick mod 256)" "tick_bit table (?base + int h)" using h(1) unfolding bit_bits_below by blast+
  then have n: "n = ?base + int h" "ini"
    using res False ok h(3) next_algebra_eq(1) [OF vm tick, of table] by (auto simp: clamp_def table_ok_def)
  moreover have "\<not> tick_bit table u" if u: "?base + int h < u" "u \<le> tick" for u
  proof -
    obtain k where k: "k \<le> nat (tick mod 256)" "u = ?base + int k" using in_row_below [of tick u] u by auto
    then show ?thesis using h(2) [of k] u(1) unfolding bit_bits_below by simp
  qed
  moreover have "?base + int h \<le> tick" using t(1) unfolding minus_mult_div_eq_mod [symmetric] by simp
  ultimately show ?thesis using t ok by (auto simp: nearest_below_def table_ok_def)
qed

lemma next_algebra_above:
  assumes vm: "tick_range vm" and ok: "table_ok table" and tick: "- 887272 \<le> tick" "tick < 887272"
    and res: "next_algebra_tick_in_same_row vm table tick False = (n, ini)"
  shows "nearest_above table tick n ini"
proof (cases "bits_above table (tick + 1) = 0")
  case True
  have free: "\<not> tick_bit table u" if "tick + 1 \<le> u" "u \<le> 256 * ((tick + 1) div 256) + 255" for u
    using in_row_above [OF that] bit_bits_above [of table "tick + 1"] True by auto
  have n: "n = min 887272 (256 * ((tick + 1) div 256) + 255)" "\<not> ini"
    using res True tick next_algebra_eq(2) [OF vm, of tick table] by (auto simp: clamp_def)
  have le: "n \<le> 256 * ((tick + 1) div 256) + 255" "tick < n" "n \<le> 887272" using n(1) tick by auto
  have "\<not> tick_bit table u" if "tick < u" "u \<le> n" for u using free that le by force
  then show ?thesis unfolding nearest_above_def using le n by simp
next
  case False
  let ?base = "256 * ((tick + 1) div 256)"
  define h where "h = trailing_zeros (bits_above table (tick + 1))"
  have h: "bit (bits_above table (tick + 1)) h" "\<And>n. n < h \<Longrightarrow> \<not> bit (bits_above table (tick + 1)) n"
    using lowest_bit [OF False] unfolding h_def by blast+
  have t: "nat ((tick + 1) mod 256) \<le> h" "h < 256" "tick_bit table (?base + int h)"
    using h(1) unfolding bit_bits_above by blast+
  then have n: "n = ?base + int h" "ini"
    using res False ok tick h_def next_algebra_eq(2) [OF vm, of tick table] by (auto simp: clamp_def table_ok_def)
  moreover have "\<not> tick_bit table u" if u: "tick < u" "u < ?base + int h" for u
  proof -
    obtain k where k: "nat ((tick + 1) mod 256) \<le> k" "k < 256" "u = ?base + int k"
      using in_row_above [of "tick + 1" u] u t(2) by auto
    then show ?thesis using h(2) [of k] u(2) unfolding bit_bits_above by simp
  qed
  moreover have "tick < ?base + int h" using t(1) unfolding minus_mult_div_eq_mod [symmetric] by simp
  ultimately show ?thesis using t ok by (auto simp: nearest_above_def table_ok_def)
qed

section \<open>Cached boundary prices\<close>

definition ratios_ok :: "v3_math \<Rightarrow> (int \<rightharpoonup> u256) \<Rightarrow> bool" where
  "ratios_ok vm ratios \<longleftrightarrow> (\<forall>t r. ratios t = Some r \<longrightarrow> vm_sqrt_ratio_at_tick vm t = Some r)"

lemma cache_ratio_Inr:
  assumes "cache_ratio vm msg t ratios = Inr ratios'"
  shows "ratios_ok vm ratios \<Longrightarrow> ratios_ok vm ratios'" "dom ratios' = insert t (dom ratios)"
  using assms by (cases "ratios t"; auto simp: cache_ratio_def ratios_ok_def split: if_splits)+

lemma for_each_cache:
  assumes "\<And>x s s'. f x s = Inr s' \<Longrightarrow> (ratios_ok vm s \<longrightarrow> ratios_ok vm s') \<and> dom s' = K x \<union> dom s"
  shows "for_each f xs s = Inr s' \<Longrightarrow> (ratios_ok vm s \<longrightarrow> ratios_ok vm s') \<and> dom s' = (\<Union>x\<in>set xs. K x) \<union> dom s"
proof (induction xs arbitrary: s)
  case (Cons x xs)
  then obtain s1 where "f x s = Inr s1" "for_each f xs s1 = Inr s'" by auto
  with Cons.IH [of s1] assms [of x s s1] show ?case by auto
qed simp

lemma cache_ratio_all:
  "for_each (cache_ratio vm msg) ts s = Inr s' \<Longrightarrow> (ratios_ok vm s \<longrightarrow> ratios_ok vm s') \<and> dom s' = set ts \<union> dom s"
  using for_each_cache [of "cache_ratio vm msg" vm "\<lambda>t. {t}" ts s s'] cache_ratio_Inr by auto

definition boundary_ticks :: "v3_math \<Rightarrow> int \<Rightarrow> int \<Rightarrow> int set" where
  "boundary_ticks vm scale word =
     {clamp (vm_min_tick vm) (vm_max_tick vm) (word * 256 * scale),
      clamp (vm_min_tick vm) (vm_max_tick vm) ((word * 256 + 255) * scale)}"

lemma cache_word_all:
  "for_each (cache_word vm scale) ws s = Inr s' \<Longrightarrow>
     (ratios_ok vm s \<longrightarrow> ratios_ok vm s') \<and> dom s' = (\<Union>w\<in>set ws. boundary_ticks vm scale w) \<union> dom s"
  by (rule for_each_cache [where f = "cache_word vm scale"])
    (auto simp: cache_word_def Let_def boundary_ticks_def simp del: for_each.simps dest!: cache_ratio_all)

lemma word_boundary_sqrt_ratios_ok:
  assumes "word_boundary_sqrt_ratios vm spacing traversal = Inr ratios"
  shows "ratios_ok vm ratios" "ratios (vm_min_tick vm) \<noteq> None" "ratios (vm_max_tick vm) \<noteq> None"
    "traversal = AlgebraRaw \<Longrightarrow> vm_min_tick vm div 256 \<le> w \<Longrightarrow> w \<le> vm_max_tick vm div 256 \<Longrightarrow>
       boundary_ticks vm 1 w \<subseteq> dom ratios"
proof -
  from assms obtain ws scale s where s: "for_each (cache_word vm scale) ws Map.empty = Inr s"
      "for_each (cache_ratio vm ''failed to cache terminal price'') [vm_min_tick vm, vm_max_tick vm] s = Inr ratios"
      "traversal = AlgebraRaw \<longrightarrow> scale = 1 \<and> set ws = {vm_min_tick vm div 256..vm_max_tick vm div 256}"
    unfolding word_boundary_sqrt_ratios_def Let_def
    by (auto simp del: for_each.simps split: prod.splits tick_traversal.splits)
  note c = cache_word_all [OF s(1)] cache_ratio_all [OF s(2)]
  show "ratios_ok vm ratios" using c by (simp add: ratios_ok_def)
  show "ratios (vm_min_tick vm) \<noteq> None" "ratios (vm_max_tick vm) \<noteq> None" using c(2) by auto
  show "boundary_ticks vm 1 w \<subseteq> dom ratios"
    if "traversal = AlgebraRaw" "vm_min_tick vm div 256 \<le> w" "w \<le> vm_max_tick vm div 256"
    using c s(3) that by auto
qed

section \<open>Every swap loop ends\<close>

text \<open>
  The documented range of ticks and prices, and the direction of the search of spacing-compressed
  pools, at the spacing of the pool; pools are built with a positive one.
\<close>

definition tick_law :: "v3_math \<Rightarrow> int \<Rightarrow> bool" where
  "tick_law vm spacing \<longleftrightarrow> tick_range vm \<and> vm_min_sqrt_ratio vm < vm_max_sqrt_ratio vm \<and>
     vm_sqrt_ratio_at_tick vm (vm_min_tick vm) = Some (vm_min_sqrt_ratio vm) \<and>
     vm_sqrt_ratio_at_tick vm (vm_max_tick vm) = Some (vm_max_sqrt_ratio vm) \<and>
     (\<forall>table tick n ini. vm_next_tick vm table tick spacing True = Some (n, ini) \<longrightarrow> n \<le> tick) \<and>
     (\<forall>table tick n ini. vm_next_tick vm table tick spacing False = Some (n, ini) \<longrightarrow> tick < n)"

definition in_range :: "v3_math \<Rightarrow> int \<Rightarrow> bool" where
  "in_range vm tick \<longleftrightarrow> vm_min_tick vm \<le> tick \<and> tick \<le> vm_max_tick vm"

lemma next_algebra_direction:
  assumes vm: "tick_range vm" and tick: "in_range vm tick"
    and res: "next_algebra_tick_in_same_row vm table tick zfo = (n, ini)"
  shows "if zfo then n \<le> tick else tick < n \<or> n = vm_max_tick vm"
proof -
  have r: "- 887272 \<le> tick" "tick \<le> 887272" "vm_max_tick vm = 887272"
    using vm tick by (auto simp: tick_range_def in_range_def)
  show ?thesis
  proof (cases zfo)
    case True
    define h where "h = (if bits_below table tick = 0 then 0 else 255 - int (leading_zeros (bits_below table tick)))"
    have "h \<le> tick mod 256"
    proof (cases "bits_below table tick = 0")
      case False
      from highest_bit [OF this] obtain k where "bit (bits_below table tick) k"
        "255 - int (leading_zeros (bits_below table tick)) = int k" by blast
      then show ?thesis using False by (simp add: h_def bit_bits_below le_nat_iff)
    qed (simp add: h_def)
    then have "256 * (tick div 256) + h \<le> tick" using mult_div_mod_eq [of 256 tick] by linarith
    moreover have "n = clamp (- 887272) 887272 (256 * (tick div 256) + h)"
      using res True next_algebra_eq(1) [OF vm r(1,2), of table] by (simp add: h_def split: if_splits)
    ultimately show ?thesis using True r by (simp add: clamp_def)
  next
    case False
    let ?t = "tick + 1"
    define h where "h = (if bits_above table ?t = 0 then 255 else int (trailing_zeros (bits_above table ?t)))"
    have "?t mod 256 \<le> h"
      using lowest_bit [of "bits_above table ?t"] pos_mod_bound [of 256 ?t]
      unfolding h_def bit_bits_above by (auto simp: nat_le_iff)
    then have "tick < 256 * (?t div 256) + h" using mult_div_mod_eq [of 256 ?t] by linarith
    moreover have "n = clamp (- 887272) 887272 (256 * (?t div 256) + h)"
      using res False next_algebra_eq(2) [OF vm r(1,2), of table] by (simp add: h_def split: if_splits)
    ultimately show ?thesis using False r by (simp add: clamp_def)
  qed
qed

lemma tick_lawD:
  assumes "tick_law vm spacing" "vm_next_tick vm table tick spacing zfo = Some (n, ini)"
  shows "if zfo then n \<le> tick else tick < n"
proof (cases zfo)
  case True
  then have "vm_next_tick vm table tick spacing True = Some (n, ini)" using assms(2) by simp
  then show ?thesis using assms(1) True unfolding tick_law_def by (simp, blast)
next
  case False
  then have "vm_next_tick vm table tick spacing False = Some (n, ini)" using assms(2) by simp
  then show ?thesis using assms(1) False unfolding tick_law_def by (simp, blast)
qed

lemma traversal_direction:
  assumes vm: "tick_law vm (cp_tick_spacing pool)" and tick: "in_range vm tick"
    and tt: "traversal_target vm pool zfo tick = Inr (tn, ini, sn, t)"
  shows "in_range vm tn" "if zfo then tn \<le> tick else tick < tn \<or> tn = vm_max_tick vm"
    "sqrt_ratio_at_traversal_tick vm pool tn ini = Inr sn"
proof -
  from tt obtain n where n: "next_initialized_tick vm pool tick zfo = Inr (n, ini)"
    "tn = clamp (vm_min_tick vm) (vm_max_tick vm) n" "sqrt_ratio_at_traversal_tick vm pool tn ini = Inr sn"
    by (auto simp: traversal_target_def Let_def)
  show "sqrt_ratio_at_traversal_tick vm pool tn ini = Inr sn" by (rule n(3))
  show "in_range vm tn" using n(2) vm by (simp add: clamp_def in_range_def tick_law_def tick_range_def)
  have "if zfo then n \<le> tick else tick < n \<or> n = vm_max_tick vm"
  proof (cases "cp_tick_traversal pool")
    case AlgebraRaw
    then show ?thesis using n(1) next_algebra_direction [OF _ tick] vm
      by (simp add: next_initialized_tick_def tick_law_def)
  next
    case SpacingCompressed
    then show ?thesis using n(1) tick_lawD [OF vm] by (fastforce simp: next_initialized_tick_def)
  qed
  then show "if zfo then tn \<le> tick else tick < tn \<or> tn = vm_max_tick vm"
    using n(2) tick by (auto simp: clamp_def in_range_def)
qed

text \<open>One round that crosses a tick: the price stays within the limit and the tick moves on.\<close>

definition path_measure :: "v3_math \<Rightarrow> bool \<Rightarrow> int \<Rightarrow> nat" where
  "path_measure vm zfo tick = nat (if zfo then tick - vm_min_tick vm else vm_max_tick vm - tick)"

lemma path_step:
  assumes law: "swap_law vm pool zfo" and vm: "tick_law vm (cp_tick_spacing pool)" and cache: "ratios_ok vm (cp_word_boundary_sqrt_ratios pool)"
    and tick: "in_range vm tick" and lim: "limit_ok vm pool zfo p"
    and tt: "traversal_target vm pool zfo tick = Inr (tn, ini, sn, t)"
    and step: "vm_compute_swap_step vm p t l a (fee_pips_for_direction pool zfo) = Some (sn, i, o', e)"
  shows "in_range vm (tick_past zfo tn)" "limit_ok vm pool zfo sn"
    "path_measure vm zfo (tick_past zfo tn) < path_measure vm zfo tick"
proof -
  note d = traversal_direction [OF vm tick tt]
  have "t = sn" by (rule step_reaches [OF law lim tt step])
  then have t: "t = sn" "limit_ok vm pool zfo sn" using target_limit [OF tt] by simp_all
  show "limit_ok vm pool zfo sn" by (rule t(2))
  have sn: "vm_sqrt_ratio_at_tick vm tn = Some sn"
    using d(3) cache by (auto simp: sqrt_ratio_at_traversal_tick_def ratios_ok_def split: if_splits)
  have lt: "vm_min_sqrt_ratio vm < vm_max_sqrt_ratio vm" using vm by (simp add: tick_law_def)
  have edge: "if zfo then tn \<noteq> vm_min_tick vm else tn \<noteq> vm_max_tick vm"
  proof (cases zfo)
    case True
    have "unat (vm_min_sqrt_ratio vm) + 1 < 2 ^ LENGTH(256)"
      using lt unat_lt [of "vm_max_sqrt_ratio vm"] unfolding word_less_nat_alt by linarith
    then have "unat (vm_min_sqrt_ratio vm + 1) = unat (vm_min_sqrt_ratio vm) + 1" by (simp add: unat_word_ariths)
    then have "vm_min_sqrt_ratio vm < vm_min_sqrt_ratio vm + 1" by (simp add: word_less_nat_alt)
    then show ?thesis using True sn vm t(2) by (auto simp: limit_ok_def sqrt_price_limit_def tick_law_def)
  next
    case False
    have "1 \<le> vm_max_sqrt_ratio vm" using lt unfolding word_less_nat_alt word_le_nat_alt by simp
    then have "unat (vm_max_sqrt_ratio vm - 1) = unat (vm_max_sqrt_ratio vm) - 1" by (simp add: unat_sub)
    then have "vm_max_sqrt_ratio vm - 1 < vm_max_sqrt_ratio vm"
      using lt unfolding word_less_nat_alt by linarith
    then show ?thesis using False sn vm t(2) by (auto simp: limit_ok_def sqrt_price_limit_def tick_law_def)
  qed
  have sat: "saturate_i32 (tn - 1) = tn - 1"
    using d(1) vm by (simp add: saturate_i32_def in_range_def tick_law_def tick_range_def)
  show "in_range vm (tick_past zfo tn)" using d(1) edge sat by (auto simp: tick_past_def in_range_def split: if_splits)
  show "path_measure vm zfo (tick_past zfo tn) < path_measure vm zfo tick"
    using d(1,2) edge sat tick by (auto simp: tick_past_def path_measure_def in_range_def split: if_splits)
qed

text \<open>What a round that goes on has done, in each of the four loops.\<close>

definition crossed ::
  "v3_math \<Rightarrow> clmm_pool \<Rightarrow> bool \<Rightarrow> u256 \<times> int \<times> u128 \<Rightarrow> u256 \<times> int \<times> u128 \<Rightarrow> bool" where
  "crossed vm pool zfo s s' \<longleftrightarrow> (case s of (p, tick, l) \<Rightarrow> \<exists>tn ini sn t a i o' e msg l'.
     traversal_target vm pool zfo tick = Inr (tn, ini, sn, t) \<and>
     vm_compute_swap_step vm p t l a (fee_pips_for_direction pool zfo) = Some (sn, i, o', e) \<and>
     cross_tick vm pool zfo msg tn ini l = Inr l' \<and> s' = (sn, tick_past zfo tn, l'))"

lemma exact_in_body_Again:
  assumes "exact_in_body vm pool inc zfo st = Inr (Again st')"
  shows "crossed vm pool zfo (qs_price st, qs_tick st, qs_liquidity st) (qs_price st', qs_tick st', qs_liquidity st')"
proof -
  from assms obtain tn ini sn t i o' e l' where
    "traversal_target vm pool zfo (qs_tick st) = Inr (tn, ini, sn, t)"
    "vm_compute_swap_step vm (qs_price st) t (qs_liquidity st) (i256 (qs_remaining st))
       (fee_pips_for_direction pool zfo) = Some (sn, i, o', e)"
    "cross_tick vm pool zfo ''failed to cross initialized tick'' tn ini (qs_liquidity st) = Inr l'"
    "qs_price st' = sn" "qs_tick st' = tick_past zfo tn" "qs_liquidity st' = l'"
    unfolding exact_in_body_def swap_step_def Let_def
    by (cases inc) (auto split: if_split_asm prod.splits)
  then show ?thesis unfolding crossed_def prod.case by blast
qed

lemma exact_out_body_Again:
  assumes "exact_out_body vm pool zfo st = Inr (Again st')"
  shows "crossed vm pool zfo (qs_price st, qs_tick st, qs_liquidity st) (qs_price st', qs_tick st', qs_liquidity st')"
proof -
  from assms obtain tn ini sn t i o' e l' where
    "traversal_target vm pool zfo (qs_tick st) = Inr (tn, ini, sn, t)"
    "vm_compute_swap_step vm (qs_price st) t (qs_liquidity st) (- i256 (qs_remaining st))
       (fee_pips_for_direction pool zfo) = Some (sn, i, o', e)"
    "cross_tick vm pool zfo ''failed to cross initialized tick'' tn ini (qs_liquidity st) = Inr l'"
    "qs_price st' = sn" "qs_tick st' = tick_past zfo tn" "qs_liquidity st' = l'"
    unfolding exact_out_body_def swap_step_def
    by (auto simp: Let_def split: if_splits prod.splits)
  then show ?thesis unfolding crossed_def prod.case by blast
qed

lemma curve_body_Again:
  assumes "curve_body vm pool zfo kind maximum st = Inr (Again st')"
  shows "crossed vm pool zfo (curve_path st) (curve_path st')"
proof -
  from assms obtain a tn ini sn t i o' e l' where
    "traversal_target vm pool zfo (cs_tick st) = Inr (tn, ini, sn, t)"
    "vm_compute_swap_step vm (cs_price st) t (cs_liquidity st) a
       (fee_pips_for_direction pool zfo) = Some (sn, i, o', e)"
    "cross_tick vm pool zfo ''failed to cross prepared initialized tick'' tn ini (cs_liquidity st) = Inr l'"
    "cs_price st' = sn" "cs_tick st' = tick_past zfo tn" "cs_liquidity st' = l'"
    unfolding curve_body_def swap_step_def Let_def
    by (cases kind) (auto split: if_splits prod.splits)
  then show ?thesis unfolding crossed_def curve_path_def prod.case by blast
qed

lemma fused_body_Again:
  assumes "fused_body vm pool zfo st = Inr (Again st')"
  shows "crossed vm pool zfo (curve_path st) (curve_path st')"
proof -
  from assms obtain tn ini sn t i o' e l' where
    "traversal_target vm pool zfo (cs_tick st) = Inr (tn, ini, sn, t)"
    "vm_compute_swap_step vm (cs_price st) t (cs_liquidity st) (- i256 (cs_result_remaining st))
       (fee_pips_for_direction pool zfo) = Some (sn, i, o', e)"
    "cross_tick vm pool zfo ''failed to cross fused prepared initialized tick'' tn ini (cs_liquidity st) = Inr l'"
    "cs_price st' = sn" "cs_tick st' = tick_past zfo tn" "cs_liquidity st' = l'"
    unfolding fused_body_def swap_step_def
    by (auto simp: Let_def split: if_splits prod.splits)
  then show ?thesis unfolding crossed_def curve_path_def prod.case by blast
qed

definition quotable :: "v3_math \<Rightarrow> clmm_pool \<Rightarrow> bool" where
  "quotable vm pool \<longleftrightarrow> in_range vm (cp_tick pool) \<and> vm_min_sqrt_ratio vm < cp_sqrt_price_x96 pool \<and>
     cp_sqrt_price_x96 pool < vm_max_sqrt_ratio vm \<and> ratios_ok vm (cp_word_boundary_sqrt_ratios pool)"

fun path_inv :: "v3_math \<Rightarrow> clmm_pool \<Rightarrow> bool \<Rightarrow> path_state \<Rightarrow> bool" where
  "path_inv vm pool zfo (p, tick, l) \<longleftrightarrow> in_range vm tick \<and> limit_ok vm pool zfo p"

lemma quotable_path_inv:
  "quotable vm pool \<Longrightarrow> path_inv vm pool zfo (cp_sqrt_price_x96 pool, cp_tick pool, cp_liquidity pool)"
  by (simp add: quotable_def limit_ok_start)

lemma crossed_path_inv:
  assumes "swap_law vm pool zfo" "tick_law vm (cp_tick_spacing pool)" "ratios_ok vm (cp_word_boundary_sqrt_ratios pool)"
    and "crossed vm pool zfo s s'" "path_inv vm pool zfo s"
  shows "path_inv vm pool zfo s' \<and> path_measure vm zfo (fst (snd s')) < path_measure vm zfo (fst (snd s))"
proof -
  obtain p tick l where s: "s = (p, tick, l)" by (cases s)
  from assms(4) obtain tn ini sn t a i o' e l' where
    "traversal_target vm pool zfo tick = Inr (tn, ini, sn, t)"
    "vm_compute_swap_step vm p t l a (fee_pips_for_direction pool zfo) = Some (sn, i, o', e)"
    "s' = (sn, tick_past zfo tn, l')"
    unfolding crossed_def s prod.case by blast
  with path_step [OF assms(1-3) _ _ this(1,2)] assms(5) show ?thesis by (simp add: s)
qed

lemma path_loop_ends:
  assumes law: "swap_law vm pool zfo" "tick_law vm (cp_tick_spacing pool)" "ratios_ok vm (cp_word_boundary_sqrt_ratios pool)"
    and again: "\<And>st st'. body st = Inr (Again st') \<Longrightarrow> crossed vm pool zfo (path st) (path st')"
    and start: "path_inv vm pool zfo (path st)"
  shows "\<exists>r. loop_res body st = Some r"
  by (rule loop_res_terminates [where I = "\<lambda>st. path_inv vm pool zfo (path st)" and
        f = "\<lambda>st. path_measure vm zfo (fst (snd (path st)))", OF _ start])
    (use crossed_path_inv [OF law again] in blast)

lemma quote_loops_end:
  assumes law: "swap_law vm pool zfo" "tick_law vm (cp_tick_spacing pool)" and pool: "quotable vm pool"
  shows "\<exists>r. loop_res (exact_in_body vm pool inc zfo) (quote_start pool a) = Some r"
    "\<exists>r. loop_res (exact_out_body vm pool zfo) (quote_start pool a) = Some r"
    "\<exists>r. loop_res (curve_body vm pool zfo kind a) (curve_start pool 0) = Some r"
    "\<exists>r. loop_res (fused_body vm pool zfo) (curve_start pool a) = Some r"
proof -
  have c: "ratios_ok vm (cp_word_boundary_sqrt_ratios pool)" using pool by (simp add: quotable_def)
  note ends = path_loop_ends [OF law c] and start = quotable_path_inv [OF pool]
  show "\<exists>r. loop_res (exact_in_body vm pool inc zfo) (quote_start pool a) = Some r"
    by (rule ends [where path = "\<lambda>st. (qs_price st, qs_tick st, qs_liquidity st)", OF exact_in_body_Again])
      (simp_all add: quote_start_def start del: path_inv.simps)
  show "\<exists>r. loop_res (exact_out_body vm pool zfo) (quote_start pool a) = Some r"
    by (rule ends [where path = "\<lambda>st. (qs_price st, qs_tick st, qs_liquidity st)", OF exact_out_body_Again])
      (simp_all add: quote_start_def start del: path_inv.simps)
  show "\<exists>r. loop_res (curve_body vm pool zfo kind a) (curve_start pool 0) = Some r"
    by (rule ends [where path = curve_path, OF curve_body_Again])
      (simp_all add: curve_start_def curve_path_def start del: path_inv.simps)
  show "\<exists>r. loop_res (fused_body vm pool zfo) (curve_start pool a) = Some r"
    by (rule ends [where path = curve_path, OF fused_body_Again])
      (simp_all add: curve_start_def curve_path_def start del: path_inv.simps)
qed

text \<open>
  The law of a pool follows from the documented one, for fees below 1000000 and prices of 160 bits, when its
  fee is in that range, as the constructor checks, and the prices of ticks are no larger than the largest.
\<close>

lemma documented_swap_law:
  assumes doc: "\<forall>fee p t. fee < 1000000 \<and> unat p < 2 ^ 160 \<and> unat t < 2 ^ 160 \<longrightarrow> lawful vm fee p t"
    and fee: "fee_pips_for_direction pool zfo < 1000000" and pool: "quotable vm pool"
    and ratios: "\<forall>tick r. vm_sqrt_ratio_at_tick vm tick = Some r \<longrightarrow> r \<le> vm_max_sqrt_ratio vm"
    and top: "unat (vm_max_sqrt_ratio vm) < 2 ^ 160"
  shows "swap_law vm pool zfo"
proof -
  have start: "vm_min_sqrt_ratio vm < cp_sqrt_price_x96 pool" "cp_sqrt_price_x96 pool < vm_max_sqrt_ratio vm"
    "ratios_ok vm (cp_word_boundary_sqrt_ratios pool)" using pool by (simp_all add: quotable_def)
  have "unat (vm_min_sqrt_ratio vm + 1) \<le> unat (vm_min_sqrt_ratio vm) + 1" by (simp add: unat_word_ariths)
  moreover have "1 \<le> vm_max_sqrt_ratio vm" using start(2) by (simp add: word_le_nat_alt word_less_nat_alt)
  then have "unat (vm_max_sqrt_ratio vm - 1) \<le> unat (vm_max_sqrt_ratio vm)" by (simp add: unat_sub)
  ultimately have limit: "sqrt_price_limit vm zfo \<le> vm_max_sqrt_ratio vm"
    using start(1,2) unfolding sqrt_price_limit_def word_le_nat_alt word_less_nat_alt by (cases zfo; simp)
  have "r \<le> vm_max_sqrt_ratio vm" if "sqrt_ratio_at_traversal_tick vm pool tick ini = Inr r" for tick ini r
    using that ratios start(3) by (auto simp: sqrt_ratio_at_traversal_tick_def ratios_ok_def split: if_splits)
  then have "p \<le> vm_max_sqrt_ratio vm" if "swap_price vm pool zfo p" for p
    using that start(2) limit unfolding swap_price_def traversal_target_def Let_def
    by (auto simp: max_def min_def split: if_splits)
  then have "unat p < 2 ^ 160" if "swap_price vm pool zfo p" for p
    using that top unfolding word_le_nat_alt by (meson le_less_trans)
  then show ?thesis using doc fee unfolding swap_law_def by blast
qed

text \<open>Pools are built quotable, away from the lowest price, and the operations keep them so.\<close>

lemma new_with_profile_quotable:
  assumes "new_with_profile vm fee01 fee10 spacing price tick l profile = Inr pool" "vm_min_sqrt_ratio vm < price"
  shows "quotable vm pool"
  using assms word_boundary_sqrt_ratios_ok(1)
  by (auto simp: new_with_profile_def quotable_def in_range_def Let_def)

lemma pool_flip_tick_fields:
  assumes "pool_flip_tick vm t pool = Inr pool'"
  obtains table where "pool' = pool\<lparr>cp_tick_bitmap := table\<rparr>"
  using assms by (auto simp: pool_flip_tick_def Let_def split: tick_traversal.splits)

lemma set_tick_fields:
  obtains table ticks where "fst (set_tick vm t g n pool) = pool\<lparr>cp_tick_bitmap := table, cp_ticks := ticks\<rparr>"
proof -
  have id: "pool = pool\<lparr>cp_tick_bitmap := cp_tick_bitmap pool, cp_ticks := cp_ticks pool\<rparr>" by simp
  show thesis
  proof (cases "pool_flip_tick vm t pool")
    case (Inr pool')
    then obtain table where "pool' = pool\<lparr>cp_tick_bitmap := table\<rparr>" by (rule pool_flip_tick_fields)
    with Inr id show thesis
      by (intro that [where table = "cp_tick_bitmap (fst (set_tick vm t g n pool))" and
          ticks = "cp_ticks (fst (set_tick vm t g n pool))"])
        (auto simp: set_tick_def split: option.splits)
  qed (use id in \<open>intro that [where table = "cp_tick_bitmap pool" and
        ticks = "cp_ticks (fst (set_tick vm t g n pool))"],
        auto simp: set_tick_def split: option.splits\<close>)
qed

lemma quotable_tables [simp]:
  "quotable vm (pool\<lparr>cp_tick_bitmap := table\<rparr>) = quotable vm pool"
  "quotable vm (pool\<lparr>cp_ticks := ticks\<rparr>) = quotable vm pool"
  "quotable vm (pool\<lparr>cp_liquidity := l\<rparr>) = quotable vm pool"
  "quotable vm (pool\<lparr>cp_fee_pips := f, cp_one_for_zero_fee_pips := g\<rparr>) = quotable vm pool"
  by (simp_all add: quotable_def)

lemma quotable_set_tick: "quotable vm pool \<Longrightarrow> quotable vm (fst (set_tick vm t g n pool))"
  by (rule set_tick_fields [of vm t g n pool]) simp

lemma quotable_operations:
  assumes "quotable vm pool"
  shows "quotable vm (fst (apply_liquidity_delta vm lower upper delta pool))"
    "vm_min_sqrt_ratio vm < price \<Longrightarrow> quotable vm (fst (apply_swap_head vm price tick l pool))"
    "quotable vm (fst (set_algebra_directional_fees f g pool))" "quotable vm (fst (set_algebra_single_fee h pool))"
proof -
  show "quotable vm (fst (apply_liquidity_delta vm lower upper delta pool))"
    using assms quotable_set_tick [of vm pool] quotable_set_tick
    by (auto simp: apply_liquidity_delta_def split: sum.splits prod.splits option.splits)
      (metis fst_conv)+
qed (use assms in \<open>auto simp: apply_swap_head_def quotable_def in_range_def set_algebra_directional_fees_def
  set_algebra_single_fee_def\<close>)

end
