(* ===== verification/Clmm_Liquidity.thy ===== *)
theory Clmm_Liquidity
  imports Clmm_Ticks
begin

text \<open>
  A pool against the history of its liquidity changes: gross, net and active liquidity and the tick table
  follow from the list of changes, \<open>apply_liquidity_delta\<close> appends to it, and a walk over the pool has at
  every tick the liquidity that the history has there.  The properties of the pool are at the end.
\<close>

unbundle bit_operations_syntax

section \<open>The pool as a history of liquidity changes\<close>

text \<open>
  The abstract view of a pool is the list of its liquidity changes: lower tick, upper tick, signed
  amount.  From it follow the gross and the net liquidity of a tick and the liquidity in force at a tick.
\<close>

type_synonym range_event = "int \<times> int \<times> int"

definition gross_of :: "range_event list \<Rightarrow> int \<Rightarrow> int" where
  "gross_of h t = sum_list (map (\<lambda>(l, u, d). if l = t \<or> u = t then d else 0) h)"

definition net_of :: "range_event list \<Rightarrow> int \<Rightarrow> int" where
  "net_of h t = sum_list (map (\<lambda>(l, u, d). if l = t then d else if u = t then - d else 0) h)"

definition active_of :: "range_event list \<Rightarrow> int \<Rightarrow> int" where
  "active_of h t = sum_list (map (\<lambda>(l, u, d). if l \<le> t \<and> t < u then d else 0) h)"

lemma history_append [simp]:
  "gross_of (h @ [(l, u, d)]) t = gross_of h t + (if l = t \<or> u = t then d else 0)"
  "net_of (h @ [(l, u, d)]) t = net_of h t + (if l = t then d else if u = t then - d else 0)"
  "active_of (h @ [(l, u, d)]) t = active_of h t + (if l \<le> t \<and> t < u then d else 0)"
  by (simp_all add: gross_of_def net_of_def active_of_def)

text \<open>Moving the tick by one changes the liquidity in force by the net liquidity of the tick crossed.\<close>

lemma active_step:
  assumes "\<forall>(l, u, d)\<in>set h. l < u"
  shows "active_of h t = active_of h (t - 1) + net_of h t"
  using assms by (induction h) (auto simp: active_of_def net_of_def)

definition tick_entry :: "int \<Rightarrow> int \<Rightarrow> tick_liquidity option" where
  "tick_entry g n = (if g = 0 then None else Some \<lparr>tl_gross = of_int g, tl_net = n\<rparr>)"

definition i128_range :: "int \<Rightarrow> bool" where
  "i128_range x \<longleftrightarrow> - (2 ^ 127) \<le> x \<and> x < 2 ^ 127"

definition mirrors :: "v3_math \<Rightarrow> range_event list \<Rightarrow> clmm_pool \<Rightarrow> bool" where
  "mirrors vm h pool \<longleftrightarrow> 0 < cp_tick_spacing pool \<and> (\<forall>(l, u, d)\<in>set h. l < u) \<and>
     (\<forall>t. cp_ticks pool t = tick_entry (gross_of h t) (net_of h t)) \<and>
     (\<forall>t. 0 \<le> gross_of h t \<and> gross_of h t < 2 ^ 128 \<and> i128_range (net_of h t)) \<and>
     (\<forall>t. gross_of h t = 0 \<longrightarrow> net_of h t = 0) \<and> (\<forall>t. gross_of h t \<noteq> 0 \<longrightarrow> in_range vm t) \<and>
     int (unat (cp_liquidity pool)) = active_of h (cp_tick pool) \<and>
     (cp_tick_traversal pool = AlgebraRaw \<longrightarrow> (\<forall>t. tick_bit (cp_tick_bitmap pool) t \<longleftrightarrow> gross_of h t \<noteq> 0))"

text \<open>The documented behaviour of \<open>add_delta\<close> and of flipping an aligned tick.\<close>

definition delta_law :: "v3_math \<Rightarrow> bool" where
  "delta_law vm \<longleftrightarrow>
     (\<forall>l d. i128_range d \<longrightarrow> vm_add_delta vm l d =
        (if 0 \<le> int (unat l) + d \<and> int (unat l) + d < 2 ^ 128 then Some (of_int (int (unat l) + d)) else None)) \<and>
     (\<forall>table t spacing. spacing > 0 \<and> t mod spacing = 0 \<and> in_range vm t \<longrightarrow> vm_flip_tick vm table t spacing \<noteq> None)"

section \<open>One tick\<close>

lemma flip_algebra:
  assumes "tick_range vm" "in_range vm t" "cp_tick_traversal pool = AlgebraRaw"
  obtains table where "pool_flip_tick vm t pool = Inr (pool\<lparr>cp_tick_bitmap := table\<rparr>)"
    "\<And>s. tick_bit table s \<longleftrightarrow> (if s = t then \<not> tick_bit (cp_tick_bitmap pool) t else tick_bit (cp_tick_bitmap pool) s)"
proof -
  let ?bm = "cp_tick_bitmap pool"
  let ?row = "case ?bm (t div 256) of None \<Rightarrow> 0 | Some row \<Rightarrow> row"
  let ?table = "?bm(t div 256 \<mapsto> ?row XOR push_bit (nat (t mod 256)) 1)"
  have "i16_try_from (t div 256) = Some (t div 256)"
    using assms(1,2) by (auto simp: i16_try_from_def tick_range_def in_range_def)
  then have "pool_flip_tick vm t pool = Inr (pool\<lparr>cp_tick_bitmap := ?table\<rparr>)"
    using assms(3) by (simp add: pool_flip_tick_def Let_def)
  moreover have "tick_bit ?table s \<longleftrightarrow> (if s = t then \<not> tick_bit ?bm t else tick_bit ?bm s)" for s
  proof (cases "s div 256 = t div 256")
    case True
    have "s = t \<longleftrightarrow> s mod 256 = t mod 256" using True by (metis mult_div_mod_eq)
    then have "s = t \<longleftrightarrow> nat (s mod 256) = nat (t mod 256)" by (simp add: eq_nat_nat_iff)
    moreover have "nat (s mod 256) < 256" by simp
    ultimately show ?thesis using True
      by (cases "?bm (t div 256)") (auto simp: tick_bit_def bit_simps)
  qed (auto simp: tick_bit_def)
  ultimately show thesis by (rule that)
qed

lemma flip_ok:
  assumes "tick_range vm" "delta_law vm" "in_range vm t" "t mod cp_tick_spacing pool = 0" "0 < cp_tick_spacing pool"
  obtains table where "pool_flip_tick vm t pool = Inr (pool\<lparr>cp_tick_bitmap := table\<rparr>)"
    "\<And>s. cp_tick_traversal pool = AlgebraRaw \<Longrightarrow> tick_bit table s \<longleftrightarrow>
      (if s = t then \<not> tick_bit (cp_tick_bitmap pool) t else tick_bit (cp_tick_bitmap pool) s)"
proof (cases "cp_tick_traversal pool")
  case AlgebraRaw
  then show thesis using flip_algebra [OF assms(1,3)] that by metis
next
  case SpacingCompressed
  obtain table where "vm_flip_tick vm (cp_tick_bitmap pool) t (cp_tick_spacing pool) = Some table"
    using assms(2-5) unfolding delta_law_def by fastforce
  then show thesis using SpacingCompressed that [of table] by (simp add: pool_flip_tick_def)
qed

lemma set_tick_ok:
  assumes "tick_range vm" "delta_law vm" "in_range vm t" "t mod cp_tick_spacing pool = 0" "0 < cp_tick_spacing pool"
    and bits: "cp_tick_traversal pool = AlgebraRaw \<Longrightarrow> tick_bit (cp_tick_bitmap pool) t \<longleftrightarrow> cp_ticks pool t \<noteq> None"
  obtains table where "set_tick vm t g n pool = (pool\<lparr>cp_tick_bitmap := table,
      cp_ticks := (cp_ticks pool)(t := if g = 0 then None else Some \<lparr>tl_gross = g, tl_net = n\<rparr>)\<rparr>, Inr ())"
    "\<And>s. cp_tick_traversal pool = AlgebraRaw \<Longrightarrow> tick_bit table s \<longleftrightarrow>
      (if s = t then g \<noteq> 0 else tick_bit (cp_tick_bitmap pool) s)"
proof -
  obtain table where flip: "pool_flip_tick vm t pool = Inr (pool\<lparr>cp_tick_bitmap := table\<rparr>)"
    "\<And>s. cp_tick_traversal pool = AlgebraRaw \<Longrightarrow> tick_bit table s \<longleftrightarrow>
      (if s = t then \<not> tick_bit (cp_tick_bitmap pool) t else tick_bit (cp_tick_bitmap pool) s)"
    using flip_ok [OF assms(1-5)] by metis
  have r: "vm_min_tick vm \<le> t \<and> t \<le> vm_max_tick vm" using assms(3) by (simp add: in_range_def)
  show thesis
  proof (cases "(cp_ticks pool t = None) = (g = 0)")
    case True
    then show thesis using r assms(4) bits
      by (intro that [of "cp_tick_bitmap pool"]) (auto simp: set_tick_def fun_upd_idem split: option.split)
  next
    case False
    then show thesis using r assms(4) bits flip
      by (intro that [of table]) (auto simp: set_tick_def split: option.split)
  qed
qed

lemma checked_i128_range: "checked_i128 x = (if i128_range x then Some x else None)"
  by (simp add: checked_i128_def i128_range_def)

lemma of_int_u128: "0 \<le> x \<Longrightarrow> x < 2 ^ 128 \<Longrightarrow> uint (of_int x :: u128) = x"
  by (simp add: uint_word_of_int_eq take_bit_int_eq_self)

text \<open>A boundary after a change, over the integers.\<close>

definition boundary_fits :: "int \<Rightarrow> int \<Rightarrow> int \<Rightarrow> int \<Rightarrow> bool" where
  "boundary_fits g n d nd \<longleftrightarrow>
     0 \<le> g + d \<and> g + d < 2 ^ 128 \<and> i128_range (n + nd) \<and> (g + d = 0 \<longrightarrow> n + nd = 0)"

lemma checked_u128_int:
  assumes "0 \<le> g" "g < 2 ^ 128" "d \<noteq> 0" "i128_range d"
  shows "(if d > 0 then checked_add (of_int g) (of_int \<bar>d\<bar>) else checked_sub (of_int g) (of_int \<bar>d\<bar>)) =
    (if 0 \<le> g + d \<and> g + d < 2 ^ 128 then Some (of_int (g + d) :: u128) else None)"
proof -
  have a: "0 \<le> \<bar>d\<bar>" "\<bar>d\<bar> < 2 ^ 128" using assms(4) by (auto simp: i128_range_def)
  have u: "int (unat (of_int g :: u128)) = g" "int (unat (of_int \<bar>d\<bar> :: u128)) = \<bar>d\<bar>"
    using of_int_u128 [OF assms(1,2)] of_int_u128 [OF a] by simp_all
  show ?thesis
  proof (cases "d > 0")
    case True
    have "unat (of_int g :: u128) + unat (of_int \<bar>d\<bar> :: u128) < 2 ^ 128 \<longleftrightarrow>
        int (unat (of_int g :: u128) + unat (of_int \<bar>d\<bar> :: u128)) < int (2 ^ 128)"
      by (simp only: of_nat_less_iff)
    also have "\<dots> \<longleftrightarrow> g + \<bar>d\<bar> < 2 ^ 128" unfolding of_nat_add u by simp
    finally show ?thesis using True assms(1) unfolding checked_add_def by simp
  next
    case False
    have "(of_int \<bar>d\<bar> :: u128) \<le> of_int g \<longleftrightarrow> \<bar>d\<bar> \<le> g" using u by (simp add: word_le_def)
    then show ?thesis using False assms by (auto simp: checked_sub_def)
  qed
qed

lemma updated_boundary_Inr:
  assumes "0 \<le> g" "g < 2 ^ 128" "g = 0 \<Longrightarrow> n = 0" "d \<noteq> 0" "i128_range d"
  shows "updated_boundary (tick_entry g n) (of_int \<bar>d\<bar>) nd (d > 0) = Inr x \<longleftrightarrow>
    boundary_fits g n d nd \<and> x = \<lparr>tl_gross = of_int (g + d), tl_net = n + nd\<rparr>"
proof -
  let ?cur = "\<lparr>tl_gross = of_int g, tl_net = n\<rparr> :: tick_liquidity"
  have cur: "(case tick_entry g n of Some t \<Rightarrow> t | None \<Rightarrow> \<lparr>tl_gross = 0, tl_net = 0\<rparr>) = ?cur"
    using assms(3) by (simp add: tick_entry_def)
  have z: "(of_int (g + d) :: u128) = 0 \<longleftrightarrow> g + d = 0" if "0 \<le> g + d" "g + d < 2 ^ 128"
    using of_int_u128 [OF that] by (metis of_int_0 unsigned_0)
  show ?thesis
    unfolding updated_boundary_def Let_def cur tick_liquidity.simps checked_i128_range boundary_fits_def
    using checked_u128_int [OF assms(1,2,4,5)] z
    by (cases "d > 0"; cases "0 \<le> g + d \<and> g + d < 2 ^ 128"; auto)
qed

text \<open>When a change is accepted: what the source checks, over the history.\<close>

definition change_fits :: "v3_math \<Rightarrow> range_event list \<Rightarrow> clmm_pool \<Rightarrow> range_event \<Rightarrow> bool" where
  "change_fits vm h pool = (\<lambda>(l, u, d). l < u \<and> l mod cp_tick_spacing pool = 0 \<and> u mod cp_tick_spacing pool = 0 \<and>
     in_range vm l \<and> in_range vm u \<and>
     (d \<noteq> 0 \<longrightarrow> boundary_fits (gross_of h l) (net_of h l) d d \<and> i128_range (- d) \<and>
        boundary_fits (gross_of h u) (net_of h u) d (- d) \<and>
        (l \<le> cp_tick pool \<and> cp_tick pool < u \<longrightarrow>
           0 \<le> active_of h (cp_tick pool) + d \<and> active_of h (cp_tick pool) + d < 2 ^ 128)))"

lemma mirrorsD:
  assumes "mirrors vm h pool"
  shows "cp_ticks pool t = tick_entry (gross_of h t) (net_of h t)" "0 \<le> gross_of h t" "gross_of h t < 2 ^ 128"
    "i128_range (net_of h t)" "gross_of h t = 0 \<Longrightarrow> net_of h t = 0" "gross_of h t \<noteq> 0 \<Longrightarrow> in_range vm t"
    "int (unat (cp_liquidity pool)) = active_of h (cp_tick pool)" "0 < cp_tick_spacing pool"
    "cp_tick_traversal pool = AlgebraRaw \<Longrightarrow> tick_bit (cp_tick_bitmap pool) t \<longleftrightarrow> gross_of h t \<noteq> 0"
    "\<forall>(l, u, d)\<in>set h. l < u"
  using assms unfolding mirrors_def by blast+

lemma add_delta_law:
  assumes "delta_law vm" "i128_range d"
  shows "vm_add_delta vm l d = (if 0 \<le> int (unat l) + d \<and> int (unat l) + d < 2 ^ 128
    then Some (of_int (int (unat l) + d)) else None)"
  using assms unfolding delta_law_def by blast

lemma liquidity_delta_plan_Inr:
  fixes l u :: int
  assumes m: "mirrors vm h pool" and law: "delta_law vm" and d: "d \<noteq> 0" "i128_range d"
  defines "inside \<equiv> l \<le> cp_tick pool \<and> cp_tick pool < u"
  shows "liquidity_delta_plan vm l u d pool = Inr r \<longleftrightarrow>
    boundary_fits (gross_of h l) (net_of h l) d d \<and> i128_range (- d) \<and>
    boundary_fits (gross_of h u) (net_of h u) d (- d) \<and>
    (inside \<longrightarrow> 0 \<le> active_of h (cp_tick pool) + d \<and> active_of h (cp_tick pool) + d < 2 ^ 128) \<and>
    r = (\<lparr>tl_gross = of_int (gross_of h l + d), tl_net = net_of h l + d\<rparr>,
         \<lparr>tl_gross = of_int (gross_of h u + d), tl_net = net_of h u - d\<rparr>,
         if inside then Some (of_int (active_of h (cp_tick pool) + d)) else None)"
proof -
  have b: "updated_boundary (cp_ticks pool t) (of_int \<bar>d\<bar>) nd (d > 0) = Inr x \<longleftrightarrow>
      boundary_fits (gross_of h t) (net_of h t) d nd \<and>
      x = \<lparr>tl_gross = of_int (gross_of h t + d), tl_net = net_of h t + nd\<rparr>" for t nd x
    unfolding mirrorsD(1) [OF m] using mirrorsD(2,3,5) [OF m] d by (intro updated_boundary_Inr) auto
  have neg: "checked_neg_i128 d = (if i128_range (- d) then Some (- d) else None)"
    by (simp add: checked_neg_i128_def checked_i128_range)
  have a: "vm_add_delta vm (cp_liquidity pool) d =
      (if 0 \<le> active_of h (cp_tick pool) + d \<and> active_of h (cp_tick pool) + d < 2 ^ 128
       then Some (of_int (active_of h (cp_tick pool) + d)) else None)"
    unfolding add_delta_law [OF law d(2)] mirrorsD(7) [OF m] ..
  show ?thesis
    unfolding liquidity_delta_plan_def Let_def inside_def
    by (auto simp: b neg a split: if_splits)
qed

lemma tick_entry_of_int:
  "0 \<le> g \<Longrightarrow> g < 2 ^ 128 \<Longrightarrow>
     (if (of_int g :: u128) = 0 then None else Some \<lparr>tl_gross = of_int g, tl_net = n\<rparr>) = tick_entry g n"
  using of_int_u128 [of g] by (auto simp: tick_entry_def dest: arg_cong [of _ _ uint])

text \<open>Both boundaries written, and the active liquidity, give the mirror of the longer history.\<close>

lemma mirrors_append:
  fixes l u :: int
  assumes m: "mirrors vm h pool" and lu: "l < u" "in_range vm l" "in_range vm u"
    and fits: "boundary_fits (gross_of h l) (net_of h l) d d" "boundary_fits (gross_of h u) (net_of h u) d (- d)"
    and act: "int (unat a) = active_of h (cp_tick pool) + (if l \<le> cp_tick pool \<and> cp_tick pool < u then d else 0)"
    and bits: "\<And>t. cp_tick_traversal pool = AlgebraRaw \<Longrightarrow>
      tick_bit table t \<longleftrightarrow> gross_of (h @ [(l, u, d)]) t \<noteq> 0"
  shows "mirrors vm (h @ [(l, u, d)]) (pool\<lparr>cp_tick_bitmap := table, cp_liquidity := a,
    cp_ticks := (cp_ticks pool)(l := tick_entry (gross_of h l + d) (net_of h l + d),
      u := tick_entry (gross_of h u + d) (net_of h u - d))\<rparr>)"
proof -
  note M = mirrorsD [OF m]
  show ?thesis
    unfolding mirrors_def using M(10) lu(1)
  proof (intro conjI allI impI, goal_cases)
    case (3 t)
    then show ?case using M(1) lu(1) by simp
  qed (use M(2-9) lu fits act bits in \<open>auto simp: boundary_fits_def split: if_splits\<close>)
qed

lemma set_both_ticks:
  fixes l u :: int
  assumes vm: "tick_range vm" "delta_law vm" and m: "mirrors vm h pool" and lu: "l < u" "in_range vm l" "in_range vm u"
    and al: "l mod cp_tick_spacing pool = 0" "u mod cp_tick_spacing pool = 0"
    and g: "0 \<le> gl" "gl < 2 ^ 128" "0 \<le> gu" "gu < 2 ^ 128"
  obtains pool1 table where
    "set_tick vm l (of_int gl) nl pool = (pool1, Inr ())"
    "set_tick vm u (of_int gu) nu pool1 = (pool\<lparr>cp_tick_bitmap := table,
       cp_ticks := (cp_ticks pool)(l := tick_entry gl nl, u := tick_entry gu nu)\<rparr>, Inr ())"
    "\<And>t. cp_tick_traversal pool = AlgebraRaw \<Longrightarrow> tick_bit table t \<longleftrightarrow>
      (if t = l then gl \<noteq> 0 else if t = u then gu \<noteq> 0 else gross_of h t \<noteq> 0)"
proof -
  note M = mirrorsD [OF m]
  have nz: "(of_int x :: u128) = 0 \<longleftrightarrow> x = 0" if "0 \<le> x" "x < 2 ^ 128" for x
    using of_int_u128 [OF that] by (auto dest: arg_cong [of _ _ uint])
  have some: "cp_ticks pool t \<noteq> None \<longleftrightarrow> gross_of h t \<noteq> 0" for t by (simp add: M(1) tick_entry_def)
  obtain t1 where 1: "set_tick vm l (of_int gl) nl pool =
      (pool\<lparr>cp_tick_bitmap := t1, cp_ticks := (cp_ticks pool)(l := tick_entry gl nl)\<rparr>, Inr ())"
    "\<And>s. cp_tick_traversal pool = AlgebraRaw \<Longrightarrow> tick_bit t1 s \<longleftrightarrow>
      (if s = l then gl \<noteq> 0 else tick_bit (cp_tick_bitmap pool) s)"
    by (rule set_tick_ok [OF vm lu(2) al(1) M(8), where g = "of_int gl" and n = nl])
      (use some M(9) g nz tick_entry_of_int in auto)
  let ?p1 = "pool\<lparr>cp_tick_bitmap := t1, cp_ticks := (cp_ticks pool)(l := tick_entry gl nl)\<rparr>"
  obtain t2 where 2: "set_tick vm u (of_int gu) nu ?p1 =
      (?p1\<lparr>cp_tick_bitmap := t2, cp_ticks := (cp_ticks ?p1)(u := tick_entry gu nu)\<rparr>, Inr ())"
    "\<And>s. cp_tick_traversal pool = AlgebraRaw \<Longrightarrow> tick_bit t2 s \<longleftrightarrow> (if s = u then gu \<noteq> 0 else tick_bit t1 s)"
    by (rule set_tick_ok [OF vm lu(3), where pool = ?p1 and g = "of_int gu" and n = nu])
      (use al M(8,9) some lu(1) 1(2) g nz tick_entry_of_int in auto)
  show thesis by (rule that [OF 1(1), of t2]) (use 2 1(2) M(9) lu(1) in auto)
qed

lemma apply_liquidity_delta_accepted:
  fixes l u :: int
  assumes vm: "tick_range vm" "delta_law vm" and m: "mirrors vm h pool" and d: "i128_range d"
    and fits: "change_fits vm h pool (l, u, d)"
  obtains pool' where "apply_liquidity_delta vm l u d pool = (pool', Inr ())" "mirrors vm (h @ [(l, u, d)]) pool'"
proof (cases "d = 0")
  case True
  have "mirrors vm (h @ [(l, u, d)]) pool" using m fits True by (auto simp: mirrors_def change_fits_def)
  then show thesis using that [of pool] fits True by (auto simp: apply_liquidity_delta_def change_fits_def in_range_def)
next
  case False
  let ?in = "l \<le> cp_tick pool \<and> cp_tick pool < u"
  let ?a = "active_of h (cp_tick pool) + d"
  have f: "l < u" "in_range vm l" "in_range vm u" "l mod cp_tick_spacing pool = 0" "u mod cp_tick_spacing pool = 0"
    "boundary_fits (gross_of h l) (net_of h l) d d" "boundary_fits (gross_of h u) (net_of h u) d (- d)"
    and act: "i128_range (- d)" "?in \<Longrightarrow> 0 \<le> ?a \<and> ?a < 2 ^ 128"
    using fits False by (auto simp: change_fits_def)
  have plan: "liquidity_delta_plan vm l u d pool =
      Inr (\<lparr>tl_gross = of_int (gross_of h l + d), tl_net = net_of h l + d\<rparr>,
         \<lparr>tl_gross = of_int (gross_of h u + d), tl_net = net_of h u - d\<rparr>, if ?in then Some (of_int ?a) else None)"
    unfolding liquidity_delta_plan_Inr [OF m vm(2) False d] using f(6,7) act by blast
  have g: "0 \<le> gross_of h l + d" "gross_of h l + d < 2 ^ 128" "0 \<le> gross_of h u + d" "gross_of h u + d < 2 ^ 128"
    using f(6,7) by (auto simp: boundary_fits_def)
  obtain pool1 table where set: "set_tick vm l (of_int (gross_of h l + d)) (net_of h l + d) pool = (pool1, Inr ())"
    "set_tick vm u (of_int (gross_of h u + d)) (net_of h u - d) pool1 = (pool\<lparr>cp_tick_bitmap := table,
       cp_ticks := (cp_ticks pool)(l := tick_entry (gross_of h l + d) (net_of h l + d),
         u := tick_entry (gross_of h u + d) (net_of h u - d))\<rparr>, Inr ())"
    "\<And>t. cp_tick_traversal pool = AlgebraRaw \<Longrightarrow> tick_bit table t \<longleftrightarrow>
      (if t = l then gross_of h l + d \<noteq> 0 else if t = u then gross_of h u + d \<noteq> 0 else gross_of h t \<noteq> 0)"
    by (rule set_both_ticks [OF vm m f(1-5) g, of "net_of h l + d" "net_of h u - d"]) simp
  define a where "a = (if ?in then of_int ?a else cp_liquidity pool)"
  have a: "int (unat a) = active_of h (cp_tick pool) + (if ?in then d else 0)"
    using act(2) of_int_u128 [of ?a] mirrorsD(7) [OF m] by (auto simp: a_def)
  let ?new = "pool\<lparr>cp_tick_bitmap := table, cp_liquidity := a,
       cp_ticks := (cp_ticks pool)(l := tick_entry (gross_of h l + d) (net_of h l + d),
         u := tick_entry (gross_of h u + d) (net_of h u - d))\<rparr>"
  have "apply_liquidity_delta vm l u d pool = (?new, Inr ())"
    using f(1-5) False plan set(1,2) by (simp add: apply_liquidity_delta_def in_range_def a_def)
  moreover have "mirrors vm (h @ [(l, u, d)]) ?new"
    by (rule mirrors_append [OF m f(1-3,6,7) a]) (use set(3) f(1) in auto)
  ultimately show thesis by (rule that)
qed

lemma apply_liquidity_delta_rejected:
  fixes l u :: int
  assumes vm: "delta_law vm" and m: "mirrors vm h pool" and d: "i128_range d"
    and fits: "\<not> change_fits vm h pool (l, u, d)"
  obtains e where "apply_liquidity_delta vm l u d pool = (pool, Inl e)"
proof (cases "l < u \<and> l mod cp_tick_spacing pool = 0 \<and> u mod cp_tick_spacing pool = 0 \<and> in_range vm l \<and> in_range vm u")
  case False
  then have "\<exists>e. apply_liquidity_delta vm l u d pool = (pool, Inl e)"
    by (auto simp: apply_liquidity_delta_def in_range_def)
  then show thesis using that by blast
next
  case True
  then have nz: "d \<noteq> 0" using fits by (auto simp: change_fits_def)
  have "liquidity_delta_plan vm l u d pool \<noteq> Inr r" for r
    unfolding liquidity_delta_plan_Inr [OF m vm nz d] using fits True nz by (auto simp: change_fits_def)
  then obtain e where "liquidity_delta_plan vm l u d pool = Inl e" by (cases "liquidity_delta_plan vm l u d pool") auto
  then show thesis using that True nz by (auto simp: apply_liquidity_delta_def in_range_def)
qed

section \<open>Walking a mirrored pool\<close>

text \<open>
  An Algebra pool that mirrors a history of the chain: the liquidity in force is a 128-bit number at every
  tick and every net liquidity can be negated, every tick of the range has a price, and the boundary
  prices are cached.
\<close>

definition walkable :: "v3_math \<Rightarrow> range_event list \<Rightarrow> clmm_pool \<Rightarrow> bool" where
  "walkable vm h pool \<longleftrightarrow> mirrors vm h pool \<and> cp_tick_traversal pool = AlgebraRaw \<and>
     (\<forall>t. 0 \<le> active_of h t \<and> active_of h t < 2 ^ 128) \<and> (\<forall>t. i128_range (- net_of h t)) \<and>
     (\<forall>t. in_range vm t \<longrightarrow> vm_sqrt_ratio_at_tick vm t \<noteq> None) \<and>
     (\<forall>w. vm_min_tick vm div 256 \<le> w \<and> w \<le> vm_max_tick vm div 256 \<longrightarrow>
        boundary_ticks vm 1 w \<subseteq> dom (cp_word_boundary_sqrt_ratios pool))"

lemma walkableD:
  assumes "walkable vm h pool"
  shows "mirrors vm h pool" "cp_tick_traversal pool = AlgebraRaw" "0 \<le> active_of h t" "active_of h t < 2 ^ 128"
    "i128_range (- net_of h t)" "in_range vm t \<Longrightarrow> vm_sqrt_ratio_at_tick vm t \<noteq> None"
    "vm_min_tick vm div 256 \<le> w \<Longrightarrow> w \<le> vm_max_tick vm div 256 \<Longrightarrow>
       boundary_ticks vm 1 w \<subseteq> dom (cp_word_boundary_sqrt_ratios pool)"
  using assms unfolding walkable_def by blast+

lemma active_free:
  assumes "\<forall>(l, u, d)\<in>set h. l < u" "a \<le> b" "\<And>t. a < t \<Longrightarrow> t \<le> b \<Longrightarrow> net_of h t = 0"
  shows "active_of h b = active_of h a"
  using assms(2,3)
proof (induction "nat (b - a)" arbitrary: b)
  case (Suc n)
  have "active_of h (b - 1) = active_of h a" by (rule Suc.hyps(1)) (use Suc.hyps(2) Suc.prems in auto)
  then show ?case using active_step [OF assms(1), of b] Suc.prems Suc.hyps(2) by simp
qed simp

lemma table_ok_mirror:
  assumes "tick_range vm" "walkable vm h pool"
  shows "table_ok (cp_tick_bitmap pool)"
  using mirrorsD(6,9) [OF walkableD(1) [OF assms(2)]] walkableD(2) [OF assms(2)] assms(1)
  by (auto simp: table_ok_def tick_range_def in_range_def)

lemma boundary_ticks_range:
  "tick_range vm \<Longrightarrow> max (- 887272) (256 * w) \<in> boundary_ticks vm 1 w \<or> 256 * w > 887272"
  "tick_range vm \<Longrightarrow> min 887272 (256 * w + 255) \<in> boundary_ticks vm 1 w \<or> 256 * w + 255 < - 887272"
  by (auto simp: boundary_ticks_def tick_range_def clamp_def)

text \<open>Past the last tick the search answers the end of the range.\<close>

lemma next_algebra_end:
  assumes vm: "tick_range vm" and ok: "table_ok table"
  shows "next_algebra_tick_in_same_row vm table 887272 False = (887272, False)"
proof -
  have "\<not> bit (bits_above table 887273) k" for k
    using ok unfolding bit_bits_above table_ok_def by force
  then have "bits_above table 887273 = 0" using some_bit by blast
  then show ?thesis using next_algebra_eq(2) [OF vm, of 887272 table] by (simp add: clamp_def)
qed

text \<open>The next tick of a walk, with the liquidity on its two sides.\<close>

definition walk_to :: "v3_math \<Rightarrow> range_event list \<Rightarrow> clmm_pool \<Rightarrow> bool \<Rightarrow> int \<Rightarrow> int \<Rightarrow> bool \<Rightarrow> bool" where
  "walk_to vm h pool zfo tick n ini \<longleftrightarrow> in_range vm n \<and> (ini \<longrightarrow> gross_of h n \<noteq> 0) \<and>
     (\<not> ini \<longrightarrow> cp_word_boundary_sqrt_ratios pool n \<noteq> None) \<and>
     (if zfo then active_of h tick = active_of h n \<and> (ini \<or> net_of h n = 0)
      else tick = n \<and> \<not> ini \<or> active_of h tick = active_of h (n - 1) \<and> (ini \<or> net_of h n = 0))"

lemma walkable_bits:
  assumes "walkable vm h pool"
  shows "tick_bit (cp_tick_bitmap pool) t \<longleftrightarrow> gross_of h t \<noteq> 0" "\<not> tick_bit (cp_tick_bitmap pool) t \<Longrightarrow> net_of h t = 0"
  using mirrorsD(5,9) [OF walkableD(1) [OF assms]] walkableD(2) [OF assms] by blast+

lemma walkable_cached:
  assumes "tick_range vm" "walkable vm h pool" "t \<in> boundary_ticks vm 1 v" "- 3466 \<le> v" "v \<le> 3465"
  shows "cp_word_boundary_sqrt_ratios pool t \<noteq> None"
  using walkableD(7) [OF assms(2), of v] assms by (auto simp: tick_range_def)

lemma walk_below:
  assumes vm: "tick_range vm" and w: "walkable vm h pool" and tick: "in_range vm tick"
    and near: "nearest_below (cp_tick_bitmap pool) tick n ini"
  shows "walk_to vm h pool True tick n ini"
proof -
  note M = mirrorsD [OF walkableD(1) [OF w]]
  have N: "n \<le> tick" "- 887272 \<le> n" "ini = tick_bit (cp_tick_bitmap pool) n" "\<And>t. n < t \<Longrightarrow> t \<le> tick \<Longrightarrow> \<not> tick_bit (cp_tick_bitmap pool) t"
    "\<not> ini \<Longrightarrow> n = max (- 887272) (256 * (tick div 256))"
    using near unfolding nearest_below_def by blast+
  have r: "- 887272 \<le> tick" "tick \<le> 887272" using vm tick by (auto simp: tick_range_def in_range_def)
  have "cp_word_boundary_sqrt_ratios pool n \<noteq> None" if "\<not> ini"
  proof (rule walkable_cached [OF vm w])
    show "n \<in> boundary_ticks vm 1 (tick div 256)"
      using N(5) [OF that] boundary_ticks_range(1) [OF vm, of "tick div 256"] r by auto
  qed (use r in auto)
  moreover have "active_of h tick = active_of h n"
    using N(1,4) walkable_bits(2) [OF w] by (intro active_free [OF M(10)]) auto
  moreover have "in_range vm n" using N(1,2) r vm by (auto simp: in_range_def tick_range_def)
  ultimately show ?thesis using N(3) walkable_bits [OF w, of n] by (auto simp: walk_to_def)
qed

lemma walk_above:
  assumes vm: "tick_range vm" and w: "walkable vm h pool" and tick: "in_range vm tick"
    and near: "nearest_above (cp_tick_bitmap pool) tick n ini"
  shows "walk_to vm h pool False tick n ini"
proof -
  note M = mirrorsD [OF walkableD(1) [OF w]]
  have N: "tick < n" "n \<le> 887272" "ini = tick_bit (cp_tick_bitmap pool) n" "\<And>t. tick < t \<Longrightarrow> t < n \<Longrightarrow> \<not> tick_bit (cp_tick_bitmap pool) t"
    "\<not> ini \<Longrightarrow> n = min 887272 (256 * ((tick + 1) div 256) + 255)"
    using near unfolding nearest_above_def by blast+
  have r: "- 887272 \<le> tick" "tick < 887272" using vm tick N(1,2) by (auto simp: tick_range_def in_range_def)
  have "cp_word_boundary_sqrt_ratios pool n \<noteq> None" if "\<not> ini"
  proof (rule walkable_cached [OF vm w])
    show "n \<in> boundary_ticks vm 1 ((tick + 1) div 256)"
      using N(5) [OF that] boundary_ticks_range(2) [OF vm, of "(tick + 1) div 256"] r by auto
  qed (use r in auto)
  moreover have "active_of h (n - 1) = active_of h tick"
    using N(1,4) walkable_bits(2) [OF w] by (intro active_free [OF M(10)]) auto
  moreover have "in_range vm n" using N(1,2) r vm by (auto simp: in_range_def tick_range_def)
  ultimately show ?thesis using N(3) walkable_bits [OF w, of n] by (auto simp: walk_to_def)
qed

lemma walk_tick:
  assumes vm: "tick_range vm" and w: "walkable vm h pool" and tick: "in_range vm tick"
    and nxt: "next_algebra_tick_in_same_row vm (cp_tick_bitmap pool) tick zfo = (n, ini)"
  shows "walk_to vm h pool zfo tick n ini"
proof -
  have r: "- 887272 \<le> tick" "tick \<le> 887272" using vm tick by (auto simp: tick_range_def in_range_def)
  note ok = table_ok_mirror [OF vm w]
  consider "zfo" | "\<not> zfo" "tick < 887272" | "\<not> zfo" "tick = 887272" using r by linarith
  then show ?thesis
  proof cases
    case 1
    then show ?thesis using walk_below [OF vm w tick] next_algebra_below [OF vm ok r] nxt by simp
  next
    case 2
    then show ?thesis using walk_above [OF vm w tick] next_algebra_above [OF vm ok r(1)] nxt by simp
  next
    case 3
    then have n: "n = 887272" "\<not> ini" using next_algebra_end [OF vm ok] nxt by auto
    then show ?thesis using 3 tick
        walkable_cached [OF vm w, of 887272 3465] boundary_ticks_range(2) [OF vm, of 3465]
      by (auto simp: walk_to_def)
  qed
qed

lemma walk_next:
  assumes vm: "tick_range vm" and w: "walkable vm h pool" and tick: "in_range vm tick"
  obtains tn ini sn t where "traversal_target vm pool zfo tick = Inr (tn, ini, sn, t)" "walk_to vm h pool zfo tick tn ini"
proof -
  obtain n ini where nxt: "next_algebra_tick_in_same_row vm (cp_tick_bitmap pool) tick zfo = (n, ini)" by fastforce
  note to = walk_tick [OF vm w tick nxt]
  have "clamp (vm_min_tick vm) (vm_max_tick vm) n = n" using to by (auto simp: walk_to_def in_range_def clamp_def)
  moreover have "next_initialized_tick vm pool tick zfo = Inr (n, ini)"
    using nxt walkableD(2) [OF w] by (simp add: next_initialized_tick_def)
  moreover have "\<exists>sn. sqrt_ratio_at_traversal_tick vm pool n ini = Inr sn"
    using to walkableD(6) [OF w, of n] by (auto simp: walk_to_def sqrt_ratio_at_traversal_tick_def)
  ultimately show thesis using that to by (auto simp: traversal_target_def Let_def)
qed

lemma walk_cross:
  assumes vm: "tick_range vm" "delta_law vm" and w: "walkable vm h pool"
    and to: "walk_to vm h pool zfo tick tn ini" and l: "int (unat l) = active_of h tick"
  obtains l' where "cross_tick vm pool zfo msg tn ini l = Inr l'" "int (unat l') = active_of h (tick_past zfo tn)"
proof (cases ini)
  case False
  have "active_of h tick = active_of h (tick_past zfo tn)"
    using to vm(1) False active_step [OF mirrorsD(10) [OF walkableD(1) [OF w]], of tn]
    by (auto simp: walk_to_def tick_past_def saturate_i32_def tick_range_def in_range_def split: if_splits)
  then show thesis using that [of l] l False by (simp add: cross_tick_def)
next
  case True
  note M = mirrorsD [OF walkableD(1) [OF w]]
  define d where "d = (if zfo then - net_of h tn else net_of h tn)"
  have d: "i128_range d" using M(4) walkableD(5) [OF w] by (simp add: d_def)
  have tick: "cp_ticks pool tn = Some \<lparr>tl_gross = of_int (gross_of h tn), tl_net = net_of h tn\<rparr>"
    using to True M(1) by (simp add: walk_to_def tick_entry_def)
  have past: "active_of h tick + d = active_of h (tick_past zfo tn)"
    using to vm(1) True active_step [OF M(10), of tn]
    by (auto simp: d_def walk_to_def tick_past_def saturate_i32_def tick_range_def in_range_def split: if_splits)
  let ?a = "active_of h (tick_past zfo tn)"
  have a: "0 \<le> ?a" "?a < 2 ^ 128" by (rule walkableD [OF w])+
  have "vm_add_delta vm l d = Some (of_int ?a)" using add_delta_law [OF vm(2) d, of l] l past a by simp
  moreover have "cross_tick vm pool zfo msg tn ini l = context_opt (vm_add_delta vm l d) msg"
    using True tick walkableD(5) [OF w, of tn]
    by (simp add: cross_tick_def checked_neg_i128_def checked_i128_range d_def)
  ultimately show thesis using that [of "of_int ?a"] of_int_u128 [OF a] by simp
qed

text \<open>The only failures left are of the swap step itself and of the sum of the outputs.\<close>

definition step_errors :: "clmm_cause error set" where
  "step_errors = {Bail ''failed to compute swap step'', Bail ''swap output overflow''}"

definition walk_inv :: "v3_math \<Rightarrow> range_event list \<Rightarrow> clmm_pool \<Rightarrow> bool \<Rightarrow> quote_state \<Rightarrow> bool" where
  "walk_inv vm h pool zfo st \<longleftrightarrow> in_range vm (qs_tick st) \<and> limit_ok vm pool zfo (qs_price st) \<and>
     int (unat (qs_liquidity st)) = active_of h (qs_tick st) \<and> qs_remaining st < push_bit 255 1"

definition walk_outcome :: "v3_math \<Rightarrow> range_event list \<Rightarrow> clmm_pool \<Rightarrow> bool \<Rightarrow> quote_state loop_control clmm_res \<Rightarrow> bool" where
  "walk_outcome vm h pool zfo r \<longleftrightarrow> (case r of
      Inl e \<Rightarrow> e \<in> step_errors
    | Inr (Done st') \<Rightarrow> int (unat (qs_liquidity st')) = active_of h (qs_tick st')
    | Inr (Again st') \<Rightarrow> walk_inv vm h pool zfo st')"

lemma walk_taken:
  fixes Q :: u256
  assumes law: "swap_law vm pool zfo" "tick_law vm (cp_tick_spacing pool)" "delta_law vm" and w: "walkable vm h pool"
    and cache: "ratios_ok vm (cp_word_boundary_sqrt_ratios pool)" and inv: "walk_inv vm h pool zfo st"
    and go: "qs_remaining st \<noteq> 0" "qs_price st \<noteq> sqrt_price_limit vm zfo"
    and tt: "traversal_target vm pool zfo (qs_tick st) = Inr (tn, ini, sn, t)"
    and to: "walk_to vm h pool zfo (qs_tick st) tn ini"
    and step: "vm_compute_swap_step vm (qs_price st) t (qs_liquidity st) (i256 (qs_remaining st))
      (fee_pips_for_direction pool zfo) = Some (after, i, o', e)"
    and Q: "unat Q = unat (qs_amount st) + unat o'"
  shows "walk_outcome vm h pool zfo (exact_in_body vm pool False zfo st)"
proof -
  note I = inv [unfolded walk_inv_def]
  have vm: "tick_range vm" using law(2) by (simp add: tick_law_def)
  have b: "i256 (qs_remaining st) = int (unat (qs_remaining st))" using I i256_small by blast
  have le: "unat i + unat e \<le> unat (qs_remaining st)"
    using lawful_in(1) [OF swap_lawful [OF law(1) _ tt] step] I unfolding b by (simp only: of_nat_le_iff of_nat_0_le_iff simp_thms)
  obtain rem where rem: "unat (qs_remaining st) = unat rem + unat i + unat e"
    and body: "exact_in_body vm pool False zfo st = (if after = sn then
         bind_res (cross_tick vm pool zfo ''failed to cross initialized tick'' tn ini (qs_liquidity st)) (\<lambda>l'.
         Inr (Again (st\<lparr>qs_remaining := rem, qs_amount := Q, qs_price := after, qs_liquidity := l',
           qs_tick := tick_past zfo tn, qs_crossed := (if ini then qs_crossed st + 1 else qs_crossed st)\<rparr>)))
       else Inr (Done (st\<lparr>qs_remaining := rem, qs_amount := Q, qs_price := after\<rparr>)))"
    by (rule exact_in_body_step [OF go tt step le Q])
  show ?thesis
  proof (cases "after = sn")
    case False
    then show ?thesis using body I by (simp add: walk_outcome_def)
  next
    case True
    obtain l' where "cross_tick vm pool zfo ''failed to cross initialized tick'' tn ini (qs_liquidity st) = Inr l'"
      "int (unat l') = active_of h (tick_past zfo tn)"
      using walk_cross [OF vm law(3) w to] I by metis
    moreover have "in_range vm (tick_past zfo tn)" "limit_ok vm pool zfo sn"
      using path_step [OF law(1,2) cache _ _ tt, of "qs_price st"] step True I by auto
    moreover have "rem < push_bit 255 1" using I rem unfolding word_less_nat_alt by linarith
    ultimately show ?thesis using body True by (simp add: walk_outcome_def walk_inv_def)
  qed
qed

lemma walk_overflow:
  assumes law: "lawful vm (fee_pips_for_direction pool zfo) (qs_price st) t" and go: "qs_remaining st \<noteq> 0" "qs_price st \<noteq> sqrt_price_limit vm zfo"
    "qs_remaining st < push_bit 255 1"
    and tt: "traversal_target vm pool zfo (qs_tick st) = Inr (tn, ini, sn, t)"
    and step: "vm_compute_swap_step vm (qs_price st) t (qs_liquidity st) (i256 (qs_remaining st))
      (fee_pips_for_direction pool zfo) = Some (after, i, o', e)"
    and Q: "checked_add (qs_amount st) o' = None"
  shows "exact_in_body vm pool False zfo st = Inl (Bail ''swap output overflow'')"
proof -
  have b: "i256 (qs_remaining st) = int (unat (qs_remaining st))" by (rule i256_small [OF go(3)])
  have le: "unat i + unat e \<le> unat (qs_remaining st)"
    using lawful_in(1) [OF law step] unfolding b by (simp only: of_nat_le_iff of_nat_0_le_iff simp_thms)
  then have "unat i + unat e < 2 ^ LENGTH(256)" using unat_lt [of "qs_remaining st"] by linarith
  then obtain c where c: "checked_add i e = Some c" by (simp add: checked_add_def)
  then have "unat c = unat i + unat e" by (simp add: checked_simps)
  with le obtain rem where "checked_sub (qs_remaining st) c = Some rem"
    by (auto simp: checked_sub_def word_le_nat_alt)
  with c go tt step Q show ?thesis by (simp add: exact_in_body_def swap_step_def)
qed

lemma walk_step:
  assumes law: "swap_law vm pool zfo" "tick_law vm (cp_tick_spacing pool)" "delta_law vm" and w: "walkable vm h pool"
    and cache: "ratios_ok vm (cp_word_boundary_sqrt_ratios pool)" and inv: "walk_inv vm h pool zfo st"
  shows "walk_outcome vm h pool zfo (exact_in_body vm pool False zfo st)"
proof (cases "qs_remaining st = 0 \<or> qs_price st = sqrt_price_limit vm zfo")
  case True
  then show ?thesis using inv by (auto simp: exact_in_body_def walk_inv_def walk_outcome_def)
next
  case False
  note I = inv [unfolded walk_inv_def]
  have vm: "tick_range vm" using law(2) by (simp add: tick_law_def)
  obtain tn ini sn t where tt: "traversal_target vm pool zfo (qs_tick st) = Inr (tn, ini, sn, t)"
    and to: "walk_to vm h pool zfo (qs_tick st) tn ini"
    using walk_next [OF vm w] I by metis
  let ?step = "vm_compute_swap_step vm (qs_price st) t (qs_liquidity st) (i256 (qs_remaining st))
      (fee_pips_for_direction pool zfo)"
  show ?thesis
  proof (cases ?step)
    case None
    then show ?thesis using False tt by (simp add: exact_in_body_def swap_step_def step_errors_def walk_outcome_def)
  next
    case (Some step)
    then obtain after i o' e where step: "?step = Some (after, i, o', e)" by (cases step) auto
    show ?thesis
    proof (cases "checked_add (qs_amount st) o'")
      case None
      then show ?thesis using walk_overflow [OF swap_lawful [OF law(1) _ tt] _ _ _ tt step] False I
        by (simp add: walk_outcome_def step_errors_def)
    next
      case (Some Q)
      then show ?thesis using walk_taken [OF law w cache inv _ _ tt to step] False by (simp add: checked_simps)
    qed
  qed
qed

lemma walk_result:
  assumes law: "swap_law vm pool zfo" "tick_law vm (cp_tick_spacing pool)" "delta_law vm" and w: "walkable vm h pool"
    and cache: "ratios_ok vm (cp_word_boundary_sqrt_ratios pool)"
    and run: "loop_res (exact_in_body vm pool False zfo) st = Some r"
  shows "walk_inv vm h pool zfo st \<Longrightarrow>
    case r of Inl e \<Rightarrow> e \<in> step_errors | Inr st' \<Rightarrow> int (unat (qs_liquidity st')) = active_of h (qs_tick st')"
  using run
proof (induction rule: loop_res_induct)
  case (fail st e)
  then show ?case using walk_step [OF law w cache fail(2)] by (simp add: walk_outcome_def)
next
  case (stop st st')
  then show ?case using walk_step [OF law w cache stop(2)] by (simp add: walk_outcome_def)
next
  case (go st st' r)
  then show ?case using walk_step [OF law w cache go(3)] by (simp add: walk_outcome_def)
qed

section \<open>A pool for concrete runs\<close>

definition demo_history :: "range_event list" where
  "demo_history = [(- 20, 30, 4), (0, 30, 3)]"

lemma demo_sums:
  "gross_of demo_history t = (if t = - 20 then 4 else if t = 0 then 3 else if t = 30 then 7 else 0)"
  "net_of demo_history t = (if t = - 20 then 4 else if t = 0 then 3 else if t = 30 then - 7 else 0)"
  "active_of demo_history t = (if - 20 \<le> t \<and> t < 0 then 4 else if 0 \<le> t \<and> t < 30 then 7 else 0)"
  by (auto simp: demo_history_def gross_of_def net_of_def active_of_def)

lemma demo_bits: "tick_bit (cp_tick_bitmap demo_pool) t \<longleftrightarrow> t = - 20 \<or> t = 0 \<or> t = 30"
proof -
  have t: "t = 256 * (t div 256) + t mod 256" "0 \<le> t mod 256" "t mod 256 < 256" by simp_all
  have b: "bit (push_bit 236 1 :: u256) n \<longleftrightarrow> n = 236" "bit (push_bit 30 1 OR 1 :: u256) n \<longleftrightarrow> n = 30 \<or> n = 0" for n
    unfolding bit_or_iff bit_push_bit_iff bit_1_iff possible_bit_word by auto
  consider "t div 256 = 0" | "t div 256 = - 1" | "t div 256 \<noteq> 0" "t div 256 \<noteq> - 1" by blast
  then show ?thesis
  proof cases
    case 1
    then have "tick_bit (cp_tick_bitmap demo_pool) t \<longleftrightarrow> nat (t mod 256) = 30 \<or> nat (t mod 256) = 0"
      by (simp add: tick_bit_def demo_pool_def b del: push_bit_of_1)
    then show ?thesis using 1 t by auto
  next
    case 2
    then have "tick_bit (cp_tick_bitmap demo_pool) t \<longleftrightarrow> nat (t mod 256) = 236"
      by (simp add: tick_bit_def demo_pool_def b del: push_bit_of_1)
    then show ?thesis using 2 t by auto
  next
    case 3
    then show ?thesis by (auto simp: tick_bit_def demo_pool_def)
  qed
qed

lemma demo_laws: "tick_range demo_math" "tick_law demo_math spacing" "delta_law demo_math"
  by (auto simp: tick_range_def tick_law_def delta_law_def demo_math_def)

lemma demo_mirrors: "mirrors demo_math demo_history demo_pool"
proof -
  have "cp_ticks demo_pool t = tick_entry (gross_of demo_history t) (net_of demo_history t)" for t
    by (simp add: demo_pool_def tick_entry_def demo_sums)
  then show ?thesis
    by (auto simp: mirrors_def demo_bits demo_sums in_range_def demo_math_def i128_range_def)
      (auto simp: demo_pool_def demo_history_def)
qed

lemma demo_quotable: "quotable demo_math demo_pool"
  by (simp add: quotable_def in_range_def ratios_ok_def demo_pool_def demo_math_def)

lemma demo_walkable: "walkable demo_math demo_history demo_pool"
  using demo_mirrors
  by (auto simp: walkable_def demo_sums i128_range_def in_range_def boundary_ticks_def clamp_def)
    (auto simp: demo_pool_def demo_math_def)

section \<open>Properties\<close>

text \<open>
  (C26) Every loop over the pool ends.  For a pool whose tick and price are in range, with boundary prices
  cached from the library, the two direct quotes and the three builders of curves return, whatever
  the amount and the direction: each round that goes on moves the tick towards the end of the range, and
  the price limit stops the walk before that end.
\<close>

theorem swap_loops_end:
  assumes "swap_law vm pool zero_for_one" "tick_law vm (cp_tick_spacing pool)" "quotable vm pool"
  shows "(\<exists>r. quote_exact_in vm pool zero_for_one amount = Some r) \<and>
    (\<exists>r. quote_exact_in_amount_out vm pool zero_for_one amount = Some r) \<and>
    (\<exists>r. quote_exact_out_amount_in vm pool zero_for_one amount = Some r) \<and>
    (\<exists>r. prepare_exact_input_curve_bounded vm pool zero_for_one amount = Some r) \<and>
    (\<exists>r. prepare_exact_output_curve_bounded vm pool zero_for_one amount = Some r) \<and>
    (\<exists>r. prepare_exact_input_curve_bounded_by_exact_output vm pool zero_for_one amount = Some r)"
proof -
  note ends = quote_loops_end [OF assms]
  have "\<exists>r. quote_exact_in_impl vm pool inc zero_for_one amount = Some r" for inc
    using ends(1) [of inc amount] by (auto simp: quote_exact_in_impl_def)
  moreover have "\<exists>r. quote_exact_out_amount_in_impl vm pool zero_for_one amount True = Some r"
    using ends(2) [of amount] by (auto simp: quote_exact_out_amount_in_impl_def)
  moreover have "\<exists>r. prepare_quote_curve vm pool zero_for_one kind amount = Some r" for kind
    using ends(3) [of kind amount] by (auto simp: prepare_quote_curve_def)
  moreover have "\<exists>r. prepare_exact_input_curve_bounded_by_exact_output vm pool zero_for_one amount = Some r"
    using ends(4) [of amount]
    by (auto simp: prepare_exact_input_curve_bounded_by_exact_output_def)
  ultimately show ?thesis
    by (simp add: quote_exact_in_def quote_exact_in_amount_out_def quote_exact_out_amount_in_def
      prepare_exact_input_curve_bounded_def prepare_exact_output_curve_bounded_def)
qed

theorem swap_loops_end_witness:
  "swap_law demo_math demo_pool False \<and> tick_law demo_math (cp_tick_spacing demo_pool) \<and> quotable demo_math demo_pool \<and>
   (\<exists>r. quote_exact_out_amount_in demo_math demo_pool False 1000000000 = Some r)"
  using swap_loops_end [OF demo_math_law demo_laws(2) demo_quotable, of False 1000000000]
    demo_math_law demo_laws(2) demo_quotable by blast

text \<open>
  (C27) A liquidity change refines appending to the history of changes.  A pool that mirrors a history (gross
  and net liquidity of every tick, the active liquidity, and for Algebra pools the tick table) accepts
  exactly the changes that fit: an aligned range within bounds whose boundaries keep a 128-bit gross and a
  signed 128-bit net liquidity.  An accepted change gives the mirror of the longer history; a rejected one
  leaves the pool as it was.
\<close>

theorem liquidity_change_refines:
  assumes "tick_range vm" "delta_law vm" "mirrors vm history pool" "i128_range delta"
  shows "if change_fits vm history pool (tick_lower, tick_upper, delta)
    then \<exists>pool'. apply_liquidity_delta vm tick_lower tick_upper delta pool = (pool', Inr ()) \<and>
      mirrors vm (history @ [(tick_lower, tick_upper, delta)]) pool'
    else \<exists>e. apply_liquidity_delta vm tick_lower tick_upper delta pool = (pool, Inl e)"
proof (cases "change_fits vm history pool (tick_lower, tick_upper, delta)")
  case True
  then show ?thesis using apply_liquidity_delta_accepted [OF assms True] by auto
next
  case False
  then show ?thesis using apply_liquidity_delta_rejected [OF assms(2-4) False] by auto
qed

theorem liquidity_change_refines_witness:
  "change_fits demo_math demo_history demo_pool (0, 30, - 3) \<and>
   \<not> change_fits demo_math demo_history demo_pool (0, 30, - 4) \<and>
   (\<exists>pool'. apply_liquidity_delta demo_math 0 30 (- 3) demo_pool = (pool', Inr ()) \<and>
      mirrors demo_math [(- 20, 30, 4), (0, 30, 3), (0, 30, - 3)] pool') \<and>
   (\<exists>e. apply_liquidity_delta demo_math 0 30 (- 4) demo_pool = (demo_pool, Inl e))"
proof -
  have fits: "change_fits demo_math demo_history demo_pool (0, 30, - 3)"
    "\<not> change_fits demo_math demo_history demo_pool (0, 30, - 4)"
    by (simp_all add: change_fits_def boundary_fits_def demo_sums i128_range_def in_range_def demo_math_def demo_pool_def)
  have r: "i128_range (- 3)" "i128_range (- 4)" by (simp_all add: i128_range_def)
  note refines = liquidity_change_refines [OF demo_laws(1,3) demo_mirrors, of _ 0 30]
  show ?thesis
    using refines [OF r(1)] refines [OF r(2)] fits by (simp add: demo_history_def)
qed

text \<open>
  (C28) The search of an Algebra tick table finds the nearest tick.  From a tick of the range it answers the
  nearest initialized tick of the row on the side of the swap, and says so, or the edge of the row
  (never past the range) when there is none.
\<close>

theorem next_algebra_tick_nearest:
  assumes "tick_range vm" "table_ok table" "- 887272 \<le> tick" "tick < 887272"
  shows "(case next_algebra_tick_in_same_row vm table tick True of (n, initialized) \<Rightarrow>
      n \<le> tick \<and> - 887272 \<le> n \<and> initialized = tick_bit table n \<and>
      (\<forall>t. n < t \<and> t \<le> tick \<longrightarrow> \<not> tick_bit table t) \<and>
      (\<not> initialized \<longrightarrow> n = max (- 887272) (256 * (tick div 256)))) \<and>
    (case next_algebra_tick_in_same_row vm table tick False of (n, initialized) \<Rightarrow>
      tick < n \<and> n \<le> 887272 \<and> initialized = tick_bit table n \<and>
      (\<forall>t. tick < t \<and> t < n \<longrightarrow> \<not> tick_bit table t) \<and>
      (\<not> initialized \<longrightarrow> n = min 887272 (256 * ((tick + 1) div 256) + 255)))"
proof -
  have "tick \<le> 887272" using assms(4) by simp
  note below = next_algebra_below [OF assms(1-3) this] and above = next_algebra_above [OF assms]
  show ?thesis
    unfolding nearest_below_def [symmetric] nearest_above_def [symmetric] prod.case_eq_if
    by (intro conjI below above) simp_all
qed

theorem next_algebra_tick_nearest_witness:
  "table_ok (cp_tick_bitmap demo_pool) \<and>
   next_algebra_tick_in_same_row demo_math (cp_tick_bitmap demo_pool) 5 False = (30, True)"
proof -
  have ok: "table_ok (cp_tick_bitmap demo_pool)" by (rule table_ok_mirror [OF demo_laws(1) demo_walkable])
  obtain n ini where r: "next_algebra_tick_in_same_row demo_math (cp_tick_bitmap demo_pool) 5 False = (n, ini)" by fastforce
  have lo: "- 887272 \<le> (5 :: int)" and hi: "(5 :: int) < 887272" by simp_all
  have near: "5 < n" "ini = tick_bit (cp_tick_bitmap demo_pool) n"
    "\<forall>t. 5 < t \<and> t < n \<longrightarrow> \<not> tick_bit (cp_tick_bitmap demo_pool) t"
    "\<not> ini \<longrightarrow> n = min 887272 (256 * ((5 + 1) div 256) + 255)"
    using next_algebra_tick_nearest [OF demo_laws(1) ok lo hi] unfolding r prod.case by blast+
  have le: "\<not> 30 < n"
  proof
    assume "30 < n"
    then have "\<not> tick_bit (cp_tick_bitmap demo_pool) 30" using near(3) by simp
    then show False by (simp add: demo_bits)
  qed
  have ini: ini
  proof (rule ccontr)
    assume "\<not> ini"
    then have "n = 255" using near(4) by simp
    then show False using le by simp
  qed
  then have "n = - 20 \<or> n = 0 \<or> n = 30" using near(2) unfolding demo_bits by blast
  then have "n = 30 \<and> ini" using near(1) ini by linarith
  with r ok show ?thesis by simp
qed

text \<open>
  (C29) A quote on a pool that mirrors the chain fails only for want of liquidity, or in the swap step of the
  library or the sum of its outputs: the walk never meets a tick without liquidity data, a boundary without a
  cached price or a liquidity that cannot be crossed into.  Where it stops, its liquidity is the one in
  force at its tick.
\<close>

theorem mirrored_quote_errors:
  assumes "swap_law vm pool zero_for_one" "tick_law vm (cp_tick_spacing pool)" "delta_law vm" "walkable vm history pool" "quotable vm pool"
    and "amount_in \<noteq> 0" "amount_in < push_bit 255 1"
  shows "\<exists>r. quote_exact_in_impl vm pool False zero_for_one amount_in = Some r \<and>
    (case r of
       Inr q \<Rightarrow> int (unat (lq_liquidity_after q)) = active_of history (lq_tick_after q)
     | Inl e \<Rightarrow> e \<in> {Cause InsufficientLiquidity, Bail ''failed to compute swap step'', Bail ''swap output overflow''})"
proof -
  let ?body = "exact_in_body vm pool False zero_for_one"
  obtain r where r: "loop_res ?body (quote_start pool amount_in) = Some r"
    using quote_loops_end(1) [OF assms(1,2,5)] by blast
  have cache: "ratios_ok vm (cp_word_boundary_sqrt_ratios pool)" using assms(5) by (simp add: quotable_def)
  have "walk_inv vm history pool zero_for_one (quote_start pool amount_in)"
    using assms(5,7) quotable_path_inv [OF assms(5)] mirrorsD(7) [OF walkableD(1) [OF assms(4)]]
    by (simp add: walk_inv_def quote_start_def)
  from walk_result [OF assms(1-4) cache r this] show ?thesis
    using assms(6,7) r by (cases r) (auto simp: quote_exact_in_impl_def step_errors_def)
qed

theorem mirrored_quote_errors_witness:
  "walkable demo_math demo_history demo_pool \<and>
   (\<exists>r. quote_exact_in_impl demo_math demo_pool False True 100 = Some r \<and>
     (\<forall>tick. r \<noteq> Inl (Bail (''bitmap references missing tick '' @ show_int tick)) \<and>
        r \<noteq> Inl (Bail (''missing cached sqrt ratio for word boundary '' @ show_int tick))))"
proof -
  have a: "(100 :: u256) \<noteq> 0" "(100 :: u256) < push_bit 255 1" by simp_all
  obtain r where "quote_exact_in_impl demo_math demo_pool False True 100 = Some r"
    "case r of Inr q \<Rightarrow> int (unat (lq_liquidity_after q)) = active_of demo_history (lq_tick_after q)
     | Inl e \<Rightarrow> e \<in> {Cause InsufficientLiquidity, Bail ''failed to compute swap step'', Bail ''swap output overflow''}"
    using mirrored_quote_errors [OF demo_math_law demo_laws(2,3) demo_walkable demo_quotable a, of True] by blast
  then show ?thesis using demo_walkable by (cases r) auto
qed

end
