(* ===== verification/Rebalance_Saga.thy ===== *)
theory Rebalance_Saga
  imports Durable_Log BTree_Map Rebalance_Planner
begin

text \<open>
  The life of one rebalance transfer, the first part of \<open>src/src/rebalance/executor.rs\<close>: the request
  and the intent made of it, the states a transfer passes through between Binance, the bridge and the
  wallet, the checks on an operation, the transitions a journal accepts and the evidence each state has
  to carry.  The journal that stores these operations is in \<open>Rebalance_Journal\<close>.

  \<open>serde_json\<close>, SHA-256, keccak-256 and the text form of \<open>U256\<close> are the fields of \<open>rebalance_codec\<close>.
\<close>

section \<open>Text\<close>

definition is_ascii_uppercase :: "char \<Rightarrow> bool" where
  "is_ascii_uppercase c = (65 \<le> byte c \<and> byte c \<le> 90)"

definition is_ascii_hexdigit :: "char \<Rightarrow> bool" where
  "is_ascii_hexdigit c = (is_ascii_digit c \<or> (65 \<le> byte c \<and> byte c \<le> 70) \<or> (97 \<le> byte c \<and> byte c \<le> 102))"

definition to_ascii_lowercase :: "string \<Rightarrow> string" where
  "to_ascii_lowercase s = map (\<lambda>c. if is_ascii_uppercase c then char_of (byte c + 32) else c) s"

definition str_contains :: "string \<Rightarrow> string \<Rightarrow> bool" where
  "str_contains s pattern = list_ex (\<lambda>i. starts_with (drop i s) pattern) [0..<Suc (length s)]"

text \<open>\<open>&s[..n]\<close> panics past the end and inside a code point.\<close>

definition slice_to :: "nat \<Rightarrow> string \<Rightarrow> string result" where
  "slice_to n s =
     (if n \<le> length s \<and> (n = length s \<or> \<not> (128 \<le> byte (s ! n) \<and> byte (s ! n) < 192))
      then Inr (take n s) else Inl (Panic ''byte index is not a char boundary''))"

section \<open>Data\<close>

datatype rebalance_authority = WorldChainV12 | ArbitrumFullLive | LineaFullLive

fun authority_strategy_id :: "rebalance_authority \<Rightarrow> string" where
  "authority_strategy_id WorldChainV12 = ''rebalance-world-chain-v12''"
| "authority_strategy_id ArbitrumFullLive = ''rebalance-arbitrum-usdc-esp''"
| "authority_strategy_id LineaFullLive = ''rebalance-linea-usdt-usdc''"

record rebalance_request =
  rq_authority :: rebalance_authority
  rq_token_symbol :: string
  rq_token_decimals :: u8
  rq_token_contract :: address
  rq_wallet_owner :: address
  rq_action :: rebalance_action
  rq_binance_balance_before :: u256
  rq_wallet_balance_before :: u256
  rq_revalidation_start_balance :: u256
  rq_maximum_fee :: "u256 option"
  rq_approval_session_id :: "string option"

record rebalance_scope =
  rs_schema_version :: u16
  rs_account_id :: string
  rs_network_id :: string
  rs_strategy_id :: string

definition rebalance_scope_version :: u16 where
  "rebalance_scope_version = 2"

record rebalance_intent =
  ri_scope :: "rebalance_scope option"
  ri_operation_id :: string
  ri_fingerprint :: string
  ri_withdraw_order_id :: string
  ri_token_symbol :: string
  ri_token_decimals :: u8
  ri_token_contract :: address
  ri_wallet_owner :: address
  ri_direction :: direction
  ri_route :: route
  ri_amount :: u256
  ri_binance_balance_before :: u256
  ri_wallet_balance_before :: u256
  ri_revalidation_start_balance :: u256
  ri_maximum_fee_base_units :: "string option"
  ri_approval_session_id :: "string option"

definition intent_pending_transfer :: "rebalance_intent \<Rightarrow> pending_transfer" where
  "intent_pending_transfer i =
     (case ri_direction i of
        BinanceToWallet \<Rightarrow> \<lparr>pt_source = Binance, pt_destination = Wallet, pt_amount = ri_amount i\<rparr>
      | WalletToBinance \<Rightarrow> \<lparr>pt_source = Wallet, pt_destination = Binance, pt_amount = ri_amount i\<rparr>)"

text \<open>
  The fields of a state stand in the order of the source.  \<open>Vec<u8>\<close> is the list of its bytes.
\<close>

datatype rebalance_progress =
    XIntentRecorded
  | XBinanceTransferSubmitted u64 u256
  | XBinanceTransferCompleted u64 u256
  | XBinanceWithdrawalSubmissionStarted string u256 u16
  | XBinanceWithdrawalRetryAuthorized string u256 u256 u256 u256
  | XBinanceMasterReturnSubmissionStarted string u256 u256 u256 u16
  | XBinanceMasterReturnSubmitted string u64 u256 u256 u256
  | XBinanceWithdrawalSubmitted string u256
  | XFundsOnBridge string string u256
  | XApprovalMined u64 b256 u256
  | XBridgePrepared u64 u256 address "u8 list" b256 u256 u256
  | XBridgeMined u64 b256 u256 u256
  | XAcrossFilled b256 u256
  | XDepositTransferMined u64 b256
  | XDepositQuestionnaireSubmissionStarted u64 b256 string
  | XBinanceCredited string u256
  | XCompleted u256 u256
  | XCancelledStale u64 u256 u256 u256
  | XFailed string
  | XQuarantined string

fun progress_terminal :: "rebalance_progress \<Rightarrow> bool" where
  "progress_terminal (XCompleted _ _) = True"
| "progress_terminal (XCancelledStale _ _ _ _) = True"
| "progress_terminal (XFailed _) = True"
| "progress_terminal (XQuarantined _) = True"
| "progress_terminal _ = False"

fun quarantined :: "rebalance_progress \<Rightarrow> bool" where
  "quarantined (XQuarantined _) = True"
| "quarantined _ = False"

record rebalance_operation =
  ro_intent :: rebalance_intent
  ro_progress :: rebalance_progress

record rebalance_payload =
  rp_version :: u16
  rp_sequence :: u64
  rp_recorded_at_unix_ms :: u64
  rp_operation :: rebalance_operation

record rebalance_record =
  rr_payload :: rebalance_payload
  rr_checksum_sha256 :: string

text \<open>
  What the journal uses of other crates.  \<open>xc_raw_from_slice\<close> reads a record as the text of its payload,
  which \<open>RawValue\<close> keeps byte for byte, and its checksum; \<open>xc_request_to_vec\<close> is the JSON object that
  \<open>request_fingerprint\<close> builds.
\<close>

record rebalance_codec =
  xc_record_to_vec :: "rebalance_record \<Rightarrow> string option"
  xc_raw_from_slice :: "string \<Rightarrow> (string \<times> string) option"
  xc_payload_from_str :: "string \<Rightarrow> rebalance_payload option"
  xc_payload_to_vec :: "rebalance_payload \<Rightarrow> string option"
  xc_request_to_vec :: "rebalance_request \<Rightarrow> string option"
  xc_sha256_hex :: "string \<Rightarrow> string"
  xc_keccak256 :: "u8 list \<Rightarrow> b256"
  xc_u256_from_str :: "string \<Rightarrow> u256 option"
  xc_u256_to_string :: "u256 \<Rightarrow> string"

definition max_rebalance_reason_bytes :: nat where
  "max_rebalance_reason_bytes = 1024"

definition travel_rule_api_mode :: string where
  "travel_rule_api_mode = ''travel_rule_ae_self_owned''"

section \<open>Requests and operations\<close>

definition authority_matches_route :: "rebalance_authority \<Rightarrow> route \<Rightarrow> bool" where
  "authority_matches_route a r =
     (case a of
        WorldChainV12 \<Rightarrow>
          (case r of Direct _ chain \<Rightarrow> chain = 480 | Across _ _ wallet_chain \<Rightarrow> wallet_chain = 480)
      | ArbitrumFullLive \<Rightarrow>
          (case r of Direct network chain \<Rightarrow> chain = 42161 \<and> network = ''ARBITRUM'' | _ \<Rightarrow> False)
      | LineaFullLive \<Rightarrow>
          (case r of
             Across network bridge_chain wallet_chain \<Rightarrow>
               bridge_chain = 10 \<and> wallet_chain = 59144 \<and> network = ''OPTIMISM''
           | _ \<Rightarrow> False))"

definition production_authority :: "rebalance_authority \<Rightarrow> bool" where
  "production_authority a = (a \<in> {ArbitrumFullLive, LineaFullLive})"

definition token_symbol_ok :: "string \<Rightarrow> bool" where
  "token_symbol_ok s =
     (s \<noteq> [] \<and> length s \<le> 16 \<and> list_all (\<lambda>b. is_ascii_uppercase b \<or> is_ascii_digit b) s)"

definition validate_rebalance_request :: "rebalance_request \<Rightarrow> unit result" where
  "validate_rebalance_request r =
     ensure (token_symbol_ok (rq_token_symbol r)) ''rebalance executor token symbol is invalid''
     (ensure (rq_token_decimals r \<le> 36) ''rebalance executor token decimals are invalid''
     (ensure (rq_token_contract r \<noteq> 0) ''rebalance executor token contract is zero''
     (ensure (rq_wallet_owner r \<noteq> 0) ''rebalance executor wallet owner is zero''
     (ensure (act_amount (rq_action r) \<noteq> 0) ''rebalance executor amount is zero''
     (ensure (rq_revalidation_start_balance r \<noteq> 0)
       ''rebalance executor revalidation start balance is zero''
     (ensure (authority_matches_route (rq_authority r) (act_route (rq_action r)))
       ''rebalance execution authority does not own the selected route''
     (ensure (production_authority (rq_authority r) \<longleftrightarrow>
              rq_maximum_fee r \<noteq> None \<and> rq_approval_session_id r \<noteq> None)
       ''only production rebalance requests carry fee and approval-session authority''
     (ensure (production_authority (rq_authority r) \<or>
              rq_maximum_fee r = None \<and> rq_approval_session_id r = None)
       ''non-production rebalance request carries direct production authority''
     (bind_res (case rq_maximum_fee r of
         None \<Rightarrow> Inr ()
       | Some maximum_fee \<Rightarrow>
           ensure (act_direction (rq_action r) = WalletToBinance \<or> maximum_fee \<noteq> 0)
             ''rebalance Binance withdrawal maximum fee is zero'' (Inr ())) (\<lambda>_.
      bind_res (case act_direction (rq_action r) of
         BinanceToWallet \<Rightarrow>
           ensure (act_amount (rq_action r) \<le> rq_binance_balance_before r)
             ''rebalance executor amount exceeds Binance balance'' (Inr ())
       | WalletToBinance \<Rightarrow>
           ensure (act_amount (rq_action r) \<le> rq_wallet_balance_before r)
             ''rebalance executor amount exceeds wallet balance'' (Inr ())) (\<lambda>_.
      bind_res (context_opt (checked_add (rq_binance_balance_before r) (rq_wallet_balance_before r))
                  ''rebalance executor request balance overflow'') (\<lambda>all_inventory.
      bind_res (context_opt (checked_mul (rq_revalidation_start_balance r) 2)
                  ''rebalance executor revalidation threshold overflow'') (\<lambda>required_total.
      ensure (required_total \<le> all_inventory)
        ''rebalance executor revalidation threshold exceeds total inventory''
      (Inr ()))))))))))))))"

definition production_network :: "rebalance_scope option \<Rightarrow> bool" where
  "production_network s =
     (case s of None \<Rightarrow> False | Some scope \<Rightarrow> rs_network_id scope \<in> {''chain:42161'', ''chain:59144''})"

definition check_revalidation :: "rebalance_intent \<Rightarrow> unit result" where
  "check_revalidation i =
     (if ri_revalidation_start_balance i = 0 then Inr ()
      else
        bind_res (context_opt (checked_add (ri_binance_balance_before i) (ri_wallet_balance_before i))
                    ''rebalance operation balance overflow'') (\<lambda>all_inventory.
        bind_res (context_opt (checked_mul (ri_revalidation_start_balance i) 2)
                    ''rebalance operation revalidation threshold overflow'') (\<lambda>required_total.
        ensure (required_total \<le> all_inventory)
          ''rebalance operation revalidation threshold exceeds total inventory'' (Inr ()))))"

definition check_reason :: "rebalance_progress \<Rightarrow> unit result" where
  "check_reason p =
     (case p of
        XFailed reason \<Rightarrow>
          ensure (reason \<noteq> [] \<and> length reason \<le> max_rebalance_reason_bytes)
            ''rebalance failure reason is invalid'' (Inr ())
      | XQuarantined reason \<Rightarrow>
          ensure (reason \<noteq> [] \<and> length reason \<le> max_rebalance_reason_bytes)
            ''rebalance failure reason is invalid'' (Inr ())
      | _ \<Rightarrow> Inr ())"

definition session_byte :: "char \<Rightarrow> bool" where
  "session_byte b = (is_ascii_alphanumeric b \<or> b \<in> {CHR ''-'', CHR ''_'', CHR '':''})"

definition check_fee_authority :: "rebalance_codec \<Rightarrow> rebalance_intent \<Rightarrow> unit result" where
  "check_fee_authority c i =
     (case ri_maximum_fee_base_units i of
        Some text \<Rightarrow>
          bind_res (context_opt (xc_u256_from_str c text)
                      ''rebalance canary maximum fee is not a uint256'') (\<lambda>maximum_fee.
          ensure (ri_direction i = WalletToBinance \<or> maximum_fee \<noteq> 0)
            ''rebalance canary Binance withdrawal maximum fee is zero''
          (ensure (production_network (ri_scope i))
            ''direct rebalance fee authority has the wrong journal scope''
          (case ri_approval_session_id i of
             None \<Rightarrow> Inr ()
           | Some session \<Rightarrow>
               ensure (8 \<le> length session \<and> length session \<le> 64 \<and> list_all session_byte session)
                 ''rebalance approval session id is invalid'' (Inr ()))))
      | None \<Rightarrow>
          ensure (ri_approval_session_id i = None)
            ''rebalance intent has an approval session without canary fee authority'' (Inr ()))"

definition validate_rebalance :: "rebalance_codec \<Rightarrow> rebalance_operation \<Rightarrow> unit result" where
  "validate_rebalance c oper =
     (let i = ro_intent oper in
      ensure (ri_operation_id i \<noteq> [] \<and> length (ri_operation_id i) \<le> 96)
        ''rebalance operation id is invalid''
      (ensure (length (ri_fingerprint i) = 64 \<and> list_all is_ascii_hexdigit (ri_fingerprint i))
        ''rebalance operation fingerprint is invalid''
      (ensure (8 \<le> length (ri_withdraw_order_id i) \<and> length (ri_withdraw_order_id i) \<le> 64 \<and>
               list_all is_ascii_alphanumeric (ri_withdraw_order_id i))
        ''rebalance withdrawal client id is invalid''
      (ensure (ri_amount i \<noteq> 0) ''rebalance operation amount is zero''
      (ensure (token_symbol_ok (ri_token_symbol i)) ''rebalance operation token symbol is invalid''
      (ensure (ri_token_decimals i \<le> 36) ''rebalance operation token decimals are invalid''
      (ensure (ri_token_contract i \<noteq> 0 \<and> ri_wallet_owner i \<noteq> 0)
        ''rebalance operation token contract or wallet is zero''
      (bind_res (case ri_direction i of
          BinanceToWallet \<Rightarrow>
            ensure (ri_amount i \<le> ri_binance_balance_before i)
              ''rebalance operation amount exceeds Binance balance'' (Inr ())
        | WalletToBinance \<Rightarrow>
            ensure (ri_amount i \<le> ri_wallet_balance_before i)
              ''rebalance operation amount exceeds wallet balance'' (Inr ())) (\<lambda>_.
       bind_res (check_revalidation i) (\<lambda>_.
       bind_res (check_reason (ro_progress oper)) (\<lambda>_. check_fee_authority c i)))))))))))"

section \<open>Reasons\<close>

datatype transition_origin = JournalReplay | LiveAppend

definition ownership_guard_quarantine :: "string \<Rightarrow> bool" where
  "ownership_guard_quarantine reason = (reason \<in>
     {''Binance Travel Rule ownership verification is not unique for the exact wallet and network'',
      ''Binance Travel Rule ownership verification is absent for the exact wallet, network, and token'',
      ''Binance Travel Rule ownership verification is absent for the exact wallet and network''})"

definition signature_encoding_quarantine :: "string \<Rightarrow> bool" where
  "signature_encoding_quarantine reason = (reason =
     ''Binance Travel Rule withdrawal submission failed with HTTP 400 Bad Request, code -1022: Signature for this request is not valid.'')"

definition retryable_travel_rule_ownership_failure :: "string \<Rightarrow> bool" where
  "retryable_travel_rule_ownership_failure reason = (reason =
     ''terminal Binance Travel Rule withdrawal rejection: Binance Travel Rule withdrawal submission failed with HTTP 400 Bad Request, code -4024: [031031] User does not own this currency.'')"

definition retryable_travel_rule_ownership_reopen ::
  "rebalance_progress \<Rightarrow> rebalance_progress \<Rightarrow> bool" where
  "retryable_travel_rule_ownership_reopen previous nxt =
     (case previous of
        XFailed reason \<Rightarrow>
          (case nxt of
             XBinanceWithdrawalSubmissionStarted api_mode _ reconciliation_queries \<Rightarrow>
               reconciliation_queries = 0 \<and> retryable_travel_rule_ownership_failure reason \<and>
               api_mode = travel_rule_api_mode
           | _ \<Rightarrow> False)
      | _ \<Rightarrow> False)"

definition unindexed_master_transfer_quarantine :: "string \<Rightarrow> bool" where
  "unindexed_master_transfer_quarantine reason = (reason =
     ''unindexed Binance master-transfer retry found staged master inventory'')"

definition retryable_unindexed_master_transfer_reopen ::
  "rebalance_progress \<Rightarrow> rebalance_progress \<Rightarrow> bool" where
  "retryable_unindexed_master_transfer_reopen previous nxt =
     (case previous of
        XQuarantined reason \<Rightarrow> nxt = XIntentRecorded \<and> unindexed_master_transfer_quarantine reason
      | _ \<Rightarrow> False)"

definition corrected_guard_quarantine :: "string \<Rightarrow> bool" where
  "corrected_guard_quarantine reason =
     (reason = ''unindexed Binance withdrawal retry found a destination-wallet balance change'' \<or>
      reason = ''rebalance intent has no indexed Binance master transfer; operator review required'' \<or>
      unindexed_master_transfer_quarantine reason \<or> ownership_guard_quarantine reason \<or>
      signature_encoding_quarantine reason)"

definition retryable_premutation_capital_preflight_quarantine ::
  "string \<Rightarrow> rebalance_progress \<Rightarrow> bool" where
  "retryable_premutation_capital_preflight_quarantine reason progress_before_quarantine =
     (progress_before_quarantine = XIntentRecorded \<and>
      (starts_with (to_ascii_lowercase reason) ''binance capital configuration request failed:'' \<or>
       reason = ''decimal exceeds token precision''))"

definition header_lag :: "string \<Rightarrow> bool" where
  "header_lag reason = (reason \<in>
     {''JSON-RPC error -32000: header not found'',
      ''JSON-RPC error -32000: requested block ahead of current block and the hash is not currently canonical''})"

definition retryable_post_credit_settlement_quarantine ::
  "string \<Rightarrow> rebalance_progress \<Rightarrow> bool" where
  "retryable_post_credit_settlement_quarantine reason progress_before_quarantine =
     ((case progress_before_quarantine of XBinanceCredited _ _ \<Rightarrow> True | _ \<Rightarrow> False) \<and> header_lag reason)"

definition corrected_across_deposit_chain_quarantine ::
  "rebalance_intent \<Rightarrow> string \<Rightarrow> rebalance_progress \<Rightarrow> bool" where
  "corrected_across_deposit_chain_quarantine i reason progress_before_quarantine =
     (case (ri_route i, ri_direction i) of
        (Across _ bridge_chain wallet_chain, WalletToBinance) \<Rightarrow>
          (case progress_before_quarantine of
             XDepositTransferMined chain _ \<Rightarrow>
               reason = ''illegal rebalance executor state transition'' \<and>
               bridge_chain \<noteq> wallet_chain \<and> chain = bridge_chain
           | _ \<Rightarrow> False)
      | _ \<Rightarrow> False)"

definition across_fill_timeout_quarantine :: "string \<Rightarrow> bool" where
  "across_fill_timeout_quarantine reason = (reason = ''timed out waiting for Across fill'')"

definition consumed_nonce_deposit_quarantine :: "string \<Rightarrow> bool" where
  "consumed_nonce_deposit_quarantine reason0 =
     (let reason = to_ascii_lowercase reason0 in
      str_contains reason ''nonce too low'' \<or>
      starts_with reason ''consumed-nonce deposit recovery attempt failed:'' \<or>
      starts_with reason ''binance capital configuration request failed:'')"

section \<open>Reconciled transitions\<close>

definition reconciled_direct_deposit_transition ::
  "rebalance_intent \<Rightarrow> rebalance_progress \<Rightarrow> rebalance_progress \<Rightarrow> bool" where
  "reconciled_direct_deposit_transition i previous nxt =
     (case (ri_route i, ri_direction i) of
        (Direct network chain, WalletToBinance) \<Rightarrow>
          (case previous of
             XQuarantined reason \<Rightarrow>
               (case nxt of
                  XDepositTransferMined mined_chain hash \<Rightarrow>
                    (chain, network) \<in> {(42161, ''ARBITRUM''), (59144, ''LINEA'')} \<and>
                    chain = mined_chain \<and> starts_with reason ''DEX outcome unknown:'' \<and> hash \<noteq> 0
                | _ \<Rightarrow> False)
           | _ \<Rightarrow> False)
      | _ \<Rightarrow> False)"

definition reconciled_across_fill_transition ::
  "rebalance_intent \<Rightarrow> rebalance_progress \<Rightarrow> rebalance_progress \<Rightarrow> bool" where
  "reconciled_across_fill_transition i previous nxt =
     (case ri_route i of
        Across _ _ _ \<Rightarrow>
          (case previous of
             XQuarantined reason \<Rightarrow>
               (case nxt of
                  XAcrossFilled hash received \<Rightarrow>
                    across_fill_timeout_quarantine reason \<and> hash \<noteq> 0 \<and> received \<noteq> 0
                | _ \<Rightarrow> False)
           | _ \<Rightarrow> False)
      | _ \<Rightarrow> False)"

definition reconciled_consumed_nonce_deposit_transition ::
  "rebalance_intent \<Rightarrow> rebalance_progress \<Rightarrow> rebalance_progress \<Rightarrow> bool" where
  "reconciled_consumed_nonce_deposit_transition i previous nxt =
     (case (ri_route i, ri_direction i) of
        (Across _ bridge_chain _, WalletToBinance) \<Rightarrow>
          bridge_chain = 10 \<and>
          (case previous of
             XQuarantined reason \<Rightarrow>
               (case nxt of
                  XAcrossFilled hash received \<Rightarrow>
                    consumed_nonce_deposit_quarantine reason \<and> hash \<noteq> 0 \<and> received \<noteq> 0
                | _ \<Rightarrow> False)
           | _ \<Rightarrow> False)
      | _ \<Rightarrow> False)"

section \<open>Transitions\<close>

definition approved_terminal_retry ::
  "transition_origin \<Rightarrow> rebalance_progress \<Rightarrow> rebalance_progress \<Rightarrow> bool" where
  "approved_terminal_retry origin previous nxt =
     (case previous of
        XFailed reason \<Rightarrow>
          (case nxt of
             XBinanceWithdrawalSubmissionStarted api_mode _ _ \<Rightarrow>
               (str_contains reason ''approved deterministic Travel Rule rejection'' \<and>
                (api_mode = ''standard'' \<or>
                 origin = JournalReplay \<and> api_mode \<in> {''local_entity'', ''travel_rule''})) \<or>
               (reason = ''terminal Binance local-entity withdrawal rejection: Binance local-entity withdrawal submission failed with HTTP 400 Bad Request, code -4024: [031031] User does not own this currency.'' \<and>
                api_mode = ''standard'') \<or>
               (retryable_travel_rule_ownership_failure reason \<and> api_mode = travel_rule_api_mode)
           | _ \<Rightarrow> False)
      | _ \<Rightarrow> False)"

definition approved_terminal_manual_completion ::
  "rebalance_progress \<Rightarrow> rebalance_progress \<Rightarrow> bool" where
  "approved_terminal_manual_completion previous nxt =
     (case previous of
        XFailed reason \<Rightarrow>
          (case nxt of
             XCompleted _ _ \<Rightarrow>
               reason = ''terminal Binance standard withdrawal rejection after approved local-entity endpoint correction: Binance standard withdrawal submission failed with HTTP 400 Bad Request, code -4104: Please note that withdrawals are not permitted due to travel rule restrictions. To facilitate the withdrawal process, please refer to Travel Rule documentation.''
           | _ \<Rightarrow> False)
      | _ \<Rightarrow> False)"

definition approved_quarantine_retry ::
  "rebalance_intent \<Rightarrow> rebalance_progress \<Rightarrow> rebalance_progress \<Rightarrow> bool" where
  "approved_quarantine_retry i previous nxt =
     (case previous of
        XQuarantined reason \<Rightarrow>
          (case nxt of
             XBinanceWithdrawalSubmissionStarted api_mode _ queries \<Rightarrow>
               (reason = ''unindexed Binance withdrawal retry found a destination-wallet balance change'' \<and>
                api_mode = ''travel_rule_ae_self_owned'' \<and> queries = 1) \<or>
               (ownership_guard_quarantine reason \<and>
                api_mode \<in> {''travel_rule_required_after_standard_-4104'', ''travel_rule_ae_self_owned''} \<and>
                queries = 0) \<or>
               (signature_encoding_quarantine reason \<and> api_mode = ''travel_rule_ae_self_owned'' \<and>
                queries = 0)
           | XBinanceWithdrawalRetryAuthorized api_mode _ _ _ _ \<Rightarrow>
               ownership_guard_quarantine reason \<and> api_mode = ''travel_rule_ae_self_owned''
           | XIntentRecorded \<Rightarrow>
               reason = ''rebalance intent has no indexed Binance master transfer; operator review required'' \<or>
               unindexed_master_transfer_quarantine reason \<or>
               retryable_premutation_capital_preflight_quarantine reason nxt
           | XBinanceCredited _ _ \<Rightarrow> header_lag reason
           | _ \<Rightarrow> False) \<or>
          reconciled_direct_deposit_transition i previous nxt \<or>
          reconciled_across_fill_transition i previous nxt \<or>
          reconciled_consumed_nonce_deposit_transition i previous nxt \<or>
          corrected_across_deposit_chain_quarantine i reason nxt
      | _ \<Rightarrow> False)"

text \<open>
  The table of \<open>validate_transition\<close>, by route and direction: transitions that both routes share
  during a withdrawal, then those of each route.
\<close>

definition withdrawal_allowed :: "rebalance_progress \<Rightarrow> rebalance_progress \<Rightarrow> bool" where
  "withdrawal_allowed previous nxt =
     (case previous of
        XIntentRecorded \<Rightarrow> (case nxt of XBinanceTransferSubmitted _ _ \<Rightarrow> True | _ \<Rightarrow> False)
      | XBinanceTransferSubmitted _ _ \<Rightarrow>
          (case nxt of XBinanceTransferCompleted _ _ \<Rightarrow> True | _ \<Rightarrow> False)
      | XBinanceTransferCompleted _ _ \<Rightarrow>
          (case nxt of
             XBinanceWithdrawalSubmissionStarted _ _ _ \<Rightarrow> True
           | XBinanceWithdrawalSubmitted _ _ \<Rightarrow> True
           | _ \<Rightarrow> False)
      | XBinanceWithdrawalSubmissionStarted mode _ queries \<Rightarrow>
          (case nxt of
             XBinanceWithdrawalSubmitted _ _ \<Rightarrow> True
           | XBinanceWithdrawalSubmissionStarted next_mode _ next_queries \<Rightarrow>
               (mode = next_mode \<and> queries = 0 \<and> next_queries = 1) \<or>
               (mode = ''standard'' \<and> next_mode = ''travel_rule_required_after_standard_-4104'' \<and>
                queries = 0 \<and> next_queries = 0) \<or>
               (mode = ''travel_rule_required_after_standard_-4104'' \<and>
                next_mode = ''travel_rule_ae_self_owned'' \<and> queries = 0 \<and> next_queries = 0)
           | XBinanceWithdrawalRetryAuthorized next_mode _ _ _ _ \<Rightarrow> queries = 1 \<and> mode = next_mode
           | XBinanceMasterReturnSubmissionStarted _ _ _ _ next_queries \<Rightarrow>
               queries = 1 \<and> next_queries = 0
           | _ \<Rightarrow> False)
      | XBinanceWithdrawalRetryAuthorized mode _ _ _ _ \<Rightarrow>
          (case nxt of
             XBinanceWithdrawalSubmissionStarted next_mode _ next_queries \<Rightarrow>
               next_queries = 0 \<and> mode = next_mode
           | XBinanceMasterReturnSubmissionStarted _ _ _ _ next_queries \<Rightarrow> next_queries = 0
           | _ \<Rightarrow> False)
      | XBinanceMasterReturnSubmissionStarted client binance wallet required queries \<Rightarrow>
          (case nxt of
             XBinanceMasterReturnSubmissionStarted next_client next_binance next_wallet next_required
               next_queries \<Rightarrow>
               queries = 0 \<and> next_queries = 1 \<and>
               (client, binance, wallet, required) = (next_client, next_binance, next_wallet, next_required)
           | XBinanceMasterReturnSubmitted next_client _ next_binance next_wallet next_required \<Rightarrow>
               queries = 1 \<and>
               (client, binance, wallet, required) = (next_client, next_binance, next_wallet, next_required)
           | _ \<Rightarrow> False)
      | XBinanceMasterReturnSubmitted _ transaction_id binance wallet required \<Rightarrow>
          (case nxt of
             XCancelledStale next_transaction_id next_binance next_wallet next_required \<Rightarrow>
               (transaction_id, binance, wallet, required) =
               (next_transaction_id, next_binance, next_wallet, next_required)
           | _ \<Rightarrow> False)
      | _ \<Rightarrow> False)"

definition deposit_allowed :: "rebalance_progress \<Rightarrow> rebalance_progress \<Rightarrow> bool" where
  "deposit_allowed previous nxt =
     (case previous of
        XDepositTransferMined chain hash \<Rightarrow>
          (case nxt of
             XBinanceCredited _ _ \<Rightarrow> True
           | XDepositQuestionnaireSubmissionStarted next_chain next_hash _ \<Rightarrow>
               chain = next_chain \<and> hash = next_hash
           | _ \<Rightarrow> False)
      | XDepositQuestionnaireSubmissionStarted _ _ deposit_id \<Rightarrow>
          (case nxt of XBinanceCredited credited_deposit_id _ \<Rightarrow> deposit_id = credited_deposit_id | _ \<Rightarrow> False)
      | XBinanceCredited _ _ \<Rightarrow> (case nxt of XCompleted _ _ \<Rightarrow> True | _ \<Rightarrow> False)
      | _ \<Rightarrow> False)"

definition direct_withdrawal_allowed ::
  "bool \<Rightarrow> bool \<Rightarrow> rebalance_progress \<Rightarrow> rebalance_progress \<Rightarrow> bool" where
  "direct_withdrawal_allowed terminal_retry manual_completion previous nxt =
     (case previous of
        XBinanceWithdrawalSubmissionStarted _ _ _ \<Rightarrow> (case nxt of XCompleted _ _ \<Rightarrow> True | _ \<Rightarrow> False)
      | XFailed _ \<Rightarrow>
          (case nxt of
             XBinanceWithdrawalSubmissionStarted _ _ _ \<Rightarrow> terminal_retry
           | XCompleted _ _ \<Rightarrow> manual_completion
           | _ \<Rightarrow> False)
      | XBinanceWithdrawalSubmitted _ _ \<Rightarrow> (case nxt of XCompleted _ _ \<Rightarrow> True | _ \<Rightarrow> False)
      | _ \<Rightarrow> False)"

definition bridge_allowed :: "rebalance_progress \<Rightarrow> rebalance_progress \<Rightarrow> bool" where
  "bridge_allowed previous nxt =
     (case previous of
        XApprovalMined _ _ _ \<Rightarrow> (case nxt of XBridgePrepared _ _ _ _ _ _ _ \<Rightarrow> True | _ \<Rightarrow> False)
      | XBridgePrepared _ _ _ _ _ _ _ \<Rightarrow>
          (case nxt of
             XBridgeMined _ _ _ _ \<Rightarrow> True
           | XBridgePrepared _ _ _ _ _ _ _ \<Rightarrow> True
           | _ \<Rightarrow> False)
      | XBridgeMined _ _ _ _ \<Rightarrow> (case nxt of XAcrossFilled _ _ \<Rightarrow> True | _ \<Rightarrow> False)
      | _ \<Rightarrow> False)"

definition across_withdrawal_allowed :: "rebalance_progress \<Rightarrow> rebalance_progress \<Rightarrow> bool" where
  "across_withdrawal_allowed previous nxt =
     (case previous of
        XBinanceWithdrawalSubmitted _ _ \<Rightarrow> (case nxt of XFundsOnBridge _ _ _ \<Rightarrow> True | _ \<Rightarrow> False)
      | XFundsOnBridge _ _ _ \<Rightarrow>
          (case nxt of
             XApprovalMined _ _ _ \<Rightarrow> True
           | XBridgePrepared _ _ _ _ _ _ _ \<Rightarrow> True
           | _ \<Rightarrow> False)
      | XAcrossFilled _ _ \<Rightarrow> (case nxt of XCompleted _ _ \<Rightarrow> True | _ \<Rightarrow> False)
      | _ \<Rightarrow> False)"

definition across_deposit_allowed :: "rebalance_progress \<Rightarrow> rebalance_progress \<Rightarrow> bool" where
  "across_deposit_allowed previous nxt =
     (case previous of
        XIntentRecorded \<Rightarrow>
          (case nxt of
             XApprovalMined _ _ _ \<Rightarrow> True
           | XBridgePrepared _ _ _ _ _ _ _ \<Rightarrow> True
           | _ \<Rightarrow> False)
      | XAcrossFilled _ _ \<Rightarrow> (case nxt of XDepositTransferMined _ _ \<Rightarrow> True | _ \<Rightarrow> False)
      | _ \<Rightarrow> False)"

definition transition_allowed ::
  "route \<Rightarrow> direction \<Rightarrow> bool \<Rightarrow> bool \<Rightarrow> rebalance_progress \<Rightarrow> rebalance_progress \<Rightarrow> bool" where
  "transition_allowed r d terminal_retry manual_completion previous nxt =
     (case (r, d) of
        (Direct _ _, BinanceToWallet) \<Rightarrow>
          withdrawal_allowed previous nxt \<or>
          direct_withdrawal_allowed terminal_retry manual_completion previous nxt
      | (Direct _ _, WalletToBinance) \<Rightarrow>
          (previous = XIntentRecorded \<and> (case nxt of XDepositTransferMined _ _ \<Rightarrow> True | _ \<Rightarrow> False)) \<or>
          deposit_allowed previous nxt
      | (Across _ _ _, BinanceToWallet) \<Rightarrow>
          withdrawal_allowed previous nxt \<or> bridge_allowed previous nxt \<or>
          across_withdrawal_allowed previous nxt
      | (Across _ _ _, WalletToBinance) \<Rightarrow>
          bridge_allowed previous nxt \<or> across_deposit_allowed previous nxt \<or>
          deposit_allowed previous nxt)"

section \<open>Evidence\<close>

definition stale_master_return_client_id :: "rebalance_intent \<Rightarrow> string result" where
  "stale_master_return_client_id i =
     bind_res (slice_to 30 (ri_fingerprint i)) (\<lambda>prefix. Inr (''rc'' @ prefix))"

definition validate_master_return_evidence ::
  "rebalance_intent \<Rightarrow> string \<Rightarrow> u256 \<Rightarrow> u256 \<Rightarrow> u256 \<Rightarrow> unit result" where
  "validate_master_return_evidence i client binance_balance wallet_balance required_withdrawal =
     ensure (ri_direction i = BinanceToWallet)
       ''rebalance master-return evidence belongs to the wrong direction''
     (bind_res (stale_master_return_client_id i) (\<lambda>expected.
      ensure (client = expected) ''rebalance master-return client id is not deterministic''
      (ensure (required_withdrawal < ri_amount i \<or>
               ri_revalidation_start_balance i \<noteq> 0 \<and> ri_revalidation_start_balance i \<le> wallet_balance)
        ''rebalance stale cancellation is still required by current balances''
      (bind_res (context_opt (checked_add binance_balance wallet_balance)
                   ''rebalance stale-cancellation balance overflow'') (\<lambda>all_inventory.
       ensure (all_inventory \<noteq> 0) ''rebalance stale-cancellation balances are zero'' (Inr ()))))))"

definition validate_hash_text :: "string \<Rightarrow> unit result" where
  "validate_hash_text v =
     ensure (length v = 66 \<and> starts_with v ''0x'' \<and> list_all is_ascii_hexdigit (drop 2 v))
       ''rebalance transaction hash is invalid'' (Inr ())"

definition submission_api_modes :: "string list" where
  "submission_api_modes = [''local_entity'', ''standard'', ''travel_rule'',
     ''travel_rule_required_after_standard_-4104'', ''travel_rule_ae_self_owned'']"

fun validate_progress_evidence ::
  "rebalance_codec \<Rightarrow> rebalance_intent \<Rightarrow> rebalance_progress \<Rightarrow> unit result" where
  "validate_progress_evidence c i (XBinanceTransferSubmitted transaction_id _) =
     ensure (0 < transaction_id) ''rebalance Binance transfer id is zero'' (Inr ())"
| "validate_progress_evidence c i (XBinanceTransferCompleted transaction_id _) =
     ensure (0 < transaction_id) ''rebalance Binance transfer id is zero'' (Inr ())"
| "validate_progress_evidence c i (XBinanceWithdrawalSubmissionStarted api_mode _ queries) =
     ensure (api_mode \<in> set submission_api_modes)
       ''rebalance Binance withdrawal submission API mode is invalid''
     (ensure (queries \<le> 1) ''rebalance Binance withdrawal reconciliation query limit exceeded'' (Inr ()))"
| "validate_progress_evidence c i (XBinanceWithdrawalRetryAuthorized api_mode _ master_free master_locked _) =
     ensure (api_mode \<in> {''standard'', ''travel_rule_ae_self_owned''})
       ''rebalance Binance withdrawal retry API mode is invalid''
     (ensure (ri_amount i \<le> master_free)
       ''rebalance Binance withdrawal retry did not preserve sufficient master inventory''
     (ensure (master_locked = 0)
       ''rebalance Binance withdrawal retry retained locked master inventory'' (Inr ())))"
| "validate_progress_evidence c i
     (XBinanceMasterReturnSubmissionStarted client binance_balance wallet_balance required queries) =
     bind_res (validate_master_return_evidence i client binance_balance wallet_balance required) (\<lambda>_.
     ensure (queries \<le> 1) ''rebalance master-return reconciliation query limit exceeded'' (Inr ()))"
| "validate_progress_evidence c i
     (XBinanceMasterReturnSubmitted client transaction_id binance_balance wallet_balance required) =
     bind_res (validate_master_return_evidence i client binance_balance wallet_balance required) (\<lambda>_.
     ensure (0 < transaction_id) ''rebalance master-return id is zero'' (Inr ()))"
| "validate_progress_evidence c i (XBinanceWithdrawalSubmitted reference _) =
     ensure (reference \<noteq> [] \<and> length reference \<le> 128)
       ''rebalance Binance withdrawal submission reference is invalid'' (Inr ())"
| "validate_progress_evidence c i (XFundsOnBridge withdrawal_id transaction_id received) =
     ensure (withdrawal_id \<noteq> []) ''rebalance withdrawal id is empty''
     (bind_res (validate_hash_text transaction_id) (\<lambda>_.
      ensure (received \<noteq> 0 \<and> received \<le> ri_amount i)
        ''rebalance bridge receipt amount is invalid'' (Inr ())))"
| "validate_progress_evidence c i (XApprovalMined chain _ input_amount) =
     ensure (0 < chain) ''rebalance transaction chain id is zero''
     (ensure (input_amount \<le> ri_amount i)
       ''rebalance approval input exceeds the operation amount'' (Inr ()))"
| "validate_progress_evidence c i (XDepositTransferMined chain _) =
     ensure (0 < chain) ''rebalance transaction chain id is zero'' (Inr ())"
| "validate_progress_evidence c i (XDepositQuestionnaireSubmissionStarted chain _ deposit_id) =
     ensure (0 < chain) ''rebalance transaction chain id is zero''
     (ensure (deposit_id \<noteq> [] \<and> length deposit_id \<le> 128)
       ''rebalance deposit questionnaire id is invalid'' (Inr ()))"
| "validate_progress_evidence c i (XBridgeMined origin_chain _ minimum_output _) =
     ensure (0 < origin_chain) ''rebalance bridge origin chain is zero''
     (ensure (minimum_output \<noteq> 0) ''rebalance bridge minimum output is zero'' (Inr ()))"
| "validate_progress_evidence c i
     (XBridgePrepared origin_chain input_amount target calldata calldata_hash minimum_output _) =
     ensure (0 < origin_chain) ''rebalance bridge origin chain is zero''
     (ensure (input_amount \<noteq> 0) ''rebalance bridge input is zero''
     (ensure (target \<noteq> 0) ''rebalance bridge target is zero''
     (ensure (calldata \<noteq> []) ''rebalance bridge calldata is empty''
     (ensure (xc_keccak256 c calldata = calldata_hash) ''rebalance bridge calldata hash does not match''
     (ensure (minimum_output \<noteq> 0 \<and> minimum_output \<le> input_amount)
       ''rebalance bridge minimum output is invalid'' (Inr ()))))))"
| "validate_progress_evidence c i (XAcrossFilled _ received) =
     ensure (received \<noteq> 0) ''rebalance Across receipt is zero'' (Inr ())"
| "validate_progress_evidence c i (XBinanceCredited deposit_id credited) =
     ensure (deposit_id \<noteq> []) ''rebalance Binance deposit id is empty''
     (ensure (credited \<noteq> 0) ''rebalance Binance credit is zero'' (Inr ()))"
| "validate_progress_evidence c i (XCompleted binance_after wallet_after) =
     bind_res (context_opt (checked_add binance_after wallet_after)
                 ''rebalance completed balance overflow'') (\<lambda>all_inventory.
     ensure (all_inventory \<noteq> 0) ''rebalance completed balances are zero'' (Inr ()))"
| "validate_progress_evidence c i (XCancelledStale transaction_id binance_balance wallet_balance required) =
     bind_res (stale_master_return_client_id i) (\<lambda>client.
     bind_res (validate_master_return_evidence i client binance_balance wallet_balance required) (\<lambda>_.
     ensure (0 < transaction_id) ''rebalance cancelled-stale master-return id is zero'' (Inr ())))"
| "validate_progress_evidence c i XIntentRecorded = Inr ()"
| "validate_progress_evidence c i (XFailed _) = Inr ()"
| "validate_progress_evidence c i (XQuarantined _) = Inr ()"

fun failed_or_quarantined :: "rebalance_progress \<Rightarrow> bool" where
  "failed_or_quarantined (XFailed _) = True"
| "failed_or_quarantined (XQuarantined _) = True"
| "failed_or_quarantined _ = False"

definition validate_rebalance_transition ::
  "rebalance_codec \<Rightarrow> rebalance_intent \<Rightarrow> rebalance_progress \<Rightarrow> rebalance_progress \<Rightarrow> transition_origin \<Rightarrow>
   unit result" where
  "validate_rebalance_transition c i previous nxt origin =
     (let terminal_retry = approved_terminal_retry origin previous nxt;
          manual_completion = approved_terminal_manual_completion previous nxt;
          quarantine_retry = approved_quarantine_retry i previous nxt in
      ensure (\<not> progress_terminal previous \<or> terminal_retry \<or> manual_completion \<or> quarantine_retry)
        ''rebalance operation is already terminal''
      (if quarantine_retry then validate_progress_evidence c i nxt
       else if failed_or_quarantined nxt then Inr ()
       else
         ensure (transition_allowed (ri_route i) (ri_direction i) terminal_retry manual_completion previous nxt)
           ''illegal rebalance executor state transition''
         (validate_progress_evidence c i nxt)))"

section \<open>Snapshots\<close>

type_synonym rebalance_operations = "(string, rebalance_operation) btmap"

definition apply_rebalance_snapshot ::
  "rebalance_codec \<Rightarrow> rebalance_operation \<Rightarrow> transition_origin \<Rightarrow> rebalance_operations \<Rightarrow>
   rebalance_operations result" where
  "apply_rebalance_snapshot c oper origin operations =
     bind_res (validate_rebalance c oper) (\<lambda>_.
     bind_res (case bt_get operations (ri_operation_id (ro_intent oper)) of
         Some previous \<Rightarrow>
           ensure (ro_intent previous = ro_intent oper) ''rebalance operation intent changed''
           (validate_rebalance_transition c (ro_intent oper) (ro_progress previous) (ro_progress oper) origin)
       | None \<Rightarrow>
           ensure (ro_progress oper = XIntentRecorded)
             ''rebalance operation does not begin with an intent'' (Inr ())) (\<lambda>_.
     Inr (bt_insert (ri_operation_id (ro_intent oper)) oper operations)))"

section \<open>What transitions keep\<close>

lemma approved_terminal_retry_replay:
  "approved_terminal_retry LiveAppend p n \<Longrightarrow> approved_terminal_retry origin p n"
  by (cases origin) (auto simp: approved_terminal_retry_def split: rebalance_progress.splits)

lemma direct_withdrawal_allowed_mono:
  "direct_withdrawal_allowed b m p n \<Longrightarrow> (b \<Longrightarrow> b') \<Longrightarrow> direct_withdrawal_allowed b' m p n"
  by (auto simp: direct_withdrawal_allowed_def split: rebalance_progress.splits)

lemma transition_allowed_mono:
  "transition_allowed r d b m p n \<Longrightarrow> (b \<Longrightarrow> b') \<Longrightarrow> transition_allowed r d b' m p n"
  unfolding transition_allowed_def
  by (auto dest: direct_withdrawal_allowed_mono split: route.splits direction.splits)

text \<open>What a live append accepts is accepted when the file is read again.\<close>

lemma validate_transition_replay:
  assumes "validate_rebalance_transition c i p n LiveAppend = Inr ()"
  shows "validate_rebalance_transition c i p n origin = Inr ()"
  using assms transition_allowed_mono [OF _ approved_terminal_retry_replay]
    approved_terminal_retry_replay [of p n origin]
  unfolding validate_rebalance_transition_def Let_def
  by (auto split: if_splits)

lemma apply_snapshot_replay:
  assumes "apply_rebalance_snapshot c oper LiveAppend ops = Inr ops'"
  shows "apply_rebalance_snapshot c oper origin ops = Inr ops'"
  using assms unfolding apply_rebalance_snapshot_def
  by (auto split: option.splits intro: validate_transition_replay)

lemma failed_or_quarantined_evidence: "failed_or_quarantined n \<Longrightarrow> validate_progress_evidence c i n = Inr ()"
  by (cases n) simp_all

lemma validate_transition_evidence:
  assumes "validate_rebalance_transition c i p n origin = Inr ()"
  shows "validate_progress_evidence c i n = Inr ()"
  using assms failed_or_quarantined_evidence unfolding validate_rebalance_transition_def Let_def
  by (auto split: if_splits)

lemma validate_transition_terminal:
  assumes "validate_rebalance_transition c i p n origin = Inr ()" "progress_terminal p"
  shows "failed_or_quarantined p \<and> \<not> failed_or_quarantined n"
proof -
  have "approved_terminal_retry origin p n \<or> approved_terminal_manual_completion p n \<or>
      approved_quarantine_retry i p n"
    using assms unfolding validate_rebalance_transition_def Let_def by auto
  then show ?thesis
  proof (elim disjE)
    assume "approved_terminal_retry origin p n"
    then show ?thesis unfolding approved_terminal_retry_def by (cases p; cases n) simp_all
  next
    assume "approved_terminal_manual_completion p n"
    then show ?thesis unfolding approved_terminal_manual_completion_def by (cases p; cases n) simp_all
  next
    assume q: "approved_quarantine_retry i p n"
    then obtain reason where p: "p = XQuarantined reason"
      unfolding approved_quarantine_retry_def by (cases p) simp_all
    show ?thesis
    proof (cases "failed_or_quarantined n")
      case True
      then show ?thesis using q p
        unfolding approved_quarantine_retry_def reconciled_direct_deposit_transition_def
          reconciled_across_fill_transition_def reconciled_consumed_nonce_deposit_transition_def
          corrected_across_deposit_chain_quarantine_def
        by (cases n) (simp_all split: route.splits direction.splits)
    qed (simp add: p)
  qed
qed

end
