(* ===== verification/Rebalance_Journal.thy ===== *)
theory Rebalance_Journal
  imports Rebalance_Saga "HOL-Library.Product_Lexorder"
begin

text \<open>
  The journal of rebalance transfers, the second part of \<open>src/src/rebalance/executor.rs\<close>: replay of
  the file, appends, the calls that advance, reconcile and reopen an operation, and the risk totals read
  from it.
\<close>

section \<open>State\<close>

text \<open>What replay builds and a call updates; the journal adds the file and the mark of a failed write.\<close>

record rebalance_state =
  st_operations :: rebalance_operations
  st_started_at :: "(string, u64) btmap"
  st_before_quarantine :: "(string, rebalance_progress) btmap"
  st_quarantine_reopens :: "(string, u8) btmap"
  st_unindexed_reopens :: "(string, u8) btmap"
  st_travel_rule_reopens :: "(string, u8) btmap"
  st_next_sequence :: u64

record rebalance_journal =
  rj_file :: string
  rj_state :: rebalance_state
  rj_poisoned :: bool

abbreviation rj_operations :: "rebalance_journal \<Rightarrow> rebalance_operations" where
  "rj_operations j \<equiv> st_operations (rj_state j)"

abbreviation rj_next_sequence :: "rebalance_journal \<Rightarrow> u64" where
  "rj_next_sequence j \<equiv> st_next_sequence (rj_state j)"

text \<open>
  A record reads back as the text of its payload and its checksum, that text as the payload, and compact
  JSON has no line break.  This includes the field adapters \<open>u256_serde\<close>, \<open>address_serde\<close> and \<open>b256_serde\<close> at
  the end of \<open>executor.rs\<close>, which run inside the serializer: each writes a value as the text its crate
  formats it to and reads it with the parser of that crate.
\<close>

definition rebalance_codec_ok :: "rebalance_codec \<Rightarrow> bool" where
  "rebalance_codec_ok c \<longleftrightarrow>
     (\<forall>r bytes. xc_record_to_vec c r = Some bytes \<longrightarrow> nl \<notin> set bytes \<and>
        (\<exists>raw. xc_payload_to_vec c (rr_payload r) = Some raw \<and>
           xc_raw_from_slice c bytes = Some (raw, rr_checksum_sha256 r) \<and>
           xc_payload_from_str c raw = Some (rr_payload r)))"

definition rebalance_version :: u16 where
  "rebalance_version = 1"

definition max_rebalance_line_bytes :: nat where
  "max_rebalance_line_bytes = 64 * 1024"

definition max_corrected_quarantine_reopens :: u8 where
  "max_corrected_quarantine_reopens = 4"

definition max_premutation_capital_preflight_reopens :: u8 where
  "max_premutation_capital_preflight_reopens = 5"

definition max_unindexed_master_transfer_reopens :: u8 where
  "max_unindexed_master_transfer_reopens = 2"

definition max_travel_rule_ownership_rejection_retries :: u8 where
  "max_travel_rule_ownership_rejection_retries = 3"

definition max_travel_rule_ownership_rejection_reopens :: u8 where
  "max_travel_rule_ownership_rejection_reopens = max_travel_rule_ownership_rejection_retries - 1"

section \<open>Counting reopenings\<close>

definition reopen_count :: "(string, u8) btmap \<Rightarrow> string \<Rightarrow> u8" where
  "reopen_count counts k = (case bt_get counts k of None \<Rightarrow> 0 | Some n \<Rightarrow> n)"

definition bump_count :: "string \<Rightarrow> string \<Rightarrow> (string, u8) btmap \<Rightarrow> (string, u8) btmap result" where
  "bump_count overflow_msg k counts =
     bind_res (context_opt (checked_add (reopen_count counts k) 1) overflow_msg) (\<lambda>n.
     Inr (bt_insert k n counts))"

definition note_quarantine ::
  "string \<Rightarrow> rebalance_progress \<Rightarrow> rebalance_progress \<Rightarrow> rebalance_state \<Rightarrow> rebalance_state \<times> unit result" where
  "note_quarantine k previous nxt st =
     (if quarantined nxt
      then (st\<lparr>st_before_quarantine := bt_insert k previous (st_before_quarantine st)\<rparr>, Inr ())
      else if quarantined previous then
        (case bump_count ''rebalance quarantine reopen count overflow'' k (st_quarantine_reopens st) of
           Inl e \<Rightarrow> (st, Inl e)
         | Inr counts \<Rightarrow> (st\<lparr>st_quarantine_reopens := counts\<rparr>, Inr ()))
      else (st, Inr ()))"

definition note_travel_rule ::
  "string \<Rightarrow> rebalance_progress \<Rightarrow> rebalance_progress \<Rightarrow> rebalance_state \<Rightarrow> rebalance_state \<times> unit result" where
  "note_travel_rule k previous nxt st =
     (if retryable_travel_rule_ownership_reopen previous nxt then
        (case bump_count ''Travel Rule ownership rejection reopen count overflow'' k
                (st_travel_rule_reopens st) of
           Inl e \<Rightarrow> (st, Inl e)
         | Inr counts \<Rightarrow> (st\<lparr>st_travel_rule_reopens := counts\<rparr>, Inr ()))
      else (st, Inr ()))"

definition note_unindexed ::
  "string \<Rightarrow> rebalance_progress \<Rightarrow> rebalance_progress \<Rightarrow> rebalance_state \<Rightarrow> rebalance_state \<times> unit result" where
  "note_unindexed k previous nxt st =
     (if retryable_unindexed_master_transfer_reopen previous nxt then
        (case bump_count ''unindexed master-transfer reopen count overflow'' k
                (st_unindexed_reopens st) of
           Inl e \<Rightarrow> (st, Inl e)
         | Inr counts \<Rightarrow> (st\<lparr>st_unindexed_reopens := counts\<rparr>, Inr ()))
      else (st, Inr ()))"

text \<open>
  The three notes in order, stopping at the first overflow; what was noted before it stays.  The code has
  these lines once in \<open>open\<close> and once in \<open>append\<close>.
\<close>

definition note_transition ::
  "string \<Rightarrow> rebalance_progress option \<Rightarrow> rebalance_progress \<Rightarrow> rebalance_state \<Rightarrow>
   rebalance_state \<times> unit result" where
  "note_transition k previous_progress nxt st =
     (case previous_progress of
        None \<Rightarrow> (st, Inr ())
      | Some previous \<Rightarrow>
          (case note_quarantine k previous nxt st of
             (st, Inl e) \<Rightarrow> (st, Inl e)
           | (st, Inr _) \<Rightarrow>
               (case note_travel_rule k previous nxt st of
                  (st, Inl e) \<Rightarrow> (st, Inl e)
                | (st, Inr _) \<Rightarrow> note_unindexed k previous nxt st)))"

definition or_insert :: "'k::linorder \<Rightarrow> 'v \<Rightarrow> ('k, 'v) btmap \<Rightarrow> ('k, 'v) btmap" where
  "or_insert k v m = (if bt_contains m k then m else bt_insert k v m)"

section \<open>Opening\<close>

definition rebalance_checksum_bytes :: "rebalance_codec \<Rightarrow> string \<Rightarrow> string" where
  "rebalance_checksum_bytes c payload = xc_sha256_hex c payload"

definition rebalance_checksum :: "rebalance_codec \<Rightarrow> rebalance_payload \<Rightarrow> string result" where
  "rebalance_checksum c p =
     (case xc_payload_to_vec c p of
        None \<Rightarrow> Inl (Cause ())
      | Some bytes \<Rightarrow> Inr (rebalance_checksum_bytes c bytes))"

definition rebalance_record_new :: "rebalance_codec \<Rightarrow> rebalance_payload \<Rightarrow> rebalance_record result" where
  "rebalance_record_new c p =
     bind_res (rebalance_checksum c p) (\<lambda>s. Inr \<lparr>rr_payload = p, rr_checksum_sha256 = s\<rparr>)"

definition raw_validate_checksum :: "rebalance_codec \<Rightarrow> string \<times> string \<Rightarrow> unit result" where
  "raw_validate_checksum c r =
     ensure (snd r = rebalance_checksum_bytes c (fst r)) ''rebalance executor journal checksum mismatch''
       (Inr ())"

definition replay_payload ::
  "rebalance_codec \<Rightarrow> rebalance_payload \<Rightarrow> rebalance_state \<Rightarrow> rebalance_state result" where
  "replay_payload c payload st =
     (let oper = rp_operation payload; k = ri_operation_id (ro_intent oper);
          st = st\<lparr>st_started_at := or_insert k (rp_recorded_at_unix_ms payload) (st_started_at st)\<rparr> in
      case note_transition k (map_option ro_progress (bt_get (st_operations st) k)) (ro_progress oper) st of
        (st, Inl e) \<Rightarrow> Inl e
      | (st, Inr _) \<Rightarrow>
          bind_res (apply_rebalance_snapshot c oper JournalReplay (st_operations st)) (\<lambda>operations.
          bind_res (context_opt (checked_add (st_next_sequence st) 1)
                      ''rebalance executor journal sequence overflow'') (\<lambda>expected_sequence.
          Inr (st\<lparr>st_operations := operations, st_next_sequence := expected_sequence\<rparr>))))"

definition rebalance_replay_record ::
  "rebalance_codec \<Rightarrow> string \<Rightarrow> rebalance_state \<Rightarrow> rebalance_state result" where
  "rebalance_replay_record c line st =
     bind_res (context_opt (xc_raw_from_slice c line)
                 ''rebalance executor journal contains invalid JSON'') (\<lambda>rcd.
     bind_res (raw_validate_checksum c rcd) (\<lambda>_.
     bind_res (context_opt (xc_payload_from_str c (fst rcd))
                 ''rebalance executor journal payload is invalid'') (\<lambda>payload.
     ensure (rp_version payload = rebalance_version) ''unsupported rebalance executor journal version''
     (ensure (rp_sequence payload = st_next_sequence st) ''rebalance executor journal sequence mismatch''
     (replay_payload c payload st)))))"

definition rebalance_state_empty :: rebalance_state where
  "rebalance_state_empty = \<lparr>st_operations = bt_empty, st_started_at = bt_empty,
     st_before_quarantine = bt_empty, st_quarantine_reopens = bt_empty, st_unindexed_reopens = bt_empty,
     st_travel_rule_reopens = bt_empty, st_next_sequence = 0\<rparr>"

definition rebalance_replay_file :: "rebalance_codec \<Rightarrow> string \<Rightarrow> rebalance_state result" where
  "rebalance_replay_file c content =
     replay_lines max_rebalance_line_bytes ''rebalance executor journal record is too large''
       ''rebalance executor journal ends with a partial record'' (rebalance_replay_record c) content
       rebalance_state_empty"

definition rebalance_journal_open :: "rebalance_codec \<Rightarrow> string \<Rightarrow> rebalance_journal result" where
  "rebalance_journal_open c content =
     bind_res (rebalance_replay_file c content) (\<lambda>st.
     Inr \<lparr>rj_file = content, rj_state = st, rj_poisoned = False\<rparr>)"

section \<open>Appending\<close>

text \<open>\<open>append\<close> up to the write, with the maps it will store.\<close>

definition rebalance_prepare ::
  "rebalance_codec \<Rightarrow> u64 result \<Rightarrow> rebalance_operation \<Rightarrow> rebalance_journal \<Rightarrow>
   (rebalance_operations \<times> (string, u64) btmap \<times> string) result" where
  "rebalance_prepare c now oper j =
     ensure (\<not> rj_poisoned j) ''rebalance executor journal is poisoned''
     (bind_res (validate_rebalance c oper) (\<lambda>_.
      bind_res now (\<lambda>recorded_at.
      let payload = \<lparr>rp_version = rebalance_version, rp_sequence = rj_next_sequence j,
                     rp_recorded_at_unix_ms = recorded_at, rp_operation = oper\<rparr> in
      bind_res (apply_rebalance_snapshot c oper LiveAppend (rj_operations j)) (\<lambda>next_operations.
      let next_started_at = or_insert (ri_operation_id (ro_intent oper)) recorded_at
                              (st_started_at (rj_state j)) in
      bind_res (rebalance_record_new c payload) (\<lambda>rcd.
      bind_res (context_opt (xc_record_to_vec c rcd)
                  ''failed to encode rebalance executor journal record'') (\<lambda>encoded.
      ensure (length encoded < max_rebalance_line_bytes) ''rebalance executor journal record is too large''
      (Inr (next_operations, next_started_at, encoded))))))))"

text \<open>\<open>append\<close> after a durable write: the state it leaves, also when a counter overflows.\<close>

definition rebalance_commit ::
  "rebalance_operation \<Rightarrow> rebalance_operations \<Rightarrow> (string, u64) btmap \<Rightarrow> rebalance_state \<Rightarrow>
   rebalance_state \<times> unit result" where
  "rebalance_commit oper next_operations next_started_at st =
     (let k = ri_operation_id (ro_intent oper);
          previous_progress = map_option ro_progress (bt_get (st_operations st) k) in
      case note_transition k previous_progress (ro_progress oper) (st\<lparr>st_operations := next_operations\<rparr>) of
        (st, Inl e) \<Rightarrow> (st, Inl e)
      | (st, Inr _) \<Rightarrow>
          (let st = st\<lparr>st_started_at := next_started_at\<rparr> in
           case checked_add (st_next_sequence st) 1 of
             None \<Rightarrow> (st, Inl (Bail ''rebalance executor journal sequence overflow''))
           | Some s \<Rightarrow> (st\<lparr>st_next_sequence := s\<rparr>, Inr ())))"

definition rebalance_append ::
  "rebalance_codec \<Rightarrow> append_env \<Rightarrow> rebalance_operation \<Rightarrow> rebalance_journal \<Rightarrow>
   rebalance_journal \<times> unit result" where
  "rebalance_append c env oper j =
     (case rebalance_prepare c (fst env) oper j of
        Inl e \<Rightarrow> (j, Inl e)
      | Inr (next_operations, next_started_at, encoded) \<Rightarrow>
          (let j' = j\<lparr>rj_file := write_bytes (snd env) (encoded @ [nl]) (rj_file j)\<rparr> in
           case snd env of
             Failed _ \<Rightarrow>
               (j'\<lparr>rj_poisoned := True\<rparr>,
                Inl (Bail ''failed to durably append rebalance executor journal record''))
           | Durable \<Rightarrow>
               (case rebalance_commit oper next_operations next_started_at (rj_state j) of
                  (st, r) \<Rightarrow> (j'\<lparr>rj_state := st\<rparr>, r))))"

text \<open>\<open>self.append(next.clone())?; Ok(next)\<close>.\<close>

definition append_returning ::
  "rebalance_codec \<Rightarrow> append_env \<Rightarrow> rebalance_operation \<Rightarrow> rebalance_journal \<Rightarrow>
   rebalance_journal \<times> rebalance_operation result" where
  "append_returning c env nxt j =
     (case rebalance_append c env nxt j of
        (j', Inl e) \<Rightarrow> (j', Inl e)
      | (j', Inr _) \<Rightarrow> (j', Inr nxt))"

section \<open>Reading\<close>

definition active_operation :: "rebalance_journal \<Rightarrow> rebalance_operation option result" where
  "active_operation j =
     (let active = filter (\<lambda>oper. \<not> progress_terminal (ro_progress oper)) (bt_values (rj_operations j)) in
      ensure (length active \<le> 1) ''multiple active rebalance operations in journal''
      (Inr (case active of [] \<Rightarrow> None | oper # _ \<Rightarrow> Some oper)))"

definition quarantined_operations :: "rebalance_journal \<Rightarrow> rebalance_operation list" where
  "quarantined_operations j = filter (\<lambda>oper. quarantined (ro_progress oper)) (bt_values (rj_operations j))"

definition progress_before_quarantine :: "rebalance_journal \<Rightarrow> string \<Rightarrow> rebalance_progress option" where
  "progress_before_quarantine j operation_id = bt_get (st_before_quarantine (rj_state j)) operation_id"

text \<open>The shape of the four searches: nothing while an operation is active, else the first match.\<close>

definition next_quarantined ::
  "(rebalance_operation \<Rightarrow> string \<Rightarrow> rebalance_progress option \<Rightarrow> bool) \<Rightarrow> rebalance_journal \<Rightarrow>
   rebalance_operation option result" where
  "next_quarantined matches j =
     bind_res (active_operation j) (\<lambda>active.
     if active \<noteq> None then Inr None
     else Inr (find (\<lambda>oper.
       case ro_progress oper of
         XQuarantined reason \<Rightarrow>
           matches oper reason (progress_before_quarantine j (ri_operation_id (ro_intent oper)))
       | _ \<Rightarrow> False) (bt_values (rj_operations j))))"

definition next_reconcilable_direct_deposit_quarantine ::
  "u64 \<Rightarrow> string \<Rightarrow> rebalance_journal \<Rightarrow> rebalance_operation option result" where
  "next_reconcilable_direct_deposit_quarantine expected_chain expected_network =
     next_quarantined (\<lambda>oper reason before.
       starts_with reason ''DEX outcome unknown:'' \<and> ri_direction (ro_intent oper) = WalletToBinance \<and>
       ri_route (ro_intent oper) = Direct expected_network expected_chain \<and>
       before = Some XIntentRecorded)"

definition next_reconcilable_arbitrum_deposit_quarantine ::
  "rebalance_journal \<Rightarrow> rebalance_operation option result" where
  "next_reconcilable_arbitrum_deposit_quarantine =
     next_reconcilable_direct_deposit_quarantine 42161 ''ARBITRUM''"

definition next_reconcilable_across_fill_quarantine ::
  "rebalance_journal \<Rightarrow> rebalance_operation option result" where
  "next_reconcilable_across_fill_quarantine =
     next_quarantined (\<lambda>oper reason before.
       across_fill_timeout_quarantine reason \<and>
       (case ri_route (ro_intent oper) of Across _ _ _ \<Rightarrow> True | _ \<Rightarrow> False) \<and>
       (case before of Some (XBridgeMined _ _ _ _) \<Rightarrow> True | _ \<Rightarrow> False))"

definition next_reconcilable_consumed_nonce_deposit_quarantine ::
  "rebalance_journal \<Rightarrow> rebalance_operation option result" where
  "next_reconcilable_consumed_nonce_deposit_quarantine =
     next_quarantined (\<lambda>oper reason before.
       consumed_nonce_deposit_quarantine reason \<and> ri_direction (ro_intent oper) = WalletToBinance \<and>
       (case ri_route (ro_intent oper) of Across _ bridge_chain _ \<Rightarrow> bridge_chain = 10 | _ \<Rightarrow> False) \<and>
       (case before of Some (XAcrossFilled _ _) \<Rightarrow> True | _ \<Rightarrow> False))"

definition next_reconcilable_post_credit_settlement_quarantine ::
  "rebalance_journal \<Rightarrow> rebalance_operation option result" where
  "next_reconcilable_post_credit_settlement_quarantine =
     next_quarantined (\<lambda>oper reason before.
       case before of
         Some progress \<Rightarrow> retryable_post_credit_settlement_quarantine reason progress
       | None \<Rightarrow> False)"

section \<open>Calls that append\<close>

definition request_fingerprint :: "rebalance_codec \<Rightarrow> rebalance_request \<Rightarrow> string result" where
  "request_fingerprint c r =
     (case xc_request_to_vec c r of
        None \<Rightarrow> Inl (Cause ())
      | Some encoded \<Rightarrow> Inr (xc_sha256_hex c encoded))"

definition request_network_id :: "rebalance_request \<Rightarrow> string" where
  "request_network_id r =
     (case act_route (rq_action r) of
        Direct _ chain \<Rightarrow> ''chain:'' @ show_nat (unat chain)
      | Across _ bridge_chain wallet_chain \<Rightarrow>
          ''chain:'' @ show_nat (unat (if rq_authority r = LineaFullLive then wallet_chain else bridge_chain)))"

definition rebalance_reserve_operation ::
  "rebalance_codec \<Rightarrow> rebalance_request \<Rightarrow> rebalance_journal \<Rightarrow> rebalance_operation result" where
  "rebalance_reserve_operation c r j =
     bind_res (validate_rebalance_request r) (\<lambda>_.
     bind_res (active_operation j) (\<lambda>active.
     ensure (active = None) ''another rebalance operation is active''
     (bind_res (request_fingerprint c r) (\<lambda>fingerprint.
      bind_res (slice_to 16 fingerprint) (\<lambda>prefix16.
      bind_res (slice_to 30 fingerprint) (\<lambda>prefix30.
      Inr \<lparr>ro_intent = \<lparr>
        ri_scope = Some \<lparr>rs_schema_version = rebalance_scope_version,
          rs_account_id = ''binance:trading-subaccount'', rs_network_id = request_network_id r,
          rs_strategy_id = authority_strategy_id (rq_authority r)\<rparr>,
        ri_operation_id = ''rebalance-'' @ show_nat (unat (rj_next_sequence j)) @ ''-'' @ prefix16,
        ri_fingerprint = fingerprint, ri_withdraw_order_id = ''rb'' @ prefix30,
        ri_token_symbol = rq_token_symbol r, ri_token_decimals = rq_token_decimals r,
        ri_token_contract = rq_token_contract r, ri_wallet_owner = rq_wallet_owner r,
        ri_direction = act_direction (rq_action r), ri_route = act_route (rq_action r),
        ri_amount = act_amount (rq_action r), ri_binance_balance_before = rq_binance_balance_before r,
        ri_wallet_balance_before = rq_wallet_balance_before r,
        ri_revalidation_start_balance = rq_revalidation_start_balance r,
        ri_maximum_fee_base_units = map_option (xc_u256_to_string c) (rq_maximum_fee r),
        ri_approval_session_id = rq_approval_session_id r\<rparr>,
      ro_progress = XIntentRecorded\<rparr>))))))"

text \<open>A call that refuses, or appends the operation it computed.\<close>

definition append_result ::
  "rebalance_codec \<Rightarrow> append_env \<Rightarrow> rebalance_operation result \<Rightarrow> rebalance_journal \<Rightarrow>
   rebalance_journal \<times> rebalance_operation result" where
  "append_result c env r j =
     (case r of Inl e \<Rightarrow> (j, Inl e) | Inr nxt \<Rightarrow> append_returning c env nxt j)"

definition rebalance_reserve ::
  "rebalance_codec \<Rightarrow> append_env \<Rightarrow> rebalance_request \<Rightarrow> rebalance_journal \<Rightarrow>
   rebalance_journal \<times> rebalance_operation result" where
  "rebalance_reserve c env r j = append_result c env (rebalance_reserve_operation c r j) j"

definition find_rebalance :: "string \<Rightarrow> rebalance_journal \<Rightarrow> rebalance_operation result" where
  "find_rebalance operation_id j =
     context_opt (bt_get (rj_operations j) operation_id) (''unknown rebalance operation '' @ operation_id)"

definition rebalance_advance ::
  "rebalance_codec \<Rightarrow> append_env \<Rightarrow> string \<Rightarrow> rebalance_progress \<Rightarrow> rebalance_journal \<Rightarrow>
   rebalance_journal \<times> rebalance_operation result" where
  "rebalance_advance c env operation_id progress j =
     append_result c env
       (bind_res (find_rebalance operation_id j) (\<lambda>current.
        bind_res (if quarantined (ro_progress current)
            then ensure (progress_before_quarantine j operation_id = Some progress)
                   ''quarantined rebalance may only reopen its exact prior durable progress'' (Inr ())
            else Inr ()) (\<lambda>_.
        bind_res (validate_rebalance_transition c (ro_intent current) (ro_progress current) progress
                    LiveAppend) (\<lambda>_.
        Inr \<lparr>ro_intent = ro_intent current, ro_progress = progress\<rparr>)))) j"

definition reopen_post_credit_settlement_quarantine ::
  "rebalance_codec \<Rightarrow> append_env \<Rightarrow> string \<Rightarrow> rebalance_journal \<Rightarrow>
   rebalance_journal \<times> rebalance_operation result" where
  "reopen_post_credit_settlement_quarantine c env operation_id j =
     (case bind_res (find_rebalance operation_id j) (\<lambda>current.
           case ro_progress current of
             XQuarantined reason \<Rightarrow>
               bind_res (context_opt (progress_before_quarantine j operation_id)
                           ''post-credit settlement quarantine has no prior durable progress'') (\<lambda>progress.
               ensure (retryable_post_credit_settlement_quarantine reason progress)
                 ''rebalance quarantine is not an approved post-credit settlement retry''
               (Inr progress))
           | _ \<Rightarrow> Inl (Bail ''rebalance operation is not quarantined'')) of
        Inl e \<Rightarrow> (j, Inl e)
      | Inr progress \<Rightarrow> rebalance_advance c env operation_id progress j)"

definition record_reconciled_direct_deposit ::
  "rebalance_codec \<Rightarrow> append_env \<Rightarrow> string \<Rightarrow> u64 \<Rightarrow> b256 \<Rightarrow> rebalance_journal \<Rightarrow>
   rebalance_journal \<times> rebalance_operation result" where
  "record_reconciled_direct_deposit c env operation_id chain hash j =
     append_result c env
       (bind_res (find_rebalance operation_id j) (\<lambda>current.
        ensure (progress_before_quarantine j operation_id = Some XIntentRecorded)
          ''reconciled direct deposit quarantine did not follow an exact recorded intent''
        (let progress = XDepositTransferMined chain hash in
         ensure (reconciled_direct_deposit_transition (ro_intent current) (ro_progress current) progress)
           ''rebalance quarantine is not an approved reconciled direct deposit''
         (Inr \<lparr>ro_intent = ro_intent current, ro_progress = progress\<rparr>)))) j"

definition record_reconciled_arbitrum_deposit ::
  "rebalance_codec \<Rightarrow> append_env \<Rightarrow> string \<Rightarrow> b256 \<Rightarrow> rebalance_journal \<Rightarrow>
   rebalance_journal \<times> rebalance_operation result" where
  "record_reconciled_arbitrum_deposit c env operation_id hash j =
     record_reconciled_direct_deposit c env operation_id 42161 hash j"

definition record_reconciled_across_fill ::
  "rebalance_codec \<Rightarrow> append_env \<Rightarrow> string \<Rightarrow> b256 \<Rightarrow> u256 \<Rightarrow> rebalance_journal \<Rightarrow>
   rebalance_journal \<times> rebalance_operation result" where
  "record_reconciled_across_fill c env operation_id hash received j =
     append_result c env
       (bind_res (find_rebalance operation_id j) (\<lambda>current.
        bind_res (context_opt (progress_before_quarantine j operation_id)
                    ''reconciled Across fill quarantine has no prior durable progress'') (\<lambda>previous.
        case previous of
          XBridgeMined _ _ minimum_output _ \<Rightarrow>
            ensure (minimum_output \<le> received) ''reconciled Across fill is below the journaled minimum''
            (let progress = XAcrossFilled hash received in
             ensure (reconciled_across_fill_transition (ro_intent current) (ro_progress current) progress)
               ''rebalance quarantine is not an approved reconciled Across fill''
             (Inr \<lparr>ro_intent = ro_intent current, ro_progress = progress\<rparr>))
        | _ \<Rightarrow> Inl (Bail ''reconciled Across fill quarantine did not follow a mined bridge'')))) j"

definition record_reconciled_consumed_nonce_deposit ::
  "rebalance_codec \<Rightarrow> append_env \<Rightarrow> string \<Rightarrow> rebalance_journal \<Rightarrow>
   rebalance_journal \<times> rebalance_operation result" where
  "record_reconciled_consumed_nonce_deposit c env operation_id j =
     append_result c env
       (bind_res (find_rebalance operation_id j) (\<lambda>current.
        bind_res (context_opt (progress_before_quarantine j operation_id)
                    ''consumed-nonce deposit quarantine has no prior durable progress'') (\<lambda>progress.
        ensure (reconciled_consumed_nonce_deposit_transition (ro_intent current) (ro_progress current)
                  progress)
          ''rebalance quarantine is not an approved consumed-nonce deposit retry''
        (Inr \<lparr>ro_intent = ro_intent current, ro_progress = progress\<rparr>)))) j"

text \<open>\<open>Ok(Some(self.advance(..)?))\<close>.\<close>

definition some_result :: "'a \<times> 'b result \<Rightarrow> 'a \<times> 'b option result" where
  "some_result r = (case r of (j, Inl e) \<Rightarrow> (j, Inl e) | (j, Inr x) \<Rightarrow> (j, Inr (Some x)))"

definition travel_rule_failed :: "rebalance_operation \<Rightarrow> bool" where
  "travel_rule_failed oper =
     (case ro_progress oper of
        XFailed reason \<Rightarrow> retryable_travel_rule_ownership_failure reason
      | _ \<Rightarrow> False)"

definition reopen_retryable_travel_rule_ownership_failure ::
  "rebalance_codec \<Rightarrow> append_env \<Rightarrow> string \<Rightarrow> rebalance_journal \<Rightarrow>
   rebalance_journal \<times> rebalance_operation option result" where
  "reopen_retryable_travel_rule_ownership_failure c env operation_id j =
     (case active_operation j of
        Inl e \<Rightarrow> (j, Inl e)
      | Inr (Some _) \<Rightarrow> (j, Inr None)
      | Inr None \<Rightarrow>
          (case bt_get (rj_operations j) operation_id of
             None \<Rightarrow> (j, Inr None)
           | Some oper \<Rightarrow>
               if \<not> travel_rule_failed oper \<or>
                  max_travel_rule_ownership_rejection_reopens \<le>
                    reopen_count (st_travel_rule_reopens (rj_state j)) operation_id
               then (j, Inr None)
               else some_result (rebalance_advance c env operation_id
                      (XBinanceWithdrawalSubmissionStarted travel_rule_api_mode
                         (ri_wallet_balance_before (ro_intent oper)) 0) j)))"

definition retryable_terminal :: "rebalance_journal \<Rightarrow> rebalance_operation \<Rightarrow> bool" where
  "retryable_terminal j oper =
     (travel_rule_failed oper \<and>
      reopen_count (st_travel_rule_reopens (rj_state j)) (ri_operation_id (ro_intent oper)) <
        max_travel_rule_ownership_rejection_reopens)"

definition retryable_quarantine ::
  "rebalance_journal \<Rightarrow> rebalance_operation \<Rightarrow> (string \<times> rebalance_progress) option" where
  "retryable_quarantine j oper =
     (let k = ri_operation_id (ro_intent oper) in
      case (ro_progress oper, progress_before_quarantine j k) of
        (XQuarantined reason, Some previous) \<Rightarrow>
          (let (count, maximum_reopens) =
             (if unindexed_master_transfer_quarantine reason
              then (reopen_count (st_unindexed_reopens (rj_state j)) k, max_unindexed_master_transfer_reopens)
              else if retryable_premutation_capital_preflight_quarantine reason previous
              then (reopen_count (st_quarantine_reopens (rj_state j)) k,
                    max_premutation_capital_preflight_reopens)
              else (reopen_count (st_quarantine_reopens (rj_state j)) k, max_corrected_quarantine_reopens)) in
           if maximum_reopens \<le> count then None
           else if \<not> corrected_guard_quarantine reason \<and>
                   \<not> retryable_premutation_capital_preflight_quarantine reason previous \<and>
                   \<not> corrected_across_deposit_chain_quarantine (ro_intent oper) reason previous then None
           else Some (k, previous))
      | _ \<Rightarrow> None)"

definition reopen_next_retryable_quarantine ::
  "rebalance_codec \<Rightarrow> append_env \<Rightarrow> rebalance_journal \<Rightarrow>
   rebalance_journal \<times> rebalance_operation option result" where
  "reopen_next_retryable_quarantine c env j =
     (case active_operation j of
        Inl e \<Rightarrow> (j, Inl e)
      | Inr (Some _) \<Rightarrow> (j, Inr None)
      | Inr None \<Rightarrow>
          (case find (retryable_terminal j) (bt_values (rj_operations j)) of
             Some oper \<Rightarrow>
               reopen_retryable_travel_rule_ownership_failure c env (ri_operation_id (ro_intent oper)) j
           | None \<Rightarrow>
               (case find_map (retryable_quarantine j) (bt_values (rj_operations j)) of
                  None \<Rightarrow> (j, Inr None)
                | Some (operation_id, progress) \<Rightarrow>
                    some_result (rebalance_advance c env operation_id progress j))))"

section \<open>Risk\<close>

record rebalance_risk =
  risk_transfer_count :: u16
  risk_active_transfer_count :: u64
  risk_failed_transfer_count :: u64
  risk_token_a_debit :: u256
  risk_token_b_debit :: u256
  risk_token_a_maximum_fee :: u256
  risk_token_b_maximum_fee :: u256
  risk_additional_token_debit :: "(string, u256) btmap"
  risk_additional_token_maximum_fee :: "(string, u256) btmap"
  risk_first_started_at_unix_ms :: "u64 option"

definition rebalance_risk_default :: rebalance_risk where
  "rebalance_risk_default = \<lparr>risk_transfer_count = 0, risk_active_transfer_count = 0,
     risk_failed_transfer_count = 0, risk_token_a_debit = 0, risk_token_b_debit = 0,
     risk_token_a_maximum_fee = 0, risk_token_b_maximum_fee = 0, risk_additional_token_debit = bt_empty,
     risk_additional_token_maximum_fee = bt_empty, risk_first_started_at_unix_ms = None\<rparr>"

definition in_session :: "string \<Rightarrow> rebalance_operation \<Rightarrow> bool" where
  "in_session session oper =
     (production_network (ri_scope (ro_intent oper)) \<and>
      ri_approval_session_id (ro_intent oper) = Some session)"

definition total_or_zero :: "(string, u256) btmap \<Rightarrow> string \<Rightarrow> u256" where
  "total_or_zero m symbol = (case bt_get m symbol of None \<Rightarrow> 0 | Some v \<Rightarrow> v)"

definition add_debit :: "string \<Rightarrow> u256 \<Rightarrow> rebalance_risk \<Rightarrow> rebalance_risk result" where
  "add_debit symbol amount risk =
     (if symbol = ''USDC'' then
        bind_res (context_opt (checked_add (risk_token_a_debit risk) amount)
                    ''rebalance cumulative debit overflow'') (\<lambda>v. Inr (risk\<lparr>risk_token_a_debit := v\<rparr>))
      else if symbol = ''ESP'' then
        bind_res (context_opt (checked_add (risk_token_b_debit risk) amount)
                    ''rebalance cumulative debit overflow'') (\<lambda>v. Inr (risk\<lparr>risk_token_b_debit := v\<rparr>))
      else
        bind_res (context_opt (checked_add (total_or_zero (risk_additional_token_debit risk) symbol) amount)
                    ''rebalance cumulative debit overflow'') (\<lambda>v.
        Inr (risk\<lparr>risk_additional_token_debit := bt_insert symbol v (risk_additional_token_debit risk)\<rparr>)))"

definition add_maximum_fee :: "string \<Rightarrow> u256 \<Rightarrow> rebalance_risk \<Rightarrow> rebalance_risk result" where
  "add_maximum_fee symbol fee risk =
     (if symbol = ''USDC'' then
        bind_res (context_opt (checked_add (risk_token_a_maximum_fee risk) fee)
                    ''rebalance cumulative fee authority overflow'') (\<lambda>v.
        Inr (risk\<lparr>risk_token_a_maximum_fee := v\<rparr>))
      else if symbol = ''ESP'' then
        bind_res (context_opt (checked_add (risk_token_b_maximum_fee risk) fee)
                    ''rebalance cumulative fee authority overflow'') (\<lambda>v.
        Inr (risk\<lparr>risk_token_b_maximum_fee := v\<rparr>))
      else
        bind_res (context_opt (checked_add (total_or_zero (risk_additional_token_maximum_fee risk) symbol) fee)
                    ''rebalance cumulative fee authority overflow'') (\<lambda>v.
        Inr (risk\<lparr>risk_additional_token_maximum_fee :=
               bt_insert symbol v (risk_additional_token_maximum_fee risk)\<rparr>)))"

definition risk_step ::
  "rebalance_codec \<Rightarrow> rebalance_journal \<Rightarrow> rebalance_operation \<Rightarrow> rebalance_risk \<Rightarrow> rebalance_risk result" where
  "risk_step c j oper risk =
     bind_res (context_opt (checked_add (risk_transfer_count risk) 1)
                 ''rebalance transfer count overflow'') (\<lambda>n.
     let i = ro_intent oper;
         risk = risk\<lparr>risk_transfer_count := n,
           risk_active_transfer_count := risk_active_transfer_count risk +
             of_bool (\<not> progress_terminal (ro_progress oper)),
           risk_failed_transfer_count := risk_failed_transfer_count risk +
             of_bool (failed_or_quarantined (ro_progress oper))\<rparr> in
     bind_res (add_debit (ri_token_symbol i) (ri_amount i) risk) (\<lambda>risk.
     bind_res (context_opt (ri_maximum_fee_base_units i)
                 ''rebalance journal operation has no fee authority'') (\<lambda>text.
     bind_res (context_opt (xc_u256_from_str c text) ''rebalance fee authority is not a uint256'') (\<lambda>maximum_fee.
     bind_res (add_maximum_fee (ri_token_symbol i) maximum_fee risk) (\<lambda>risk.
     bind_res (context_opt (bt_get (st_started_at (rj_state j)) (ri_operation_id i))
                 ''rebalance operation has no durable start timestamp'') (\<lambda>started_at.
     Inr (risk\<lparr>risk_first_started_at_unix_ms :=
            Some (case risk_first_started_at_unix_ms risk of
                    None \<Rightarrow> started_at | Some current \<Rightarrow> min current started_at)\<rparr>)))))))"

definition rebalance_risk_of ::
  "rebalance_codec \<Rightarrow> string \<Rightarrow> rebalance_journal \<Rightarrow> rebalance_risk result" where
  "rebalance_risk_of c session j =
     for_each (risk_step c j) (filter (in_session session) (bt_values (rj_operations j)))
       rebalance_risk_default"

text \<open>\<open>Iterator::max_by_key\<close> keeps the last of several maximal elements.\<close>

definition max_by_key :: "('a \<Rightarrow> 'k::linorder) \<Rightarrow> 'a list \<Rightarrow> 'a option" where
  "max_by_key key xs =
     fold (\<lambda>x best. case best of None \<Rightarrow> Some x | Some y \<Rightarrow> if key y \<le> key x then Some x else Some y) xs None"

definition latest_rebalance_operation ::
  "string \<Rightarrow> rebalance_journal \<Rightarrow> rebalance_operation option" where
  "latest_rebalance_operation session j =
     max_by_key (\<lambda>oper. let k = ri_operation_id (ro_intent oper) in
        (case bt_get (st_started_at (rj_state j)) k of None \<Rightarrow> 0 | Some t \<Rightarrow> t, k))
       (filter (in_session session) (bt_values (rj_operations j)))"

end
