(* ===== verification/Rebalance_Recovery.thy ===== *)
theory Rebalance_Recovery
  imports Rebalance_Journal
begin

text \<open>
  The rebalance journal as a durable log: what one append does to the file and to the state, the calls of
  the program as sequences of appends, and the record step that replay and live appends share.
\<close>

section \<open>Counters\<close>

lemma note_transition_frame:
  assumes "note_transition k p n st = (st', r)"
  shows "st_operations st' = st_operations st" "st_started_at st' = st_started_at st"
    "st_next_sequence st' = st_next_sequence st"
  using assms
  by (auto simp: note_transition_def note_quarantine_def note_travel_rule_def note_unindexed_def
      split: option.splits if_splits sum.splits prod.splits)

lemma note_transition_operations:
  "note_transition k p n (st\<lparr>st_operations := ops\<rparr>) =
     (case note_transition k p n st of (st', r) \<Rightarrow> (st'\<lparr>st_operations := ops\<rparr>, r))"
  by (auto simp: note_transition_def note_quarantine_def note_travel_rule_def note_unindexed_def
      split: option.splits sum.splits prod.splits)

lemma note_transition_started_at:
  "note_transition k p n (st\<lparr>st_started_at := m\<rparr>) =
     (case note_transition k p n st of (st', r) \<Rightarrow> (st'\<lparr>st_started_at := m\<rparr>, r))"
  by (auto simp: note_transition_def note_quarantine_def note_travel_rule_def note_unindexed_def
      split: option.splits sum.splits prod.splits)

text \<open>Room for one more record: no 8-bit counter of reopenings is full, nor is the sequence number.\<close>

definition counts_room :: "(string, u8) btmap \<Rightarrow> bool" where
  "counts_room counts \<longleftrightarrow> (\<forall>k. reopen_count counts k < 255)"

definition room :: "rebalance_state \<Rightarrow> bool" where
  "room st \<longleftrightarrow> unat (st_next_sequence st) + 1 < 2 ^ 64 \<and> counts_room (st_quarantine_reopens st) \<and>
     counts_room (st_unindexed_reopens st) \<and> counts_room (st_travel_rule_reopens st)"

lemma bump_count_room:
  assumes "counts_room counts"
  shows "\<exists>counts'. bump_count msg k counts = Inr counts'"
proof -
  have "unat (reopen_count counts k) < 255" using assms by (simp add: counts_room_def word_less_nat_alt)
  then show ?thesis by (simp add: bump_count_def checked_add_def)
qed

lemma note_transition_room:
  assumes "room st"
  shows "\<exists>st'. note_transition k p nxt st = (st', Inr ())"
proof -
  have "\<exists>cq. bump_count ''rebalance quarantine reopen count overflow'' k (st_quarantine_reopens st) = Inr cq"
    "\<exists>cu. bump_count ''unindexed master-transfer reopen count overflow'' k (st_unindexed_reopens st) = Inr cu"
    "\<exists>ct. bump_count ''Travel Rule ownership rejection reopen count overflow'' k (st_travel_rule_reopens st) = Inr ct"
    using assms by (auto simp: room_def intro: bump_count_room)
  then show ?thesis
    by (cases p) (auto simp: note_transition_def note_quarantine_def note_travel_rule_def note_unindexed_def)
qed

lemma rebalance_commit_Inr:
  "rebalance_commit oper ops started st = (st', Inr ()) \<longleftrightarrow>
     (\<exists>st1 s. note_transition (ri_operation_id (ro_intent oper))
          (map_option ro_progress (bt_get (st_operations st) (ri_operation_id (ro_intent oper))))
          (ro_progress oper) st = (st1, Inr ()) \<and>
        checked_add (st_next_sequence st) 1 = Some s \<and>
        st' = st1\<lparr>st_operations := ops, st_started_at := started, st_next_sequence := s\<rparr>)"
proof -
  let ?k = "ri_operation_id (ro_intent oper)"
  let ?p = "map_option ro_progress (bt_get (st_operations st) ?k)"
  obtain st1 r where n: "note_transition ?k ?p (ro_progress oper) st = (st1, r)" by fastforce
  show ?thesis
    using n note_transition_frame(3) [OF n]
    by (auto simp: rebalance_commit_def Let_def note_transition_operations split: sum.split option.split)
qed

lemma rebalance_commit_room:
  assumes "room st"
  obtains st' where "rebalance_commit oper ops started st = (st', Inr ())"
proof -
  obtain st1 where n: "note_transition (ri_operation_id (ro_intent oper))
      (map_option ro_progress (bt_get (st_operations st) (ri_operation_id (ro_intent oper))))
      (ro_progress oper) st = (st1, Inr ())"
    using note_transition_room [OF assms] by blast
  have "checked_add (st_next_sequence st) 1 = Some (st_next_sequence st + 1)"
    using assms by (simp add: room_def checked_add_def)
  with n that show thesis unfolding rebalance_commit_Inr by blast
qed

section \<open>The journal as a durable log\<close>

definition rebalance_written ::
  "rebalance_codec \<Rightarrow> rebalance_state \<Rightarrow> string \<Rightarrow> rebalance_state \<Rightarrow> bool" where
  "rebalance_written c st line st' \<longleftrightarrow> rebalance_codec_ok c \<and>
     (\<exists>now oper j ops started. rebalance_prepare c now oper j = Inr (ops, started, line) \<and> rj_state j = st \<and>
        rebalance_commit oper ops started st = (st', Inr ()))"

lemma rebalance_prepare_Inr:
  assumes "rebalance_prepare c now oper j = Inr (ops, started, line)"
  obtains payload rcd where "\<not> rj_poisoned j" "rp_version payload = rebalance_version"
    "rp_sequence payload = rj_next_sequence j" "rp_operation payload = oper"
    "started = or_insert (ri_operation_id (ro_intent oper)) (rp_recorded_at_unix_ms payload) (st_started_at (rj_state j))"
    "apply_rebalance_snapshot c oper LiveAppend (rj_operations j) = Inr ops"
    "rebalance_record_new c payload = Inr rcd" "xc_record_to_vec c rcd = Some line"
    "length line < max_rebalance_line_bytes"
proof -
  from assms obtain t rcd where "\<not> rj_poisoned j"
    "apply_rebalance_snapshot c oper LiveAppend (rj_operations j) = Inr ops"
    "started = or_insert (ri_operation_id (ro_intent oper)) t (st_started_at (rj_state j))"
    "rebalance_record_new c \<lparr>rp_version = rebalance_version, rp_sequence = rj_next_sequence j,
       rp_recorded_at_unix_ms = t, rp_operation = oper\<rparr> = Inr rcd"
    "xc_record_to_vec c rcd = Some line" "length line < max_rebalance_line_bytes"
    unfolding rebalance_prepare_def Let_def by auto
  then show thesis by (intro that [of "\<lparr>rp_version = rebalance_version, rp_sequence = rj_next_sequence j,
       rp_recorded_at_unix_ms = t, rp_operation = oper\<rparr>" rcd]) simp_all
qed

lemma rebalance_record_read:
  assumes "rebalance_codec_ok c" "rebalance_record_new c payload = Inr rcd" "xc_record_to_vec c rcd = Some line"
  obtains raw s where "xc_raw_from_slice c line = Some (raw, s)" "raw_validate_checksum c (raw, s) = Inr ()"
    "xc_payload_from_str c raw = Some payload" "nl \<notin> set line"
proof -
  from assms(2) obtain s where s: "rebalance_checksum c payload = Inr s"
    "rcd = \<lparr>rr_payload = payload, rr_checksum_sha256 = s\<rparr>" by (auto simp: rebalance_record_new_def)
  from assms(1) [unfolded rebalance_codec_ok_def, rule_format, OF assms(3)] s(2)
  obtain raw where raw: "xc_payload_to_vec c payload = Some raw" "xc_raw_from_slice c line = Some (raw, s)"
    "xc_payload_from_str c raw = Some payload" "nl \<notin> set line"
    by auto
  moreover have "raw_validate_checksum c (raw, s) = Inr ()"
    using raw(1) s(1) by (simp add: rebalance_checksum_def raw_validate_checksum_def)
  ultimately show thesis using that by blast
qed

lemma rebalance_written_replay:
  assumes "rebalance_written c st line st'"
  shows "rebalance_replay_record c line st = Inr st' \<and> nl \<notin> set line \<and> length line < max_rebalance_line_bytes"
proof -
  from assms obtain now oper j ops started where ok: "rebalance_codec_ok c" and st: "rj_state j = st"
    and prep: "rebalance_prepare c now oper j = Inr (ops, started, line)"
    and commit: "rebalance_commit oper ops started st = (st', Inr ())"
    by (auto simp: rebalance_written_def)
  let ?k = "ri_operation_id (ro_intent oper)"
  from prep obtain payload rcd where p: "rp_version payload = rebalance_version"
    "rp_sequence payload = st_next_sequence st" "rp_operation payload = oper"
    "started = or_insert ?k (rp_recorded_at_unix_ms payload) (st_started_at st)"
    "apply_rebalance_snapshot c oper LiveAppend (st_operations st) = Inr ops"
    "rebalance_record_new c payload = Inr rcd" "xc_record_to_vec c rcd = Some line"
    "length line < max_rebalance_line_bytes"
    unfolding st [symmetric] by (rule rebalance_prepare_Inr)
  obtain raw s where raw: "xc_raw_from_slice c line = Some (raw, s)" "raw_validate_checksum c (raw, s) = Inr ()"
    "xc_payload_from_str c raw = Some payload" "nl \<notin> set line"
    by (rule rebalance_record_read [OF ok p(6,7)])
  from commit obtain st1 s1 where n: "note_transition ?k (map_option ro_progress (bt_get (st_operations st) ?k))
      (ro_progress oper) st = (st1, Inr ())" "checked_add (st_next_sequence st) 1 = Some s1"
    "st' = st1\<lparr>st_operations := ops, st_started_at := started, st_next_sequence := s1\<rparr>"
    unfolding rebalance_commit_Inr by blast
  have "rebalance_replay_record c line st = Inr st'"
    using raw p n note_transition_frame [OF n(1)] apply_snapshot_replay [OF p(5), of JournalReplay]
    by (simp add: rebalance_replay_record_def replay_payload_def Let_def note_transition_started_at)
  then show ?thesis using raw(4) p(8) by simp
qed

interpretation rebalance_log: durable_log max_rebalance_line_bytes
  "''rebalance executor journal record is too large''"
  "''rebalance executor journal ends with a partial record''" "rebalance_replay_record c" "rebalance_written c" for c
  by unfold_locales (auto dest: rebalance_written_replay)

definition rebalance_view :: "rebalance_journal \<Rightarrow> string \<times> rebalance_state \<times> bool" where
  "rebalance_view j = (rj_file j, rj_state j, rj_poisoned j)"

lemma rebalance_append_cases:
  obtains (refused) e where "rebalance_append c env oper j = (j, Inl e)"
      "rebalance_prepare c (fst env) oper j = Inl e"
    | (failed) k ops started line e where "\<not> rj_poisoned j" "snd env = Failed k"
      "rebalance_prepare c (fst env) oper j = Inr (ops, started, line)"
      "rebalance_append c env oper j =
         (j\<lparr>rj_file := write_bytes (Failed k) (line @ [nl]) (rj_file j), rj_poisoned := True\<rparr>, Inl e)"
    | (stored) ops started line st r where "\<not> rj_poisoned j" "snd env = Durable"
      "rebalance_prepare c (fst env) oper j = Inr (ops, started, line)"
      "rebalance_commit oper ops started (rj_state j) = (st, r)"
      "rebalance_append c env oper j =
         (j\<lparr>rj_file := write_bytes Durable (line @ [nl]) (rj_file j), rj_state := st\<rparr>, r)"
proof (cases "rebalance_prepare c (fst env) oper j")
  case (Inl e)
  then show thesis by (intro refused) (simp_all add: rebalance_append_def)
next
  case (Inr x)
  obtain ops started line where x: "x = (ops, started, line)" by (metis prod.exhaust)
  have np: "\<not> rj_poisoned j" using Inr by (auto simp: rebalance_prepare_def)
  obtain st r where com: "rebalance_commit oper ops started (rj_state j) = (st, r)" by fastforce
  show thesis
  proof (cases "snd env")
    case Durable
    then show thesis using Inr x np com
      by (intro stored [of ops started line st r]) (simp_all add: rebalance_append_def Let_def)
  next
    case (Failed k)
    then show thesis using Inr x np
      by (intro failed [of k ops started line]) (simp_all add: rebalance_append_def Let_def)
  qed
qed

lemma rebalance_append_log:
  assumes ok: "rebalance_codec_ok c" and room: "room (rj_state j)"
  shows "log_step (rebalance_written c) (rebalance_view j) (rebalance_view (fst (rebalance_append c env oper j)))"
proof -
  have written: "\<exists>st'. rebalance_commit oper ops started (rj_state j) = (st', Inr ()) \<and>
      rebalance_written c (rj_state j) line st'"
    if "rebalance_prepare c now oper j = Inr (ops, started, line)" for now ops started line
  proof (rule rebalance_commit_room [OF room, of oper ops started])
    fix st' assume a: "rebalance_commit oper ops started (rj_state j) = (st', Inr ())"
    have "rebalance_written c (rj_state j) line st'"
      unfolding rebalance_written_def
      by (intro conjI exI [of _ now] exI [of _ oper] exI [of _ j] exI [of _ ops] exI [of _ started])
        (use ok that a in simp_all)
    with a show ?thesis by blast
  qed
  show ?thesis
  proof (cases rule: rebalance_append_cases [where c = c and env = env and oper = oper and j = j])
    case (refused e)
    then show ?thesis by (simp add: log_step.refused)
  next
    case (failed k ops started line e)
    from written [OF failed(3)] obtain st' where "rebalance_written c (rj_state j) line st'" by blast
    from log_step.failed [where written = "rebalance_written c", OF this, of "rj_file j" k] show ?thesis
      using failed by (simp add: rebalance_view_def)
  next
    case (stored ops started line st r)
    from written [OF stored(3)] stored(4) have w: "rebalance_written c (rj_state j) line st" by auto
    from log_step.stored [where written = "rebalance_written c", OF w, of "rj_file j"] show ?thesis
      using stored by (simp add: rebalance_view_def)
  qed
qed

section \<open>Calls\<close>

text \<open>The public calls that change the journal, with the answers of the system they meet.\<close>

datatype rebalance_call =
    RReserve append_env rebalance_request
  | RAdvance append_env string rebalance_progress
  | RReopenPostCredit append_env string
  | RDirectDeposit append_env string u64 b256
  | RArbitrumDeposit append_env string b256
  | RAcrossFill append_env string b256 u256
  | RConsumedNonceDeposit append_env string
  | RReopenTravelRule append_env string
  | RReopenNext append_env

fun rebalance_call_apply ::
  "rebalance_codec \<Rightarrow> rebalance_call \<Rightarrow> rebalance_journal \<Rightarrow>
   rebalance_journal \<times> rebalance_operation option result" where
  "rebalance_call_apply c (RReserve env r) j = some_result (rebalance_reserve c env r j)"
| "rebalance_call_apply c (RAdvance env k progress) j = some_result (rebalance_advance c env k progress j)"
| "rebalance_call_apply c (RReopenPostCredit env k) j =
     some_result (reopen_post_credit_settlement_quarantine c env k j)"
| "rebalance_call_apply c (RDirectDeposit env k chain hash) j =
     some_result (record_reconciled_direct_deposit c env k chain hash j)"
| "rebalance_call_apply c (RArbitrumDeposit env k hash) j =
     some_result (record_reconciled_arbitrum_deposit c env k hash j)"
| "rebalance_call_apply c (RAcrossFill env k hash received) j =
     some_result (record_reconciled_across_fill c env k hash received j)"
| "rebalance_call_apply c (RConsumedNonceDeposit env k) j =
     some_result (record_reconciled_consumed_nonce_deposit c env k j)"
| "rebalance_call_apply c (RReopenTravelRule env k) j =
     reopen_retryable_travel_rule_ownership_failure c env k j"
| "rebalance_call_apply c (RReopenNext env) j = reopen_next_retryable_quarantine c env j"

definition rebalance_run ::
  "rebalance_codec \<Rightarrow> rebalance_call list \<Rightarrow> rebalance_journal \<Rightarrow> rebalance_journal" where
  "rebalance_run c calls j = fold (\<lambda>call j. fst (rebalance_call_apply c call j)) calls j"

text \<open>Every call of a run finds room for the record it may write.\<close>

fun room_along :: "rebalance_codec \<Rightarrow> rebalance_call list \<Rightarrow> rebalance_journal \<Rightarrow> bool" where
  "room_along c [] j = True"
| "room_along c (call # calls) j \<longleftrightarrow>
     room (rj_state j) \<and> room_along c calls (fst (rebalance_call_apply c call j))"

text \<open>
  How a quarantine may end: at the exact progress recorded before it, or one step further when the
  deposit or the fill it waited for was found on chain.
\<close>

definition quarantine_exit :: "rebalance_intent \<Rightarrow> rebalance_progress option \<Rightarrow> rebalance_progress \<Rightarrow> bool" where
  "quarantine_exit i before progress \<longleftrightarrow>
     before = Some progress \<or>
     (before = Some XIntentRecorded \<and>
        (\<exists>network chain hash. ri_route i = Direct network chain \<and> hash \<noteq> 0 \<and>
           progress = XDepositTransferMined chain hash)) \<or>
     (\<exists>origin bridge minimum_output balance hash received.
        before = Some (XBridgeMined origin bridge minimum_output balance) \<and>
        progress = XAcrossFilled hash received \<and> minimum_output \<le> received \<and> hash \<noteq> 0)"

text \<open>
  The operation a call appends: a fresh intent, or a move of a stored operation that the call may touch.
\<close>

inductive live_oper ::
  "rebalance_codec \<Rightarrow> rebalance_journal \<Rightarrow> (string option \<Rightarrow> bool) \<Rightarrow> rebalance_operation \<Rightarrow> bool" for c j touched where
  reserved: "rebalance_reserve_operation c r j = Inr oper \<Longrightarrow> touched None \<Longrightarrow>
    live_oper c j touched oper"
| moved: "bt_get (rj_operations j) k = Some current \<Longrightarrow> ro_intent oper = ro_intent current \<Longrightarrow>
    (quarantined (ro_progress current) \<Longrightarrow>
      quarantine_exit (ro_intent current) (progress_before_quarantine j k) (ro_progress oper)) \<Longrightarrow>
    touched (Some k) \<Longrightarrow> live_oper c j touched oper"

definition live_step ::
  "rebalance_codec \<Rightarrow> (string option \<Rightarrow> bool) \<Rightarrow> rebalance_journal \<Rightarrow> rebalance_journal \<Rightarrow> bool" where
  "live_step c touched j j' \<longleftrightarrow> j' = j \<or>
     (\<exists>env oper. live_oper c j touched oper \<and> j' = fst (rebalance_append c env oper j))"

text \<open>
  What a call may append: \<open>None\<close> stands for a new operation.  The searches touch an operation only when
  none is active; other calls name the one they touch.
\<close>

fun touches :: "rebalance_call \<Rightarrow> rebalance_journal \<Rightarrow> string option \<Rightarrow> bool" where
  "touches (RReserve _ _) j t = (t = None)"
| "touches (RAdvance _ k _) j t = (t = Some k)"
| "touches (RReopenPostCredit _ k) j t = (t = Some k)"
| "touches (RDirectDeposit _ k _ _) j t = (t = Some k)"
| "touches (RArbitrumDeposit _ k _) j t = (t = Some k)"
| "touches (RAcrossFill _ k _ _) j t = (t = Some k)"
| "touches (RConsumedNonceDeposit _ k) j t = (t = Some k)"
| "touches (RReopenTravelRule _ _) j t = (t \<noteq> None \<and> active_operation j = Inr None)"
| "touches (RReopenNext _) j t = (t \<noteq> None \<and> active_operation j = Inr None)"

lemma fst_some_result [simp]: "fst (some_result r) = fst r"
  by (auto simp: some_result_def split: prod.splits sum.splits)

lemma live_step_refl [simp]: "live_step c touched j j"
  by (simp add: live_step_def)

lemma append_result_live:
  assumes "\<And>oper. r = Inr oper \<Longrightarrow> live_oper c j touched oper"
  shows "live_step c touched j (fst (append_result c env r j))"
proof (cases r)
  case (Inr oper)
  have "fst (append_result c env r j) = fst (rebalance_append c env oper j)"
    by (auto simp: append_result_def append_returning_def Inr split: sum.splits prod.splits)
  then show ?thesis using assms [OF Inr] unfolding live_step_def by blast
qed (simp add: append_result_def)

lemma rebalance_advance_live: "touched (Some k) \<Longrightarrow> live_step c touched j (fst (rebalance_advance c env k progress j))"
  unfolding rebalance_advance_def find_rebalance_def
  by (rule append_result_live) (auto simp: quarantine_exit_def split: if_splits intro: live_oper.moved)

lemma reconciled_quarantine:
  "reconciled_direct_deposit_transition i p n \<Longrightarrow>
     \<exists>network chain hash. ri_route i = Direct network chain \<and> hash \<noteq> 0 \<and> n = XDepositTransferMined chain hash"
  "reconciled_across_fill_transition i p n \<Longrightarrow> \<exists>hash received. n = XAcrossFilled hash received \<and> hash \<noteq> 0"
  by (auto simp: reconciled_direct_deposit_transition_def reconciled_across_fill_transition_def
      split: route.splits direction.splits rebalance_progress.splits)

lemma reconciled_direct_deposit_live:
  assumes t: "touched (Some k)"
  shows "live_step c touched j (fst (record_reconciled_direct_deposit c env k chain hash j))"
  unfolding record_reconciled_direct_deposit_def find_rebalance_def Let_def
proof (rule append_result_live, clarsimp)
  fix current
  assume "bt_get (rj_operations j) k = Some current" "progress_before_quarantine j k = Some XIntentRecorded"
    "reconciled_direct_deposit_transition (ro_intent current) (ro_progress current) (XDepositTransferMined chain hash)"
  then show "live_oper c j touched \<lparr>ro_intent = ro_intent current, ro_progress = XDepositTransferMined chain hash\<rparr>"
    by (intro live_oper.moved [of _ k current]) (auto simp: quarantine_exit_def t dest: reconciled_quarantine(1))
qed

lemma reconciled_across_fill_live:
  assumes t: "touched (Some k)"
  shows "live_step c touched j (fst (record_reconciled_across_fill c env k hash received j))"
  unfolding record_reconciled_across_fill_def find_rebalance_def Let_def
proof (rule append_result_live, clarsimp)
  fix oper current before
  assume current: "bt_get (rj_operations j) k = Some current" and before: "progress_before_quarantine j k = Some before"
    and r: "(case before of XBridgeMined _ _ minimum_output _ \<Rightarrow>
        ensure (minimum_output \<le> received) ''reconciled Across fill is below the journaled minimum''
          (ensure (reconciled_across_fill_transition (ro_intent current) (ro_progress current)
             (XAcrossFilled hash received))
           ''rebalance quarantine is not an approved reconciled Across fill''
           (Inr \<lparr>ro_intent = ro_intent current, ro_progress = XAcrossFilled hash received\<rparr>))
      | _ \<Rightarrow> Inl (Bail ''reconciled Across fill quarantine did not follow a mined bridge'')) = Inr oper"
  from r obtain a b m d where m: "before = XBridgeMined a b m d" "m \<le> received"
    "reconciled_across_fill_transition (ro_intent current) (ro_progress current) (XAcrossFilled hash received)"
    "oper = \<lparr>ro_intent = ro_intent current, ro_progress = XAcrossFilled hash received\<rparr>"
    by (cases before) simp_all
  then show "live_oper c j touched oper"
    using current before reconciled_quarantine(2) [OF m(3)]
    by (intro live_oper.moved [of _ k current]) (auto simp: quarantine_exit_def t)
qed

lemma reconciled_consumed_nonce_live:
  "touched (Some k) \<Longrightarrow> live_step c touched j (fst (record_reconciled_consumed_nonce_deposit c env k j))"
  unfolding record_reconciled_consumed_nonce_deposit_def find_rebalance_def
  by (rule append_result_live) (auto simp: quarantine_exit_def intro: live_oper.moved)

lemma reopen_travel_rule_live:
  "(active_operation j = Inr None \<Longrightarrow> touched (Some k)) \<Longrightarrow>
     live_step c touched j (fst (reopen_retryable_travel_rule_ownership_failure c env k j))"
  by (simp add: reopen_retryable_travel_rule_ownership_failure_def rebalance_advance_live
      split: sum.split option.split)

lemma rebalance_call_live: "live_step c (touches call j) j (fst (rebalance_call_apply c call j))"
proof (cases call)
  case (RReserve env r)
  then show ?thesis by (auto simp: rebalance_reserve_def intro!: append_result_live live_oper.reserved)
next
  case (RReopenPostCredit env k)
  then show ?thesis
    by (simp add: reopen_post_credit_settlement_quarantine_def rebalance_advance_live split: sum.split)
next
  case (RReopenNext env)
  then show ?thesis
    by (simp add: reopen_next_retryable_quarantine_def rebalance_advance_live reopen_travel_rule_live
        split: sum.split option.split prod.split)
qed (simp_all add: rebalance_advance_live reconciled_direct_deposit_live reconciled_across_fill_live
  reconciled_consumed_nonce_live reopen_travel_rule_live record_reconciled_arbitrum_deposit_def)

lemma rebalance_call_log:
  assumes ok: "rebalance_codec_ok c" and room: "room (rj_state j)"
  shows "log_step (rebalance_written c) (rebalance_view j) (rebalance_view (fst (rebalance_call_apply c call j)))"
  using rebalance_call_live [of c call j] rebalance_append_log [OF ok room]
  unfolding live_step_def by (metis log_step.refused)

lemma rebalance_run_log:
  assumes ok: "rebalance_codec_ok c" and "room_along c calls j"
  shows "(log_step (rebalance_written c))\<^sup>*\<^sup>* (rebalance_view j) (rebalance_view (rebalance_run c calls j))"
  using assms(2)
proof (induction calls arbitrary: j)
  case (Cons call calls)
  let ?j = "fst (rebalance_call_apply c call j)"
  have "log_step (rebalance_written c) (rebalance_view j) (rebalance_view ?j)" "room_along c calls ?j"
    using rebalance_call_log [OF ok, of j call] Cons.prems by simp_all
  with Cons.IH [of ?j] show ?case by (simp add: rebalance_run_def converse_rtranclp_into_rtranclp)
qed (simp add: rebalance_run_def)

lemma rebalance_open_Inr:
  "rebalance_journal_open c content = Inr j \<longleftrightarrow>
     rebalance_replay_file c content = Inr (rj_state j) \<and> rj_file j = content \<and> \<not> rj_poisoned j"
  by (cases j) (auto simp: rebalance_journal_open_def)

lemma rebalance_run_ok:
  assumes "rebalance_codec_ok c" "rebalance_journal_open c content = Inr j0" "room_along c calls j0"
  shows "log_ok (rebalance_replay_file c) ''rebalance executor journal ends with a partial record''
    (rebalance_written c) (rebalance_view (rebalance_run c calls j0))"
proof -
  have "log_ok (rebalance_replay_file c) ''rebalance executor journal ends with a partial record''
      (rebalance_written c) (rebalance_view j0)"
    using assms(2) by (simp add: rebalance_open_Inr rebalance_view_def)
  then show ?thesis
    using rebalance_log.log_steps_ok [OF rebalance_run_log [OF assms(1,3)]]
    unfolding rebalance_replay_file_def by blast
qed

lemma rebalance_prepare_cong:
  assumes "rj_state j = rj_state j'" "rj_poisoned j = rj_poisoned j'"
  shows "rebalance_prepare c now oper j = rebalance_prepare c now oper j'"
  using assms by (simp add: rebalance_prepare_def Let_def)

lemma rebalance_written_prepare:
  assumes "rebalance_written c (rj_state j) line st'"
  shows "\<exists>now oper ops started. rebalance_prepare c now oper (j\<lparr>rj_poisoned := False\<rparr>) = Inr (ops, started, line)
    \<and> rebalance_commit oper ops started (rj_state j) = (st', Inr ())"
proof -
  from assms obtain now oper j1 ops started where p: "rebalance_prepare c now oper j1 = Inr (ops, started, line)"
    and eq: "rj_state j1 = rj_state j" and com: "rebalance_commit oper ops started (rj_state j) = (st', Inr ())"
    by (auto simp: rebalance_written_def)
  from p have "\<not> rj_poisoned j1" by (rule rebalance_prepare_Inr)
  with eq have "rebalance_prepare c now oper (j\<lparr>rj_poisoned := False\<rparr>) = rebalance_prepare c now oper j1"
    by (intro rebalance_prepare_cong) simp_all
  with p com show ?thesis by metis
qed

section \<open>What every record keeps\<close>

text \<open>The change a record makes to the operations and to the progress noted before a quarantine.\<close>

definition before_after :: "rebalance_operation \<Rightarrow> rebalance_state \<Rightarrow> (string, rebalance_progress) btmap" where
  "before_after oper st =
     (let k = ri_operation_id (ro_intent oper) in
      case bt_get (st_operations st) k of
        None \<Rightarrow> st_before_quarantine st
      | Some previous \<Rightarrow>
          if quarantined (ro_progress oper) then bt_insert k (ro_progress previous) (st_before_quarantine st)
          else st_before_quarantine st)"

definition record_step ::
  "rebalance_codec \<Rightarrow> transition_origin \<Rightarrow> rebalance_operation \<Rightarrow> rebalance_state \<Rightarrow> rebalance_state \<Rightarrow> bool" where
  "record_step c origin oper st st' \<longleftrightarrow>
     apply_rebalance_snapshot c oper origin (st_operations st) = Inr (st_operations st') \<and>
     st_before_quarantine st' = before_after oper st \<and>
     (\<exists>t. st_started_at st' = or_insert (ri_operation_id (ro_intent oper)) t (st_started_at st) \<or>
          st_started_at st' = st_started_at st \<and> bt_contains (st_operations st) (ri_operation_id (ro_intent oper)))"

lemma note_transition_before:
  assumes "note_transition (ri_operation_id (ro_intent oper))
      (map_option ro_progress (bt_get (st_operations st) (ri_operation_id (ro_intent oper)))) (ro_progress oper) st = (st', r)"
  shows "st_before_quarantine st' = before_after oper st"
  using assms
  by (auto simp: note_transition_def note_quarantine_def note_travel_rule_def note_unindexed_def before_after_def
      Let_def split: option.splits if_splits sum.splits prod.splits)

lemma note_transition_first: "note_transition k None n st = (st, Inr ())"
  by (simp add: note_transition_def)

lemma rebalance_append_step:
  "rj_state (fst (rebalance_append c env oper j)) = rj_state j \<or>
   record_step c LiveAppend oper (rj_state j) (rj_state (fst (rebalance_append c env oper j)))"
proof (cases rule: rebalance_append_cases [where c = c and env = env and oper = oper and j = j])
  case (stored ops started line st r)
  let ?k = "ri_operation_id (ro_intent oper)"
  let ?p = "map_option ro_progress (bt_get (rj_operations j) ?k)"
  obtain st1 r1 where n: "note_transition ?k ?p (ro_progress oper) (rj_state j) = (st1, r1)" by fastforce
  from stored(3) obtain t where snap: "apply_rebalance_snapshot c oper LiveAppend (rj_operations j) = Inr ops"
    and started: "started = or_insert ?k t (st_started_at (rj_state j))" by (rule rebalance_prepare_Inr)
  have "st_operations st = ops \<and> st_before_quarantine st = st_before_quarantine st1 \<and>
      (st_started_at st = started \<or> st_started_at st = st_started_at st1 \<and> r1 \<noteq> Inr ())"
    using stored(4) n
    by (auto simp: rebalance_commit_def Let_def note_transition_operations split: sum.splits option.splits)
  moreover have "bt_contains (rj_operations j) ?k" if "r1 \<noteq> Inr ()"
    using that n by (cases "bt_get (rj_operations j) ?k") (auto simp: note_transition_first bt_contains_def)
  ultimately have "record_step c LiveAppend oper (rj_state j) st"
    using snap started note_transition_before [OF n] note_transition_frame(2) [OF n]
    unfolding record_step_def by auto
  then show ?thesis using stored(5) by simp
qed auto

lemma rebalance_replay_step:
  assumes "rebalance_replay_record c line st = Inr st'"
  shows "\<exists>oper. record_step c JournalReplay oper st st'"
proof -
  obtain payload where p: "replay_payload c payload st = Inr st'"
    using assms unfolding rebalance_replay_record_def by auto
  let ?k = "ri_operation_id (ro_intent (rp_operation payload))"
  let ?st = "st\<lparr>st_started_at := or_insert ?k (rp_recorded_at_unix_ms payload) (st_started_at st)\<rparr>"
  obtain st1 r1 where n: "note_transition ?k (map_option ro_progress (bt_get (st_operations ?st) ?k))
      (ro_progress (rp_operation payload)) ?st = (st1, r1)" by fastforce
  from p n obtain ops s where r:
    "apply_rebalance_snapshot c (rp_operation payload) JournalReplay (st_operations st1) = Inr ops"
    "st' = st1\<lparr>st_operations := ops, st_next_sequence := s\<rparr>"
    by (cases r1) (auto simp: replay_payload_def Let_def)
  have "st_before_quarantine st1 = before_after (rp_operation payload) st"
    using note_transition_before [OF n] by (simp add: before_after_def Let_def split: option.splits)
  then have "record_step c JournalReplay (rp_operation payload) st st'"
    using r note_transition_frame [OF n] unfolding record_step_def by auto
  then show ?thesis ..
qed

end
