(* ===== verification/Rebalance_Transfers.thy ===== *)
theory Rebalance_Transfers
  imports Rebalance_Recovery
begin

text \<open>
  The properties of the rebalance journal: what holds of every stored transfer, one transfer at a time,
  crash recovery, the retries that are refused, and the risk totals.
\<close>

section \<open>The invariant of the journal\<close>

definition stored_ok :: "rebalance_codec \<Rightarrow> rebalance_state \<Rightarrow> string \<Rightarrow> rebalance_operation \<Rightarrow> bool" where
  "stored_ok c st k oper \<longleftrightarrow> ri_operation_id (ro_intent oper) = k \<and> validate_rebalance c oper = Inr () \<and>
     validate_progress_evidence c (ro_intent oper) (ro_progress oper) = Inr () \<and>
     bt_contains (st_started_at st) k \<and>
     (quarantined (ro_progress oper) \<longrightarrow> (\<exists>p. bt_get (st_before_quarantine st) k = Some p \<and>
        \<not> progress_terminal p \<and> validate_progress_evidence c (ro_intent oper) p = Inr ()))"

definition state_ok :: "rebalance_codec \<Rightarrow> rebalance_state \<Rightarrow> bool" where
  "state_ok c st \<longleftrightarrow> (\<forall>k oper. bt_get (st_operations st) k = Some oper \<longrightarrow> stored_ok c st k oper)"

lemma record_stepD:
  assumes "record_step c origin oper st st'"
  shows "validate_rebalance c oper = Inr ()"
    "st_operations st' = bt_insert (ri_operation_id (ro_intent oper)) oper (st_operations st)"
    "bt_get (st_operations st) (ri_operation_id (ro_intent oper)) = None \<Longrightarrow> ro_progress oper = XIntentRecorded"
    "bt_get (st_operations st) (ri_operation_id (ro_intent oper)) = Some previous \<Longrightarrow>
       ro_intent previous = ro_intent oper \<and>
       validate_rebalance_transition c (ro_intent oper) (ro_progress previous) (ro_progress oper) origin = Inr ()"
  using assms by (auto simp: record_step_def apply_rebalance_snapshot_def)

lemma record_step_started:
  assumes "record_step c origin oper st st'" "state_ok c st"
  shows "bt_contains (st_started_at st') (ri_operation_id (ro_intent oper))"
    "bt_contains (st_started_at st) l \<Longrightarrow> bt_contains (st_started_at st') l"
  using assms by (auto simp: record_step_def or_insert_def state_ok_def stored_ok_def bt_contains_iff)

lemma before_after_other:
  assumes "record_step c origin oper st st'" "l \<noteq> ri_operation_id (ro_intent oper)"
  shows "bt_get (st_before_quarantine st') l = bt_get (st_before_quarantine st) l"
  using assms by (auto simp: record_step_def before_after_def Let_def split: option.split)

text \<open>Entering a quarantine notes the progress it interrupts, which is not terminal.\<close>

lemma record_step_quarantines:
  assumes step: "record_step c origin oper st st'" and q: "quarantined (ro_progress oper)"
  obtains previous where "bt_get (st_operations st) (ri_operation_id (ro_intent oper)) = Some previous"
    "ro_intent previous = ro_intent oper" "\<not> progress_terminal (ro_progress previous)"
    "bt_get (st_before_quarantine st') (ri_operation_id (ro_intent oper)) = Some (ro_progress previous)"
proof -
  let ?k = "ri_operation_id (ro_intent oper)"
  obtain previous where prev: "bt_get (st_operations st) ?k = Some previous"
    using record_stepD(3) [OF step] q by (cases "bt_get (st_operations st) ?k") auto
  note t = record_stepD(4) [OF step prev]
  have "failed_or_quarantined (ro_progress oper)" using q by (cases "ro_progress oper") simp_all
  then have "\<not> progress_terminal (ro_progress previous)" using validate_transition_terminal t by blast
  moreover have "bt_get (st_before_quarantine st') ?k = Some (ro_progress previous)"
    using step prev q by (simp add: record_step_def before_after_def Let_def)
  ultimately show thesis using that prev t by blast
qed

lemma record_step_ok:
  assumes step: "record_step c origin oper st st'" and ok: "state_ok c st"
  shows "state_ok c st'"
  unfolding state_ok_def
proof (intro allI impI)
  fix l x assume x: "bt_get (st_operations st') l = Some x"
  let ?k = "ri_operation_id (ro_intent oper)"
  show "stored_ok c st' l x"
  proof (cases "l = ?k")
    case False
    then have "bt_get (st_operations st) l = Some x" using x record_stepD(2) [OF step] by simp
    then have "stored_ok c st l x" using ok unfolding state_ok_def by blast
    then show ?thesis
      using before_after_other [OF step False] record_step_started(2) [OF step ok, of l]
      by (simp add: stored_ok_def)
  next
    case True
    then have xo: "x = oper" using x record_stepD(2) [OF step] by simp
    have ev: "validate_progress_evidence c (ro_intent oper) (ro_progress oper) = Inr ()"
    proof (cases "bt_get (st_operations st) ?k")
      case None
      then show ?thesis using record_stepD(3) [OF step] by simp
    next
      case (Some previous)
      then show ?thesis using record_stepD(4) [OF step] validate_transition_evidence by blast
    qed
    have "\<exists>p. bt_get (st_before_quarantine st') ?k = Some p \<and> \<not> progress_terminal p \<and>
        validate_progress_evidence c (ro_intent oper) p = Inr ()" if "quarantined (ro_progress oper)"
    proof (rule record_step_quarantines [OF step that])
      fix previous
      assume p: "bt_get (st_operations st) ?k = Some previous" "ro_intent previous = ro_intent oper"
        "\<not> progress_terminal (ro_progress previous)"
        "bt_get (st_before_quarantine st') ?k = Some (ro_progress previous)"
      have "stored_ok c st ?k previous" using ok p(1) unfolding state_ok_def by blast
      then show ?thesis using p by (simp add: stored_ok_def)
    qed
    then show ?thesis
      using True xo ev record_stepD(1) [OF step] record_step_started(1) [OF step ok] by (simp add: stored_ok_def)
  qed
qed

lemma rebalance_open_ok:
  assumes "rebalance_journal_open c content = Inr j"
  shows "state_ok c (rj_state j)"
proof -
  have "rebalance_replay_file c content = Inr (rj_state j)" using assms by (simp add: rebalance_open_Inr)
  moreover have "state_ok c rebalance_state_empty" by (simp add: rebalance_state_empty_def state_ok_def)
  ultimately show ?thesis unfolding rebalance_replay_file_def
    by (elim replay_lines_invariant [where P = "state_ok c", rotated 2])
      (auto dest: rebalance_replay_step intro: record_step_ok)
qed

lemma rebalance_call_step:
  obtains (same) "rj_state (fst (rebalance_call_apply c call j)) = rj_state j"
    | (step) oper where "live_oper c j (touches call j) oper"
      "record_step c LiveAppend oper (rj_state j) (rj_state (fst (rebalance_call_apply c call j)))"
  using rebalance_call_live [of c call j] rebalance_append_step unfolding live_step_def by metis

lemma rebalance_call_ok:
  "state_ok c (rj_state j) \<Longrightarrow> state_ok c (rj_state (fst (rebalance_call_apply c call j)))"
  by (cases rule: rebalance_call_step [of c call j]) (auto intro: record_step_ok)

lemma rebalance_run_Cons:
  "rebalance_run c (call # calls) j = rebalance_run c calls (fst (rebalance_call_apply c call j))"
  "rebalance_run c [] j = j"
  by (simp_all add: rebalance_run_def)

lemma rebalance_run_state_ok: "state_ok c (rj_state j) \<Longrightarrow> state_ok c (rj_state (rebalance_run c calls j))"
  by (induction calls arbitrary: j) (simp_all add: rebalance_run_Cons rebalance_call_ok)

text \<open>Completed and cancelled operations are final.\<close>

fun final_progress :: "rebalance_progress \<Rightarrow> bool" where
  "final_progress (XCompleted _ _) = True"
| "final_progress (XCancelledStale _ _ _ _) = True"
| "final_progress _ = False"

lemma final_progress_iff: "final_progress p \<longleftrightarrow> progress_terminal p \<and> \<not> failed_or_quarantined p"
  by (cases p) simp_all

definition operations_evolve :: "rebalance_operations \<Rightarrow> rebalance_operations \<Rightarrow> bool" where
  "operations_evolve ops ops' \<longleftrightarrow> (\<forall>k oper. bt_get ops k = Some oper \<longrightarrow>
     (\<exists>oper'. bt_get ops' k = Some oper' \<and> ro_intent oper' = ro_intent oper \<and>
        (final_progress (ro_progress oper) \<longrightarrow> oper' = oper)))"

lemma record_step_evolve:
  assumes step: "record_step c origin oper st st'"
  shows "operations_evolve (st_operations st) (st_operations st')"
  unfolding operations_evolve_def
proof (intro allI impI)
  fix k x assume x: "bt_get (st_operations st) k = Some x"
  show "\<exists>x'. bt_get (st_operations st') k = Some x' \<and> ro_intent x' = ro_intent x \<and>
      (final_progress (ro_progress x) \<longrightarrow> x' = x)"
  proof (cases "k = ri_operation_id (ro_intent oper)")
    case True
    then have t: "ro_intent x = ro_intent oper"
      "validate_rebalance_transition c (ro_intent oper) (ro_progress x) (ro_progress oper) origin = Inr ()"
      using record_stepD(4) [OF step, of x] x by simp_all
    then have "\<not> final_progress (ro_progress x)"
      using validate_transition_terminal by (auto simp: final_progress_iff)
    then show ?thesis using t(1) True record_stepD(2) [OF step] by simp
  qed (use x record_stepD(2) [OF step] in simp)
qed

lemma operations_evolve_trans:
  "operations_evolve a b \<Longrightarrow> operations_evolve b d \<Longrightarrow> operations_evolve a d"
  unfolding operations_evolve_def by metis

lemma rebalance_run_evolve: "operations_evolve (rj_operations j) (rj_operations (rebalance_run c calls j))"
proof (induction calls arbitrary: j)
  case (Cons call calls)
  have "operations_evolve (rj_operations j) (rj_operations (fst (rebalance_call_apply c call j)))"
    by (cases rule: rebalance_call_step [of c call j]) (auto simp: operations_evolve_def dest: record_step_evolve)
  then show ?case using Cons.IH operations_evolve_trans by (metis rebalance_run_Cons(1))
qed (simp add: rebalance_run_def operations_evolve_def)

lemma live_oper_moved:
  assumes "live_oper c j touched oper" "state_ok c (rj_state j)"
  obtains (reserved) r where "rebalance_reserve_operation c r j = Inr oper" "touched None"
  | (moved) current where "bt_get (rj_operations j) (ri_operation_id (ro_intent oper)) = Some current"
    "ro_intent oper = ro_intent current" "touched (Some (ri_operation_id (ro_intent oper)))"
    "quarantined (ro_progress current) \<Longrightarrow> quarantine_exit (ro_intent current)
       (progress_before_quarantine j (ri_operation_id (ro_intent oper))) (ro_progress oper)"
  using assms(1)
proof cases
  case (moved k current)
  have "stored_ok c (rj_state j) k current" using assms(2) moved(1) unfolding state_ok_def by blast
  then have k: "ri_operation_id (ro_intent current) = k" by (simp add: stored_ok_def)
  show thesis
    by (rule that(2) [of current]) (use moved in \<open>simp_all add: k\<close>)
qed (use that(1) in blast)

section \<open>Fresh ids\<close>

text \<open>
  The id of a reserved operation carries the next sequence number.  When every stored id carries an earlier
  one, as in a journal this program wrote, a reservation never meets a stored operation.
\<close>

definition ids_issued :: "rebalance_state \<Rightarrow> bool" where
  "ids_issued st \<longleftrightarrow> (\<forall>k oper. bt_get (st_operations st) k = Some oper \<longrightarrow>
     (\<exists>n s. k = ''rebalance-'' @ show_nat n @ ''-'' @ s \<and> n < unat (st_next_sequence st)))"

lemma reserved_id:
  assumes "rebalance_reserve_operation c r j = Inr oper"
  obtains s where "ri_operation_id (ro_intent oper) = ''rebalance-'' @ show_nat (unat (rj_next_sequence j)) @ ''-'' @ s"
  using assms by (auto simp: rebalance_reserve_operation_def)

lemma reserved_fresh:
  assumes issued: "ids_issued (rj_state j)" and reserve: "rebalance_reserve_operation c r j = Inr oper"
  shows "bt_get (rj_operations j) (ri_operation_id (ro_intent oper)) = None"
proof (rule ccontr)
  obtain s where s: "ri_operation_id (ro_intent oper) = ''rebalance-'' @ show_nat (unat (rj_next_sequence j)) @ ''-'' @ s"
    by (rule reserved_id [OF reserve])
  assume "bt_get (rj_operations j) (ri_operation_id (ro_intent oper)) \<noteq> None"
  then obtain n t where n: "ri_operation_id (ro_intent oper) = ''rebalance-'' @ show_nat n @ ''-'' @ t"
    "n < unat (rj_next_sequence j)"
    using issued unfolding ids_issued_def by blast
  from s n(1) have "show_nat (unat (rj_next_sequence j)) @ CHR ''-'' # s = show_nat n @ CHR ''-'' # t" by simp
  then show False using show_nat_dash n(2) by blast
qed

lemma rebalance_append_sequence:
  assumes "unat (rj_next_sequence j) + 1 < 2 ^ 64" and j': "j' = fst (rebalance_append c env oper j)"
  shows "rj_state j' = rj_state j \<or> unat (rj_next_sequence j') = unat (rj_next_sequence j) + 1 \<or>
    rj_next_sequence j' = rj_next_sequence j \<and> bt_get (rj_operations j) (ri_operation_id (ro_intent oper)) \<noteq> None"
proof (cases rule: rebalance_append_cases [where c = c and env = env and oper = oper and j = j])
  case (stored ops started line st r)
  let ?k = "ri_operation_id (ro_intent oper)"
  let ?p = "map_option ro_progress (bt_get (rj_operations j) ?k)"
  obtain st1 r1 where n: "note_transition ?k ?p (ro_progress oper) (rj_state j) = (st1, r1)" by fastforce
  have add: "checked_add (rj_next_sequence j) 1 = Some (rj_next_sequence j + 1)"
    "unat (rj_next_sequence j + 1) = unat (rj_next_sequence j) + 1"
    using assms(1) by (simp_all add: checked_add_def unat_word_ariths)
  have "r1 = Inr ()" if "bt_get (rj_operations j) ?k = None" using n that by (simp add: note_transition_first)
  then show ?thesis
    using stored(4,5) n add note_transition_frame [OF n] unfolding j'
    by (cases r1) (auto simp: rebalance_commit_def Let_def note_transition_operations)
qed (simp_all add: j')

lemma rebalance_call_issued:
  assumes ok: "state_ok c (rj_state j)" and issued: "ids_issued (rj_state j)"
    and bound: "unat (rj_next_sequence j) + 1 < 2 ^ 64" and j': "j' = fst (rebalance_call_apply c call j)"
  shows "ids_issued (rj_state j') \<and> unat (rj_next_sequence j') \<le> unat (rj_next_sequence j) + 1"
proof -
  consider "rj_state j' = rj_state j"
    | env oper where "live_oper c j (touches call j) oper" "j' = fst (rebalance_append c env oper j)"
      "rj_operations j' = bt_insert (ri_operation_id (ro_intent oper)) oper (rj_operations j)"
    using rebalance_call_live [of c call j] rebalance_append_step record_stepD(2)
    unfolding live_step_def j' by metis
  then show ?thesis
  proof cases
    case (2 env oper)
    let ?k = "ri_operation_id (ro_intent oper)"
    have id: "bt_get (rj_operations j) ?k \<noteq> None \<or>
        (\<exists>s. ?k = ''rebalance-'' @ show_nat (unat (rj_next_sequence j)) @ ''-'' @ s)"
      using 2(1)
    proof cases
      case (reserved r)
      then show ?thesis using reserved_id by blast
    next
      case (moved k current)
      then show ?thesis using ok unfolding state_ok_def stored_ok_def by fastforce
    qed
    consider "rj_state j' = rj_state j" | "unat (rj_next_sequence j') = unat (rj_next_sequence j) + 1"
      | "rj_next_sequence j' = rj_next_sequence j" "bt_get (rj_operations j) ?k \<noteq> None"
      using rebalance_append_sequence [OF bound 2(2)] by blast
    then show ?thesis
      using issued id 2(3) unfolding ids_issued_def
      by cases (auto split: if_splits intro: less_SucI, (metis less_SucI lessI)+)
  qed (use issued in simp)
qed

lemma rebalance_run_issued:
  assumes "state_ok c (rj_state j)" "ids_issued (rj_state j)" "unat (rj_next_sequence j) + length calls < 2 ^ 64"
  shows "ids_issued (rj_state (rebalance_run c calls j))"
  using assms
proof (induction calls arbitrary: j)
  case (Cons call calls)
  let ?j = "fst (rebalance_call_apply c call j)"
  have "ids_issued (rj_state ?j) \<and> unat (rj_next_sequence ?j) \<le> unat (rj_next_sequence j) + 1"
    by (rule rebalance_call_issued [OF Cons.prems(1,2) _ refl]) (use Cons.prems(3) in simp)
  then show ?case
    using Cons.IH [OF rebalance_call_ok [OF Cons.prems(1)]] Cons.prems(3) by (simp add: rebalance_run_Cons)
qed (simp add: rebalance_run_Cons)

text \<open>One call seen from one operation that is stored before and after it.\<close>

lemma rebalance_call_quarantine:
  assumes ok: "state_ok c (rj_state j)" and fresh: "touches call j None \<Longrightarrow> ids_issued (rj_state j)"
    and j': "j' = fst (rebalance_call_apply c call j)" and x: "bt_get (rj_operations j) k = Some x" and x': "bt_get (rj_operations j') k = Some x'"
  shows "(quarantined (ro_progress x') \<and> \<not> quarantined (ro_progress x) \<longrightarrow>
      progress_before_quarantine j' k = Some (ro_progress x) \<and> \<not> progress_terminal (ro_progress x)) \<and>
    (quarantined (ro_progress x') \<and> quarantined (ro_progress x) \<longrightarrow>
      x' = x \<and> progress_before_quarantine j' k = progress_before_quarantine j k) \<and>
    (\<not> quarantined (ro_progress x') \<and> quarantined (ro_progress x) \<longrightarrow>
      quarantine_exit (ro_intent x) (progress_before_quarantine j k) (ro_progress x'))"
proof (cases rule: rebalance_call_step [of c call j])
  case same
  then show ?thesis using x x' j' by (simp add: progress_before_quarantine_def)
next
  case (step oper)
  let ?k = "ri_operation_id (ro_intent oper)"
  have ops: "rj_operations j' = bt_insert ?k oper (rj_operations j)" using record_stepD(2) [OF step(2)] j' by simp
  show ?thesis
  proof (cases "k = ?k")
    case False
    then show ?thesis
      using x x' ops before_after_other [OF step(2) False] j' by (simp add: progress_before_quarantine_def)
  next
    case True
    then have o: "x' = oper" using x' ops by simp
    have enter: "progress_before_quarantine j' k = Some (ro_progress x) \<and> \<not> progress_terminal (ro_progress x)"
      if "quarantined (ro_progress oper)"
      by (rule record_step_quarantines [OF step(2) that]) (use x True j' in \<open>simp add: progress_before_quarantine_def\<close>)
    have "\<not> quarantined (ro_progress x)" if "quarantined (ro_progress oper)"
      using enter [OF that] by (cases "ro_progress x") simp_all
    moreover have "quarantine_exit (ro_intent x) (progress_before_quarantine j k) (ro_progress oper)"
      if "quarantined (ro_progress x)"
      by (cases rule: live_oper_moved [OF step(1) ok]) (use x True that reserved_fresh fresh in fastforce)+
    ultimately show ?thesis using o enter by blast
  qed
qed

section \<open>One active operation\<close>

lemma length_le_1_distinct: "distinct xs \<Longrightarrow> length xs \<le> 1 \<longleftrightarrow> (\<forall>x \<in> set xs. \<forall>y \<in> set xs. x = y)"
  by (cases xs rule: list.exhaust; cases "tl xs") auto

definition one_active :: "rebalance_operations \<Rightarrow> bool" where
  "one_active ops \<longleftrightarrow> (\<forall>k l x y. bt_get ops k = Some x \<longrightarrow> bt_get ops l = Some y \<longrightarrow>
     \<not> progress_terminal (ro_progress x) \<longrightarrow> \<not> progress_terminal (ro_progress y) \<longrightarrow> k = l)"

lemma active_list:
  "length (filter (\<lambda>x. \<not> progress_terminal (ro_progress x)) (bt_values ops)) \<le> 1 \<longleftrightarrow> one_active ops"
proof -
  let ?P = "\<lambda>x. \<not> progress_terminal (ro_progress x)"
  let ?es = "filter (\<lambda>e. ?P (snd e)) (bt_entries ops)"
  have "filter ?P (bt_values ops) = map snd ?es"
    by (simp add: bt_values_def filter_map o_def)
  moreover have "distinct ?es" using distinct_bt_keys [of ops] by (simp add: distinct_map)
  ultimately have "length (filter ?P (bt_values ops)) \<le> 1 \<longleftrightarrow> (\<forall>x \<in> set ?es. \<forall>y \<in> set ?es. x = y)"
    using length_le_1_distinct [of ?es] by (simp only: length_map)
  also have "\<dots> \<longleftrightarrow> one_active ops" by (fastforce simp: one_active_def bt_entries_iff)
  finally show ?thesis .
qed

lemma active_operation_ok: "(\<exists>x. active_operation j = Inr x) \<longleftrightarrow> one_active (rj_operations j)"
  unfolding active_list [symmetric] by (auto simp: active_operation_def Let_def)

lemma active_operation_none:
  "active_operation j = Inr None \<Longrightarrow> bt_get (rj_operations j) k = Some x \<Longrightarrow> progress_terminal (ro_progress x)"
  by (auto simp: active_operation_def Let_def filter_empty_conv set_bt_values split: list.splits)

text \<open>A call that names a terminal operation comes when no operation is active.\<close>

definition call_guarded :: "rebalance_call \<Rightarrow> rebalance_journal \<Rightarrow> bool" where
  "call_guarded call j \<longleftrightarrow> (\<forall>k x. touches call j (Some k) \<longrightarrow> bt_get (rj_operations j) k = Some x \<longrightarrow>
     progress_terminal (ro_progress x) \<longrightarrow> active_operation j = Inr None)"

fun guarded_run :: "rebalance_codec \<Rightarrow> rebalance_call list \<Rightarrow> rebalance_journal \<Rightarrow> bool" where
  "guarded_run c [] j = True"
| "guarded_run c (call # calls) j =
     (call_guarded call j \<and> guarded_run c calls (fst (rebalance_call_apply c call j)))"

lemma reserve_operation_none: "rebalance_reserve_operation c r j = Inr oper \<Longrightarrow> active_operation j = Inr None"
  by (auto simp: rebalance_reserve_operation_def)

lemma live_oper_owner:
  assumes live: "live_oper c j (touches call j) oper" and ok: "state_ok c (rj_state j)"
    and one: "one_active (rj_operations j)" and guard: "call_guarded call j"
    and y: "bt_get (rj_operations j) l = Some y" "\<not> progress_terminal (ro_progress y)"
  shows "l = ri_operation_id (ro_intent oper)"
  using live
proof cases
  case (reserved r)
  then show ?thesis using active_operation_none [OF reserve_operation_none] y by blast
next
  case (moved k current)
  have "stored_ok c (rj_state j) k current" using ok moved(1) unfolding state_ok_def by blast
  then have k: "ri_operation_id (ro_intent oper) = k" using moved(2) by (simp add: stored_ok_def)
  show ?thesis
  proof (cases "progress_terminal (ro_progress current)")
    case True
    then have "active_operation j = Inr None" using guard moved(1,4) unfolding call_guarded_def by blast
    then show ?thesis using active_operation_none y by blast
  next
    case False
    then show ?thesis using one moved(1) y k unfolding one_active_def by blast
  qed
qed

lemma call_one_active:
  assumes "state_ok c (rj_state j)" "one_active (rj_operations j)" "call_guarded call j"
  shows "one_active (rj_operations (fst (rebalance_call_apply c call j)))"
proof (cases rule: rebalance_call_step [of c call j])
  case (step oper)
  then show ?thesis
    using live_oper_owner [OF step(1) assms(1,2,3)] record_stepD(2) [OF step(2)]
    unfolding one_active_def by (auto split: if_splits)
qed (use assms in simp)

lemma run_one_active:
  "state_ok c (rj_state j) \<Longrightarrow> one_active (rj_operations j) \<Longrightarrow> guarded_run c calls j \<Longrightarrow>
     one_active (rj_operations (rebalance_run c calls j))"
  by (induction calls arbitrary: j) (simp_all add: rebalance_run_Cons rebalance_call_ok call_one_active)

section \<open>Travel Rule failures on a bridged route\<close>

definition bridged :: "rebalance_operation \<Rightarrow> bool" where
  "bridged oper = (case ri_route (ro_intent oper) of Across _ _ _ \<Rightarrow> True | Direct _ _ \<Rightarrow> False)"

lemma bridged_retry_illegal:
  assumes "bridged oper" "travel_rule_failed oper"
  shows "validate_rebalance_transition c (ro_intent oper) (ro_progress oper)
      (XBinanceWithdrawalSubmissionStarted travel_rule_api_mode balance 0) LiveAppend =
    Inl (Bail ''illegal rebalance executor state transition'')"
proof -
  obtain reason where p: "ro_progress oper = XFailed reason" "retryable_travel_rule_ownership_failure reason"
    using assms(2) unfolding travel_rule_failed_def by (cases "ro_progress oper") simp_all
  show ?thesis
    using assms(1) p
    by (simp add: validate_rebalance_transition_def approved_terminal_retry_def approved_quarantine_retry_def
        transition_allowed_def withdrawal_allowed_def bridge_allowed_def across_withdrawal_allowed_def
        across_deposit_allowed_def deposit_allowed_def bridged_def split: route.splits direction.splits)
qed

lemma bridged_reopen_fails:
  assumes "active_operation j = Inr None" "bt_get (rj_operations j) k = Some oper" "travel_rule_failed oper"
    "bridged oper" "reopen_count (st_travel_rule_reopens (rj_state j)) k < max_travel_rule_ownership_rejection_reopens"
  shows "reopen_retryable_travel_rule_ownership_failure c env k j =
    (j, Inl (Bail ''illegal rebalance executor state transition''))"
proof -
  have nq: "\<not> quarantined (ro_progress oper)"
    using assms(3) unfolding travel_rule_failed_def by (cases "ro_progress oper") simp_all
  have "rebalance_advance c env k (XBinanceWithdrawalSubmissionStarted travel_rule_api_mode
        (ri_wallet_balance_before (ro_intent oper)) 0) j =
      (j, Inl (Bail ''illegal rebalance executor state transition''))"
    using assms(2) nq bridged_retry_illegal [OF assms(4,3)]
    by (simp add: rebalance_advance_def find_rebalance_def append_result_def)
  then show ?thesis
    using assms by (simp add: reopen_retryable_travel_rule_ownership_failure_def some_result_def)
qed

lemma bridged_reopen_next_fails:
  assumes ok: "state_ok c (rj_state j)" and idle: "active_operation j = Inr None"
    and oper: "bt_get (rj_operations j) k = Some oper" "retryable_terminal j oper"
    and all: "\<And>l x. bt_get (rj_operations j) l = Some x \<Longrightarrow> retryable_terminal j x \<Longrightarrow> bridged x"
  shows "reopen_next_retryable_quarantine c env j =
    (j, Inl (Bail ''illegal rebalance executor state transition''))"
proof -
  have "oper \<in> set (bt_values (rj_operations j))" using oper(1) by (auto simp: set_bt_values)
  then obtain x where x: "find (retryable_terminal j) (bt_values (rj_operations j)) = Some x"
    using oper(2) by (cases "find (retryable_terminal j) (bt_values (rj_operations j))") (auto simp: find_None_iff)
  then have "retryable_terminal j x" "x \<in> set (bt_values (rj_operations j))"
    by (auto simp: find_Some_iff)
  then obtain l where l: "bt_get (rj_operations j) l = Some x" "retryable_terminal j x"
    by (auto simp: set_bt_values)
  have "ri_operation_id (ro_intent x) = l" using ok l(1) unfolding state_ok_def stored_ok_def by blast
  then show ?thesis
    using x idle l bridged_reopen_fails [OF idle l(1) _ all [OF l]]
    by (simp add: reopen_next_retryable_quarantine_def retryable_terminal_def)
qed

section \<open>Risk totals\<close>

text \<open>The exact totals over a list of operations, and the totals a risk record shows for a symbol.\<close>

definition debit_sum :: "string \<Rightarrow> rebalance_operation list \<Rightarrow> nat" where
  "debit_sum symbol xs = (\<Sum>x\<leftarrow>filter (\<lambda>x. ri_token_symbol (ro_intent x) = symbol) xs. unat (ri_amount (ro_intent x)))"

definition fee_of :: "rebalance_codec \<Rightarrow> rebalance_operation \<Rightarrow> u256 option" where
  "fee_of c x = Option.bind (ri_maximum_fee_base_units (ro_intent x)) (xc_u256_from_str c)"

definition fee_sum :: "rebalance_codec \<Rightarrow> string \<Rightarrow> rebalance_operation list \<Rightarrow> nat" where
  "fee_sum c symbol xs =
     (\<Sum>x\<leftarrow>filter (\<lambda>x. ri_token_symbol (ro_intent x) = symbol) xs. unat (the (fee_of c x)))"

definition started_of :: "rebalance_journal \<Rightarrow> rebalance_operation \<Rightarrow> u64 option" where
  "started_of j x = bt_get (st_started_at (rj_state j)) (ri_operation_id (ro_intent x))"

definition risk_debit :: "rebalance_risk \<Rightarrow> string \<Rightarrow> u256" where
  "risk_debit risk symbol =
     (if symbol = ''USDC'' then risk_token_a_debit risk
      else if symbol = ''ESP'' then risk_token_b_debit risk
      else total_or_zero (risk_additional_token_debit risk) symbol)"

definition risk_fee :: "rebalance_risk \<Rightarrow> string \<Rightarrow> u256" where
  "risk_fee risk symbol =
     (if symbol = ''USDC'' then risk_token_a_maximum_fee risk
      else if symbol = ''ESP'' then risk_token_b_maximum_fee risk
      else total_or_zero (risk_additional_token_maximum_fee risk) symbol)"

definition risk_exact :: "rebalance_codec \<Rightarrow> rebalance_journal \<Rightarrow> rebalance_operation list \<Rightarrow> rebalance_risk \<Rightarrow> bool" where
  "risk_exact c j xs risk \<longleftrightarrow>
     unat (risk_transfer_count risk) = length xs \<and>
     unat (risk_active_transfer_count risk) = length (filter (\<lambda>x. \<not> progress_terminal (ro_progress x)) xs) \<and>
     unat (risk_failed_transfer_count risk) = length (filter (\<lambda>x. failed_or_quarantined (ro_progress x)) xs) \<and>
     (\<forall>symbol. unat (risk_debit risk symbol) = debit_sum symbol xs) \<and>
     (\<forall>symbol. unat (risk_fee risk symbol) = fee_sum c symbol xs) \<and>
     (case risk_first_started_at_unix_ms risk of
        None \<Rightarrow> xs = []
      | Some t \<Rightarrow> (\<exists>x \<in> set xs. started_of j x = Some t) \<and>
          (\<forall>x \<in> set xs. \<exists>s. started_of j x = Some s \<and> t \<le> s))"

definition risk_fits :: "rebalance_codec \<Rightarrow> rebalance_operation list \<Rightarrow> bool" where
  "risk_fits c xs \<longleftrightarrow> length xs < 2 ^ 16 \<and>
     (\<forall>symbol. debit_sum symbol xs < 2 ^ 256) \<and> (\<forall>symbol. fee_sum c symbol xs < 2 ^ 256)"

lemma risk_sums_snoc [simp]:
  "debit_sum symbol (xs @ [x]) = debit_sum symbol xs +
     (if ri_token_symbol (ro_intent x) = symbol then unat (ri_amount (ro_intent x)) else 0)"
  "fee_sum c symbol (xs @ [x]) = fee_sum c symbol xs +
     (if ri_token_symbol (ro_intent x) = symbol then unat (the (fee_of c x)) else 0)"
  by (simp_all add: debit_sum_def fee_sum_def)

lemma risk_exact_default: "risk_exact c j [] rebalance_risk_default"
  by (simp add: risk_exact_def rebalance_risk_default_def debit_sum_def fee_sum_def risk_debit_def risk_fee_def
      total_or_zero_def)

lemma add_debit_eq:
  "add_debit symbol amount risk =
     (case checked_add (risk_debit risk symbol) amount of
        None \<Rightarrow> Inl (Bail ''rebalance cumulative debit overflow'')
      | Some v \<Rightarrow> Inr (
          if symbol = ''USDC'' then risk\<lparr>risk_token_a_debit := v\<rparr>
          else if symbol = ''ESP'' then risk\<lparr>risk_token_b_debit := v\<rparr>
          else risk\<lparr>risk_additional_token_debit := bt_insert symbol v (risk_additional_token_debit risk)\<rparr>))"
  by (simp add: add_debit_def risk_debit_def split: option.split)

lemma add_fee_eq:
  "add_maximum_fee symbol fee risk =
     (case checked_add (risk_fee risk symbol) fee of
        None \<Rightarrow> Inl (Bail ''rebalance cumulative fee authority overflow'')
      | Some v \<Rightarrow> Inr (
          if symbol = ''USDC'' then risk\<lparr>risk_token_a_maximum_fee := v\<rparr>
          else if symbol = ''ESP'' then risk\<lparr>risk_token_b_maximum_fee := v\<rparr>
          else risk\<lparr>risk_additional_token_maximum_fee :=
                 bt_insert symbol v (risk_additional_token_maximum_fee risk)\<rparr>))"
  by (simp add: add_maximum_fee_def risk_fee_def split: option.split)

text \<open>What the two additions leave of the other totals.\<close>

lemma add_debit_frame:
  assumes "add_debit symbol amount risk = Inr risk'"
  shows "unat (risk_debit risk' s) = unat (risk_debit risk s) + (if symbol = s then unat amount else 0)"
    "risk_fee risk' = risk_fee risk" "risk_transfer_count risk' = risk_transfer_count risk"
    "risk_active_transfer_count risk' = risk_active_transfer_count risk"
    "risk_failed_transfer_count risk' = risk_failed_transfer_count risk"
    "risk_first_started_at_unix_ms risk' = risk_first_started_at_unix_ms risk"
  using assms
  by (auto simp: add_debit_eq risk_debit_def risk_fee_def total_or_zero_def checked_simps fun_eq_iff
      split: option.splits if_splits)

lemma add_fee_frame:
  assumes "add_maximum_fee symbol fee risk = Inr risk'"
  shows "unat (risk_fee risk' s) = unat (risk_fee risk s) + (if symbol = s then unat fee else 0)"
    "risk_debit risk' = risk_debit risk" "risk_transfer_count risk' = risk_transfer_count risk"
    "risk_active_transfer_count risk' = risk_active_transfer_count risk"
    "risk_failed_transfer_count risk' = risk_failed_transfer_count risk"
    "risk_first_started_at_unix_ms risk' = risk_first_started_at_unix_ms risk"
  using assms
  by (auto simp: add_fee_eq risk_debit_def risk_fee_def total_or_zero_def checked_simps fun_eq_iff
      split: option.splits if_splits)

lemma risk_step_Inr:
  assumes "fee_of c x = Some fee" "started_of j x = Some t"
  shows "risk_step c j x risk = Inr risk' \<longleftrightarrow>
    (\<exists>n r1 r2. checked_add (risk_transfer_count risk) 1 = Some n \<and>
      add_debit (ri_token_symbol (ro_intent x)) (ri_amount (ro_intent x))
        (risk\<lparr>risk_transfer_count := n,
           risk_active_transfer_count := risk_active_transfer_count risk + of_bool (\<not> progress_terminal (ro_progress x)),
           risk_failed_transfer_count := risk_failed_transfer_count risk + of_bool (failed_or_quarantined (ro_progress x))\<rparr>)
        = Inr r1 \<and>
      add_maximum_fee (ri_token_symbol (ro_intent x)) fee r1 = Inr r2 \<and>
      risk' = r2\<lparr>risk_first_started_at_unix_ms :=
        Some (case risk_first_started_at_unix_ms r2 of None \<Rightarrow> t | Some current \<Rightarrow> min current t)\<rparr>)"
proof -
  obtain t0 where "ri_maximum_fee_base_units (ro_intent x) = Some t0" "xc_u256_from_str c t0 = Some fee"
    using assms(1) by (auto simp: fee_of_def bind_eq_Some_conv)
  then show ?thesis using assms(2) unfolding risk_step_def Let_def started_of_def by auto
qed

lemma unat_add_of_bool:
  fixes w :: u64
  assumes "unat w < 2 ^ 16"
  shows "unat (w + of_bool b) = unat w + of_bool b"
  using assms by (cases b) (simp_all add: unat_word_ariths)

lemma started_snoc:
  assumes "case first of None \<Rightarrow> xs = []
      | Some s \<Rightarrow> (\<exists>x \<in> set xs. started_of j x = Some s) \<and> (\<forall>x \<in> set xs. \<exists>u. started_of j x = Some u \<and> s \<le> u)"
    and "started_of j x = Some t"
  shows "(\<exists>y \<in> set (xs @ [x]). started_of j y = Some (case first of None \<Rightarrow> t | Some s \<Rightarrow> min s t)) \<and>
    (\<forall>y \<in> set (xs @ [x]). \<exists>u. started_of j y = Some u \<and> (case first of None \<Rightarrow> t | Some s \<Rightarrow> min s t) \<le> u)"
proof (cases first)
  case (Some s)
  then show ?thesis using assms by (cases "s \<le> t") (auto simp: min_def intro: order_trans)
qed (use assms in simp)

lemma risk_step_exact:
  assumes exact: "risk_exact c j xs risk" and x: "fee_of c x = Some fee" "started_of j x = Some t"
    and step: "risk_step c j x risk = Inr risk'"
  shows "risk_exact c j (xs @ [x]) risk'"
proof -
  from step obtain n r1 r2 where s: "checked_add (risk_transfer_count risk) 1 = Some n"
    and d: "add_debit (ri_token_symbol (ro_intent x)) (ri_amount (ro_intent x))
        (risk\<lparr>risk_transfer_count := n,
           risk_active_transfer_count := risk_active_transfer_count risk + of_bool (\<not> progress_terminal (ro_progress x)),
           risk_failed_transfer_count := risk_failed_transfer_count risk + of_bool (failed_or_quarantined (ro_progress x))\<rparr>)
        = Inr r1"
    and f: "add_maximum_fee (ri_token_symbol (ro_intent x)) fee r1 = Inr r2"
    and r: "risk' = r2\<lparr>risk_first_started_at_unix_ms :=
        Some (case risk_first_started_at_unix_ms r2 of None \<Rightarrow> t | Some current \<Rightarrow> min current t)\<rparr>"
    unfolding risk_step_Inr [OF x] by blast
  note e = exact [unfolded risk_exact_def]
  have len: "length xs < 2 ^ 16" using e unat_lt [of "risk_transfer_count risk"] by simp
  have short: "length (filter P xs) < 2 ^ 16" for P using len length_filter_le [of P xs] by linarith
  have "risk_debit (r\<lparr>risk_transfer_count := a, risk_active_transfer_count := b, risk_failed_transfer_count := z\<rparr>) =
      risk_debit r" "risk_fee (r\<lparr>risk_transfer_count := a, risk_active_transfer_count := b,
      risk_failed_transfer_count := z\<rparr>) = risk_fee r"
    "risk_debit (r\<lparr>risk_first_started_at_unix_ms := o1\<rparr>) = risk_debit r"
    "risk_fee (r\<lparr>risk_first_started_at_unix_ms := o1\<rparr>) = risk_fee r" for r a b z o1
    by (simp_all add: fun_eq_iff risk_debit_def risk_fee_def)
  note [simp] = this
  have "unat n = Suc (length xs)" using s e by (simp add: checked_simps)
  then show ?thesis
    using e started_snoc [where first = "risk_first_started_at_unix_ms risk" and xs = xs and j = j and x = x and t = t] x short
    unfolding risk_exact_def r
    by (simp add: add_debit_frame [OF d] add_fee_frame [OF f] unat_add_of_bool)
qed

lemma risk_step_fits:
  assumes exact: "risk_exact c j xs risk" and x: "fee_of c x = Some fee" "started_of j x = Some t"
  shows "(\<exists>risk'. risk_step c j x risk = Inr risk') \<longleftrightarrow> risk_fits c (xs @ [x])"
proof -
  let ?s = "ri_token_symbol (ro_intent x)"
  note e = exact [unfolded risk_exact_def]
  have fits: "risk_fits c (xs @ [x]) \<longleftrightarrow> Suc (length xs) < 2 ^ 16 \<and>
      debit_sum ?s xs + unat (ri_amount (ro_intent x)) < 2 ^ 256 \<and> fee_sum c ?s xs + unat fee < 2 ^ 256"
  proof -
    have "debit_sum s xs < 2 ^ 256" "fee_sum c s xs < 2 ^ 256" for s
      using e unat_lt [of "risk_debit risk s"] unat_lt [of "risk_fee risk s"] by simp_all
    then show ?thesis using x(1) by (auto simp: risk_fits_def)
  qed
  let ?r = "\<lambda>n. risk\<lparr>risk_transfer_count := n,
      risk_active_transfer_count := risk_active_transfer_count risk + of_bool (\<not> progress_terminal (ro_progress x)),
      risk_failed_transfer_count := risk_failed_transfer_count risk + of_bool (failed_or_quarantined (ro_progress x))\<rparr>"
  have R: "risk_debit (?r n) s = risk_debit risk s" "risk_fee (?r n) s = risk_fee risk s" for n s
    by (simp_all add: risk_debit_def risk_fee_def)
  have D: "(\<exists>r1. add_debit ?s (ri_amount (ro_intent x)) (?r n) = Inr r1) \<longleftrightarrow>
      debit_sum ?s xs + unat (ri_amount (ro_intent x)) < 2 ^ 256" for n
    using e checked_add_None [of "risk_debit risk ?s" "ri_amount (ro_intent x)"]
    by (auto simp: add_debit_eq R split: option.splits)
  have F: "(\<exists>r2. add_maximum_fee ?s fee r1 = Inr r2) \<longleftrightarrow> fee_sum c ?s xs + unat fee < 2 ^ 256"
    if "add_debit ?s (ri_amount (ro_intent x)) (?r n) = Inr r1" for n r1
    using e checked_add_None [of "risk_fee risk ?s" fee] add_debit_frame(2) [OF that]
    by (auto simp: add_fee_eq R split: option.splits)
  have N: "(\<exists>n. checked_add (risk_transfer_count risk) 1 = Some n) \<longleftrightarrow> Suc (length xs) < 2 ^ 16"
    using e checked_add_None [of "risk_transfer_count risk" 1] by (cases "checked_add (risk_transfer_count risk) 1") auto
  show ?thesis
    unfolding fits risk_step_Inr [OF x] using N D F by blast
qed

lemma session_operation:
  assumes "stored_ok c (rj_state j) k x" "in_session session x"
  shows "\<exists>fee t. fee_of c x = Some fee \<and> started_of j x = Some t"
proof -
  have "check_fee_authority c (ro_intent x) = Inr ()" "ri_approval_session_id (ro_intent x) = Some session"
    using assms by (auto simp: stored_ok_def validate_rebalance_def in_session_def Let_def)
  then have "\<exists>fee. fee_of c x = Some fee"
    by (auto simp: check_fee_authority_def fee_of_def split: option.splits)
  moreover have "\<exists>t. started_of j x = Some t"
    using assms(1) by (simp add: stored_ok_def started_of_def bt_contains_iff)
  ultimately show ?thesis by blast
qed

lemma risk_fits_prefix:
  assumes "risk_fits c (xs @ [x])"
  shows "risk_fits c xs"
proof -
  have "debit_sum s xs \<le> debit_sum s (xs @ [x])" "fee_sum c s xs \<le> fee_sum c s (xs @ [x])" for s
    by simp_all
  then show ?thesis
    using assms unfolding risk_fits_def by (metis le_less_trans length_append_singleton Suc_lessD)
qed

lemma risk_loop:
  assumes "\<And>x. x \<in> set xs \<Longrightarrow> \<exists>fee t. fee_of c x = Some fee \<and> started_of j x = Some t"
  shows "if risk_fits c xs
    then \<exists>risk. for_each (risk_step c j) xs rebalance_risk_default = Inr risk \<and> risk_exact c j xs risk
    else \<exists>e. for_each (risk_step c j) xs rebalance_risk_default = Inl e"
  using assms
proof (induction xs rule: rev_induct)
  case Nil
  then show ?case by (simp add: risk_exact_default risk_fits_def debit_sum_def fee_sum_def)
next
  case (snoc x xs)
  obtain fee t where x: "fee_of c x = Some fee" "started_of j x = Some t" using snoc.prems [of x] by auto
  have IH: "if risk_fits c xs
    then \<exists>risk. for_each (risk_step c j) xs rebalance_risk_default = Inr risk \<and> risk_exact c j xs risk
    else \<exists>e. for_each (risk_step c j) xs rebalance_risk_default = Inl e"
    by (rule snoc.IH) (rule snoc.prems, simp)
  show ?case
  proof (cases "risk_fits c xs")
    case False
    then show ?thesis using IH risk_fits_prefix by auto
  next
    case True
    then obtain risk where r: "for_each (risk_step c j) xs rebalance_risk_default = Inr risk" "risk_exact c j xs risk"
      using IH by auto
    note s = risk_step_fits [OF r(2) x]
    show ?thesis
    proof (cases "risk_step c j x risk")
      case (Inl e)
      then show ?thesis using s r(1) by simp
    next
      case (Inr risk')
      then show ?thesis using s r(1) risk_step_exact [OF r(2) x Inr] by simp
    qed
  qed
qed

section \<open>Properties\<close>

text \<open>
  (C30) Crash recovery of the rebalance journal: after any number of calls, with any clock answers and write
  failures, reopening the file gives the journal in memory, with its counters of reopenings and the
  progress noted before each quarantine; after a failed write it gives that journal, or the one with the
  record whose write failed, or it refuses a partial record.  At each call of the run no 8-bit counter of
  reopenings is at its maximum of 255, and the sequence number is not at its own: past that point the
  source writes a record that it cannot read back.
\<close>

theorem reopen_recovers_rebalances:
  assumes codec: "rebalance_codec_ok c" and opened: "rebalance_journal_open c content = Inr j0"
    and room: "room_along c calls j0" and j: "j = rebalance_run c calls j0"
  shows "if \<not> rj_poisoned j then rebalance_journal_open c (rj_file j) = Inr j
    else rebalance_journal_open c (rj_file j) = Inr (j\<lparr>rj_poisoned := False\<rparr>) \<or>
      rebalance_journal_open c (rj_file j) =
        Inl (Bail ''rebalance executor journal ends with a partial record'') \<or>
      (\<exists>j' now oper ops started line. rebalance_journal_open c (rj_file j) = Inr j' \<and>
         rebalance_prepare c now oper (j\<lparr>rj_poisoned := False\<rparr>) = Inr (ops, started, line) \<and>
         rebalance_commit oper ops started (rj_state j) = (rj_state j', Inr ()))"
proof -
  have d: "log_ok (rebalance_replay_file c) ''rebalance executor journal ends with a partial record''
      (rebalance_written c) (rebalance_view j)"
    unfolding j by (rule rebalance_run_ok [OF codec opened room])
  show ?thesis
  proof (cases "rj_poisoned j")
    case False
    then show ?thesis using d by (simp add: rebalance_view_def rebalance_open_Inr)
  next
    case True
    then consider "rebalance_replay_file c (rj_file j) = Inr (rj_state j)"
      | "rebalance_replay_file c (rj_file j) = Inl (Bail ''rebalance executor journal ends with a partial record'')"
      | l st' where "rebalance_written c (rj_state j) l st'" "rebalance_replay_file c (rj_file j) = Inr st'"
      using d by (auto simp: rebalance_view_def)
    then show ?thesis
    proof cases
      case 3
      then have "rebalance_journal_open c (rj_file j) =
          Inr \<lparr>rj_file = rj_file j, rj_state = st', rj_poisoned = False\<rparr>" by (simp add: rebalance_journal_open_def)
      with rebalance_written_prepare [OF 3(1)] True show ?thesis by fastforce
    qed (use True in \<open>simp_all add: rebalance_journal_open_def\<close>)
  qed
qed

text \<open>
  (C31) The life of a transfer: in every journal that was opened and then used, each operation is well formed,
  under its own id, and its state carries the evidence the code asks for; whatever calls follow, it is
  kept with its intent, and a completed or cancelled one never changes.  A quarantine notes the progress
  it interrupts, which was not terminal, keeps that note, and is left only at exactly that progress, or
  with the deposit or the fill that was found on chain.  This holds of every call of the journal; for a
  reservation, whose id is new because it carries the next sequence number, the ids in the opened file
  carry earlier sequence numbers and the run does not exhaust them.
\<close>

theorem transfers_never_rewritten:
  assumes opened: "rebalance_journal_open c content = Inr j0" and j: "j = rebalance_run c calls j0"
    and x: "bt_get (rj_operations j) k = Some x"
    and issued: "\<forall>env r. call = RReserve env r \<longrightarrow>
      ids_issued (rj_state j0) \<and> unat (rj_next_sequence j0) + length calls < 2 ^ 64"
    and j': "j' = fst (rebalance_call_apply c call j)"
  shows "\<exists>x'. bt_get (rj_operations j') k = Some x' \<and> ro_intent x' = ro_intent x \<and>
    ri_operation_id (ro_intent x) = k \<and> validate_rebalance c x = Inr () \<and>
    validate_progress_evidence c (ro_intent x) (ro_progress x) = Inr () \<and>
    (final_progress (ro_progress x) \<longrightarrow> bt_get (rj_operations (rebalance_run c calls' j)) k = Some x) \<and>
    (quarantined (ro_progress x') \<and> \<not> quarantined (ro_progress x) \<longrightarrow>
      progress_before_quarantine j' k = Some (ro_progress x) \<and> \<not> progress_terminal (ro_progress x)) \<and>
    (quarantined (ro_progress x') \<and> quarantined (ro_progress x) \<longrightarrow>
      x' = x \<and> progress_before_quarantine j' k = progress_before_quarantine j k) \<and>
    (\<not> quarantined (ro_progress x') \<and> quarantined (ro_progress x) \<longrightarrow>
      quarantine_exit (ro_intent x) (progress_before_quarantine j k) (ro_progress x'))"
proof -
  have ok: "state_ok c (rj_state j)"
    unfolding j by (rule rebalance_run_state_ok [OF rebalance_open_ok [OF opened]])
  then have s: "stored_ok c (rj_state j) k x" using x unfolding state_ok_def by blast
  have "j' = rebalance_run c [call] j" by (simp add: rebalance_run_def j')
  then have "operations_evolve (rj_operations j) (rj_operations j')" using rebalance_run_evolve by simp
  then obtain x' where x': "bt_get (rj_operations j') k = Some x'" "ro_intent x' = ro_intent x"
    using x unfolding operations_evolve_def by blast
  have "final_progress (ro_progress x) \<longrightarrow> bt_get (rj_operations (rebalance_run c calls' j)) k = Some x"
    using rebalance_run_evolve [of j c calls'] x unfolding operations_evolve_def by blast
  moreover have "ids_issued (rj_state j)" if "touches call j None"
    unfolding j using issued that rebalance_run_issued [OF rebalance_open_ok [OF opened]] by (cases call) simp_all
  note rebalance_call_quarantine [OF ok this j' x x'(1)]
  ultimately show ?thesis using s x' unfolding stored_ok_def by blast
qed

text \<open>
  (C32) One owner of mutations: when every call that names an operation names one that is not terminal or
  comes while none is active, a journal with at most one active operation keeps at most one, and
  \<open>active_operation\<close> never fails.
\<close>

theorem one_transfer_at_a_time:
  assumes opened: "rebalance_journal_open c content = Inr j0" and one: "active_operation j0 = Inr a"
    and guarded: "guarded_run c calls j0"
  shows "\<exists>a. active_operation (rebalance_run c calls j0) = Inr a"
  unfolding active_operation_ok
  by (rule run_one_active [OF rebalance_open_ok [OF opened] _ guarded]) (use one active_operation_ok in blast)

text \<open>
  (C33) A Travel Rule ownership rejection of a bridged transfer cannot be retried: the retry that
  \<open>reopen_next_retryable_quarantine\<close> chooses first is refused as an illegal transition, as long as the
  failed transfers waiting for a retry all go over Across.  The search then never reaches the quarantined
  operations it could reopen, and the journal stays as it is.
\<close>

theorem bridged_rejection_blocks_recovery:
  assumes opened: "rebalance_journal_open c content = Inr j" and idle: "active_operation j = Inr None"
    and x: "bt_get (rj_operations j) k = Some x" "retryable_terminal j x"
    and bridged: "\<And>l y. bt_get (rj_operations j) l = Some y \<Longrightarrow> retryable_terminal j y \<Longrightarrow> bridged y"
  shows "reopen_next_retryable_quarantine c env j =
      (j, Inl (Bail ''illegal rebalance executor state transition'')) \<and>
    reopen_retryable_travel_rule_ownership_failure c env k j =
      (j, Inl (Bail ''illegal rebalance executor state transition''))"
proof
  have ok: "state_ok c (rj_state j)" by (rule rebalance_open_ok [OF opened])
  show "reopen_next_retryable_quarantine c env j = (j, Inl (Bail ''illegal rebalance executor state transition''))"
    by (rule bridged_reopen_next_fails [OF ok idle x bridged])
  have "ri_operation_id (ro_intent x) = k" using ok x(1) unfolding state_ok_def stored_ok_def by blast
  then show "reopen_retryable_travel_rule_ownership_failure c env k j =
      (j, Inl (Bail ''illegal rebalance executor state transition''))"
    using bridged_reopen_fails [OF idle x(1) _ bridged [OF x]] x(2) by (simp add: retryable_terminal_def)
qed

text \<open>
  (C34) The risk read from a journal is exact: it counts the transfers of the approval session, sums their
  debits and maximum fees per token and takes the earliest start; it is an error only when a total does
  not fit its type.
\<close>

theorem risk_totals_exact:
  assumes opened: "rebalance_journal_open c content = Inr j0" and j: "j = rebalance_run c calls j0"
    and xs: "xs = filter (in_session session) (bt_values (rj_operations j))"
  shows "if risk_fits c xs
    then \<exists>risk. rebalance_risk_of c session j = Inr risk \<and> risk_exact c j xs risk
    else \<exists>e. rebalance_risk_of c session j = Inl e"
  unfolding rebalance_risk_of_def xs [symmetric]
proof (rule risk_loop)
  fix x assume "x \<in> set xs"
  then obtain k where k: "bt_get (rj_operations j) k = Some x" "in_session session x"
    by (auto simp: xs set_bt_values)
  have "state_ok c (rj_state j)"
    unfolding j by (rule rebalance_run_state_ok [OF rebalance_open_ok [OF opened]])
  then show "\<exists>fee t. fee_of c x = Some fee \<and> started_of j x = Some t"
    using k session_operation unfolding state_ok_def by blast
qed

section \<open>A concrete transfer\<close>

text \<open>
  A bridged withdrawal that is reserved and then rejected, or quarantined.  The codec knows the records of
  these two histories; numbers are written in unary and every digest is the same.
\<close>

definition linea_request :: rebalance_request where
  "linea_request = \<lparr>rq_authority = LineaFullLive, rq_token_symbol = ''USDT'', rq_token_decimals = 6,
     rq_token_contract = 0xA219439258ca9da29E9Cc4cE5596924745e12B93, rq_wallet_owner = 2,
     rq_action = \<lparr>act_direction = BinanceToWallet, act_amount = 5, act_route = Across ''OPTIMISM'' 10 59144\<rparr>,
     rq_binance_balance_before = 9, rq_wallet_balance_before = 1, rq_revalidation_start_balance = 3,
     rq_maximum_fee = Some 2, rq_approval_session_id = Some ''session1''\<rparr>"

definition zero_digest :: string where
  "zero_digest = replicate 64 CHR ''0''"

definition linea_intent :: rebalance_intent where
  "linea_intent = \<lparr>ri_scope = Some \<lparr>rs_schema_version = 2, rs_account_id = ''binance:trading-subaccount'',
       rs_network_id = ''chain:59144'', rs_strategy_id = ''rebalance-linea-usdt-usdc''\<rparr>,
     ri_operation_id = ''rebalance-0-0000000000000000'', ri_fingerprint = zero_digest,
     ri_withdraw_order_id = ''rb000000000000000000000000000000'', ri_token_symbol = ''USDT'',
     ri_token_decimals = 6, ri_token_contract = 0xA219439258ca9da29E9Cc4cE5596924745e12B93, ri_wallet_owner = 2, ri_direction = BinanceToWallet,
     ri_route = Across ''OPTIMISM'' 10 59144, ri_amount = 5, ri_binance_balance_before = 9,
     ri_wallet_balance_before = 1, ri_revalidation_start_balance = 3, ri_maximum_fee_base_units = Some ''11'',
     ri_approval_session_id = Some ''session1''\<rparr>"

definition linea_reason :: string where
  "linea_reason = ''terminal Binance Travel Rule withdrawal rejection: Binance Travel Rule withdrawal submission failed with HTTP 400 Bad Request, code -4024: [031031] User does not own this currency.''"

definition linea_at :: "rebalance_progress \<Rightarrow> rebalance_operation" where
  "linea_at p = \<lparr>ro_intent = linea_intent, ro_progress = p\<rparr>"

definition linea_payload :: "u64 \<Rightarrow> rebalance_progress \<Rightarrow> rebalance_payload" where
  "linea_payload s p = \<lparr>rp_version = 1, rp_sequence = s, rp_recorded_at_unix_ms = 7, rp_operation = linea_at p\<rparr>"

text \<open>The records of the two histories, by the one byte that encodes them.\<close>

definition linea_records :: "(char \<times> rebalance_payload) list" where
  "linea_records = [(CHR ''A'', linea_payload 0 XIntentRecorded), (CHR ''B'', linea_payload 1 (XFailed linea_reason)),
     (CHR ''C'', linea_payload 1 (XQuarantined ''decimal exceeds token precision''))]"

definition linea_encode :: "rebalance_payload \<Rightarrow> string option" where
  "linea_encode p = map_option (\<lambda>e. [fst e]) (find (\<lambda>e. snd e = p) linea_records)"

definition linea_decode :: "string \<Rightarrow> rebalance_payload option" where
  "linea_decode s = map_option snd (find (\<lambda>e. [fst e] = s) linea_records)"

definition linea_codec :: rebalance_codec where
  "linea_codec = \<lparr>
     xc_record_to_vec = (\<lambda>r. if rr_checksum_sha256 r = zero_digest then linea_encode (rr_payload r) else None),
     xc_raw_from_slice = (\<lambda>s. Some (s, zero_digest)), xc_payload_from_str = linea_decode,
     xc_payload_to_vec = linea_encode, xc_request_to_vec = (\<lambda>_. Some []), xc_sha256_hex = (\<lambda>_. zero_digest),
     xc_keccak256 = (\<lambda>_. 0), xc_u256_from_str = (\<lambda>s. Some (of_nat (length s))),
     xc_u256_to_string = (\<lambda>n. replicate (unat n) CHR ''1'')\<rparr>"

definition linea_empty :: rebalance_journal where
  "linea_empty = \<lparr>rj_file = [], rj_state = rebalance_state_empty, rj_poisoned = False\<rparr>"

definition linea_journal :: "string \<Rightarrow> rebalance_progress \<Rightarrow> u64 \<Rightarrow> (string, rebalance_progress) btmap \<Rightarrow> rebalance_journal" where
  "linea_journal content p s before = \<lparr>rj_file = content, rj_state = rebalance_state_empty\<lparr>
       st_operations := bt_insert (ri_operation_id linea_intent) (linea_at p) bt_empty,
       st_started_at := bt_insert (ri_operation_id linea_intent) 7 bt_empty,
       st_before_quarantine := before, st_next_sequence := s\<rparr>, rj_poisoned = False\<rparr>"

lemma linea_records_differ [simp]:
  "linea_payload 0 p \<noteq> linea_payload 1 q" "linea_payload 1 q \<noteq> linea_payload 0 p"
  "linea_payload s p = linea_payload s q \<longleftrightarrow> p = q"
  by (simp_all add: linea_payload_def linea_at_def)

lemma linea_encode_simps [simp]:
  "linea_encode (linea_payload 0 XIntentRecorded) = Some ''A''"
  "linea_encode (linea_payload 1 (XFailed linea_reason)) = Some ''B''"
  "linea_encode (linea_payload 1 (XQuarantined ''decimal exceeds token precision'')) = Some ''C''"
  by (simp_all add: linea_encode_def linea_records_def)

lemma linea_codec_ok: "rebalance_codec_ok linea_codec"
  unfolding rebalance_codec_ok_def
  by (auto simp: linea_codec_def linea_encode_def linea_decode_def linea_records_def nl_def split: if_splits)

lemma linea_open: "rebalance_journal_open linea_codec [] = Inr linea_empty"
  by (simp add: rebalance_journal_open_def rebalance_replay_file_def linea_empty_def)

lemma linea_digits: "show_nat 0 = ''0''" "show_nat 59144 = ''59144''"
proof -
  have "char_of (48 :: nat) = CHR ''0''" "char_of (49 :: nat) = CHR ''1''" "char_of (52 :: nat) = CHR ''4''"
    "char_of (53 :: nat) = CHR ''5''" "char_of (57 :: nat) = CHR ''9''"
    by code_simp+
  then show "show_nat 0 = ''0''" "show_nat 59144 = ''59144''" by (simp_all add: show_nat.simps)
qed

lemma linea_hex [simp]: "list_all is_ascii_hexdigit zero_digest" "length zero_digest = 64"
  "slice_to 16 zero_digest = Inr ''0000000000000000''"
  "slice_to 30 zero_digest = Inr ''000000000000000000000000000000''"
  by code_simp+

lemma linea_request_valid: "validate_rebalance_request linea_request = Inr ()"
  by (simp add: validate_rebalance_request_def linea_request_def token_symbol_ok_def is_ascii_uppercase_def
      is_ascii_digit_def byte_def authority_matches_route_def production_authority_def checked_simps
      checked_add_def checked_mul_def)

lemma linea_idle: "active_operation linea_empty = Inr None"
  by (simp add: active_operation_def linea_empty_def rebalance_state_empty_def bt_values_def)

lemma linea_reserve_operation:
  "rebalance_reserve_operation linea_codec linea_request linea_empty = Inr (linea_at XIntentRecorded)"
proof -
  have "request_network_id linea_request = ''chain:59144''"
    by (simp add: request_network_id_def linea_request_def linea_digits)
  moreover have "request_fingerprint linea_codec linea_request = Inr zero_digest"
    by (simp add: request_fingerprint_def linea_codec_def)
  moreover have "replicate 2 CHR ''1'' = ''11''" by (simp add: numeral_2_eq_2)
  ultimately show ?thesis
    using linea_request_valid linea_idle
    by (simp add: rebalance_reserve_operation_def linea_at_def linea_intent_def linea_digits rebalance_scope_version_def)
      (simp add: linea_request_def linea_empty_def rebalance_state_empty_def linea_codec_def linea_digits)
qed

lemma linea_valid:
  assumes "check_reason p = Inr ()"
  shows "validate_rebalance linea_codec (linea_at p) = Inr ()"
proof -
  have "check_fee_authority linea_codec linea_intent = Inr ()"
    by (simp add: check_fee_authority_def linea_intent_def linea_codec_def production_network_def session_byte_def
        is_ascii_alphanumeric_def byte_def)
  moreover have "check_revalidation linea_intent = Inr ()"
    by (simp add: check_revalidation_def linea_intent_def checked_add_def checked_mul_def)
  ultimately show ?thesis using assms
    by (simp add: validate_rebalance_def linea_at_def Let_def)
      (simp add: linea_intent_def token_symbol_ok_def is_ascii_uppercase_def
      is_ascii_digit_def is_ascii_alphanumeric_def byte_def)
qed

lemma linea_prepare:
  assumes "\<not> rj_poisoned j" "check_reason p = Inr ()"
    "apply_rebalance_snapshot linea_codec (linea_at p) LiveAppend (rj_operations j) = Inr ops"
    "linea_encode (linea_payload (rj_next_sequence j) p) = Some [b]"
  shows "rebalance_prepare linea_codec (Inr 7) (linea_at p) j =
    Inr (ops, or_insert (ri_operation_id linea_intent) 7 (st_started_at (rj_state j)), [b])"
proof -
  have "rebalance_record_new linea_codec (linea_payload s p) =
      bind_res (case linea_encode (linea_payload s p) of None \<Rightarrow> Inl (Cause ()) | Some _ \<Rightarrow> Inr zero_digest)
        (\<lambda>s1. Inr \<lparr>rr_payload = linea_payload s p, rr_checksum_sha256 = s1\<rparr>)" for s
    by (simp add: rebalance_record_new_def rebalance_checksum_def rebalance_checksum_bytes_def linea_codec_def
        split: option.split)
  moreover have "\<lparr>rp_version = rebalance_version, rp_sequence = rj_next_sequence j, rp_recorded_at_unix_ms = 7,
      rp_operation = linea_at p\<rparr> = linea_payload (rj_next_sequence j) p"
    by (simp add: linea_payload_def rebalance_version_def)
  moreover have "ro_intent (linea_at p) = linea_intent" by (simp add: linea_at_def)
  moreover have "xc_record_to_vec linea_codec \<lparr>rr_payload = q, rr_checksum_sha256 = zero_digest\<rparr> = linea_encode q" for q
    by (simp add: linea_codec_def)
  ultimately show ?thesis
    using assms linea_valid [OF assms(2)]
    by (simp add: rebalance_prepare_def max_rebalance_line_bytes_def)
qed

lemma linea_reserve_step:
  "rebalance_call_apply linea_codec (RReserve (Inr 7, Durable) linea_request) linea_empty =
     (linea_journal [CHR ''A'', nl] XIntentRecorded 1 bt_empty, Inr (Some (linea_at XIntentRecorded)))"
proof -
  have r: "check_reason XIntentRecorded = Inr ()" by (simp add: check_reason_def)
  have "apply_rebalance_snapshot linea_codec (linea_at XIntentRecorded) LiveAppend (rj_operations linea_empty) =
      Inr (bt_insert (ri_operation_id linea_intent) (linea_at XIntentRecorded) bt_empty)"
    using linea_valid [OF r]
    by (simp add: apply_rebalance_snapshot_def linea_empty_def rebalance_state_empty_def) (simp add: linea_at_def)
  from linea_prepare [OF _ r this, of "CHR ''A''"]
  have "rebalance_prepare linea_codec (Inr 7) (linea_at XIntentRecorded) linea_empty =
      Inr (bt_insert (ri_operation_id linea_intent) (linea_at XIntentRecorded) bt_empty,
        bt_insert (ri_operation_id linea_intent) 7 bt_empty, ''A'')"
    by (simp add: linea_empty_def rebalance_state_empty_def or_insert_def)
  then have "rebalance_append linea_codec (Inr 7, Durable) (linea_at XIntentRecorded) linea_empty =
      (linea_journal [CHR ''A'', nl] XIntentRecorded 1 bt_empty, Inr ())"
    by (simp add: rebalance_append_def rebalance_commit_def note_transition_first linea_journal_def linea_empty_def
        rebalance_state_empty_def checked_add_def Let_def)
  then show ?thesis
    by (simp add: rebalance_reserve_def linea_reserve_operation append_result_def append_returning_def some_result_def)
qed

lemma linea_advance_step:
  assumes "p \<in> {XFailed linea_reason, XQuarantined ''decimal exceeds token precision''}"
    and "linea_encode (linea_payload 1 p) = Some [b]"
  shows "rebalance_call_apply linea_codec (RAdvance (Inr 7, Durable) (ri_operation_id linea_intent) p)
      (linea_journal [CHR ''A'', nl] XIntentRecorded 1 bt_empty) =
    (linea_journal [CHR ''A'', nl, b, nl] p 2
      (if quarantined p then bt_insert (ri_operation_id linea_intent) XIntentRecorded bt_empty else bt_empty),
     Inr (Some (linea_at p)))"
proof -
  let ?j = "linea_journal [CHR ''A'', nl] XIntentRecorded 1 bt_empty" and ?k = "ri_operation_id linea_intent"
  have r: "check_reason p = Inr ()" and f: "failed_or_quarantined p"
    using assms(1) by (auto simp: check_reason_def max_rebalance_reason_bytes_def linea_reason_def)
  have t: "validate_rebalance_transition c linea_intent XIntentRecorded p LiveAppend = Inr ()" for c
    using f by (simp add: validate_rebalance_transition_def approved_quarantine_retry_def)
  have ops: "rj_operations ?j = bt_insert ?k (linea_at XIntentRecorded) bt_empty" by (simp add: linea_journal_def)
  have "apply_rebalance_snapshot linea_codec (linea_at p) LiveAppend (rj_operations ?j) =
      Inr (bt_insert ?k (linea_at p) bt_empty)"
    using linea_valid [OF r] t
    by (simp add: apply_rebalance_snapshot_def ops) (simp add: linea_at_def bt.insert_insert)
  from linea_prepare [OF _ r this, of b] have prep: "rebalance_prepare linea_codec (Inr 7) (linea_at p) ?j =
      Inr (bt_insert ?k (linea_at p) bt_empty, bt_insert ?k 7 bt_empty, [b])"
    using assms(2) by (simp add: linea_journal_def or_insert_def)
  have noted: "note_transition ?k (Some XIntentRecorded) p st =
      ((if quarantined p then st\<lparr>st_before_quarantine := bt_insert ?k XIntentRecorded (st_before_quarantine st)\<rparr>
        else st), Inr ())" for st
    using assms(1) by (auto simp: note_transition_def note_quarantine_def note_travel_rule_def note_unindexed_def
        retryable_travel_rule_ownership_reopen_def retryable_unindexed_master_transfer_reopen_def)
  have "rebalance_append linea_codec (Inr 7, Durable) (linea_at p) ?j =
      (linea_journal [CHR ''A'', nl, b, nl] p 2 (if quarantined p then bt_insert ?k XIntentRecorded bt_empty else bt_empty), Inr ())"
    using prep by (simp add: rebalance_append_def rebalance_commit_def noted linea_journal_def linea_at_def
        rebalance_state_empty_def checked_add_def Let_def)
  then show ?thesis
    using t by (simp add: rebalance_advance_def find_rebalance_def ops linea_at_def append_result_def
        append_returning_def some_result_def)
qed

definition linea_calls :: "rebalance_progress \<Rightarrow> rebalance_call list" where
  "linea_calls p = [RReserve (Inr 7, Durable) linea_request,
     RAdvance (Inr 7, Durable) (ri_operation_id linea_intent) p]"

definition linea_failed :: rebalance_journal where
  "linea_failed = linea_journal [CHR ''A'', nl, CHR ''B'', nl] (XFailed linea_reason) 2 bt_empty"

lemma linea_run_failed: "rebalance_run linea_codec (linea_calls (XFailed linea_reason)) linea_empty = linea_failed"
  by (simp add: rebalance_run_def linea_calls_def linea_reserve_step linea_advance_step linea_failed_def
      del: rebalance_call_apply.simps)

lemma linea_room:
  "room_along linea_codec (linea_calls p) linea_empty"
  by (simp add: linea_calls_def linea_reserve_step del: rebalance_call_apply.simps)
    (simp add: room_def counts_room_def reopen_count_def linea_empty_def linea_journal_def rebalance_state_empty_def)

lemma linea_failed_open: "rebalance_journal_open linea_codec [CHR ''A'', nl, CHR ''B'', nl] = Inr linea_failed"
  using rebalance_run_ok [OF linea_codec_ok linea_open linea_room [of "XFailed linea_reason"]]
  unfolding linea_run_failed
  by (simp add: rebalance_view_def linea_failed_def linea_journal_def rebalance_journal_open_def)

lemma linea_values: "bt_values (bt_insert k v bt_empty) = [v]"
  by (simp add: bt_values_def bt_entries_simps)

lemma linea_failed_facts:
  "rj_operations linea_failed = bt_insert (ri_operation_id linea_intent) (linea_at (XFailed linea_reason)) bt_empty"
  "active_operation linea_failed = Inr None"
  "retryable_terminal linea_failed (linea_at (XFailed linea_reason))"
  "bridged (linea_at (XFailed linea_reason))"
  by (simp_all add: linea_failed_def linea_journal_def active_operation_def linea_values linea_at_def
      retryable_terminal_def travel_rule_failed_def retryable_travel_rule_ownership_failure_def linea_reason_def
      reopen_count_def rebalance_state_empty_def max_travel_rule_ownership_rejection_reopens_def
      max_travel_rule_ownership_rejection_retries_def bridged_def linea_intent_def)

theorem reopen_recovers_rebalances_witness:
  "rebalance_journal_open linea_codec (rj_file linea_failed) = Inr linea_failed"
  using reopen_recovers_rebalances [OF linea_codec_ok linea_open linea_room linea_run_failed [symmetric]]
  by (simp add: linea_failed_def linea_journal_def)

theorem transfers_never_rewritten_witness:
  "progress_before_quarantine (fst (rebalance_call_apply linea_codec
      (RAdvance (Inr 7, Durable) (ri_operation_id linea_intent) (XQuarantined ''decimal exceeds token precision''))
      (linea_journal [CHR ''A'', nl] XIntentRecorded 1 bt_empty))) (ri_operation_id linea_intent) = Some XIntentRecorded \<and>
   ids_issued (rj_state linea_empty) \<and>
   (\<exists>x'. bt_get (rj_operations (fst (rebalance_call_apply linea_codec (RReserve (Inr 7, Durable) linea_request)
      (linea_journal [CHR ''A'', nl] XIntentRecorded 1 bt_empty)))) (ri_operation_id linea_intent) = Some x' \<and>
      ro_intent x' = linea_intent)"
proof -
  let ?j = "linea_journal [CHR ''A'', nl] XIntentRecorded 1 bt_empty" and ?k = "ri_operation_id linea_intent"
  let ?call = "RAdvance (Inr 7, Durable) ?k (XQuarantined ''decimal exceeds token precision'')"
  let ?calls = "[RReserve (Inr 7, Durable) linea_request]"
  have j: "?j = rebalance_run linea_codec ?calls linea_empty"
    by (simp add: rebalance_run_def linea_reserve_step del: rebalance_call_apply.simps)
  have x: "bt_get (rj_operations ?j) ?k = Some (linea_at XIntentRecorded)" by (simp add: linea_journal_def)
  have issued: "ids_issued (rj_state linea_empty) \<and> unat (rj_next_sequence linea_empty) + length ?calls < 2 ^ 64"
    by (simp add: ids_issued_def linea_empty_def rebalance_state_empty_def)
  have x': "bt_get (rj_operations (fst (rebalance_call_apply linea_codec ?call ?j))) ?k =
      Some (linea_at (XQuarantined ''decimal exceeds token precision''))"
    by (simp add: linea_advance_step del: rebalance_call_apply.simps) (simp add: linea_journal_def)
  note lives = transfers_never_rewritten [OF linea_open j x _ refl, of _ "[]"]
  have "progress_before_quarantine (fst (rebalance_call_apply linea_codec ?call ?j)) ?k = Some XIntentRecorded"
    using lives [of ?call] issued unfolding x' by (simp add: linea_at_def del: rebalance_call_apply.simps)
  moreover have "\<exists>x'. bt_get (rj_operations (fst (rebalance_call_apply linea_codec (RReserve (Inr 7, Durable) linea_request) ?j)))
      ?k = Some x' \<and> ro_intent x' = linea_intent"
    using lives [of "RReserve (Inr 7, Durable) linea_request"] issued
    by (auto simp: linea_at_def simp del: rebalance_call_apply.simps)
  ultimately show ?thesis using issued by blast
qed

theorem one_transfer_at_a_time_witness:
  "\<exists>a. active_operation (rebalance_run linea_codec (linea_calls (XFailed linea_reason)) linea_empty) = Inr a"
proof (rule one_transfer_at_a_time [OF linea_open linea_idle])
  show "guarded_run linea_codec (linea_calls (XFailed linea_reason)) linea_empty"
    by (simp add: linea_calls_def call_guarded_def linea_reserve_step del: rebalance_call_apply.simps)
      (simp add: linea_journal_def linea_at_def)
qed

theorem bridged_rejection_blocks_recovery_witness:
  "reopen_next_retryable_quarantine linea_codec (Inr 7, Durable) linea_failed =
     (linea_failed, Inl (Bail ''illegal rebalance executor state transition''))"
proof -
  have x: "bt_get (rj_operations linea_failed) (ri_operation_id linea_intent) = Some (linea_at (XFailed linea_reason))"
    by (simp add: linea_failed_facts(1))
  have "bridged y" if "bt_get (rj_operations linea_failed) l = Some y" for l y
    using that linea_failed_facts(4) by (auto simp: linea_failed_facts(1) split: if_splits)
  then show ?thesis
    using bridged_rejection_blocks_recovery [OF linea_failed_open linea_failed_facts(2) x linea_failed_facts(3)] by blast
qed

theorem risk_totals_exact_witness:
  "\<exists>risk. rebalance_risk_of linea_codec ''session1'' linea_failed = Inr risk \<and>
     unat (risk_debit risk ''USDT'') = 5 \<and> unat (risk_fee risk ''USDT'') = 2"
proof -
  let ?x = "linea_at (XFailed linea_reason)"
  have "in_session ''session1'' ?x"
    by (simp add: in_session_def linea_at_def linea_intent_def production_network_def)
  then have xs: "filter (in_session ''session1'') (bt_values (rj_operations linea_failed)) = [?x]"
    by (simp add: linea_failed_facts(1) linea_values)
  have sums: "debit_sum s [?x] = (if s = ''USDT'' then 5 else 0)" "fee_sum linea_codec s [?x] = (if s = ''USDT'' then 2 else 0)" for s
    by (simp_all add: debit_sum_def fee_sum_def fee_of_def linea_at_def linea_intent_def linea_codec_def)
  then have "risk_fits linea_codec [?x]" by (simp add: risk_fits_def)
  then obtain risk where "rebalance_risk_of linea_codec ''session1'' linea_failed = Inr risk"
    "risk_exact linea_codec linea_failed [?x] risk"
    using risk_totals_exact [OF linea_open linea_run_failed [symmetric] xs [symmetric]] by auto
  then show ?thesis using sums by (auto simp: risk_exact_def)
qed

end
