(* ===== verification/Portfolio.thy ===== *)
theory Portfolio
  imports Inventory Rebalance_Journal
begin

text \<open>
  The capital allocator, \<open>src/src/portfolio.rs\<close>: the catalog of venue assets built from the compiled
  plan, the audit of an inventory snapshot by economic asset, the planning of transfers against it, and
  the authority of a rebalance request under the compiled capital policy.  The policy and the plan are
  the data of \<open>src/src/domain/compiled.rs\<close>.
\<close>

section \<open>Compiled policy\<close>

datatype capital_allocator_mode = AllocatorDisabled | AllocatorShadow | AllocatorFullLive

record capital_token_policy =
  ctp_economic_asset_id :: string
  ctp_maximum_debit :: u256
  ctp_maximum_fee :: u256

record capital_network_policy =
  cnp_network_id :: string
  cnp_binance_network :: string
  cnp_tokens :: "(string, capital_token_policy) btmap"

record capital_policy =
  cap_approval_session_id :: string
  cap_network_id :: string
  cap_binance_network :: string
  cap_token_a_symbol :: string
  cap_token_b_symbol :: string
  cap_token_a_economic_asset_id :: string
  cap_token_b_economic_asset_id :: string
  cap_maximum_concurrent_transfers :: u16
  cap_maximum_token_a_debit :: u256
  cap_maximum_token_b_debit :: u256
  cap_maximum_token_a_fee :: u256
  cap_maximum_token_b_fee :: u256
  cap_additional_tokens :: "(string, capital_token_policy) btmap"
  cap_direct_networks :: "(u64, capital_network_policy) btmap"
  cap_maximum_unknown_reconciliation_queries :: u16
  cap_direct_route_only :: bool
  cap_bridge_mutations_enabled :: bool
  cap_external_mutation_authorized :: bool

datatype compiled_location =
    CompiledBinanceAccount string
  | CompiledEvmWallet string u64 string

record portfolio_asset =
  pa_location :: compiled_location
  pa_venue_asset_id :: string
  pa_economic_asset_id :: string
  pa_symbol :: string
  pa_decimals :: u8

record portfolio_plan =
  pp_assets :: "portfolio_asset list"
  pp_allocator_mode :: capital_allocator_mode
  pp_capital_policy :: "capital_policy option"
  pp_live_rebalance_adapter :: string

section \<open>Catalog\<close>

record portfolio_catalog =
  pc_assets :: "(inventory_location \<times> string, inventory_key) btmap"
  pc_economic_assets :: "(inventory_key, string) btmap"
  pc_decimals :: "(inventory_key, u8) btmap"
  pc_allocator_mode :: capital_allocator_mode
  pc_capital_policy :: "capital_policy option"
  pc_live_rebalance_adapter :: string

definition compiled_location_of :: "compiled_location \<Rightarrow> inventory_location result" where
  "compiled_location_of l =
     (case l of
        CompiledBinanceAccount account \<Rightarrow> location_binance account
      | CompiledEvmWallet network _ wallet \<Rightarrow> location_evm_wallet network wallet)"

type_synonym catalog_maps =
  "(inventory_location \<times> string, inventory_key) btmap \<times> (inventory_key, string) btmap \<times>
   (inventory_key, u8) btmap"

definition catalog_asset :: "portfolio_asset \<Rightarrow> catalog_maps \<Rightarrow> catalog_maps result" where
  "catalog_asset a maps =
     (case maps of (assets, economic_assets, decimals) \<Rightarrow>
        bind_res (compiled_location_of (pa_location a)) (\<lambda>location.
        bind_res (inventory_key_new location (pa_venue_asset_id a)) (\<lambda>key.
        ensure (\<not> bt_contains assets (location, pa_symbol a))
          (''portfolio location repeats symbol '' @ pa_symbol a)
        (ensure (\<not> bt_contains economic_assets key)
          (''portfolio repeats venue asset '' @ pa_venue_asset_id a)
        (Inr (bt_insert (location, pa_symbol a) key assets,
              bt_insert key (pa_economic_asset_id a) economic_assets,
              bt_insert key (pa_decimals a) decimals))))))"

definition has_economic :: "string \<Rightarrow> (inventory_key, string) btmap \<Rightarrow> bool" where
  "has_economic asset economic_assets = list_ex (\<lambda>a. a = asset) (bt_values economic_assets)"

definition has_symbol :: "string \<Rightarrow> (inventory_location \<times> string, inventory_key) btmap \<Rightarrow> bool" where
  "has_symbol symbol assets = list_ex (\<lambda>(_, asset_symbol). asset_symbol = symbol) (bt_keys assets)"

definition has_network :: "string \<Rightarrow> (inventory_location \<times> string, inventory_key) btmap \<Rightarrow> bool" where
  "has_network network assets =
     list_ex (\<lambda>(location, _). case location of EvmWallet n _ \<Rightarrow> n = network | _ \<Rightarrow> False) (bt_keys assets)"

definition token_covered ::
  "(inventory_location \<times> string, inventory_key) btmap \<Rightarrow> (inventory_key, string) btmap \<Rightarrow>
   string \<times> capital_token_policy \<Rightarrow> bool" where
  "token_covered assets economic_assets t =
     (has_economic (ctp_economic_asset_id (snd t)) economic_assets \<and> has_symbol (fst t) assets)"

definition check_catalog_policy ::
  "portfolio_plan \<Rightarrow> capital_policy \<Rightarrow> (inventory_location \<times> string, inventory_key) btmap \<Rightarrow>
   (inventory_key, string) btmap \<Rightarrow> unit result" where
  "check_catalog_policy plan policy assets economic_assets =
     ensure (cap_token_a_economic_asset_id policy \<noteq> cap_token_b_economic_asset_id policy \<and>
             has_economic (cap_token_a_economic_asset_id policy) economic_assets \<and>
             has_economic (cap_token_b_economic_asset_id policy) economic_assets)
       ''rebalance policy references an economic asset outside the portfolio''
     (ensure (has_network (cap_network_id policy) assets)
       ''rebalance policy references a network outside the portfolio''
     (ensure (list_all (token_covered assets economic_assets) (bt_entries (cap_additional_tokens policy)))
       ''additional rebalance policy references an asset outside the portfolio''
     (ensure (list_all (\<lambda>(chain, network).
                cnp_network_id network = ''eip155:'' @ show_nat (unat chain) \<and>
                has_network (cnp_network_id network) assets \<and>
                list_all (token_covered assets economic_assets) (bt_entries (cnp_tokens network)))
              (bt_entries (cap_direct_networks policy)))
       ''direct rebalance network policy references an asset or network outside the portfolio''
     (ensure (pp_allocator_mode plan \<noteq> AllocatorFullLive \<or> cap_external_mutation_authorized policy)
       ''live allocator has no explicit mutation approval''
     (Inr ())))))"

definition catalog_from_compiled :: "portfolio_plan \<Rightarrow> portfolio_catalog result" where
  "catalog_from_compiled plan =
     bind_res (for_each catalog_asset (pp_assets plan) (bt_empty, bt_empty, bt_empty))
       (\<lambda>(assets, economic_assets, decimals).
     ensure (\<not> bt_is_empty assets) ''portfolio catalog is empty''
     (bind_res (case pp_capital_policy plan of
         Some policy \<Rightarrow> check_catalog_policy plan policy assets economic_assets
       | None \<Rightarrow>
           ensure (pp_allocator_mode plan \<noteq> AllocatorFullLive) ''live allocator has no versioned policy''
             (Inr ())) (\<lambda>_.
      Inr \<lparr>pc_assets = assets, pc_economic_assets = economic_assets, pc_decimals = decimals,
           pc_allocator_mode = pp_allocator_mode plan, pc_capital_policy = pp_capital_policy plan,
           pc_live_rebalance_adapter = pp_live_rebalance_adapter plan\<rparr>)))"

definition catalog_key :: "portfolio_catalog \<Rightarrow> inventory_location \<Rightarrow> string \<Rightarrow> inventory_key result" where
  "catalog_key c location symbol =
     context_opt (bt_get (pc_assets c) (location, symbol))
       (''portfolio has no '' @ symbol @ '' at '' @ stable_id location)"

definition catalog_economic_asset_id :: "portfolio_catalog \<Rightarrow> inventory_key \<Rightarrow> string result" where
  "catalog_economic_asset_id c key =
     context_opt (bt_get (pc_economic_assets c) key)
       (''venue asset '' @ key_venue_asset_id key @ '' is not economically mapped'')"

definition catalog_decimals :: "portfolio_catalog \<Rightarrow> inventory_key \<Rightarrow> u8 result" where
  "catalog_decimals c key =
     context_opt (bt_get (pc_decimals c) key)
       (''venue asset '' @ key_venue_asset_id key @ '' has no decimals'')"

definition catalog_location_count :: "portfolio_catalog \<Rightarrow> nat" where
  "catalog_location_count c = length (remdups (map fst (bt_keys (pc_assets c))))"

definition catalog_asset_count :: "portfolio_catalog \<Rightarrow> nat" where
  "catalog_asset_count c = bt_len (pc_economic_assets c)"

definition catalog_economic_asset_count :: "portfolio_catalog \<Rightarrow> nat" where
  "catalog_economic_asset_count c = length (remdups (bt_values (pc_economic_assets c)))"

section \<open>Allocator\<close>

record allocation_intent =
  ai_proposal_id :: string
  ai_economic_asset_id :: string
  ai_source :: inventory_key
  ai_destination :: inventory_key
  ai_destination_credit :: u256
  ai_fee :: u256

record allocation_proposal =
  ap_proposal_id :: string
  ap_economic_asset_id :: string
  ap_source :: inventory_key
  ap_destination :: inventory_key
  ap_source_debit :: u256
  ap_destination_credit :: u256
  ap_fee :: u256
  ap_external_mutation_authorized :: bool

definition proposal_conserves :: "allocation_proposal \<Rightarrow> bool" where
  "proposal_conserves p = (checked_add (ap_destination_credit p) (ap_fee p) = Some (ap_source_debit p))"

record in_flight_transfer =
  ift_economic_asset_id :: string
  ift_source :: inventory_key
  ift_destination :: inventory_key
  ift_source_debit :: u256
  ift_destination_credit :: u256
  ift_fee :: u256

record portfolio_audit =
  aud_observed_by_economic_asset :: "(string, u256) btmap"
  aud_available_by_economic_asset :: "(string, u256) btmap"
  aud_reserved_by_economic_asset :: "(string, u256) btmap"
  aud_observed_location_assets :: nat

record capital_allocator =
  ca_mode :: capital_allocator_mode
  ca_economic_assets :: "(inventory_key, string) btmap"
  ca_capital_policy :: "capital_policy option"

definition allocator_new :: "portfolio_catalog \<Rightarrow> capital_allocator" where
  "allocator_new c = \<lparr>ca_mode = pc_allocator_mode c, ca_economic_assets = pc_economic_assets c,
     ca_capital_policy = pc_capital_policy c\<rparr>"

definition amount_or_zero :: "('k::linorder, u256) btmap \<Rightarrow> 'k \<Rightarrow> u256" where
  "amount_or_zero m k = (case bt_get m k of None \<Rightarrow> 0 | Some v \<Rightarrow> v)"

definition allocator_mapping :: "capital_allocator \<Rightarrow> inventory_key \<Rightarrow> string result" where
  "allocator_mapping a key =
     context_opt (bt_get (ca_economic_assets a) key)
       (''unreviewed portfolio venue asset '' @ key_venue_asset_id key)"

definition add_amount :: "string \<Rightarrow> u256 \<Rightarrow> (string, u256) btmap \<Rightarrow> (string, u256) btmap result" where
  "add_amount key amount totals =
     bind_res (context_opt (checked_add (amount_or_zero totals key) amount)
                 ''economic asset portfolio total overflow'') (\<lambda>v. Inr (bt_insert key v totals))"

definition add_key_amount ::
  "inventory_key \<Rightarrow> u256 \<Rightarrow> (inventory_key, u256) btmap \<Rightarrow> (inventory_key, u256) btmap result" where
  "add_key_amount key amount totals =
     bind_res (context_opt (checked_add (amount_or_zero totals key) amount)
                 ''allocator source debit overflow'') (\<lambda>v. Inr (bt_insert key v totals))"

definition snapshot_available :: "inventory_portfolio_snapshot \<Rightarrow> inventory_key \<Rightarrow> u256 result" where
  "snapshot_available snap key =
     bind_res (context_opt (bt_get (snap_observed snap) key)
                 (''allocator has no observed source '' @ key_venue_asset_id key)) (\<lambda>obs.
     context_opt (checked_sub obs (amount_or_zero (snap_reserved_totals snap) key))
       ''allocator reservations exceed observed source inventory'')"

definition audit_key ::
  "capital_allocator \<Rightarrow> inventory_portfolio_snapshot \<Rightarrow> inventory_key \<times> u256 \<Rightarrow>
   (string, u256) btmap \<times> (string, u256) btmap \<Rightarrow> ((string, u256) btmap \<times> (string, u256) btmap) result" where
  "audit_key a snap e totals =
     (case (e, totals) of ((key, amount), (obs, res)) \<Rightarrow>
        bind_res (allocator_mapping a key) (\<lambda>economic.
        bind_res (add_amount economic amount obs) (\<lambda>obs.
        let reserved_amount = amount_or_zero (snap_reserved_totals snap) key in
        ensure (reserved_amount \<le> amount) ''reserved portfolio amount exceeds observed balance''
        (bind_res (add_amount economic reserved_amount res) (\<lambda>res. Inr (obs, res))))))"

definition audit_available ::
  "(string, u256) btmap \<Rightarrow> string \<times> u256 \<Rightarrow> (string, u256) btmap \<Rightarrow> (string, u256) btmap result" where
  "audit_available res e acc =
     bind_res (context_opt (checked_sub (snd e) (amount_or_zero res (fst e)))
                 ''portfolio reservations exceed observed economic asset'') (\<lambda>v. Inr (bt_insert (fst e) v acc))"

definition audit_snapshot :: "capital_allocator \<Rightarrow> inventory_portfolio_snapshot \<Rightarrow> portfolio_audit result" where
  "audit_snapshot a snap =
     bind_res (for_each (audit_key a snap) (bt_entries (snap_observed snap)) (bt_empty, bt_empty))
       (\<lambda>(obs, res).
     bind_res (for_each (\<lambda>key _. ensure (bt_contains (snap_observed snap) key)
         ''reservation references an unobserved portfolio asset'' (Inr ()))
         (bt_keys (snap_reserved_totals snap)) ()) (\<lambda>_.
     bind_res (for_each (audit_available res) (bt_entries obs) bt_empty) (\<lambda>available_totals.
     Inr \<lparr>aud_observed_by_economic_asset = obs, aud_available_by_economic_asset = available_totals,
          aud_reserved_by_economic_asset = res,
          aud_observed_location_assets = bt_len (snap_observed snap)\<rparr>)))"

definition allocator_audit :: "capital_allocator \<Rightarrow> inventory_reservations \<Rightarrow> portfolio_audit result" where
  "allocator_audit a inventory = audit_snapshot a (portfolio_snapshot inventory)"

definition validate_transfer ::
  "capital_allocator \<Rightarrow> string \<Rightarrow> inventory_key \<Rightarrow> inventory_key \<Rightarrow> u256 \<Rightarrow> u256 \<Rightarrow> u256 \<Rightarrow> unit result" where
  "validate_transfer a economic source destination source_debit destination_credit fee =
     ensure (source \<noteq> destination) ''allocator source and destination are identical''
     (bind_res (allocator_mapping a source) (\<lambda>source_asset.
      bind_res (if source_asset = economic
          then bind_res (allocator_mapping a destination) (\<lambda>asset. Inr (asset = economic))
          else Inr False) (\<lambda>same.
      ensure same ''allocator route crosses economic assets''
      (ensure (checked_add destination_credit fee = Some source_debit)
        ''allocator transfer is not conserved across credit and fee'' (Inr ())))))"

definition proposal_network :: "allocation_intent \<Rightarrow> string result" where
  "proposal_network intent =
     (case (key_location (ai_source intent), key_location (ai_destination intent)) of
        (BinanceAccount _, EvmWallet network _) \<Rightarrow> Inr network
      | (EvmWallet network _, BinanceAccount _) \<Rightarrow> Inr network
      | _ \<Rightarrow> Inl (Bail ''rebalance proposal is not a direct Binance/EVM route''))"

definition proposal_caps ::
  "capital_policy \<Rightarrow> capital_network_policy option \<Rightarrow> string \<Rightarrow> (u256 \<times> u256) result" where
  "proposal_caps policy network_policy economic =
     (case network_policy of
        Some network \<Rightarrow>
          bind_res (context_opt
              (find (\<lambda>token. ctp_economic_asset_id token = economic) (bt_values (cnp_tokens network)))
              ''rebalance proposal asset is not approved on the direct network'') (\<lambda>token.
          Inr (ctp_maximum_debit token, ctp_maximum_fee token))
      | None \<Rightarrow>
          if bt_is_empty (cap_direct_networks policy) \<and> economic = cap_token_a_economic_asset_id policy
          then Inr (cap_maximum_token_a_debit policy, cap_maximum_token_a_fee policy)
          else if bt_is_empty (cap_direct_networks policy) \<and> economic = cap_token_b_economic_asset_id policy
          then Inr (cap_maximum_token_b_debit policy, cap_maximum_token_b_fee policy)
          else if bt_is_empty (cap_direct_networks policy) then
            (case find (\<lambda>token. economic = ctp_economic_asset_id token)
                    (bt_values (cap_additional_tokens policy)) of
               Some token \<Rightarrow> Inr (ctp_maximum_debit token, ctp_maximum_fee token)
             | None \<Rightarrow> Inl (Bail ''rebalance proposal uses an asset outside the approved portfolio''))
          else Inl (Bail ''rebalance proposal uses an asset outside the approved portfolio''))"

definition validate_live_proposal :: "capital_policy \<Rightarrow> allocation_intent \<Rightarrow> u256 \<Rightarrow> unit result" where
  "validate_live_proposal policy intent source_debit =
     bind_res (proposal_network intent) (\<lambda>route_network.
     let network_policy = find (\<lambda>network. cnp_network_id network = route_network)
           (bt_values (cap_direct_networks policy)) in
     bind_res (proposal_caps policy network_policy (ai_economic_asset_id intent)) (\<lambda>(maximum_debit, maximum_fee).
     ensure (source_debit \<le> maximum_debit \<and> ai_fee intent \<le> maximum_fee)
       ''rebalance proposal exceeds the asset value or fee cap''
     (ensure (network_policy \<noteq> None \<or>
              bt_is_empty (cap_direct_networks policy) \<and> route_network = cap_network_id policy)
       ''rebalance proposal is not on an approved direct network'' (Inr ()))))"

definition check_live_mode :: "capital_allocator \<Rightarrow> in_flight_transfer list \<Rightarrow> unit result" where
  "check_live_mode a in_flight_list =
     (if ca_mode a = AllocatorFullLive then
        bind_res (context_opt (ca_capital_policy a) ''live allocator has no capital policy'') (\<lambda>policy.
        ensure (cap_external_mutation_authorized policy \<and> cap_maximum_concurrent_transfers policy = 1 \<and>
                (cap_direct_route_only policy \<or> cap_bridge_mutations_enabled policy) \<and>
                \<not> (cap_direct_route_only policy \<and> cap_bridge_mutations_enabled policy))
          ''live allocator policy has no singular reviewed route mode''
        (ensure (length in_flight_list < unat (cap_maximum_concurrent_transfers policy))
          ''capital policy permits only one external transfer at a time'' (Inr ())))
      else Inr ())"

definition plan_intent ::
  "capital_allocator \<Rightarrow> inventory_portfolio_snapshot \<Rightarrow> allocation_intent \<Rightarrow>
   (inventory_key, u256) btmap \<times> allocation_proposal list \<Rightarrow>
   ((inventory_key, u256) btmap \<times> allocation_proposal list) result" where
  "plan_intent a snap intent st =
     (case st of (source_debits, proposals) \<Rightarrow>
        bind_res (context_opt (checked_add (ai_destination_credit intent) (ai_fee intent))
                    ''allocator proposal amount overflow'') (\<lambda>source_debit.
        bind_res (validate_transfer a (ai_economic_asset_id intent) (ai_source intent) (ai_destination intent)
                    source_debit (ai_destination_credit intent) (ai_fee intent)) (\<lambda>_.
        bind_res (case ca_capital_policy a of
            None \<Rightarrow> Inr ()
          | Some policy \<Rightarrow> validate_live_proposal policy intent source_debit) (\<lambda>_.
        bind_res (add_key_amount (ai_source intent) source_debit source_debits) (\<lambda>source_debits.
        bind_res (case bt_get source_debits (ai_source intent) of
            Some v \<Rightarrow> Inr v
          | None \<Rightarrow> Inl (Panic ''no entry found for key'')) (\<lambda>debit.
        bind_res (snapshot_available snap (ai_source intent)) (\<lambda>available_amount.
        ensure (debit \<le> available_amount) ''allocator proposals overspend source inventory''
        (let proposal = \<lparr>ap_proposal_id = ai_proposal_id intent,
               ap_economic_asset_id = ai_economic_asset_id intent, ap_source = ai_source intent,
               ap_destination = ai_destination intent, ap_source_debit = source_debit,
               ap_destination_credit = ai_destination_credit intent, ap_fee = ai_fee intent,
               ap_external_mutation_authorized = (ca_mode a = AllocatorFullLive)\<rparr> in
         ensure (proposal_conserves proposal) ''allocator proposal does not conserve value''
         (Inr (source_debits, proposals @ [proposal]))))))))))"

definition check_in_flight_debits ::
  "inventory_portfolio_snapshot \<Rightarrow> (inventory_key, u256) btmap \<Rightarrow> unit result" where
  "check_in_flight_debits snap source_debits =
     for_each (\<lambda>(source, debit) _.
       bind_res (snapshot_available snap source) (\<lambda>available_amount.
       ensure (debit \<le> available_amount) ''in-flight transfers overspend source inventory'' (Inr ())))
       (bt_entries source_debits) ()"

definition plan_snapshot ::
  "capital_allocator \<Rightarrow> inventory_portfolio_snapshot \<Rightarrow> in_flight_transfer list \<Rightarrow> allocation_intent list \<Rightarrow>
   allocation_proposal list result" where
  "plan_snapshot a snap in_flight_list intents =
     bind_res (audit_snapshot a snap) (\<lambda>_.
     bind_res (for_each (\<lambda>t _. validate_transfer a (ift_economic_asset_id t) (ift_source t) (ift_destination t)
         (ift_source_debit t) (ift_destination_credit t) (ift_fee t)) in_flight_list ()) (\<lambda>_.
     if ca_mode a = AllocatorDisabled then Inr []
     else
       bind_res (check_live_mode a in_flight_list) (\<lambda>_.
       bind_res (for_each (\<lambda>t. add_key_amount (ift_source t) (ift_source_debit t)) in_flight_list bt_empty)
         (\<lambda>source_debits.
       bind_res (check_in_flight_debits snap source_debits) (\<lambda>_.
       bind_res (for_each (plan_intent a snap) intents (source_debits, [])) (\<lambda>(_, proposals).
       Inr proposals))))))"

definition allocator_plan ::
  "capital_allocator \<Rightarrow> inventory_reservations \<Rightarrow> in_flight_transfer list \<Rightarrow> allocation_intent list \<Rightarrow>
   allocation_proposal list result" where
  "allocator_plan a inventory = plan_snapshot a (portfolio_snapshot inventory)"

section \<open>Rebalance authority\<close>

record remaining_authority =
  ra_maximum_source_debit :: u256
  ra_maximum_fee :: u256

definition bounded_authority :: "capital_policy \<Rightarrow> bool" where
  "bounded_authority policy =
     (cap_external_mutation_authorized policy \<and> cap_maximum_concurrent_transfers policy = 1 \<and>
      cap_maximum_unknown_reconciliation_queries policy = 1 \<and>
      (cap_direct_route_only policy \<or> cap_bridge_mutations_enabled policy) \<and>
      \<not> (cap_direct_route_only policy \<and> cap_bridge_mutations_enabled policy))"

definition token_caps :: "capital_policy \<Rightarrow> string \<Rightarrow> u64 \<Rightarrow> (u256 \<times> u256) option" where
  "token_caps policy symbol chain =
     (case Option.bind (bt_get (cap_direct_networks policy) chain)
             (\<lambda>network. bt_get (cnp_tokens network) symbol) of
        Some token \<Rightarrow> Some (ctp_maximum_debit token, ctp_maximum_fee token)
      | None \<Rightarrow>
          if \<not> bt_is_empty (cap_direct_networks policy) then None
          else if symbol = cap_token_a_symbol policy
          then Some (cap_maximum_token_a_debit policy, cap_maximum_token_a_fee policy)
          else if symbol = cap_token_b_symbol policy
          then Some (cap_maximum_token_b_debit policy, cap_maximum_token_b_fee policy)
          else map_option (\<lambda>token. (ctp_maximum_debit token, ctp_maximum_fee token))
                 (bt_get (cap_additional_tokens policy) symbol))"

definition remaining_rebalance_authority_on_chain ::
  "capital_policy \<Rightarrow> rebalance_risk \<Rightarrow> string \<Rightarrow> direction \<Rightarrow> u64 \<Rightarrow> remaining_authority option result" where
  "remaining_rebalance_authority_on_chain policy risk symbol direction chain =
     ensure (bounded_authority policy) ''rebalance policy has no bounded mutation authority''
     (if ucast (cap_maximum_concurrent_transfers policy) \<le> risk_active_transfer_count risk then Inr None
      else
        bind_res (context_opt (token_caps policy symbol chain)
                    ''rebalance request uses an asset outside the production policy'') (\<lambda>(debit_cap, fee_cap).
        let maximum_fee = (if direction = WalletToBinance then 0 else fee_cap) in
        if debit_cap = 0 \<or> direction = BinanceToWallet \<and> maximum_fee = 0 then Inr None
        else Inr (Some \<lparr>ra_maximum_source_debit = debit_cap, ra_maximum_fee = maximum_fee\<rparr>)))"

definition remaining_rebalance_authority ::
  "capital_policy \<Rightarrow> rebalance_risk \<Rightarrow> string \<Rightarrow> direction \<Rightarrow> remaining_authority option result" where
  "remaining_rebalance_authority policy risk symbol direction =
     remaining_rebalance_authority_on_chain policy risk symbol direction 42161"

definition request_route :: "capital_policy \<Rightarrow> route \<Rightarrow> (u64 \<times> string \<times> bool) result" where
  "request_route policy r =
     (case r of
        Direct network chain \<Rightarrow> Inr (chain, network, False)
      | Across network bridge_chain wallet_chain \<Rightarrow>
          ensure (cap_bridge_mutations_enabled policy \<and> bridge_chain = 10 \<and> wallet_chain = 59144 \<and>
                  network = ''OPTIMISM'')
            ''production Across route differs from the reviewed Linea fallback''
          (Inr (wallet_chain, network, True)))"

definition expected_authority :: "u64 \<Rightarrow> rebalance_authority result" where
  "expected_authority chain =
     (if chain = 42161 then Inr ArbitrumFullLive
      else if chain = 59144 then Inr LineaFullLive
      else Inl (Bail ''production rebalance request uses an unapproved chain''))"

definition route_pinned :: "capital_policy \<Rightarrow> u64 \<Rightarrow> string \<Rightarrow> bool" where
  "route_pinned policy chain network =
     ((case bt_get (cap_direct_networks policy) chain of
         Some approved \<Rightarrow> cnp_binance_network approved = network
       | None \<Rightarrow> False) \<or>
      (bt_is_empty (cap_direct_networks policy) \<and> chain = 42161 \<and> network = cap_binance_network policy))"

definition authorize_rebalance_request ::
  "capital_policy \<Rightarrow> rebalance_risk \<Rightarrow> rebalance_request \<Rightarrow> unit result" where
  "authorize_rebalance_request policy risk r =
     ensure (bounded_authority policy) ''rebalance policy has no bounded mutation authority''
     (ensure (rq_approval_session_id r = Some (cap_approval_session_id policy))
       ''rebalance request approval session differs from the compiled policy''
     (bind_res (request_route policy (act_route (rq_action r))) (\<lambda>(chain, network, is_bridge).
      bind_res (expected_authority chain) (\<lambda>authority.
      ensure (rq_authority r = authority) ''rebalance request has the wrong execution authority''
      (ensure (route_pinned policy chain network) ''rebalance request is not pinned to an approved route''
      (ensure (\<not> is_bridge \<or> rq_authority r = LineaFullLive)
        ''only Linea full-live authority may use the reviewed Across fallback''
      (ensure (chain \<noteq> 59144 \<or> is_bridge) ''Linea full-live authority requires the reviewed Across route''
      (bind_res (context_opt (rq_maximum_fee r) ''rebalance request has no maximum fee authority'')
        (\<lambda>maximum_fee.
       bind_res (remaining_rebalance_authority_on_chain policy risk (rq_token_symbol r)
                   (act_direction (rq_action r)) chain) (\<lambda>granted.
       bind_res (context_opt granted ''rebalance concurrency, value, or fee stop condition is closed'')
         (\<lambda>remaining.
       ensure (act_amount (rq_action r) \<le> ra_maximum_source_debit remaining \<and>
               maximum_fee \<le> ra_maximum_fee remaining)
         ''rebalance cumulative value or fee cap would be exceeded'' (Inr ()))))))))))))"

section \<open>Source debits\<close>

text \<open>What a list of transfers takes from one source.\<close>

definition debits_of :: "('a \<Rightarrow> inventory_key) \<Rightarrow> ('a \<Rightarrow> u256) \<Rightarrow> 'a list \<Rightarrow> inventory_key \<Rightarrow> nat" where
  "debits_of source debit xs k = (\<Sum>x\<leftarrow>filter (\<lambda>x. source x = k) xs. unat (debit x))"

lemma debits_of_simps [simp]:
  "debits_of source debit [] k = 0"
  "debits_of source debit (x # xs) k = (if source x = k then unat (debit x) else 0) + debits_of source debit xs k"
  "debits_of source debit (xs @ ys) k = debits_of source debit xs k + debits_of source debit ys k"
  by (simp_all add: debits_of_def)

lemma add_key_amount_Inr:
  assumes "add_key_amount k amount m = Inr m'"
  shows "unat (amount_or_zero m' l) = unat (amount_or_zero m l) + (if k = l then unat amount else 0)"
    "bt_contains m' l \<longleftrightarrow> l = k \<or> bt_contains m l" "bt_get m' k = Some (amount_or_zero m' k)"
  using assms by (auto simp: add_key_amount_def amount_or_zero_def checked_simps)

lemma for_each_key_amounts:
  assumes "for_each (\<lambda>x. add_key_amount (source x) (debit x)) xs m = Inr m'"
  shows "unat (amount_or_zero m' k) = unat (amount_or_zero m k) + debits_of source debit xs k \<and>
    (bt_contains m' k \<longleftrightarrow> bt_contains m k \<or> k \<in> source ` set xs)"
  using assms
proof (induction xs arbitrary: m)
  case (Cons x xs)
  from Cons.prems obtain m1 where m1: "add_key_amount (source x) (debit x) m = Inr m1"
    "for_each (\<lambda>x. add_key_amount (source x) (debit x)) xs m1 = Inr m'" by auto
  show ?case using Cons.IH [OF m1(2)] add_key_amount_Inr(1,2) [OF m1(1), of k] by auto
qed simp

text \<open>A source is covered when its debits and the reservations on it fit the observed balance.\<close>

definition covered :: "inventory_portfolio_snapshot \<Rightarrow> inventory_key \<Rightarrow> nat \<Rightarrow> bool" where
  "covered snap k n \<longleftrightarrow> (\<exists>obs. bt_get (snap_observed snap) k = Some obs \<and>
     n + unat (amount_or_zero (snap_reserved_totals snap) k) \<le> unat obs)"

lemma snapshot_available_covers:
  assumes "snapshot_available snap k = Inr v" "debit \<le> v"
  shows "covered snap k (unat debit)"
  using assms by (auto simp: snapshot_available_def covered_def checked_simps word_le_nat_alt)

definition debits_covered :: "inventory_portfolio_snapshot \<Rightarrow> (inventory_key, u256) btmap \<Rightarrow> bool" where
  "debits_covered snap m \<longleftrightarrow> (\<forall>k. bt_contains m k \<longrightarrow> covered snap k (unat (amount_or_zero m k)))"

lemma check_in_flight_covers:
  assumes "check_in_flight_debits snap m = Inr ()"
  shows "debits_covered snap m"
proof -
  have all: "\<forall>e \<in> set xs. \<exists>v. snapshot_available snap (fst e) = Inr v \<and> snd e \<le> v"
    if "for_each (\<lambda>(source, debit) _. bind_res (snapshot_available snap source) (\<lambda>v.
        ensure (debit \<le> v) ''in-flight transfers overspend source inventory'' (Inr ()))) xs () = Inr ()" for xs
    using that by (induction xs) auto
  show ?thesis unfolding debits_covered_def
  proof (intro allI impI)
    fix k assume "bt_contains m k"
    then obtain d where d: "bt_get m k = Some d" by (auto simp: bt_contains_iff)
    then have "(k, d) \<in> set (bt_entries m)" by (simp add: bt_entries_iff)
    then obtain v where "snapshot_available snap k = Inr v" "d \<le> v"
      using all [OF assms [unfolded check_in_flight_debits_def]] by fastforce
    then show "covered snap k (unat (amount_or_zero m k))"
      using snapshot_available_covers d by (simp add: amount_or_zero_def)
  qed
qed

section \<open>Proposals\<close>

text \<open>
  The caps of the policy for the network and the asset of a proposal, as the code looks them up.
\<close>

definition within_caps :: "capital_policy \<Rightarrow> allocation_proposal \<Rightarrow> bool" where
  "within_caps policy p \<longleftrightarrow> (\<exists>account network wallet maximum_debit maximum_fee.
     {key_location (ap_source p), key_location (ap_destination p)} =
       {BinanceAccount account, EvmWallet network wallet} \<and>
     proposal_caps policy
       (find (\<lambda>n. cnp_network_id n = network) (bt_values (cap_direct_networks policy)))
       (ap_economic_asset_id p) = Inr (maximum_debit, maximum_fee) \<and>
     ap_source_debit p \<le> maximum_debit \<and> ap_fee p \<le> maximum_fee)"

lemma proposal_network_Inr:
  "proposal_network i = Inr network \<Longrightarrow> \<exists>account wallet.
     {key_location (ai_source i), key_location (ai_destination i)} = {BinanceAccount account, EvmWallet network wallet}"
  by (auto simp: proposal_network_def split: inventory_location.splits)

lemma validate_live_proposal_caps:
  assumes "validate_live_proposal policy i debit = Inr ()"
    and "ap_source p = ai_source i" "ap_destination p = ai_destination i"
      "ap_economic_asset_id p = ai_economic_asset_id i" "ap_source_debit p = debit" "ap_fee p = ai_fee i"
  shows "within_caps policy p"
proof -
  from assms(1) obtain network d f where n: "proposal_network i = Inr network"
    and c: "proposal_caps policy (find (\<lambda>n. cnp_network_id n = network) (bt_values (cap_direct_networks policy)))
      (ai_economic_asset_id i) = Inr (d, f)" "debit \<le> d" "ai_fee i \<le> f"
    unfolding validate_live_proposal_def Let_def by auto
  from proposal_network_Inr [OF n] c assms(2-) show ?thesis unfolding within_caps_def by metis
qed

definition proposal_ok :: "capital_allocator \<Rightarrow> allocation_proposal \<Rightarrow> bool" where
  "proposal_ok a p \<longleftrightarrow> unat (ap_source_debit p) = unat (ap_destination_credit p) + unat (ap_fee p) \<and>
     ap_source p \<noteq> ap_destination p \<and>
     bt_get (ca_economic_assets a) (ap_source p) = Some (ap_economic_asset_id p) \<and>
     bt_get (ca_economic_assets a) (ap_destination p) = Some (ap_economic_asset_id p) \<and>
     (ap_external_mutation_authorized p \<longleftrightarrow> ca_mode a = AllocatorFullLive) \<and>
     (case ca_capital_policy a of None \<Rightarrow> True | Some policy \<Rightarrow> within_caps policy p)"

lemma validate_transfer_Inr:
  "validate_transfer a e s d debit credit fee = Inr () \<longleftrightarrow> s \<noteq> d \<and>
     bt_get (ca_economic_assets a) s = Some e \<and> bt_get (ca_economic_assets a) d = Some e \<and>
     unat debit = unat credit + unat fee"
  by (auto simp: validate_transfer_def allocator_mapping_def checked_simps split: if_splits)

lemma plan_intent_Inr:
  assumes "plan_intent a snap i (m, ps) = Inr (m', ps')"
  obtains p where "ps' = ps @ [p]" "proposal_ok a p" "ap_proposal_id p = ai_proposal_id i"
    "ap_source p = ai_source i"
    "add_key_amount (ap_source p) (ap_source_debit p) m = Inr m'"
    "covered snap (ap_source p) (unat (amount_or_zero m' (ap_source p)))"
proof -
  from assms obtain debit v where
    t: "validate_transfer a (ai_economic_asset_id i) (ai_source i) (ai_destination i) debit
      (ai_destination_credit i) (ai_fee i) = Inr ()"
    and live: "(case ca_capital_policy a of None \<Rightarrow> Inr ()
      | Some policy \<Rightarrow> validate_live_proposal policy i debit) = Inr ()"
    and m': "add_key_amount (ai_source i) debit m = Inr m'"
    and v: "snapshot_available snap (ai_source i) = Inr v" "amount_or_zero m' (ai_source i) \<le> v"
    and ps': "ps' = ps @ [\<lparr>ap_proposal_id = ai_proposal_id i, ap_economic_asset_id = ai_economic_asset_id i,
      ap_source = ai_source i, ap_destination = ai_destination i, ap_source_debit = debit,
      ap_destination_credit = ai_destination_credit i, ap_fee = ai_fee i,
      ap_external_mutation_authorized = (ca_mode a = AllocatorFullLive)\<rparr>]"
    using add_key_amount_Inr(3)
    by (fastforce simp: plan_intent_def Let_def split: option.splits)
  show thesis
    by (rule that [OF ps']) (use t live validate_live_proposal_caps m' snapshot_available_covers [OF v] in
        \<open>simp_all add: proposal_ok_def validate_transfer_Inr split: option.split_asm option.split\<close>)
qed

lemma plan_intents_Inr:
  assumes "for_each (plan_intent a snap) intents (m, ps) = Inr (m', ps')" "debits_covered snap m"
  shows "\<exists>qs. ps' = ps @ qs \<and> (\<forall>p \<in> set qs. proposal_ok a p \<and> bt_contains m' (ap_source p)) \<and>
    map ap_proposal_id qs = map ai_proposal_id intents \<and> debits_covered snap m' \<and>
    (\<forall>k. bt_contains m k \<longrightarrow> bt_contains m' k) \<and>
    (\<forall>k. unat (amount_or_zero m' k) = unat (amount_or_zero m k) + debits_of ap_source ap_source_debit qs k)"
  using assms
proof (induction intents arbitrary: m ps)
  case (Cons i intents)
  from Cons.prems(1) obtain m1 ps1 where s: "plan_intent a snap i (m, ps) = Inr (m1, ps1)"
    "for_each (plan_intent a snap) intents (m1, ps1) = Inr (m', ps')" by auto
  from s(1) obtain p where p: "ps1 = ps @ [p]" "proposal_ok a p" "ap_proposal_id p = ai_proposal_id i"
    "add_key_amount (ap_source p) (ap_source_debit p) m = Inr m1"
    "covered snap (ap_source p) (unat (amount_or_zero m1 (ap_source p)))" by (rule plan_intent_Inr)
  note a = add_key_amount_Inr [OF p(4)]
  have "covered snap k (unat (amount_or_zero m1 k))" if "bt_contains m1 k" for k
  proof (cases "k = ap_source p")
    case False
    then have "bt_contains m k" "unat (amount_or_zero m1 k) = unat (amount_or_zero m k)"
      using a(1,2) [of k] that by simp_all
    then show ?thesis using Cons.prems(2) by (simp add: debits_covered_def)
  qed (use p(5) in simp)
  then have "debits_covered snap m1" unfolding debits_covered_def by blast
  from Cons.IH [OF s(2) this] obtain qs where q: "ps' = ps1 @ qs"
    "\<forall>p \<in> set qs. proposal_ok a p \<and> bt_contains m' (ap_source p)"
    "map ap_proposal_id qs = map ai_proposal_id intents" "debits_covered snap m'"
    "\<forall>k. bt_contains m1 k \<longrightarrow> bt_contains m' k"
    "\<forall>k. unat (amount_or_zero m' k) = unat (amount_or_zero m1 k) + debits_of ap_source ap_source_debit qs k"
    by blast
  have "bt_contains m1 (ap_source p)" using a(2) by blast
  show ?case
  proof (intro exI [of _ "p # qs"] conjI)
    show "ps' = ps @ p # qs" using p(1) q(1) by simp
    show "\<forall>x \<in> set (p # qs). proposal_ok a x \<and> bt_contains m' (ap_source x)"
      using p(2) q(2,5) \<open>bt_contains m1 (ap_source p)\<close> by simp
    show "map ap_proposal_id (p # qs) = map ai_proposal_id (i # intents)" using p(3) q(3) by simp
    show "debits_covered snap m'" by (rule q(4))
    show "\<forall>k. bt_contains m k \<longrightarrow> bt_contains m' k" using q(5) a(2) by blast
    show "\<forall>k. unat (amount_or_zero m' k) = unat (amount_or_zero m k) + debits_of ap_source ap_source_debit (p # qs) k"
      using q(6) a(1) by simp
  qed
qed simp

section \<open>Properties\<close>

text \<open>
  (C35) The allocator never overspends: in a plan against a ledger, what the transfers in flight and the
  proposals take from a source together, and what is reserved there, is at most the observed balance.
  There is one proposal for each intent; each moves one economic asset between two places, accounts for
  its debit as credit and fee and stays within the caps of the policy; a live plan has no other transfer
  in flight.
\<close>

theorem allocator_never_overspends:
  assumes plan: "allocator_plan a inventory in_flight_list intents = Inr proposals"
    and mode: "ca_mode a \<noteq> AllocatorDisabled"
    and k: "k \<in> ift_source ` set in_flight_list \<union> ap_source ` set proposals"
  shows "(\<exists>obs. observed inventory k = Some obs \<and>
      debits_of ift_source ift_source_debit in_flight_list k + debits_of ap_source ap_source_debit proposals k +
        unat (reserved inventory k) \<le> unat obs) \<and>
    list_all (proposal_ok a) proposals \<and> map ap_proposal_id proposals = map ai_proposal_id intents \<and>
    (ca_mode a = AllocatorFullLive \<longrightarrow> in_flight_list = [])"
proof -
  let ?snap = "portfolio_snapshot inventory"
  from plan mode obtain m m' where live: "check_live_mode a in_flight_list = Inr ()"
    and m: "for_each (\<lambda>t. add_key_amount (ift_source t) (ift_source_debit t)) in_flight_list bt_empty = Inr m"
    and flight: "check_in_flight_debits ?snap m = Inr ()"
    and props: "for_each (plan_intent a ?snap) intents (m, []) = Inr (m', proposals)"
    unfolding allocator_plan_def plan_snapshot_def by auto
  note base = for_each_key_amounts [OF m]
  from plan_intents_Inr [OF props check_in_flight_covers [OF flight]]
  have q: "\<forall>p \<in> set proposals. proposal_ok a p \<and> bt_contains m' (ap_source p)"
    "map ap_proposal_id proposals = map ai_proposal_id intents" "debits_covered ?snap m'"
    "\<forall>k. bt_contains m k \<longrightarrow> bt_contains m' k"
    "\<forall>k. unat (amount_or_zero m' k) = unat (amount_or_zero m k) + debits_of ap_source ap_source_debit proposals k"
    by auto
  have "bt_contains m' k" using k q(1,4) base by auto
  then have "covered ?snap k (unat (amount_or_zero m' k))" using q(3) unfolding debits_covered_def by blast
  moreover have "unat (amount_or_zero m' k) = debits_of ift_source ift_source_debit in_flight_list k +
      debits_of ap_source ap_source_debit proposals k"
    using q(5) base [of k] by (simp add: amount_or_zero_def)
  moreover have "ca_mode a = AllocatorFullLive \<longrightarrow> in_flight_list = []"
    using live by (auto simp: check_live_mode_def)
  ultimately show ?thesis
    using q(1,2)
    by (auto simp: covered_def portfolio_snapshot_def observed_def reserved_def amount_or_zero_def list_all_iff)
qed

section \<open>A concrete plan\<close>

text \<open>Eight units of an asset at an account, two of them reserved, one in flight and four to be moved to a wallet.\<close>

definition usdc_account :: inventory_key where
  "usdc_account = InventoryKey (BinanceAccount ''b'') ''usdc''"

definition usdc_wallet :: inventory_key where
  "usdc_wallet = InventoryKey (EvmWallet ''n'' ''w'') ''usdc''"

definition usdc_inventory :: inventory_reservations where
  "usdc_inventory = inventory_default\<lparr>observed_map := bt_insert usdc_account 8 (bt_insert usdc_wallet 0 bt_empty),
     reserved_totals := bt_insert usdc_account 2 bt_empty\<rparr>"

definition usdc_policy :: capital_policy where
  "usdc_policy = \<lparr>cap_approval_session_id = ''s'', cap_network_id = ''n'', cap_binance_network = ''N'',
     cap_token_a_symbol = ''USDC'', cap_token_b_symbol = ''WETH'', cap_token_a_economic_asset_id = ''USDC'',
     cap_token_b_economic_asset_id = ''WETH'', cap_maximum_concurrent_transfers = 1,
     cap_maximum_token_a_debit = 4, cap_maximum_token_b_debit = 0, cap_maximum_token_a_fee = 1,
     cap_maximum_token_b_fee = 0, cap_additional_tokens = bt_empty, cap_direct_networks = bt_empty,
     cap_maximum_unknown_reconciliation_queries = 1, cap_direct_route_only = True,
     cap_bridge_mutations_enabled = False, cap_external_mutation_authorized = True\<rparr>"

definition usdc_allocator :: capital_allocator where
  "usdc_allocator = \<lparr>ca_mode = AllocatorShadow,
     ca_economic_assets = bt_insert usdc_account ''USDC'' (bt_insert usdc_wallet ''USDC'' bt_empty),
     ca_capital_policy = Some usdc_policy\<rparr>"

definition usdc_flight :: in_flight_transfer where
  "usdc_flight = \<lparr>ift_economic_asset_id = ''USDC'', ift_source = usdc_account, ift_destination = usdc_wallet,
     ift_source_debit = 1, ift_destination_credit = 1, ift_fee = 0\<rparr>"

definition usdc_intent :: allocation_intent where
  "usdc_intent = \<lparr>ai_proposal_id = ''p'', ai_economic_asset_id = ''USDC'', ai_source = usdc_account,
     ai_destination = usdc_wallet, ai_destination_credit = 3, ai_fee = 1\<rparr>"

lemma usdc_keys: "usdc_account \<noteq> usdc_wallet" "usdc_wallet \<noteq> usdc_account" "usdc_account < usdc_wallet"
  "key_location usdc_account = BinanceAccount ''b''" "key_location usdc_wallet = EvmWallet ''n'' ''w''"
  by (simp_all add: usdc_account_def usdc_wallet_def less_inventory_key_def less_inventory_location_def)

lemma usdc_audit: "\<exists>audit. audit_snapshot usdc_allocator (portfolio_snapshot usdc_inventory) = Inr audit"
  by (simp add: audit_snapshot_def portfolio_snapshot_def audit_key_def audit_available_def add_amount_def
      amount_or_zero_def allocator_mapping_def usdc_inventory_def usdc_allocator_def usdc_keys inventory_default_def
      checked_add_def checked_sub_def bt_keys_def Let_def)

lemma usdc_live: "validate_live_proposal usdc_policy usdc_intent 4 = Inr ()"
  by (simp add: validate_live_proposal_def proposal_network_def proposal_caps_def usdc_policy_def usdc_intent_def
      usdc_keys bt_is_empty_def bt_values_def Let_def)

lemma usdc_plan:
  "allocator_plan usdc_allocator usdc_inventory [usdc_flight] [usdc_intent] =
     Inr [\<lparr>ap_proposal_id = ''p'', ap_economic_asset_id = ''USDC'', ap_source = usdc_account,
       ap_destination = usdc_wallet, ap_source_debit = 4, ap_destination_credit = 3, ap_fee = 1,
       ap_external_mutation_authorized = False\<rparr>]"
proof -
  from usdc_audit obtain audit where "audit_snapshot usdc_allocator (portfolio_snapshot usdc_inventory) = Inr audit" ..
  moreover have "validate_transfer usdc_allocator (ift_economic_asset_id usdc_flight) (ift_source usdc_flight)
      (ift_destination usdc_flight) (ift_source_debit usdc_flight) (ift_destination_credit usdc_flight)
      (ift_fee usdc_flight) = Inr ()"
    by (simp add: validate_transfer_Inr usdc_flight_def usdc_allocator_def usdc_keys)
  moreover have "validate_transfer usdc_allocator ''USDC'' usdc_account usdc_wallet 4 3 1 = Inr ()"
    by (simp add: validate_transfer_Inr usdc_allocator_def usdc_keys)
  ultimately show ?thesis
    using usdc_live
    by (simp add: allocator_plan_def plan_snapshot_def check_live_mode_def check_in_flight_debits_def plan_intent_def
        add_key_amount_def amount_or_zero_def snapshot_available_def proposal_conserves_def portfolio_snapshot_def
        usdc_inventory_def usdc_allocator_def usdc_intent_def usdc_flight_def usdc_keys inventory_default_def
        checked_add_def checked_sub_def Let_def)
qed

theorem allocator_never_overspends_witness:
  "\<exists>obs. observed usdc_inventory usdc_account = Some obs \<and> 1 + 4 + unat (reserved usdc_inventory usdc_account) \<le> unat obs"
  using allocator_never_overspends [OF usdc_plan, of usdc_account]
  by (simp add: usdc_allocator_def usdc_flight_def)

end
