(* ===== verification/Rebalance_Runtime.thy ===== *)
theory Rebalance_Runtime
  imports Rebalance_Tracker Nonce_Lane Portfolio Rebalance_Transfers
begin

text \<open>
  What the rebalance executor decides between its network calls, \<open>src/src/rebalance/runtime.rs\<close>: the
  admission of a request, the conversions between base units and exchange decimals, the proof of a credit
  by a receipt, the revalidation of a withdrawal before it is repeated, the live check of a pinned route
  and the comparison of exchange records with the journaled intent.  The answers of the exchange and of
  the chain are arguments.  \<open>pow10\<close> and \<open>u256_gcd\<close> are those of \<open>Rebalance_Tracker\<close>: both files have the
  same loops.
\<close>

section \<open>Other crates\<close>

text \<open>
  What the executor uses of \<open>rust_decimal\<close>, of \<open>ruint\<close> and of the text form of an address.  A decimal is
  its mantissa and its scale.
\<close>

record decimal_crate =
  dc_ge_zero :: "decimal \<Rightarrow> bool"
  dc_gt_zero :: "decimal \<Rightarrow> bool"
  dc_le :: "decimal \<Rightarrow> decimal \<Rightarrow> bool"
  dc_eq :: "decimal \<Rightarrow> decimal \<Rightarrow> bool"
  dc_checked_add :: "decimal \<Rightarrow> decimal \<Rightarrow> decimal option"
  dc_from_str :: "string \<Rightarrow> decimal option"
  dc_from_str_exact :: "string \<Rightarrow> decimal option"
  dc_u256_to_string :: "u256 \<Rightarrow> string"
  dc_address_hex :: "address \<Rightarrow> string"

definition decimal_text :: "string \<Rightarrow> string \<Rightarrow> string" where
  "decimal_text whole frac = whole @ (if frac = [] then [] else CHR ''.'' # frac)"

definition plain_digits :: "string \<Rightarrow> string \<Rightarrow> bool" where
  "plain_digits whole frac \<longleftrightarrow> list_all is_ascii_digit (whole @ frac) \<and> whole \<noteq> [] \<and>
     (hd whole = CHR ''0'' \<longrightarrow> whole = ''0'')"

text \<open>
  The documented behaviour: comparison by value, 96 bits of mantissa, at most 28 decimal places, and an
  exact parser that accepts every number that fits.
\<close>

definition decimal_crate_ok :: "decimal_crate \<Rightarrow> bool" where
  "decimal_crate_ok dc \<longleftrightarrow>
     (\<forall>v. dc_ge_zero dc v \<longleftrightarrow> 0 \<le> mantissa v) \<and> (\<forall>v. dc_gt_zero dc v \<longleftrightarrow> 0 < mantissa v) \<and>
     (\<forall>v w. dc_le dc v w \<longleftrightarrow> mantissa v * 10 ^ unat (scale w) \<le> mantissa w * 10 ^ unat (scale v)) \<and>
     (\<forall>v. dc_u256_to_string dc v = show_nat (unat v)) \<and>
     (\<forall>whole frac v. plain_digits whole frac \<longrightarrow> dc_from_str_exact dc (decimal_text whole frac) = Some v \<longrightarrow>
        0 \<le> mantissa v \<and> mantissa v < 2 ^ 96 \<and> unat (scale v) \<le> 28 \<and>
        mantissa v * 10 ^ length frac = int (digits_value (whole @ frac)) * 10 ^ unat (scale v)) \<and>
     (\<forall>whole frac. plain_digits whole frac \<longrightarrow> length frac \<le> 28 \<longrightarrow> digits_value (whole @ frac) < 2 ^ 96 \<longrightarrow>
        (\<exists>v. dc_from_str_exact dc (decimal_text whole frac) = Some v))"

section \<open>Limits and attempts\<close>

definition max_prebroadcast_attempts :: u8 where
  "max_prebroadcast_attempts = 3"

definition prebroadcast_attempt_id :: "string \<Rightarrow> u8 \<Rightarrow> string" where
  "prebroadcast_attempt_id base_operation_id attempt =
     (if attempt = 0 then base_operation_id
      else base_operation_id @ '':retry-'' @ show_nat (unat attempt))"

record runtime_limits =
  lim_maximum_wld :: decimal
  lim_maximum_usdc :: decimal
  lim_maximum_esp :: decimal
  lim_maximum_arb :: decimal

definition maximum_for :: "decimal_crate \<Rightarrow> runtime_limits \<Rightarrow> string \<Rightarrow> decimal result" where
  "maximum_for dc limits symbol =
     bind_res (if symbol = ''WLD'' then Inr (lim_maximum_wld limits)
       else if symbol = ''USDC'' \<or> symbol = ''USDT'' then Inr (lim_maximum_usdc limits)
       else if symbol = ''ESP'' then Inr (lim_maximum_esp limits)
       else if symbol = ''ARB'' then Inr (lim_maximum_arb limits)
       else Inl (Bail ''full rebalance executor only permits WLD, USDC, USDT, ESP, and ARB'')) (\<lambda>maximum.
     ensure (dc_gt_zero dc maximum) (''live rebalance maximum for '' @ symbol @ '' is disabled'') (Inr maximum))"

section \<open>Base units\<close>

definition executor_decimal_to_base_units :: "decimal_crate \<Rightarrow> decimal \<Rightarrow> u8 \<Rightarrow> u256 result" where
  "executor_decimal_to_base_units dc v decimals =
     ensure (dc_ge_zero dc v) ''decimal amount is negative''
     (ensure (mantissa v \<ge> 0) ''decimal mantissa is negative''
     (bind_res (pow10 (ucast decimals)) (\<lambda>p.
      bind_res (context_opt (checked_mul (mantissa_units v) p) ''decimal base-unit overflow'') (\<lambda>numerator.
      bind_res (pow10 (scale v)) (\<lambda>denominator.
      ensure (numerator mod denominator = 0) ''decimal exceeds token precision''
      (Inr (numerator div denominator)))))))"

definition executor_decimal_to_base_units_floor :: "decimal_crate \<Rightarrow> decimal \<Rightarrow> u8 \<Rightarrow> u256 result" where
  "executor_decimal_to_base_units_floor dc v decimals =
     ensure (dc_ge_zero dc v) ''decimal balance is negative''
     (ensure (mantissa v \<ge> 0) ''decimal balance mantissa is negative''
     (bind_res (pow10 (ucast decimals)) (\<lambda>p.
      bind_res (context_opt (checked_mul (mantissa_units v) p) ''decimal balance base-unit overflow'') (\<lambda>numerator.
      bind_res (pow10 (scale v)) (\<lambda>denominator.
      Inr (numerator div denominator))))))"

definition decimal_to_base_units_ceil :: "decimal_crate \<Rightarrow> decimal \<Rightarrow> u8 \<Rightarrow> u256 result" where
  "decimal_to_base_units_ceil dc v decimals =
     ensure (dc_ge_zero dc v) ''decimal amount is negative''
     (ensure (mantissa v \<ge> 0) ''decimal mantissa is negative''
     (bind_res (pow10 (ucast decimals)) (\<lambda>p.
      bind_res (context_opt (checked_mul (mantissa_units v) p) ''decimal base-unit overflow'') (\<lambda>numerator.
      bind_res (pow10 (scale v)) (\<lambda>denominator.
      let quotient = numerator div denominator in
      if numerator mod denominator = 0 then Inr quotient
      else context_opt (checked_add quotient 1) ''decimal base-unit ceiling overflow'')))))"

definition executor_decimal_multiple_to_base_unit_step :: "decimal_crate \<Rightarrow> decimal \<Rightarrow> u8 \<Rightarrow> u256 result" where
  "executor_decimal_multiple_to_base_unit_step dc v decimals =
     ensure (dc_ge_zero dc v) ''decimal multiple is negative''
     (ensure (mantissa v \<ge> 0) ''decimal multiple mantissa is negative''
     (if mantissa v = 0 then Inr 1
      else
        bind_res (pow10 (ucast decimals)) (\<lambda>p.
        bind_res (context_opt (checked_mul (mantissa_units v) p) ''decimal multiple base-unit overflow'') (\<lambda>numerator.
        bind_res (pow10 (scale v)) (\<lambda>denominator.
        Inr (numerator div u256_gcd numerator denominator))))))"

definition maximum_base_units_for :: "decimal_crate \<Rightarrow> runtime_limits \<Rightarrow> string \<Rightarrow> u8 \<Rightarrow> u256 result" where
  "maximum_base_units_for dc limits symbol decimals =
     bind_res (maximum_for dc limits symbol) (\<lambda>maximum. executor_decimal_to_base_units dc maximum decimals)"

definition base_units_to_decimal :: "decimal_crate \<Rightarrow> u256 \<Rightarrow> u8 \<Rightarrow> decimal result" where
  "base_units_to_decimal dc v decimals =
     ensure (decimals \<le> 28) ''Decimal cannot represent token precision''
     (let digits = dc_u256_to_string dc v;
          encoded =
            (if decimals = 0 then digits
             else if length digits \<le> unat decimals
             then ''0.'' @ replicate (unat decimals - length digits) (CHR ''0'') @ digits
             else (let split = length digits - unat decimals in
                   take split digits @ ''.'' @ drop split digits)) in
      context_opt (dc_from_str_exact dc encoded) ''base-unit amount exceeds Decimal representation'')"

section \<open>Chains and assets\<close>

definition arbitrum_usdc :: address where "arbitrum_usdc = 0xaf88d065e77c8cc2239327c5edb3a432268e5831"
definition arbitrum_esp :: address where "arbitrum_esp = 0x3b8db18e69d6686ad9371a423afe3dd1065c94f1"
definition arbitrum_arb :: address where "arbitrum_arb = 0x912ce59144191c1204e64559fe8253a0e49e6548"
definition optimism_usdc :: address where "optimism_usdc = 0x0b2C639c533813f4Aa9D7837CAf62653d097Ff85"
definition world_chain_usdc :: address where "world_chain_usdc = 0x79A02482A880bCE3F13e09Da970dC34db4CD24d1"
definition linea_usdc :: address where "linea_usdc = 0x176211869cA2b568f2A7D4EE941E073a821EE1ff"
definition optimism_usdt :: address where "optimism_usdt = 0x94b008aA00579c1307B0EF2c499aD98a8ce58e58"
definition linea_usdt :: address where "linea_usdt = 0xA219439258ca9da29E9Cc4cE5596924745e12B93"
definition optimism_wld :: address where "optimism_wld = 0xdC6fF44d5d932Cbd77B52E5612Ba0529DC6226F1"
definition world_chain_wld :: address where "world_chain_wld = 0x2cFc85d8E48F8EAB294be644d9E25C3030863003"

definition token_on_chain :: "string \<Rightarrow> u64 \<Rightarrow> address result" where
  "token_on_chain symbol chain =
     (if symbol = ''ESP'' \<and> chain = 42161 then Inr arbitrum_esp
      else if symbol = ''ARB'' \<and> chain = 42161 then Inr arbitrum_arb
      else if symbol = ''USDC'' \<and> chain = 42161 then Inr arbitrum_usdc
      else if symbol = ''USDC'' \<and> chain = 59144 then Inr linea_usdc
      else if symbol = ''USDT'' \<and> chain = 59144 then Inr linea_usdt
      else if symbol = ''USDT'' \<and> chain = 10 then Inr optimism_usdt
      else if symbol = ''USDC'' \<and> chain = 10 then Inr optimism_usdc
      else if symbol = ''USDC'' \<and> chain = 480 then Inr world_chain_usdc
      else if symbol = ''WLD'' \<and> chain = 10 then Inr optimism_wld
      else if symbol = ''WLD'' \<and> chain = 480 then Inr world_chain_wld
      else Inl (Bail ''unsupported rebalance token or chain''))"

fun route_wallet_chain_id :: "route \<Rightarrow> u64" where
  "route_wallet_chain_id (Direct _ chain) = chain"
| "route_wallet_chain_id (Across _ _ wallet_chain) = wallet_chain"

fun route_withdrawal_chain_id :: "route \<Rightarrow> u64" where
  "route_withdrawal_chain_id (Direct _ chain) = chain"
| "route_withdrawal_chain_id (Across _ bridge_chain _) = bridge_chain"

fun route_binance_network :: "route \<Rightarrow> string" where
  "route_binance_network (Direct network _) = network"
| "route_binance_network (Across network _ _) = network"

definition across_route_chains :: "route \<Rightarrow> (u64 \<times> u64) result" where
  "across_route_chains r =
     (case r of
        Across _ bridge_chain wallet_chain \<Rightarrow>
          ensure (bridge_chain = 10 \<and> (wallet_chain = 480 \<or> wallet_chain = 59144)) ''unsupported Across route''
            (Inr (bridge_chain, wallet_chain))
      | _ \<Rightarrow> Inl (Bail ''rebalance route is not Across''))"

definition across_destination_chain_id :: "route \<Rightarrow> u64 \<Rightarrow> u64 result" where
  "across_destination_chain_id r origin =
     bind_res (across_route_chains r) (\<lambda>(bridge_chain, wallet_chain).
     if origin = bridge_chain then Inr wallet_chain
     else if origin = wallet_chain then Inr bridge_chain
     else Inl (Bail ''Across origin chain differs from the durable route''))"

definition deposit_questionnaire_chain_id :: "rebalance_progress \<Rightarrow> b256 \<Rightarrow> u64 result" where
  "deposit_questionnaire_chain_id progress expected_hash =
     (case progress of
        XDepositTransferMined chain recorded \<Rightarrow>
          ensure (recorded = expected_hash)
            ''Binance deposit questionnaire transaction differs from the durable journal'' (Inr chain)
      | _ \<Rightarrow> Inl (Bail ''Binance deposit questionnaire has no mined transfer evidence''))"

definition approved_asset :: "string \<Rightarrow> u64 \<Rightarrow> (u8 \<times> address) result" where
  "approved_asset symbol chain =
     (if symbol = ''WLD'' \<and> chain = 480 then Inr (18, world_chain_wld)
      else if symbol = ''USDC'' \<and> chain = 480 then Inr (6, world_chain_usdc)
      else if symbol = ''USDC'' \<and> chain = 42161 then Inr (6, arbitrum_usdc)
      else if symbol = ''ESP'' \<and> chain = 42161 then Inr (18, arbitrum_esp)
      else if symbol = ''ARB'' \<and> chain = 42161 then Inr (18, arbitrum_arb)
      else if symbol = ''USDC'' \<and> chain = 59144 then Inr (6, linea_usdc)
      else if symbol = ''USDT'' \<and> chain = 59144 then Inr (6, linea_usdt)
      else Inl (Bail (''rebalance token is not approved on chain '' @ show_nat (unat chain))))"

definition validate_approved_asset :: "string \<Rightarrow> u8 \<Rightarrow> address \<Rightarrow> u64 \<Rightarrow> unit result" where
  "validate_approved_asset symbol decimals contract chain =
     bind_res (approved_asset symbol chain) (\<lambda>(expected_decimals, expected_contract).
     ensure (decimals = expected_decimals \<and> contract = expected_contract)
       ''rebalance token metadata differs from the approved chain asset'' (Inr ()))"

section \<open>Admission\<close>

definition execute_checks ::
  "rebalance_codec \<Rightarrow> decimal_crate \<Rightarrow> address \<Rightarrow> runtime_limits \<Rightarrow> capital_policy option \<Rightarrow> rebalance_request \<Rightarrow>
   rebalance_journal \<Rightarrow> unit result" where
  "execute_checks c dc wallet limits capital_policy_opt r j =
     ensure (rq_wallet_owner r = wallet) ''rebalance request wallet differs from signer''
     (bind_res (validate_approved_asset (rq_token_symbol r) (rq_token_decimals r) (rq_token_contract r)
                  (route_wallet_chain_id (act_route (rq_action r)))) (\<lambda>_.
      bind_res (base_units_to_decimal dc (act_amount (rq_action r)) (rq_token_decimals r)) (\<lambda>requested.
      bind_res (maximum_for dc limits (rq_token_symbol r)) (\<lambda>maximum.
      ensure (dc_le dc requested maximum) ''rebalance request exceeds the configured live maximum''
      (if rq_authority r = ArbitrumFullLive \<or> rq_authority r = LineaFullLive then
         bind_res (context_opt capital_policy_opt ''rebalance request has no compiled capital policy'') (\<lambda>policy.
         bind_res (rebalance_risk_of c (cap_approval_session_id policy) j) (\<lambda>risk.
         authorize_rebalance_request policy risk r))
       else Inr ())))))"

text \<open>\<open>RebalanceExecutor::execute\<close> up to the intent in the journal, from which the transfer is driven.\<close>

definition execute_reserve ::
  "rebalance_codec \<Rightarrow> decimal_crate \<Rightarrow> address \<Rightarrow> runtime_limits \<Rightarrow> capital_policy option \<Rightarrow> append_env \<Rightarrow>
   rebalance_request \<Rightarrow> rebalance_journal \<Rightarrow> rebalance_journal \<times> rebalance_operation result" where
  "execute_reserve c dc wallet limits capital_policy_opt env r j =
     (case execute_checks c dc wallet limits capital_policy_opt r j of
        Inl e \<Rightarrow> (j, Inl e)
      | Inr _ \<Rightarrow> rebalance_reserve c env r j)"

section \<open>Receipts\<close>

text \<open>The big-endian reading of a \<open>U256\<close>, which wraps past 32 bytes; the source checks for exactly 32.\<close>

definition from_be_slice :: "bytes \<Rightarrow> u256" where
  "from_be_slice bs = foldl (\<lambda>acc b. acc * 256 + ucast b) 0 bs"

definition transfer_log :: "b256 \<Rightarrow> address \<Rightarrow> receipt_log \<Rightarrow> bool" where
  "transfer_log transfer_topic token l =
     (rl_address l = token \<and> (case rl_topics l of t # _ \<Rightarrow> t = transfer_topic | [] \<Rightarrow> False))"

definition credit_log :: "address \<Rightarrow> receipt_log \<Rightarrow> u256 \<Rightarrow> u256 result" where
  "credit_log owner l received =
     ensure (length (rl_topics l) = 3) ''credit ERC-20 Transfer log has wrong topics''
     (ensure (length (rl_data l) = 32) ''credit ERC-20 Transfer log amount is not one word''
     (if (ucast (rl_topics l ! 2) :: address) = owner
      then context_opt (checked_add received (from_be_slice (rl_data l))) ''credit ERC-20 transfer sum overflow''
      else Inr received))"

text \<open>The topic is \<open>keccak256("Transfer(address,address,uint256)")\<close>.\<close>

definition erc20_credit_from_receipt ::
  "b256 \<Rightarrow> transaction_receipt \<Rightarrow> b256 \<Rightarrow> address \<Rightarrow> address \<Rightarrow> u256 result" where
  "erc20_credit_from_receipt transfer_topic receipt expected_hash token owner =
     ensure (trc_transaction_hash receipt = expected_hash) ''credit receipt transaction hash changed''
     (ensure (trc_status receipt = 1) ''credit transaction reverted''
     (for_each (credit_log owner) (filter (transfer_log transfer_topic token) (trc_logs receipt)) 0))"

definition validate_direct_withdrawal_receipt ::
  "b256 \<Rightarrow> transaction_receipt \<Rightarrow> b256 \<Rightarrow> address \<Rightarrow> address \<Rightarrow> u256 \<Rightarrow> unit result" where
  "validate_direct_withdrawal_receipt transfer_topic receipt expected_hash token owner expected_delta =
     bind_res (erc20_credit_from_receipt transfer_topic receipt expected_hash token owner) (\<lambda>received.
     ensure (expected_delta \<le> received)
       ''withdrawal receipt did not transfer the expected token amount to the wallet'' (Inr ()))"

definition validate_across_fill_receipt ::
  "b256 \<Rightarrow> transaction_receipt \<Rightarrow> b256 \<Rightarrow> address \<Rightarrow> address \<Rightarrow> u256 \<Rightarrow> u256 result" where
  "validate_across_fill_receipt transfer_topic receipt expected_hash token owner minimum_output =
     bind_res (erc20_credit_from_receipt transfer_topic receipt expected_hash token owner) (\<lambda>received.
     ensure (minimum_output \<le> received)
       ''Across fill receipt did not transfer the minimum token amount to the wallet'' (Inr received))"

section \<open>Repeated withdrawals\<close>

record withdrawal_absence_evidence =
  wae_master_free :: u256
  wae_master_locked :: u256
  wae_trading_free :: u256
  wae_trading_locked :: u256
  wae_wallet_balance :: u256

record withdrawal_absence_confirmation =
  wac_evidence :: withdrawal_absence_evidence
  wac_required_withdrawal :: u256
  wac_stale :: bool

definition current_binance_balance :: "withdrawal_absence_evidence \<Rightarrow> u256 \<Rightarrow> u256 result" where
  "current_binance_balance e staged_master_amount =
     context_opt
       (Option.bind (checked_add (min (wae_master_free e) staged_master_amount) (wae_master_locked e)) (\<lambda>balance.
        Option.bind (checked_add balance (wae_trading_free e)) (\<lambda>balance.
        checked_add balance (wae_trading_locked e))))
       ''current aggregate Binance balance overflow''"

definition current_required_withdrawal :: "withdrawal_absence_evidence \<Rightarrow> u256 \<Rightarrow> u256 result" where
  "current_required_withdrawal e staged_master_amount =
     bind_res (current_binance_balance e staged_master_amount) (\<lambda>binance.
     bind_res (context_opt (checked_add binance (wae_wallet_balance e)) ''current rebalance inventory overflow'')
       (\<lambda>total.
     bind_res (context_opt (checked_add total 1) ''current rebalance midpoint overflow'') (\<lambda>next_total.
     let wallet_target = next_total div 2 in
     Inr (case checked_sub wallet_target (wae_wallet_balance e) of None \<Rightarrow> 0 | Some v \<Rightarrow> v))))"

definition withdrawal_retry_is_stale ::
  "rebalance_operation \<Rightarrow> withdrawal_absence_evidence \<Rightarrow> u256 \<Rightarrow> bool" where
  "withdrawal_retry_is_stale oper e required_withdrawal =
     (required_withdrawal < ri_amount (ro_intent oper) \<or>
      ri_revalidation_start_balance (ro_intent oper) \<noteq> 0 \<and>
      ri_revalidation_start_balance (ro_intent oper) \<le> wae_wallet_balance e)"

definition same_withdrawal_retry_authority ::
  "withdrawal_absence_evidence \<Rightarrow> withdrawal_absence_evidence \<Rightarrow> bool" where
  "same_withdrawal_retry_authority left right =
     (wae_master_free left = wae_master_free right \<and> wae_master_locked left = wae_master_locked right)"

text \<open>\<open>confirm_unknown_withdrawal_absence\<close> on the answers of its two observations.\<close>

definition confirm_unknown_withdrawal_absence ::
  "rebalance_operation \<Rightarrow> withdrawal_absence_evidence result \<Rightarrow> withdrawal_absence_evidence result \<Rightarrow>
   withdrawal_absence_confirmation result" where
  "confirm_unknown_withdrawal_absence oper first_answer second_answer =
     bind_res first_answer (\<lambda>e1.
     bind_res second_answer (\<lambda>e2.
     ensure (same_withdrawal_retry_authority e1 e2)
       ''Binance withdrawal absence evidence changed during confirmation''
     (bind_res (current_required_withdrawal e1 (ri_amount (ro_intent oper))) (\<lambda>first_required.
      bind_res (current_required_withdrawal e2 (ri_amount (ro_intent oper))) (\<lambda>second_required.
      let first_stale = withdrawal_retry_is_stale oper e1 first_required;
          second_stale = withdrawal_retry_is_stale oper e2 second_required in
      Inr \<lparr>wac_evidence = e2, wac_required_withdrawal = second_required,
           wac_stale = (first_stale \<and> second_stale)\<rparr>)))))"

definition validate_unindexed_master_transfer_absence ::
  "u256 \<times> u256 \<times> u256 \<Rightarrow> u256 \<times> u256 \<times> u256 \<Rightarrow> u256 \<Rightarrow> unit result" where
  "validate_unindexed_master_transfer_absence e1 e2 target =
     (case (e1, e2) of ((free1, locked1, source1), (free2, locked2, source2)) \<Rightarrow>
        ensure (free1 = free2 \<and> locked1 = locked2)
          ''unindexed Binance master-transfer absence evidence changed during confirmation''
        (ensure (locked1 = 0 \<and> locked2 = 0)
          ''unindexed Binance master-transfer retry found locked master inventory''
        (ensure (target \<le> source1 \<and> target \<le> source2)
          ''unindexed Binance master-transfer retry lacks sufficient source inventory'' (Inr ()))))"

section \<open>Live routes\<close>

text \<open>\<open>select_capital_routes\<close> of \<open>src/src/binance/capital.rs\<close> and \<open>verify_route\<close>, on the coins the exchange lists.\<close>

record coin_information =
  coin_name :: string
  coin_deposit_all_enable :: bool
  coin_withdraw_all_enable :: bool
  coin_network_list :: "network_information list"

definition validate_symbol :: "string \<Rightarrow> string \<Rightarrow> unit result" where
  "validate_symbol name v =
     ensure (v \<noteq> [] \<and> list_all (\<lambda>b. is_ascii_uppercase b \<or> is_ascii_digit b) v)
       (''Binance '' @ name @ '' must contain only uppercase ASCII letters and digits'') (Inr ())"

definition select_capital_routes ::
  "coin_information list \<Rightarrow> string \<Rightarrow> string \<Rightarrow> string \<Rightarrow> capital_route_state result" where
  "select_capital_routes coins coin direct_network fallback_network =
     bind_res (validate_symbol ''coin'' coin) (\<lambda>_.
     bind_res (validate_symbol ''direct network'' direct_network) (\<lambda>_.
     bind_res (validate_symbol ''fallback network'' fallback_network) (\<lambda>_.
     bind_res (context_opt (find (\<lambda>candidate. coin_name candidate = coin) coins)
                 (''Binance capital configuration is missing coin '' @ coin)) (\<lambda>coin_state.
     let direct = find (\<lambda>network. net_network network = direct_network) (coin_network_list coin_state);
         fallback = find (\<lambda>network. net_network network = fallback_network) (coin_network_list coin_state) in
     ensure (direct \<noteq> None \<or> fallback \<noteq> None)
       (''Binance capital configuration has neither '' @ direct_network @ '' nor '' @ fallback_network @
        '' for '' @ coin)
     (Inr \<lparr>cap_coin = coin_name coin_state, cap_deposit_all_enabled = coin_deposit_all_enable coin_state,
          cap_withdrawal_all_enabled = coin_withdraw_all_enable coin_state, cap_direct = direct,
          cap_fallback = fallback\<rparr>)))))"

definition pinned_networks :: "route \<Rightarrow> (string \<times> string) result" where
  "pinned_networks r =
     (case r of
        Direct network _ \<Rightarrow> Inr (network, network)
      | Across network _ wallet_chain \<Rightarrow>
          if wallet_chain = 480 then Inr (network, ''WLD'')
          else if wallet_chain = 59144 then Inr (network, ''LINEA'')
          else Inl (Bail ''unsupported Across wallet chain''))"

definition selected_network :: "capital_route_state \<Rightarrow> string \<Rightarrow> network_information option" where
  "selected_network capital network =
     (case cap_direct capital of
        Some candidate \<Rightarrow>
          if net_network candidate = network then Some candidate
          else (case cap_fallback capital of
                  Some other \<Rightarrow> if net_network other = network then Some other else None
                | None \<Rightarrow> None)
      | None \<Rightarrow>
          (case cap_fallback capital of
             Some other \<Rightarrow> if net_network other = network then Some other else None
           | None \<Rightarrow> None))"

definition verify_fee_authority ::
  "rebalance_codec \<Rightarrow> decimal_crate \<Rightarrow> rebalance_intent \<Rightarrow> network_information \<Rightarrow> unit result" where
  "verify_fee_authority c dc intent selected =
     (if (case ri_scope intent of
            Some scope \<Rightarrow> rs_network_id scope = ''chain:42161'' \<or> rs_network_id scope = ''chain:59144''
          | None \<Rightarrow> False) then
        bind_res (context_opt (ri_maximum_fee_base_units intent)
                    ''rebalance withdrawal has no durable fee authority'') (\<lambda>fee_text.
        bind_res (context_opt (xc_u256_from_str c fee_text) ''rebalance fee authority is not a uint256'')
          (\<lambda>authorized_fee.
        bind_res (decimal_to_base_units_ceil dc (net_withdraw_fee selected) (ri_token_decimals intent)) (\<lambda>current_fee.
        ensure (current_fee \<le> authorized_fee)
          ''live Binance withdrawal fee exceeds rebalance durable authority'' (Inr ()))))
      else Inr ())"

definition verify_withdrawal ::
  "rebalance_codec \<Rightarrow> decimal_crate \<Rightarrow> rebalance_intent \<Rightarrow> network_information \<Rightarrow> unit result" where
  "verify_withdrawal c dc intent selected =
     bind_res (base_units_to_decimal dc (ri_amount intent) (ri_token_decimals intent)) (\<lambda>amount.
     ensure (dc_le dc (net_withdraw_min selected) amount \<and> dc_le dc amount (net_withdraw_max selected))
       ''rebalance withdrawal is outside live limits''
     (bind_res (executor_decimal_multiple_to_base_unit_step dc (net_withdraw_integer_multiple selected)
                  (ri_token_decimals intent)) (\<lambda>step.
      ensure (ri_amount intent mod step = 0) ''rebalance withdrawal violates live integer multiple''
      (verify_fee_authority c dc intent selected))))"

definition verify_route ::
  "rebalance_codec \<Rightarrow> decimal_crate \<Rightarrow> coin_information list result \<Rightarrow> rebalance_operation \<Rightarrow> bool \<Rightarrow> unit result" where
  "verify_route c dc coins_answer oper withdrawal =
     bind_res (pinned_networks (ri_route (ro_intent oper))) (\<lambda>(network, direct_network).
     bind_res coins_answer (\<lambda>coins.
     bind_res (select_capital_routes coins (ri_token_symbol (ro_intent oper)) direct_network ''OPTIMISM'')
       (\<lambda>capital.
     bind_res (context_opt (selected_network capital network) ''pinned rebalance route disappeared'') (\<lambda>selected.
     ensure (if withdrawal then cap_withdrawal_all_enabled capital \<and> withdrawal_available selected
             else cap_deposit_all_enabled capital \<and> deposit_available selected)
       ''pinned rebalance route is unavailable''
     (if withdrawal then verify_withdrawal c dc (ro_intent oper) selected else Inr ())))))"

section \<open>Exchange records\<close>

definition eq_ignore_ascii_case :: "string \<Rightarrow> string \<Rightarrow> bool" where
  "eq_ignore_ascii_case a b = (to_ascii_lowercase a = to_ascii_lowercase b)"

record withdrawal_record =
  wr_id :: string
  wr_amount :: decimal
  wr_transaction_fee :: decimal
  wr_coin :: string
  wr_status :: u8
  wr_address :: string
  wr_tx_id :: string
  wr_network :: string
  wr_withdraw_order_id :: string
  wr_info :: string

record universal_transfer_record =
  ut_transaction_id :: u64
  ut_from_email :: string
  ut_to_email :: string
  ut_asset :: string
  ut_amount :: decimal
  ut_from_account_type :: string
  ut_to_account_type :: string
  ut_status :: string
  ut_client_transaction_id :: string

definition withdrawal_received_base_units :: "decimal_crate \<Rightarrow> withdrawal_record \<Rightarrow> u8 \<Rightarrow> u256 result" where
  "withdrawal_received_base_units dc w decimals =
     ensure (dc_gt_zero dc (wr_amount w)) ''withdrawal receipt is zero''
       (executor_decimal_to_base_units dc (wr_amount w) decimals)"

definition withdrawal_requested_base_units :: "decimal_crate \<Rightarrow> withdrawal_record \<Rightarrow> u8 \<Rightarrow> u256 result" where
  "withdrawal_requested_base_units dc w decimals =
     ensure (dc_ge_zero dc (wr_transaction_fee w)) ''withdrawal fee is negative''
     (bind_res (context_opt (dc_checked_add dc (wr_amount w) (wr_transaction_fee w))
                  ''withdrawal amount plus fee overflow'') (\<lambda>requested.
      executor_decimal_to_base_units dc requested decimals))"

definition validate_withdrawal_record ::
  "decimal_crate \<Rightarrow> rebalance_operation \<Rightarrow> withdrawal_record \<Rightarrow> unit result" where
  "validate_withdrawal_record dc oper w =
     (let intent = ro_intent oper in
      ensure (wr_coin w = ri_token_symbol intent) ''Binance withdrawal coin changed''
      (ensure (wr_network w = route_binance_network (ri_route intent)) ''Binance withdrawal network changed''
      (ensure (wr_withdraw_order_id w = ri_withdraw_order_id intent) ''Binance withdrawal client id changed''
      (ensure (eq_ignore_ascii_case (wr_address w) (dc_address_hex dc (ri_wallet_owner intent)))
        ''Binance withdrawal destination changed''
      (bind_res (withdrawal_requested_base_units dc w (ri_token_decimals intent)) (\<lambda>requested.
       ensure (requested = ri_amount intent) ''Binance withdrawal amount plus fee changed'' (Inr ())))))))"

definition validate_master_transfer_record ::
  "decimal_crate \<Rightarrow> rebalance_operation \<Rightarrow> string \<Rightarrow> universal_transfer_record \<Rightarrow> unit result" where
  "validate_master_transfer_record dc oper subaccount_email u =
     (let intent = ro_intent oper in
      ensure (eq_ignore_ascii_case (ut_from_email u) subaccount_email)
        ''Binance master transfer source sub-account changed''
      (ensure (\<not> trim_is_empty (ut_to_email u)) ''Binance master transfer destination is empty''
      (ensure (ut_asset u = ri_token_symbol intent) ''Binance master transfer asset changed''
      (ensure (ut_from_account_type u = ''SPOT'' \<and> ut_to_account_type u = ''SPOT'')
        ''Binance master transfer account type changed''
      (ensure (ut_client_transaction_id u = ri_withdraw_order_id intent)
        ''Binance master transfer client id changed''
      (bind_res (executor_decimal_to_base_units dc (ut_amount u) (ri_token_decimals intent)) (\<lambda>amount.
       ensure (amount = ri_amount intent) ''Binance master transfer amount changed'' (Inr ()))))))))"

definition validate_master_return_record ::
  "decimal_crate \<Rightarrow> rebalance_operation \<Rightarrow> string \<Rightarrow> string \<Rightarrow> universal_transfer_record \<Rightarrow> unit result" where
  "validate_master_return_record dc oper subaccount_email client_transaction_id u =
     (let intent = ro_intent oper in
      ensure (\<not> trim_is_empty (ut_from_email u)) ''Binance master-return source account is empty''
      (ensure (eq_ignore_ascii_case (ut_to_email u) subaccount_email)
        ''Binance master-return destination sub-account changed''
      (ensure (ut_asset u = ri_token_symbol intent) ''Binance master-return asset changed''
      (ensure (ut_from_account_type u = ''SPOT'' \<and> ut_to_account_type u = ''SPOT'')
        ''Binance master-return account type changed''
      (ensure (ut_client_transaction_id u = client_transaction_id) ''Binance master-return client id changed''
      (bind_res (executor_decimal_to_base_units dc (ut_amount u) (ri_token_decimals intent)) (\<lambda>amount.
       ensure (amount = ri_amount intent) ''Binance master-return amount changed'' (Inr ()))))))))"

section \<open>Travel Rule records\<close>

record travel_rule_record =
  trr_id :: string
  trr_tr_id :: int
  trr_amount :: string
  trr_transaction_fee :: string
  trr_coin :: string
  trr_withdrawal_status :: "int option"
  trr_travel_rule_status :: int
  trr_address :: string
  trr_tx_id :: string
  trr_network :: string
  trr_withdraw_order_id :: string
  trr_info :: string

definition is_failed_without_broadcast :: "travel_rule_record \<Rightarrow> bool" where
  "is_failed_without_broadcast t =
     (trr_travel_rule_status t = 2 \<and> trr_withdrawal_status t \<noteq> Some 6 \<and> trim_is_empty (trr_tx_id t))"

definition is_approved_without_withdrawal :: "travel_rule_record \<Rightarrow> bool" where
  "is_approved_without_withdrawal t =
     (trr_travel_rule_status t = 4 \<and> trr_withdrawal_status t = None \<and> trim_is_empty (trr_tx_id t))"

definition exact_debit :: "decimal_crate \<Rightarrow> travel_rule_record \<Rightarrow> decimal \<Rightarrow> bool" where
  "exact_debit dc t requested =
     (case dc_from_str dc (trr_amount t) of
        None \<Rightarrow> False
      | Some amount \<Rightarrow> dc_eq dc amount requested \<or>
          (case Option.bind (dc_from_str dc (trr_transaction_fee t)) (dc_checked_add dc amount) of
             Some debit \<Rightarrow> dc_eq dc debit requested
           | None \<Rightarrow> False))"

definition matches_travel_rule_record_identity_without_client_id ::
  "decimal_crate \<Rightarrow> travel_rule_record \<Rightarrow> decimal \<Rightarrow> address \<Rightarrow> string \<Rightarrow> bool" where
  "matches_travel_rule_record_identity_without_client_id dc t requested wallet_owner order_id =
     (exact_debit dc t requested \<and> eq_ignore_ascii_case (trr_address t) (dc_address_hex dc wallet_owner) \<and>
      (trr_withdraw_order_id t = [] \<or> trr_withdraw_order_id t = order_id))"

definition validate_travel_rule_withdrawal_record ::
  "decimal_crate \<Rightarrow> rebalance_operation \<Rightarrow> travel_rule_record \<Rightarrow> decimal \<Rightarrow> unit result" where
  "validate_travel_rule_withdrawal_record dc oper t requested =
     (let intent = ro_intent oper in
      ensure (0 < trr_tr_id t \<and> trr_coin t = ri_token_symbol intent \<and>
              (trr_network t = [] \<or> trr_network t = route_binance_network (ri_route intent)) \<and>
              matches_travel_rule_record_identity_without_client_id dc t requested (ri_wallet_owner intent)
                (ri_withdraw_order_id intent))
        ''Binance Travel Rule withdrawal record differs from the durable intent'' (Inr ()))"

text \<open>An omitted field is the empty string.\<close>

definition agree :: "string \<Rightarrow> string \<Rightarrow> bool" where
  "agree indexed hydrated = (indexed = [] \<or> hydrated = [] \<or> indexed = hydrated)"

definition or_detail :: "string \<Rightarrow> string \<Rightarrow> string" where
  "or_detail indexed hydrated = (if indexed = [] then hydrated else indexed)"

definition merge_travel_rule_withdrawal_detail ::
  "travel_rule_record \<Rightarrow> travel_rule_record \<Rightarrow> travel_rule_record result" where
  "merge_travel_rule_withdrawal_detail t detailed =
     ensure (trr_tr_id t = trr_tr_id detailed) ''Travel Rule trId detail changed identity''
     (ensure (trr_coin t = trr_coin detailed) ''Travel Rule trId detail changed asset''
     (ensure (agree (trr_network t) (trr_network detailed)) ''Travel Rule trId detail changed network''
     (ensure (trr_address t = [] \<or> trr_address detailed = [] \<or>
              eq_ignore_ascii_case (trr_address t) (trr_address detailed))
       ''Travel Rule trId detail changed destination''
     (ensure (agree (trr_amount t) (trr_amount detailed)) ''Travel Rule trId detail changed amount''
     (ensure (agree (trr_transaction_fee t) (trr_transaction_fee detailed))
       ''Travel Rule trId detail changed transaction fee''
     (ensure (agree (trr_withdraw_order_id t) (trr_withdraw_order_id detailed))
       ''Travel Rule trId detail changed withdraw order id''
     (ensure (agree (trr_tx_id t) (trr_tx_id detailed)) ''Travel Rule trId detail changed transaction id''
     (Inr (t\<lparr>trr_id := or_detail (trr_id t) (trr_id detailed),
            trr_amount := or_detail (trr_amount t) (trr_amount detailed),
            trr_transaction_fee := or_detail (trr_transaction_fee t) (trr_transaction_fee detailed),
            trr_network := or_detail (trr_network t) (trr_network detailed),
            trr_address := or_detail (trr_address t) (trr_address detailed),
            trr_withdraw_order_id := or_detail (trr_withdraw_order_id t) (trr_withdraw_order_id detailed),
            trr_tx_id := or_detail (trr_tx_id t) (trr_tx_id detailed),
            trr_info := or_detail (trr_info t) (trr_info detailed),
            trr_withdrawal_status := (case trr_withdrawal_status t of
                None \<Rightarrow> trr_withdrawal_status detailed | Some s \<Rightarrow> Some s)\<rparr>)))))))))"

definition reconcile_approved_travel_rule_rejection ::
  "travel_rule_record list \<Rightarrow> travel_rule_record option result" where
  "reconcile_approved_travel_rule_rejection records =
     ensure (length records \<le> 1) ''approved Travel Rule rejection matches multiple withdrawal records''
     (case records of
        [] \<Rightarrow> Inr None
      | t # _ \<Rightarrow>
          ensure (is_failed_without_broadcast t \<or> is_approved_without_withdrawal t)
            ''approved Travel Rule rejection matches a non-failed or broadcast withdrawal'' (Inr (Some t)))"

section \<open>Lemmas on base units\<close>

text \<open>The conversions are those of the tracker, but for the words of their errors.\<close>

lemma executor_conversions:
  "executor_decimal_to_base_units dc v d = Inr x \<longleftrightarrow> decimal_to_base_units (dc_ge_zero dc) v d = Inr x"
  "executor_decimal_to_base_units_floor dc v d = Inr x \<longleftrightarrow> decimal_to_base_units_floor (dc_ge_zero dc) v d = Inr x"
  "executor_decimal_multiple_to_base_unit_step dc v d = Inr x \<longleftrightarrow>
     decimal_multiple_to_base_unit_step (dc_ge_zero dc) v d = Inr x"
  by (simp_all add: executor_decimal_to_base_units_def decimal_to_base_units_def
      executor_decimal_to_base_units_floor_def decimal_to_base_units_floor_def
      executor_decimal_multiple_to_base_unit_step_def decimal_multiple_to_base_unit_step_def)

lemma show_nat_leading: "hd (show_nat n) = CHR ''0'' \<Longrightarrow> n = 0"
proof (induction n rule: show_nat.induct)
  case (1 n)
  have inj: "char_of (48 + n) = CHR ''0'' \<Longrightarrow> n = 0" if "n < 10"
  proof -
    assume "char_of (48 + n) = CHR ''0''"
    then have "byte (char_of (48 + n)) = 48" by (simp add: byte_def)
    then show "n = 0" using that by (simp add: is_ascii_digit_char)
  qed
  show ?case
  proof (cases "n < 10")
    case True
    then show ?thesis using 1(2) inj by (subst (asm) show_nat.simps) simp
  next
    case False
    then have "n div 10 = 0" using 1 by (subst (asm) (2) show_nat.simps) (simp add: show_nat_nonempty)
    then show ?thesis using False by simp
  qed
qed

lemma digits_value_zeros: "digits_value (replicate n CHR ''0'' @ s) = digits_value s"
  by (induction n) (simp_all add: digits_value_def byte_def)

lemma digits_value_zero: "digits_value (CHR ''0'' # s) = digits_value s"
  using digits_value_zeros [of 1] by simp

text \<open>The text the executor writes is a plain number with the digits of the amount.\<close>

lemma base_units_text:
  assumes ok: "decimal_crate_ok dc"
  obtains whole frac where "plain_digits whole frac" "length frac = unat d" "digits_value (whole @ frac) = unat v"
    "base_units_to_decimal dc v d = ensure (d \<le> 28) ''Decimal cannot represent token precision''
       (context_opt (dc_from_str_exact dc (decimal_text whole frac)) ''base-unit amount exceeds Decimal representation'')"
proof -
  let ?ds = "show_nat (unat v)"
  have ds: "dc_u256_to_string dc v = ?ds" using ok by (simp add: decimal_crate_ok_def)
  note facts = show_nat_digits show_nat_nonempty digits_value_show_nat
  have "?ds = ''0''" if "hd ?ds = CHR ''0''"
    using show_nat_leading [OF that] by simp (subst show_nat.simps, code_simp)
  then have plain: "plain_digits ?ds []" using facts by (simp add: plain_digits_def)
  consider (whole) "d = 0" | (small) "d \<noteq> 0" "length ?ds \<le> unat d" | (large) "d \<noteq> 0" "unat d < length ?ds" by linarith
  then show thesis
  proof cases
    case whole
    then show thesis using plain facts
      by (intro that [of ?ds "[]"]) (simp_all add: base_units_to_decimal_def ds decimal_text_def Let_def)
  next
    case small
    let ?f = "replicate (unat d - length ?ds) CHR ''0'' @ ?ds"
    have "list_all is_ascii_digit (replicate n CHR ''0'')" for n
      by (simp add: list_all_iff is_ascii_digit_def byte_def)
    moreover have "is_ascii_digit CHR ''0''" by (simp add: is_ascii_digit_def byte_def)
    ultimately have "plain_digits ''0'' ?f" using facts by (simp add: plain_digits_def)
    then show thesis using small facts
      by (intro that [of "''0''" ?f])
        (simp_all add: base_units_to_decimal_def ds decimal_text_def Let_def digits_value_zero digits_value_zeros)
  next
    case large
    let ?w = "take (length ?ds - unat d) ?ds" and ?f = "drop (length ?ds - unat d) ?ds"
    have "unat d \<noteq> 0" using large(1) by (simp add: unat_eq_zero)
    moreover from this have "length ?ds \<noteq> 1" using large(2) by linarith
    ultimately have "hd ?w \<noteq> CHR ''0''"
      using large(2) plain by (auto simp: plain_digits_def)
    then have "plain_digits ?w ?f" using facts large(2) by (simp add: plain_digits_def)
    moreover have "\<not> length ?ds \<le> length ?ds - unat d" using large(2) \<open>unat d \<noteq> 0\<close> by linarith
    ultimately show thesis using large facts
      by (intro that [of ?w ?f]) (simp_all add: base_units_to_decimal_def ds decimal_text_def Let_def)
  qed
qed

lemma base_units_to_decimal_Inr:
  assumes ok: "decimal_crate_ok dc" and x: "base_units_to_decimal dc v d = Inr x"
  shows "d \<le> 28" "0 \<le> mantissa x" "mantissa x < 2 ^ 96" "unat (scale x) \<le> 28"
    "nat (mantissa x) * 10 ^ unat d = unat v * 10 ^ unat (scale x)"
proof -
  obtain whole frac where t: "plain_digits whole frac" "length frac = unat d" "digits_value (whole @ frac) = unat v"
    "base_units_to_decimal dc v d = ensure (d \<le> 28) ''Decimal cannot represent token precision''
       (context_opt (dc_from_str_exact dc (decimal_text whole frac)) ''base-unit amount exceeds Decimal representation'')"
    by (rule base_units_text [OF ok])
  from x have "d \<le> 28" and p: "dc_from_str_exact dc (decimal_text whole frac) = Some x"
    unfolding t(4) by auto
  then show "d \<le> 28" by simp
  from ok t(1) p have r: "0 \<le> mantissa x \<and> mantissa x < 2 ^ 96 \<and> unat (scale x) \<le> 28 \<and>
      mantissa x * 10 ^ length frac = int (digits_value (whole @ frac)) * 10 ^ unat (scale x)"
    unfolding decimal_crate_ok_def by blast
  then show "0 \<le> mantissa x" "mantissa x < 2 ^ 96" "unat (scale x) \<le> 28" by auto
  have "int (nat (mantissa x) * 10 ^ unat d) = int (unat v * 10 ^ unat (scale x))" using r t(2,3) by simp
  then show "nat (mantissa x) * 10 ^ unat d = unat v * 10 ^ unat (scale x)" unfolding of_nat_eq_iff .
qed

lemma ceil_Inr:
  assumes "decimal_to_base_units_ceil dc v d = Inr x" "mantissa v < 2 ^ 127"
  shows "nat (mantissa v) * 10 ^ unat d \<le> unat x * 10 ^ unat (scale v)"
    "unat x * 10 ^ unat (scale v) < nat (mantissa v) * 10 ^ unat d + 10 ^ unat (scale v)"
proof -
  from assms(1) obtain p n q where nn: "0 \<le> mantissa v" and p: "pow10 (ucast d) = Inr p"
    and n: "checked_mul (mantissa_units v) p = Some n" and q: "pow10 (scale v) = Inr q"
    and x: "(if n mod q = 0 then Inr (n div q)
      else context_opt (checked_add (n div q) 1) ''decimal base-unit ceiling overflow'') = (Inr x :: u256 result)"
    unfolding decimal_to_base_units_ceil_def Let_def ensure_Inr bind_res_Inr context_opt_Inr by blast
  have un: "unat n = nat (mantissa v) * 10 ^ unat d"
    using n p mantissa_units [OF nn assms(2)] by (simp add: checked_simps pow10_Inr unat_u8_u32)
  have uq: "unat q = 10 ^ unat (scale v)" using q by (simp add: pow10_Inr)
  obtain a r where ar: "unat n div unat q = a" "unat n mod unat q = r" by blast
  then have m: "unat n = a * unat q + r" by (metis div_mult_mod_eq)
  have ux: "unat x = a + (if r = 0 then 0 else 1)"
    using x ar by (auto simp: checked_simps unat_div unat_mod word_unat_eq_iff split: if_splits)
  have "r < unat q" using uq ar(2) by auto
  then have "unat n \<le> unat x * unat q \<and> unat x * unat q < unat n + unat q"
    unfolding m ux by (auto simp: add_mult_distrib)
  then show "nat (mantissa v) * 10 ^ unat d \<le> unat x * 10 ^ unat (scale v)"
    "unat x * 10 ^ unat (scale v) < nat (mantissa v) * 10 ^ unat d + 10 ^ unat (scale v)"
    unfolding un uq by auto
qed

lemma conversions_of_base_units:
  assumes ok: "decimal_crate_ok dc" and x: "base_units_to_decimal dc v d = Inr x"
  shows "executor_decimal_to_base_units dc x d = Inr v" "executor_decimal_to_base_units_floor dc x d = Inr v"
    "decimal_to_base_units_ceil dc x d = Inr v"
proof -
  note f = base_units_to_decimal_Inr [OF ok x]
  have "unat d \<le> 28" using f(1) by (simp add: word_le_nat_alt)
  then obtain p n where n: "pow10 (ucast d) = Inr p" "checked_mul (mantissa_units x) p = Some n"
    "unat n = nat (mantissa x) * 10 ^ unat d"
    using base_units_numerator [OF f(2,3), of d] by auto
  obtain q where q: "pow10 (scale x) = Inr q" "unat q = 10 ^ unat (scale x)" using pow10_ok [of "scale x"] f(4) by auto
  have un: "unat n = unat v * unat q" using n(3) f(5) q(2) by simp
  have dm: "n mod q = 0" "n div q = v" using q(2) by (simp_all add: word_unat_eq_iff unat_mod unat_div un)
  have "dc_ge_zero dc x" using ok f(2) by (simp add: decimal_crate_ok_def)
  then show "executor_decimal_to_base_units dc x d = Inr v" "executor_decimal_to_base_units_floor dc x d = Inr v"
    "decimal_to_base_units_ceil dc x d = Inr v"
    using n(1,2) q(1) f(2) dm
    by (simp_all add: executor_decimal_to_base_units_def executor_decimal_to_base_units_floor_def
        decimal_to_base_units_ceil_def Let_def)
qed

lemma base_units_to_decimal_total:
  assumes ok: "decimal_crate_ok dc" and d: "d \<le> 28" and v: "unat v < 2 ^ 96"
  shows "\<exists>x. base_units_to_decimal dc v d = Inr x"
proof -
  obtain whole frac where t: "plain_digits whole frac" "length frac = unat d" "digits_value (whole @ frac) = unat v"
    "base_units_to_decimal dc v d = ensure (d \<le> 28) ''Decimal cannot represent token precision''
       (context_opt (dc_from_str_exact dc (decimal_text whole frac)) ''base-unit amount exceeds Decimal representation'')"
    by (rule base_units_text [OF ok])
  have "length frac \<le> 28" using d t(2) by (simp add: word_le_nat_alt)
  then obtain x where "dc_from_str_exact dc (decimal_text whole frac) = Some x"
    using ok t(1,3) v unfolding decimal_crate_ok_def by metis
  then show ?thesis unfolding t(4) using d by simp
qed

text \<open>A comparison of the decimal of an amount is one of the amount.\<close>

lemma dc_le_base_units:
  assumes ok: "decimal_crate_ok dc" and x: "base_units_to_decimal dc v d = Inr x"
  shows "dc_le dc x w \<longleftrightarrow> int (unat v) * 10 ^ unat (scale w) \<le> mantissa w * 10 ^ unat d"
    "dc_le dc w x \<longleftrightarrow> mantissa w * 10 ^ unat d \<le> int (unat v) * 10 ^ unat (scale w)"
proof -
  note f = base_units_to_decimal_Inr [OF ok x]
  let ?sx = "10 ^ unat (scale x) :: int" and ?sw = "10 ^ unat (scale w) :: int" and ?d = "10 ^ unat d :: int"
  have "int (nat (mantissa x) * 10 ^ unat d) = int (unat v * 10 ^ unat (scale x))" using f(5) by (simp only:)
  then have e: "mantissa x * ?d = int (unat v) * ?sx" using f(2) by simp
  have l: "(mantissa x * ?d) * ?sw = ?sx * (int (unat v) * ?sw)" unfolding e by (simp add: ac_simps)
  have le: "dc_le dc a b \<longleftrightarrow> mantissa a * 10 ^ unat (scale b) \<le> mantissa b * 10 ^ unat (scale a)" for a b
    using ok by (simp add: decimal_crate_ok_def)
  have "dc_le dc x w \<longleftrightarrow> (mantissa x * ?sw) * ?d \<le> (mantissa w * ?sx) * ?d" unfolding le by simp
  also have "(mantissa x * ?sw) * ?d = ?sx * (int (unat v) * ?sw)" using l by (simp add: ac_simps)
  also have "(mantissa w * ?sx) * ?d = ?sx * (mantissa w * ?d)" by (simp add: ac_simps)
  finally show "dc_le dc x w \<longleftrightarrow> int (unat v) * ?sw \<le> mantissa w * ?d" by simp
  have "dc_le dc w x \<longleftrightarrow> (mantissa w * ?sx) * ?d \<le> (mantissa x * ?sw) * ?d" unfolding le by simp
  also have "(mantissa x * ?sw) * ?d = ?sx * (int (unat v) * ?sw)" using l by (simp add: ac_simps)
  also have "(mantissa w * ?sx) * ?d = ?sx * (mantissa w * ?d)" by (simp add: ac_simps)
  finally show "dc_le dc w x \<longleftrightarrow> mantissa w * ?d \<le> int (unat v) * ?sw" by simp
qed

section \<open>Lemmas on credits\<close>

definition be_value :: "bytes \<Rightarrow> nat" where
  "be_value bs = foldl (\<lambda>n b. n * 256 + unat b) 0 bs"

lemma be_value_bound: "be_value bs < 256 ^ length bs"
proof (induction bs rule: rev_induct)
  case (snoc b bs)
  have "be_value (bs @ [b]) = be_value bs * 256 + unat b" by (simp add: be_value_def)
  moreover have "unat b < 256" using unat_lt [of b] by simp
  ultimately show ?case using snoc by simp
qed (simp add: be_value_def)

lemma from_be_slice_value: "length bs \<le> 32 \<Longrightarrow> unat (from_be_slice bs) = be_value bs"
proof (induction bs rule: rev_induct)
  case (snoc b bs)
  have v: "be_value (bs @ [b]) = be_value bs * 256 + unat b" by (simp add: be_value_def)
  have "be_value (bs @ [b]) < 256 ^ 32"
    using be_value_bound [of "bs @ [b]"] power_increasing [of "length (bs @ [b])" 32 "256 :: nat"] snoc.prems
    by linarith
  then have lt: "be_value bs * 256 + unat b < 2 ^ 256" unfolding v by simp
  have b: "unat (ucast b :: u256) = unat b"
    using unat_lt [of b] by (simp add: unsigned_ucast_eq take_bit_nat_eq_self)
  have "unat (from_be_slice bs * 256 + ucast b) = be_value bs * 256 + unat b"
    using snoc lt b by (simp add: unat_word_ariths)
  then show ?case by (simp add: v) (simp add: from_be_slice_def)
qed (simp add: be_value_def from_be_slice_def)

definition one_word_transfer :: "receipt_log \<Rightarrow> bool" where
  "one_word_transfer l \<longleftrightarrow> length (rl_topics l) = 3 \<and> length (rl_data l) = 32"

definition credits :: "address \<Rightarrow> receipt_log list \<Rightarrow> nat" where
  "credits owner ls = (\<Sum>l\<leftarrow>filter (\<lambda>l. ucast (rl_topics l ! 2) = owner) ls. be_value (rl_data l))"

lemma credit_log_Inr:
  "credit_log owner l received = Inr v \<longleftrightarrow> one_word_transfer l \<and> unat v = unat received + credits owner [l]"
  by (auto simp: credit_log_def one_word_transfer_def credits_def checked_simps from_be_slice_value word_unat_eq_iff)

lemma credit_logs_Inr:
  "for_each (credit_log owner) ls received = Inr v \<longleftrightarrow>
     list_all one_word_transfer ls \<and> unat v = unat received + credits owner ls"
proof (induction ls arbitrary: received)
  case (Cons l ls)
  have split: "credits owner (l # ls) = credits owner [l] + credits owner ls" by (simp add: credits_def)
  have "(\<exists>w :: u256. unat w = unat received + credits owner [l] \<and> unat v = unat w + credits owner ls) \<longleftrightarrow>
      unat v = unat received + credits owner [l] + credits owner ls"
  proof
    assume e: "unat v = unat received + credits owner [l] + credits owner ls"
    then have "unat received + credits owner [l] < 2 ^ 256" using unat_lt [of v] by simp
    then have "unat (word_of_nat (unat received + credits owner [l]) :: u256) = unat received + credits owner [l]"
      by (simp add: unsigned_of_nat take_bit_nat_eq_self del: of_nat_add)
    with e show "\<exists>w :: u256. unat w = unat received + credits owner [l] \<and> unat v = unat w + credits owner ls"
      by metis
  qed auto
  then show ?case using Cons.IH by (auto simp: credit_log_Inr split)
qed (auto simp: credits_def word_unat_eq_iff)

section \<open>Lemmas on repeated withdrawals\<close>

text \<open>
  What a transfer still finds at Binance and in the wallet.  Free units of the master account count only up
  to the amount that was staged there.
\<close>

definition at_binance :: "withdrawal_absence_evidence \<Rightarrow> u256 \<Rightarrow> nat" where
  "at_binance e staged = min (unat (wae_master_free e)) (unat staged) + unat (wae_master_locked e) +
     unat (wae_trading_free e) + unat (wae_trading_locked e)"

definition wallet_gap :: "withdrawal_absence_evidence \<Rightarrow> u256 \<Rightarrow> nat" where
  "wallet_gap e staged =
     (at_binance e staged + unat (wae_wallet_balance e) + 1) div 2 - unat (wae_wallet_balance e)"

lemma unat_sub_or_zero: "unat (case checked_sub a b of None \<Rightarrow> 0 | Some v \<Rightarrow> v) = unat a - unat b"
  by (auto simp: checked_sub_def word_le_nat_alt unat_sub)

lemma current_binance_balance_Inr: "current_binance_balance e staged = Inr b \<Longrightarrow> unat b = at_binance e staged"
  by (auto simp: current_binance_balance_def at_binance_def checked_simps unat_min Option.bind_eq_Some_conv)

lemma current_required_withdrawal_Inr:
  assumes "current_required_withdrawal e staged = Inr v"
  shows "unat v = wallet_gap e staged"
proof -
  from assms obtain b t n where "current_binance_balance e staged = Inr b"
    "checked_add b (wae_wallet_balance e) = Some t" "checked_add t 1 = Some n"
    "v = (case checked_sub (n div 2) (wae_wallet_balance e) of None \<Rightarrow> 0 | Some v \<Rightarrow> v)"
    unfolding current_required_withdrawal_def Let_def by auto
  then show ?thesis
    by (simp add: unat_sub_or_zero unat_div wallet_gap_def checked_simps current_binance_balance_Inr)
qed

definition still_needed :: "rebalance_operation \<Rightarrow> withdrawal_absence_evidence \<Rightarrow> bool" where
  "still_needed oper e \<longleftrightarrow>
     (let amount = ri_amount (ro_intent oper); start = ri_revalidation_start_balance (ro_intent oper) in
      (amount = 0 \<or> 2 * (unat (wae_wallet_balance e) + unat amount) \<le> at_binance e amount + unat (wae_wallet_balance e) + 1) \<and>
      (start = 0 \<or> wae_wallet_balance e < start))"

lemma gap_iff: "a \<le> (b + w + 1) div 2 - w \<longleftrightarrow> a = 0 \<or> 2 * (w + a) \<le> b + w + 1" for a b w :: nat
proof (cases "a = 0")
  case False
  then have "a \<le> x - w \<longleftrightarrow> w + a \<le> x" for x by linarith
  then show ?thesis using False by (simp add: less_eq_div_iff_mult_less_eq mult.commute)
qed simp

lemma stale_iff:
  assumes "unat v = wallet_gap e (ri_amount (ro_intent oper))"
  shows "withdrawal_retry_is_stale oper e v \<longleftrightarrow> \<not> still_needed oper e"
proof -
  let ?a = "ri_amount (ro_intent oper)" and ?w = "unat (wae_wallet_balance e)"
  have "v < ?a \<longleftrightarrow> \<not> unat ?a \<le> wallet_gap e ?a" unfolding word_less_nat_alt assms by (rule not_le [symmetric])
  then have "v < ?a \<longleftrightarrow> \<not> (?a = 0 \<or> 2 * (?w + unat ?a) \<le> at_binance e ?a + ?w + 1)"
    unfolding wallet_gap_def gap_iff by (simp add: unat_eq_zero)
  then show ?thesis
    unfolding withdrawal_retry_is_stale_def still_needed_def Let_def by (simp only: not_le [symmetric]) blast
qed

section \<open>Lemmas on Travel Rule records\<close>

lemma merge_detail_Inr:
  assumes "merge_travel_rule_withdrawal_detail t detailed = Inr m"
  shows "trr_tr_id m = trr_tr_id t" "trr_travel_rule_status m = trr_travel_rule_status t"
    "trr_tx_id m = or_detail (trr_tx_id t) (trr_tx_id detailed)" "agree (trr_tx_id t) (trr_tx_id detailed)"
    "trr_withdrawal_status t = None \<Longrightarrow> trr_withdrawal_status m = trr_withdrawal_status detailed"
  using assms by (auto simp: merge_travel_rule_withdrawal_detail_def)

text \<open>
  A rejection is taken for unbroadcast only when neither the index nor the detail of the record names a
  transaction, and the detail does not say that the withdrawal completed.
\<close>

lemma unbroadcast_rejection_proved:
  assumes "trr_withdrawal_status t = None" "merge_travel_rule_withdrawal_detail t detailed = Inr m"
    and "reconcile_approved_travel_rule_rejection [m] = Inr (Some t')"
  shows "t' = m \<and> trim_is_empty (trr_tx_id t) \<and> trim_is_empty (trr_tx_id detailed) \<and>
    trr_withdrawal_status detailed \<noteq> Some 6 \<and> trr_travel_rule_status t \<in> {2, 4}"
proof -
  note m = merge_detail_Inr [OF assms(2)]
  have "t' = m" and r: "is_failed_without_broadcast m \<or> is_approved_without_withdrawal m"
    using assms(3) by (auto simp: reconcile_approved_travel_rule_rejection_def)
  moreover have "trim_is_empty (trr_tx_id t) \<and> trim_is_empty (trr_tx_id detailed)"
    using r m(3,4) by (auto simp: is_failed_without_broadcast_def is_approved_without_withdrawal_def
        or_detail_def agree_def split: if_splits)
  ultimately show ?thesis
    using m(2) m(5) [OF assms(1)]
    by (auto simp: is_failed_without_broadcast_def is_approved_without_withdrawal_def)
qed

text \<open>Merging the same detail again changes nothing.\<close>

lemma or_detail_again:
  "or_detail (or_detail a b) b = or_detail a b" "agree a b \<Longrightarrow> agree (or_detail a b) b"
  "or_detail a b = [] \<or> b = [] \<or> eq_ignore_ascii_case (or_detail a b) b \<longleftrightarrow>
     a = [] \<or> b = [] \<or> eq_ignore_ascii_case a b"
  by (auto simp: or_detail_def agree_def eq_ignore_ascii_case_def)

lemma merge_detail_idempotent:
  assumes "merge_travel_rule_withdrawal_detail t detailed = Inr m"
  shows "merge_travel_rule_withdrawal_detail m detailed = Inr m"
proof -
  have status: "(case (case a of None \<Rightarrow> b | Some s \<Rightarrow> Some s) of None \<Rightarrow> b | Some s \<Rightarrow> Some s) =
      (case a of None \<Rightarrow> b | Some s \<Rightarrow> Some s)" for a b :: "int option"
    by (cases a; cases b) simp_all
  show ?thesis
    using assms unfolding merge_travel_rule_withdrawal_detail_def ensure_Inr sum.inject
    by (elim conjE, hypsubst) (simp add: or_detail_again status)
qed

section \<open>Lemmas on live routes\<close>

lemma select_capital_routes_Inr:
  assumes "select_capital_routes coins coin direct fallback = Inr s"
  obtains co where "co \<in> set coins" "coin_name co = coin" "cap_withdrawal_all_enabled s = coin_withdraw_all_enable co"
    "cap_direct s = find (\<lambda>n. net_network n = direct) (coin_network_list co)"
    "cap_fallback s = find (\<lambda>n. net_network n = fallback) (coin_network_list co)"
proof -
  from assms obtain co where co: "find (\<lambda>candidate. coin_name candidate = coin) coins = Some co"
    and "s = \<lparr>cap_coin = coin_name co, cap_deposit_all_enabled = coin_deposit_all_enable co,
      cap_withdrawal_all_enabled = coin_withdraw_all_enable co,
      cap_direct = find (\<lambda>n. net_network n = direct) (coin_network_list co),
      cap_fallback = find (\<lambda>n. net_network n = fallback) (coin_network_list co)\<rparr>"
    unfolding select_capital_routes_def Let_def by auto
  moreover have "co \<in> set coins" "coin_name co = coin" using co by (auto simp: find_Some_iff)
  ultimately show thesis by (intro that [of co]) simp_all
qed

lemma selected_network_Some:
  "selected_network s network = Some n \<Longrightarrow> net_network n = network \<and> (cap_direct s = Some n \<or> cap_fallback s = Some n)"
  by (auto simp: selected_network_def split: option.splits if_splits)

definition within_live_terms ::
  "rebalance_codec \<Rightarrow> rebalance_intent \<Rightarrow> network_information \<Rightarrow> bool" where
  "within_live_terms c i n \<longleftrightarrow>
     mantissa (net_withdraw_min n) * 10 ^ unat (ri_token_decimals i) \<le>
       int (unat (ri_amount i)) * 10 ^ unat (scale (net_withdraw_min n)) \<and>
     int (unat (ri_amount i)) * 10 ^ unat (scale (net_withdraw_max n)) \<le>
       mantissa (net_withdraw_max n) * 10 ^ unat (ri_token_decimals i) \<and>
     (mantissa (net_withdraw_integer_multiple n) \<noteq> 0 \<longrightarrow>
        nat (mantissa (net_withdraw_integer_multiple n)) * 10 ^ unat (ri_token_decimals i) dvd
          unat (ri_amount i) * 10 ^ unat (scale (net_withdraw_integer_multiple n))) \<and>
     (case ri_scope i of
        None \<Rightarrow> True
      | Some s \<Rightarrow> rs_network_id s \<notin> {''chain:42161'', ''chain:59144''} \<or>
          (\<exists>fee_text fee. ri_maximum_fee_base_units i = Some fee_text \<and> xc_u256_from_str c fee_text = Some fee \<and>
             nat (mantissa (net_withdraw_fee n)) * 10 ^ unat (ri_token_decimals i) \<le>
               unat fee * 10 ^ unat (scale (net_withdraw_fee n))))"

lemma verify_withdrawal_Inr:
  assumes ok: "decimal_crate_ok dc" and "verify_withdrawal c dc i n = Inr ()"
    and bounds: "mantissa (net_withdraw_fee n) < 2 ^ 96" "mantissa (net_withdraw_integer_multiple n) < 2 ^ 96"
  shows "within_live_terms c i n"
proof -
  from assms(2) obtain x step where x: "base_units_to_decimal dc (ri_amount i) (ri_token_decimals i) = Inr x"
    and lim: "dc_le dc (net_withdraw_min n) x" "dc_le dc x (net_withdraw_max n)"
    and step: "executor_decimal_multiple_to_base_unit_step dc (net_withdraw_integer_multiple n)
      (ri_token_decimals i) = Inr step" "ri_amount i mod step = 0"
    and fee: "verify_fee_authority c dc i n = Inr ()"
    unfolding verify_withdrawal_def bind_res_Inr ensure_Inr by (elim exE conjE) (rule that)
  have mult: "nat (mantissa (net_withdraw_integer_multiple n)) * 10 ^ unat (ri_token_decimals i) dvd
       unat (ri_amount i) * 10 ^ unat (scale (net_withdraw_integer_multiple n))"
    if "mantissa (net_withdraw_integer_multiple n) \<noteq> 0"
  proof -
    have "unat step dvd unat (ri_amount i)"
      using arg_cong [OF step(2), of unat] unfolding unat_mod by (simp add: dvd_eq_mod_eq_0)
    then show ?thesis
      using step_Inr(1) [OF step(1) [unfolded executor_conversions(3)] that] bounds(2) by simp
  qed
  have "\<exists>fee_text fee. ri_maximum_fee_base_units i = Some fee_text \<and> xc_u256_from_str c fee_text = Some fee \<and>
      nat (mantissa (net_withdraw_fee n)) * 10 ^ unat (ri_token_decimals i) \<le>
        unat fee * 10 ^ unat (scale (net_withdraw_fee n))"
    if s: "ri_scope i = Some s" "rs_network_id s \<in> {''chain:42161'', ''chain:59144''}" for s
  proof -
    from fee s obtain ft f cf where f: "ri_maximum_fee_base_units i = Some ft" "xc_u256_from_str c ft = Some f"
      "decimal_to_base_units_ceil dc (net_withdraw_fee n) (ri_token_decimals i) = Inr cf" "cf \<le> f"
      unfolding verify_fee_authority_def by auto
    have "nat (mantissa (net_withdraw_fee n)) * 10 ^ unat (ri_token_decimals i) \<le>
        unat cf * 10 ^ unat (scale (net_withdraw_fee n))"
      using ceil_Inr(1) [OF f(3)] bounds(1) by simp
    also have "\<dots> \<le> unat f * 10 ^ unat (scale (net_withdraw_fee n))" using f(4) by (simp add: word_le_nat_alt)
    finally show ?thesis using f(1,2) by blast
  qed
  then show ?thesis
    unfolding within_live_terms_def
    using mult lim [unfolded dc_le_base_units [OF ok x]] by (auto split: option.split)
qed

section \<open>Lemmas on admission\<close>

lemma rebalance_reserve_Inr:
  assumes "rebalance_reserve c env r j = (j', Inr oper)"
  shows "rebalance_reserve_operation c r j = Inr oper"
    "rj_operations j' = bt_insert (ri_operation_id (ro_intent oper)) oper (rj_operations j)"
proof -
  from assms show oper: "rebalance_reserve_operation c r j = Inr oper"
    by (auto simp: rebalance_reserve_def append_result_def append_returning_def split: sum.splits prod.splits)
  with assms have a: "rebalance_append c env oper j = (j', Inr ())"
    by (auto simp: rebalance_reserve_def append_result_def append_returning_def split: sum.splits prod.splits)
  show "rj_operations j' = bt_insert (ri_operation_id (ro_intent oper)) oper (rj_operations j)"
  proof (cases rule: rebalance_append_cases [where c = c and env = env and oper = oper and j = j])
    case (stored ops started line st res)
    then have "rebalance_commit oper ops started (rj_state j) = (st, Inr ())" "rj_state j' = st" using a by auto
    moreover from stored(3) have "apply_rebalance_snapshot c oper LiveAppend (rj_operations j) = Inr ops"
      by (rule rebalance_prepare_Inr)
    ultimately show ?thesis by (auto simp: rebalance_commit_Inr apply_rebalance_snapshot_def)
  qed (use a in auto)
qed

lemma reserved_is_active:
  assumes idle: "active_operation j = Inr None" and p: "\<not> progress_terminal (ro_progress oper)"
    and ops: "rj_operations j' = bt_insert k oper (rj_operations j)"
  shows "active_operation j' = Inr (Some oper)"
proof -
  have only: "l = k" if "bt_get (rj_operations j') l = Some y" "\<not> progress_terminal (ro_progress y)" for l y
    using that active_operation_none [OF idle, of l y] ops by (auto split: if_splits)
  then have "one_active (rj_operations j')" unfolding one_active_def by blast
  then obtain x where x: "active_operation j' = Inr x" using active_operation_ok by blast
  have o: "bt_get (rj_operations j') k = Some oper" using ops by simp
  then have "x \<noteq> None" using active_operation_none [of j' k oper] x p by auto
  then obtain y where y: "x = Some y" by blast
  have "filter (\<lambda>z. \<not> progress_terminal (ro_progress z)) (bt_values (rj_operations j')) = [y]"
    using x y by (auto simp: active_operation_def Let_def split: list.splits)
  then have "y \<in> set (filter (\<lambda>z. \<not> progress_terminal (ro_progress z)) (bt_values (rj_operations j')))"
    by (metis list.set_intros(1))
  then obtain l where "bt_get (rj_operations j') l = Some y" "\<not> progress_terminal (ro_progress y)"
    by (auto simp: set_bt_values)
  then have "y = oper" using only o by fastforce
  then show ?thesis using x y by simp
qed

lemma authorize_rebalance_request_Inr:
  assumes "authorize_rebalance_request policy risk r = Inr ()"
  obtains chain fee d f where "chain = route_wallet_chain_id (act_route (rq_action r))" "chain = 42161 \<or> chain = 59144"
    "rq_approval_session_id r = Some (cap_approval_session_id policy)"
    "rq_maximum_fee r = Some fee" "token_caps policy (rq_token_symbol r) chain = Some (d, f)"
    "act_amount (rq_action r) \<le> d" "fee \<le> (if act_direction (rq_action r) = WalletToBinance then 0 else f)"
    "risk_active_transfer_count risk = 0" "bounded_authority policy"
proof -
  from assms obtain chain network is_bridge authority fee granted where b: "bounded_authority policy"
    and s: "rq_approval_session_id r = Some (cap_approval_session_id policy)"
    and rt: "request_route policy (act_route (rq_action r)) = Inr (chain, network, is_bridge)"
    and au: "expected_authority chain = Inr authority"
    and fee: "rq_maximum_fee r = Some fee"
    and g: "remaining_rebalance_authority_on_chain policy risk (rq_token_symbol r)
      (act_direction (rq_action r)) chain = Inr (Some granted)"
    and le: "act_amount (rq_action r) \<le> ra_maximum_source_debit granted" "fee \<le> ra_maximum_fee granted"
    unfolding authorize_rebalance_request_def by auto
  have chain: "chain = route_wallet_chain_id (act_route (rq_action r))"
    using rt by (auto simp: request_route_def split: route.splits)
  have c: "chain = 42161 \<or> chain = 59144" using au by (auto simp: expected_authority_def split: if_splits)
  from g obtain d f where t: "token_caps policy (rq_token_symbol r) chain = Some (d, f)"
    "granted = \<lparr>ra_maximum_source_debit = d,
      ra_maximum_fee = (if act_direction (rq_action r) = WalletToBinance then 0 else f)\<rparr>"
    and n: "\<not> ucast (cap_maximum_concurrent_transfers policy) \<le> risk_active_transfer_count risk"
    unfolding remaining_rebalance_authority_on_chain_def Let_def by (auto split: if_splits)
  have "risk_active_transfer_count risk = 0"
    using n b by (simp add: bounded_authority_def word_le_nat_alt unat_eq_zero not_le)
  then show thesis using that [OF chain c s fee t(1)] le t(2) b by simp
qed

lemma execute_checks_Inr:
  assumes ok: "decimal_crate_ok dc" and c: "execute_checks c dc wallet limits policy_opt r j = Inr ()"
  shows "\<exists>maximum. maximum_for dc limits (rq_token_symbol r) = Inr maximum \<and>
      int (unat (act_amount (rq_action r))) * 10 ^ unat (scale maximum) \<le>
        mantissa maximum * 10 ^ unat (rq_token_decimals r)"
    "approved_asset (rq_token_symbol r) (route_wallet_chain_id (act_route (rq_action r))) =
       Inr (rq_token_decimals r, rq_token_contract r)"
    "rq_authority r = ArbitrumFullLive \<or> rq_authority r = LineaFullLive \<Longrightarrow>
       \<exists>policy risk. policy_opt = Some policy \<and> authorize_rebalance_request policy risk r = Inr ()"
proof -
  from c obtain x maximum where x: "base_units_to_decimal dc (act_amount (rq_action r)) (rq_token_decimals r) = Inr x"
    and m: "maximum_for dc limits (rq_token_symbol r) = Inr maximum" "dc_le dc x maximum"
    and rest: "validate_approved_asset (rq_token_symbol r) (rq_token_decimals r) (rq_token_contract r)
        (route_wallet_chain_id (act_route (rq_action r))) = Inr ()"
      "rq_authority r = ArbitrumFullLive \<or> rq_authority r = LineaFullLive \<Longrightarrow>
       \<exists>policy risk. policy_opt = Some policy \<and> authorize_rebalance_request policy risk r = Inr ()"
    unfolding execute_checks_def by (auto split: if_splits)
  show "\<exists>maximum. maximum_for dc limits (rq_token_symbol r) = Inr maximum \<and>
      int (unat (act_amount (rq_action r))) * 10 ^ unat (scale maximum) \<le>
        mantissa maximum * 10 ^ unat (rq_token_decimals r)"
    using m dc_le_base_units(1) [OF ok x] by blast
  show "approved_asset (rq_token_symbol r) (route_wallet_chain_id (act_route (rq_action r))) =
       Inr (rq_token_decimals r, rq_token_contract r)"
    using rest(1) by (auto simp: validate_approved_asset_def)
  show "\<exists>policy risk. policy_opt = Some policy \<and> authorize_rebalance_request policy risk r = Inr ()"
    if "rq_authority r = ArbitrumFullLive \<or> rq_authority r = LineaFullLive"
    by (rule rest(2) [OF that])
qed

section \<open>Properties\<close>

text \<open>
  (C40) Amounts survive the exchange's decimals: an amount below 96 bits of a token with at most 28 decimals
  has a decimal, and whatever decimal an amount is written as, all three conversions read it back.
\<close>

theorem base_units_round_trip:
  assumes ok: "decimal_crate_ok dc"
  shows "(d \<le> 28 \<and> unat v < 2 ^ 96 \<longrightarrow> (\<exists>x. base_units_to_decimal dc v d = Inr x)) \<and>
    (\<forall>x. base_units_to_decimal dc v d = Inr x \<longrightarrow> executor_decimal_to_base_units dc x d = Inr v \<and>
       executor_decimal_to_base_units_floor dc x d = Inr v \<and> decimal_to_base_units_ceil dc x d = Inr v)"
  using base_units_to_decimal_total [OF ok] conversions_of_base_units [OF ok] by blast

text \<open>
  (C39) A receipt proves exactly the tokens it moved to the wallet: a credit is read from the receipt of the
  expected transaction when it succeeded and the logs of the token contract with the transfer topic are well
  formed, and it is the sum of the transfers to the owner; it is refused otherwise, and when the sum has no 256 bits.
\<close>

theorem receipt_credit_exact:
  "erc20_credit_from_receipt topic receipt expected_hash token owner = Inr v \<longleftrightarrow>
     trc_transaction_hash receipt = expected_hash \<and> trc_status receipt = 1 \<and>
     list_all one_word_transfer
       [l \<leftarrow> trc_logs receipt. rl_address l = token \<and> rl_topics l \<noteq> [] \<and> hd (rl_topics l) = topic] \<and>
     unat v = credits owner
       [l \<leftarrow> trc_logs receipt. rl_address l = token \<and> rl_topics l \<noteq> [] \<and> hd (rl_topics l) = topic]"
proof -
  have "transfer_log topic token = (\<lambda>l. rl_address l = token \<and> rl_topics l \<noteq> [] \<and> hd (rl_topics l) = topic)"
    by (auto simp: transfer_log_def fun_eq_iff split: list.splits)
  then show ?thesis by (auto simp: erc20_credit_from_receipt_def credit_logs_Inr)
qed

text \<open>
  (C38) A withdrawal whose answer was lost is repeated only while it is still needed: it is confirmed on two
  observations with the same master balances; what it reports as required closes the gap of the wallet to
  the midpoint and is there at Binance; it is dropped as stale exactly when in both observations the
  amount would lift the wallet past the midpoint or the wallet has recovered.
\<close>

theorem retried_withdrawal_still_needed:
  assumes "confirm_unknown_withdrawal_absence oper first_answer second_answer = Inr r"
  shows "\<exists>e1 e2. first_answer = Inr e1 \<and> second_answer = Inr e2 \<and> wac_evidence r = e2 \<and>
    wae_master_free e1 = wae_master_free e2 \<and> wae_master_locked e1 = wae_master_locked e2 \<and>
    unat (wac_required_withdrawal r) = wallet_gap e2 (ri_amount (ro_intent oper)) \<and>
    unat (wac_required_withdrawal r) \<le> at_binance e2 (ri_amount (ro_intent oper)) \<and>
    (wac_stale r \<longleftrightarrow> \<not> (still_needed oper e1 \<or> still_needed oper e2))"
proof -
  let ?a = "ri_amount (ro_intent oper)"
  from assms obtain e1 e2 v1 v2 where a: "first_answer = Inr e1" "second_answer = Inr e2"
    and same: "same_withdrawal_retry_authority e1 e2"
    and v: "current_required_withdrawal e1 ?a = Inr v1" "current_required_withdrawal e2 ?a = Inr v2"
    and r: "r = \<lparr>wac_evidence = e2, wac_required_withdrawal = v2,
      wac_stale = (withdrawal_retry_is_stale oper e1 v1 \<and> withdrawal_retry_is_stale oper e2 v2)\<rparr>"
    unfolding confirm_unknown_withdrawal_absence_def Let_def by auto
  note g = current_required_withdrawal_Inr [OF v(1)] current_required_withdrawal_Inr [OF v(2)]
  have "(b + w + 1) div 2 - w \<le> b" for b w :: nat by arith
  then have "unat v2 \<le> at_binance e2 ?a" unfolding g(2) wallet_gap_def .
  then show ?thesis
    using a same r g stale_iff [OF g(1)] stale_iff [OF g(2)]
    by (simp add: same_withdrawal_retry_authority_def)
qed


text \<open>
  (C37) A withdrawal that passes the live check of its route is on a network the exchange lists for the coin
  under the pinned name and open for withdrawals; its amount lies within the limits of that network and is
  a multiple of its unit, and on the production networks the fee, rounded up, is within the journaled
  authority.
\<close>

theorem verified_withdrawal_within_live_terms:
  assumes ok: "decimal_crate_ok dc" and v: "verify_route c dc (Inr coins) oper True = Inr ()"
    and bounds: "\<And>co n. co \<in> set coins \<Longrightarrow> n \<in> set (coin_network_list co) \<Longrightarrow>
      mantissa (net_withdraw_fee n) < 2 ^ 96 \<and> mantissa (net_withdraw_integer_multiple n) < 2 ^ 96"
  shows "\<exists>co n. co \<in> set coins \<and> coin_name co = ri_token_symbol (ro_intent oper) \<and> coin_withdraw_all_enable co \<and>
    n \<in> set (coin_network_list co) \<and> net_network n = route_binance_network (ri_route (ro_intent oper)) \<and>
    net_withdraw_enable n \<and> \<not> net_busy n \<and> within_live_terms c (ro_intent oper) n"
proof -
  from v obtain network direct s n where p: "pinned_networks (ri_route (ro_intent oper)) = Inr (network, direct)"
    and s: "select_capital_routes coins (ri_token_symbol (ro_intent oper)) direct ''OPTIMISM'' = Inr s"
    and n: "selected_network s network = Some n" "cap_withdrawal_all_enabled s" "withdrawal_available n"
    and w: "verify_withdrawal c dc (ro_intent oper) n = Inr ()"
    unfolding verify_route_def by auto
  have net: "network = route_binance_network (ri_route (ro_intent oper))"
    using p by (auto simp: pinned_networks_def split: route.splits if_splits)
  from s obtain co where co: "co \<in> set coins" "coin_name co = ri_token_symbol (ro_intent oper)"
    "cap_withdrawal_all_enabled s = coin_withdraw_all_enable co"
    "cap_direct s = find (\<lambda>n. net_network n = direct) (coin_network_list co)"
    "cap_fallback s = find (\<lambda>n. net_network n = ''OPTIMISM'') (coin_network_list co)"
    by (rule select_capital_routes_Inr)
  have m: "n \<in> set (coin_network_list co)" "net_network n = network"
    using selected_network_Some [OF n(1)] unfolding co(4,5) by (auto simp: find_Some_iff)
  have "within_live_terms c (ro_intent oper) n"
    using verify_withdrawal_Inr [OF ok w] bounds [OF co(1) m(1)] by blast
  then show ?thesis
    using co(1,2,3) n(2,3) m net by (auto simp: withdrawal_available_def)
qed

section \<open>Concrete inputs\<close>

text \<open>A parser of plain numbers, and the terms of one network.\<close>

definition plain_parse :: "string \<Rightarrow> decimal option" where
  "plain_parse s =
     (let whole = takeWhile (\<lambda>c. c \<noteq> CHR ''.'') s; frac = drop (length whole + 1) s;
          n = digits_value (whole @ frac) in
      if length frac \<le> 28 \<and> n < 2 ^ 96 then Some \<lparr>mantissa = int n, scale = word_of_nat (length frac)\<rparr> else None)"

definition plain_crate :: decimal_crate where
  "plain_crate = \<lparr>dc_ge_zero = (\<lambda>v. 0 \<le> mantissa v), dc_gt_zero = (\<lambda>v. 0 < mantissa v),
     dc_le = (\<lambda>v w. mantissa v * 10 ^ unat (scale w) \<le> mantissa w * 10 ^ unat (scale v)),
     dc_eq = (=), dc_checked_add = (\<lambda>v w. None), dc_from_str = plain_parse, dc_from_str_exact = plain_parse,
     dc_u256_to_string = (\<lambda>v. show_nat (unat v)), dc_address_hex = (\<lambda>a. ''0x'' @ show_nat (unat a))\<rparr>"

lemma plain_parse_text:
  assumes "plain_digits whole frac"
  shows "plain_parse (decimal_text whole frac) =
    (if length frac \<le> 28 \<and> digits_value (whole @ frac) < 2 ^ 96
     then Some \<lparr>mantissa = int (digits_value (whole @ frac)), scale = word_of_nat (length frac)\<rparr> else None)"
proof -
  have "\<not> is_ascii_digit CHR ''.''" by (simp add: is_ascii_digit_def byte_def)
  then have "CHR ''.'' \<notin> set whole" using assms by (auto simp: plain_digits_def list_all_iff)
  then have "takeWhile (\<lambda>c. c \<noteq> CHR ''.'') (decimal_text whole frac) = whole"
    by (auto simp: decimal_text_def takeWhile_append takeWhile_eq_all_conv)
  then show ?thesis unfolding plain_parse_def Let_def by (simp add: decimal_text_def)
qed

lemma plain_crate_ok: "decimal_crate_ok plain_crate"
proof -
  have "unat (word_of_nat n :: u32) = n" if "n \<le> 28" for n
    using that by (simp add: unsigned_of_nat take_bit_nat_eq_self)
  then show ?thesis
    unfolding decimal_crate_ok_def by (auto simp: plain_crate_def plain_parse_text split: if_splits)
qed

theorem base_units_round_trip_witness:
  "\<exists>x. base_units_to_decimal plain_crate 5 6 = Inr x \<and> executor_decimal_to_base_units plain_crate x 6 = Inr 5"
proof -
  have "(6 :: u8) \<le> 28 \<and> unat (5 :: u256) < 2 ^ 96" by simp
  then show ?thesis using base_units_round_trip [OF plain_crate_ok, of 6 5] by blast
qed

definition lost_evidence :: withdrawal_absence_evidence where
  "lost_evidence = \<lparr>wae_master_free = 5, wae_master_locked = 0, wae_trading_free = 10, wae_trading_locked = 0,
     wae_wallet_balance = 0\<rparr>"

lemma lost_confirmed:
  "confirm_unknown_withdrawal_absence (linea_at XIntentRecorded) (Inr lost_evidence) (Inr lost_evidence) =
     Inr \<lparr>wac_evidence = lost_evidence, wac_required_withdrawal = 8, wac_stale = False\<rparr>"
  by (simp add: confirm_unknown_withdrawal_absence_def current_required_withdrawal_def current_binance_balance_def
      withdrawal_retry_is_stale_def same_withdrawal_retry_authority_def lost_evidence_def linea_at_def
      linea_intent_def checked_add_def checked_sub_def Let_def min_def)

theorem retried_withdrawal_still_needed_witness:
  "wallet_gap lost_evidence 5 = 8 \<and> still_needed (linea_at XIntentRecorded) lost_evidence"
  using retried_withdrawal_still_needed [OF lost_confirmed] by (simp add: linea_at_def linea_intent_def)

definition linea_units :: "int \<Rightarrow> decimal" where
  "linea_units n = \<lparr>mantissa = n, scale = 6\<rparr>"

definition linea_network :: network_information where
  "linea_network = \<lparr>net_network = ''OPTIMISM'', net_name = ''Optimism'', net_deposit_enable = True,
     net_withdraw_enable = True, net_busy = False, net_withdraw_fee = linea_units 2,
     net_withdraw_min = linea_units 1, net_withdraw_max = linea_units 9,
     net_withdraw_integer_multiple = linea_units 1\<rparr>"

definition linea_coin :: coin_information where
  "linea_coin = \<lparr>coin_name = ''USDT'', coin_deposit_all_enable = True, coin_withdraw_all_enable = True,
     coin_network_list = [linea_network]\<rparr>"

lemma linea_decimal: "base_units_to_decimal plain_crate 5 6 = Inr (linea_units 5)"
proof -
  have "char_of (53 :: nat) = CHR ''5''" by code_simp
  then have digits: "show_nat 5 = ''5''" by (simp add: show_nat.simps)
  have zeros: "replicate 5 CHR ''0'' = ''00000''" by (simp add: eval_nat_numeral)
  have amount: "digits_value ''0000005'' = 5" by (simp add: digits_value_def byte_def)
  have "plain_parse ''0.000005'' = Some (linea_units 5)"
    by (simp add: plain_parse_def Let_def amount linea_units_def)
  then show ?thesis by (simp add: base_units_to_decimal_def plain_crate_def digits zeros Let_def)
qed

lemma linea_pow10: "pow10 6 = Inr 1000000"
  unfolding pow10_Inr by simp

lemma linea_step: "executor_decimal_multiple_to_base_unit_step plain_crate (linea_units 1) 6 = Inr 1"
  by (simp add: executor_decimal_multiple_to_base_unit_step_def plain_crate_def linea_units_def mantissa_units_def
      linea_pow10 checked_mul_def u256_gcd.simps)

lemma linea_fee: "decimal_to_base_units_ceil plain_crate (linea_units 2) 6 = Inr 2"
  by (simp add: decimal_to_base_units_ceil_def plain_crate_def linea_units_def mantissa_units_def linea_pow10
      checked_mul_def)

lemma linea_verified: "verify_route linea_codec plain_crate (Inr [linea_coin]) (linea_at XIntentRecorded) True = Inr ()"
proof -
  have "dc_le plain_crate (linea_units 1) (linea_units 5)" "dc_le plain_crate (linea_units 5) (linea_units 9)"
    by (simp_all add: plain_crate_def linea_units_def)
  then have "verify_withdrawal linea_codec plain_crate linea_intent linea_network = Inr ()"
    using linea_decimal linea_step linea_fee
    by (simp add: verify_withdrawal_def verify_fee_authority_def linea_intent_def linea_network_def linea_codec_def)
  then show ?thesis
    by (simp add: verify_route_def pinned_networks_def select_capital_routes_def validate_symbol_def linea_at_def
        linea_intent_def linea_coin_def selected_network_def linea_network_def withdrawal_available_def
        is_ascii_uppercase_def byte_def)
qed

theorem verified_withdrawal_within_live_terms_witness:
  "within_live_terms linea_codec linea_intent linea_network"
proof -
  have "\<exists>co n. co \<in> set [linea_coin] \<and> coin_name co = ri_token_symbol (ro_intent (linea_at XIntentRecorded)) \<and>
      coin_withdraw_all_enable co \<and> n \<in> set (coin_network_list co) \<and>
      net_network n = route_binance_network (ri_route (ro_intent (linea_at XIntentRecorded))) \<and>
      net_withdraw_enable n \<and> \<not> net_busy n \<and> within_live_terms linea_codec (ro_intent (linea_at XIntentRecorded)) n"
    by (rule verified_withdrawal_within_live_terms [OF plain_crate_ok linea_verified])
      (simp_all add: linea_coin_def linea_network_def linea_units_def)
  then show ?thesis by (simp add: linea_coin_def linea_at_def)
qed

end
