(* ===== verification/Spec2Isabelle.thy ===== *)
theory Spec2Isabelle
  imports Inventory Rebalance_Tracker Camelot_Fee Nonce_Lane Order_Journal Clmm_Liquidity
    Rebalance_Transfers Portfolio Rebalance_Runtime
begin

text \<open>
  A verification of the state-keeping core of \<open>poly_bot\<close>, a process that trades one asset pair between a
  centralised exchange (Binance) and on-chain pools, and moves the capital between the two places.  Paths
  are relative to \<open>src/src/\<close>.

  \<^bold>\<open>The program and its parts.\<close>  A trade reserves capital in the inventory ledger (\<open>inventory.rs\<close>), is priced
  on a local mirror of the pool (\<open>dex/clmm.rs\<close>, with Camelot's adaptive fee of \<open>dex/camelot_fee.rs\<close>), and
  is carried out in two legs: an order, journaled by \<open>binance/order_journal.rs\<close>, and a transaction, which
  takes its nonce from the lane of \<open>wallet/nonce.rs\<close> and is journaled by \<open>wallet/journal.rs\<close>.  Beside it the
  rebalancer watches the balances (\<open>rebalance/tracker.rs\<close>), plans a transfer (\<open>rebalance/planner.rs\<close>), asks
  the capital policy (\<open>portfolio.rs\<close>) and drives the transfer (\<open>rebalance/runtime.rs\<close>) through its own journal
  (\<open>rebalance/executor.rs\<close>).  The three journals are what a restarted process recovers from.

  \<^bold>\<open>Theories.\<close>
  \<^item> \<open>Prelude\<close>: machine integers, checked arithmetic, results with their messages and panics, \<open>for_each\<close>, decimal
    numbers, the fact collections, and the locale \<open>invariant_system\<close> (an invariant kept by every step holds of every run).
  \<^item> \<open>BTree_Map\<close>: \<open>BTreeMap\<close> and \<open>BTreeSet\<close> as sorted entries, and the contract \<open>ordered_map\<close>.
  \<^item> \<open>Durable_Log\<close>: the file under the journals and the contract \<open>durable_log\<close>: what a journal owes the file, and
    what reopening it then gives.  It is interpreted on all three journals.
  \<^item> \<open>Inventory\<close>: \<open>InventoryReservations\<close>, one function per method; \<open>SharedInventoryReservations\<close> as sequences of
    \<open>shared_step\<close>.  Totals are exact and nothing panics; a reservation is all or nothing, never spends twice,
    is undone by its release and is held until every settlement location has reported anew.
  \<^item> \<open>Rebalance_Planner\<close>, \<open>Rebalance_Tracker\<close>: \<open>plan_rebalance\<close> and its helpers; routes from the exchange's
    terms, captured references and \<open>evaluate\<close>.  A planned transfer is admissible, enough, and acceptable to
    the exchange on the network it goes over, and no action means that both sides are balanced or that the
    exchange admits no amount up to the requested one.
  \<^item> \<open>Camelot_Fee\<close>: fee curve, ring of timepoints, volume accumulator, envelope of future fees.  The fee is
    bounded and monotone, the fixed seven Newton steps give the exact root, the volatility polynomial is a sum
    of squares, the envelope covers its horizon, and events keep the projection valid.
  \<^item> \<open>Transaction_Journal\<close>, \<open>Nonce_Lane\<close>: the state machine of an on-chain operation, its journal, the lane, start
    reconciliation and the recoveries.  Reopening recovers the journal, a nonce has one owner, operations are
    not rewritten, errors close the journal, confirmed nonces increase, a nonce is given up only on proof.
  \<^item> \<open>Order_Journal\<close>: the same for orders, and the adoption of an order found on the venue.
  \<^item> \<open>Clmm_Pool\<close>, \<open>Clmm_Curve\<close>, \<open>Clmm_Ticks\<close>, \<open>Clmm_Liquidity\<close>: the pool, its swap loops and prepared curves; a
    prepared quote is the quote of the loop; the loops end; the mirror follows the liquidity history; the
    search of the tick table finds the nearest tick; which errors a quote can give.
  \<^item> \<open>Rebalance_Saga\<close>, \<open>Rebalance_Journal\<close>, \<open>Rebalance_Recovery\<close>, \<open>Rebalance_Transfers\<close>: the states of a transfer
    with their transitions and evidence, the journal with every call that writes it, its reading as a durable
    log, and the properties: recovery, stored transfers are well formed and not rewritten, ids are fresh, one at a time, the
    retry that is always refused, and exact risk totals.
  \<^item> \<open>Portfolio\<close>: catalog, audit, plan and the authority of a request.  A plan never overspends a source.
  \<^item> \<open>Rebalance_Runtime\<close>: the decisions of the executor between its network calls: admission, base units, receipts,
    repeated withdrawals, live routes, exchange records.
  \<^item> This theory: what the executor starts under a production authority is within the policy, from the request
    through \<open>execute\<close> to the journal.

  \<^bold>\<open>Reading the model.\<close>  A struct is a record whose fields carry a short prefix, an enum a datatype.  An operation
  returns the next state and its result, also on errors, because a failing call may leave a changed state.
  Clock, write outcome and the answers of exchange and chain are arguments; a write is durable or fails after a
  prefix of its bytes.  Interleavings are sequences of whole operations, which is what the mutexes and the single
  owners of the source give.  Other crates are records of functions (\<open>wire_codec\<close>, \<open>order_codec\<close>,
  \<open>rebalance_codec\<close>, \<open>decimal_crate\<close>, \<open>v3_math\<close>) with their documented behaviour as a named hypothesis; every
  property with such a hypothesis has a concrete instance beside it.

  \<^bold>\<open>Bounds.\<close>  No fuel is chosen.  The swap loops are partial functions whose value is \<open>None\<close> where they do not end,
  and \<open>Clmm_Liquidity\<close> proves that they return: each round moves the tick towards the end of its range.  The square
  root has the seven rounds of the source; every other loop is structural or has a measure.  The journals'
  recovery theorems assume room in the sequence number for the calls of a run; the one for rebalances asks at
  each call that neither the sequence number nor an 8-bit counter of reopened operations is full
  (\<open>room_along\<close>), for past that the source writes a record it cannot read back.

  \<^bold>\<open>Not modelled.\<close>  Event loops, tokio tasks and channels (\<open>main.rs\<close>, \<open>engine.rs\<close>, \<open>strategy_runtime.rs\<close>, the channel of
  the allocator): scheduling and wall-clock freshness.  The compiler of the TOML domain (\<open>domain/\<close>): checks on
  parsed third-party values; the data it produces is modelled where it is read.  Sizing, coordination and
  accounting of trades (\<open>opportunity.rs\<close>, \<open>arbitrage.rs\<close>, \<open>live_execution.rs\<close>): sums and roundings of
  \<open>rust_decimal\<close>, whose code is not in the repository.  HTTP, WebSocket, RPC and ABI clients, signing, the async
  driver of \<open>rebalance/runtime.rs\<close> and telemetry: effects without durable state of their own.
\<close>

section \<open>A transfer from the policy to the journal\<close>

text \<open>
  The caps of a token: those listed for it on the chain, or, in a policy that lists no chains, those of the
  policy's own pair or of its additional tokens.
\<close>

definition listed_caps :: "capital_policy \<Rightarrow> string \<Rightarrow> u64 \<Rightarrow> u256 \<Rightarrow> u256 \<Rightarrow> bool" where
  "listed_caps policy symbol chain d f \<longleftrightarrow>
     (\<exists>network token. bt_get (cap_direct_networks policy) chain = Some network \<and>
        bt_get (cnp_tokens network) symbol = Some token \<and>
        d = ctp_maximum_debit token \<and> f = ctp_maximum_fee token) \<or>
     bt_is_empty (cap_direct_networks policy) \<and>
       (if symbol = cap_token_a_symbol policy
        then d = cap_maximum_token_a_debit policy \<and> f = cap_maximum_token_a_fee policy
        else if symbol = cap_token_b_symbol policy
        then d = cap_maximum_token_b_debit policy \<and> f = cap_maximum_token_b_fee policy
        else \<exists>token. bt_get (cap_additional_tokens policy) symbol = Some token \<and>
          d = ctp_maximum_debit token \<and> f = ctp_maximum_fee token)"

lemma token_caps_listed: "token_caps policy symbol chain = Some (d, f) \<Longrightarrow> listed_caps policy symbol chain d f"
  unfolding token_caps_def listed_caps_def
  by (auto split: option.splits if_splits simp: bind_eq_Some_conv)

text \<open>
  (C36) Whatever the executor starts on a production network was authorized: when \<open>execute\<close> reserves a
  transfer, none was active before and this one is now, in its first state and under the request it came
  from; its asset is the approved contract of its wallet chain, its amount is within the configured live
  maximum, and there is a compiled policy whose approval session it carries, on one of the two production
  chains, whose caps for the token hold the amount and the maximum fee.
\<close>

theorem authorized_transfer_within_caps:
  assumes ok: "decimal_crate_ok dc"
    and run: "execute_reserve c dc wallet limits policy_opt env r j = (j', Inr oper)"
    and production: "rq_authority r = ArbitrumFullLive \<or> rq_authority r = LineaFullLive"
  shows "active_operation j = Inr None \<and> active_operation j' = Inr (Some oper) \<and>
    ro_progress oper = XIntentRecorded \<and> ri_amount (ro_intent oper) = act_amount (rq_action r) \<and>
    ri_wallet_owner (ro_intent oper) = wallet \<and>
    approved_asset (ri_token_symbol (ro_intent oper)) (route_wallet_chain_id (ri_route (ro_intent oper))) =
      Inr (ri_token_decimals (ro_intent oper), ri_token_contract (ro_intent oper)) \<and>
    (\<exists>maximum. maximum_for dc limits (ri_token_symbol (ro_intent oper)) = Inr maximum \<and>
      int (unat (ri_amount (ro_intent oper))) * 10 ^ unat (scale maximum) \<le>
        mantissa maximum * 10 ^ unat (ri_token_decimals (ro_intent oper))) \<and>
    (\<exists>policy chain d f fee. policy_opt = Some policy \<and>
      ri_approval_session_id (ro_intent oper) = Some (cap_approval_session_id policy) \<and>
      chain = route_wallet_chain_id (ri_route (ro_intent oper)) \<and> (chain = 42161 \<or> chain = 59144) \<and>
      listed_caps policy (ri_token_symbol (ro_intent oper)) chain d f \<and>
      ri_amount (ro_intent oper) \<le> d \<and>
      ri_maximum_fee_base_units (ro_intent oper) = Some (xc_u256_to_string c fee) \<and>
      fee \<le> (if ri_direction (ro_intent oper) = WalletToBinance then 0 else f))"
proof -
  from run have checks: "execute_checks c dc wallet limits policy_opt r j = Inr ()"
    and reserve: "rebalance_reserve c env r j = (j', Inr oper)"
    by (auto simp: execute_reserve_def split: sum.splits)
  note res = rebalance_reserve_Inr [OF reserve]
  have idle: "active_operation j = Inr None" by (rule reserve_operation_none [OF res(1)])
  have owner: "rq_wallet_owner r = wallet" using checks by (simp add: execute_checks_def)
  have i: "ro_progress oper = XIntentRecorded" "ri_amount (ro_intent oper) = act_amount (rq_action r)"
    "ri_token_symbol (ro_intent oper) = rq_token_symbol r" "ri_token_decimals (ro_intent oper) = rq_token_decimals r"
    "ri_token_contract (ro_intent oper) = rq_token_contract r" "ri_route (ro_intent oper) = act_route (rq_action r)"
    "ri_direction (ro_intent oper) = act_direction (rq_action r)" "ri_wallet_owner (ro_intent oper) = rq_wallet_owner r"
    "ri_approval_session_id (ro_intent oper) = rq_approval_session_id r"
    "ri_maximum_fee_base_units (ro_intent oper) = map_option (xc_u256_to_string c) (rq_maximum_fee r)"
    using res(1) by (auto simp: rebalance_reserve_operation_def)
  have active: "active_operation j' = Inr (Some oper)"
    by (rule reserved_is_active [OF idle _ res(2)]) (simp add: i(1))
  note e = execute_checks_Inr [OF ok checks]
  from e(3) [OF production] obtain policy risk where p: "policy_opt = Some policy"
    "authorize_rebalance_request policy risk r = Inr ()" by blast
  from p(2) obtain chain fee d f where q: "chain = route_wallet_chain_id (act_route (rq_action r))"
    "chain = 42161 \<or> chain = 59144" "rq_approval_session_id r = Some (cap_approval_session_id policy)"
    "rq_maximum_fee r = Some fee" "token_caps policy (rq_token_symbol r) chain = Some (d, f)"
    "act_amount (rq_action r) \<le> d" "fee \<le> (if act_direction (rq_action r) = WalletToBinance then 0 else f)"
    by (rule authorize_rebalance_request_Inr)
  have "\<exists>policy chain d f fee. policy_opt = Some policy \<and>
      ri_approval_session_id (ro_intent oper) = Some (cap_approval_session_id policy) \<and>
      chain = route_wallet_chain_id (ri_route (ro_intent oper)) \<and> (chain = 42161 \<or> chain = 59144) \<and>
      listed_caps policy (ri_token_symbol (ro_intent oper)) chain d f \<and>
      ri_amount (ro_intent oper) \<le> d \<and>
      ri_maximum_fee_base_units (ro_intent oper) = Some (xc_u256_to_string c fee) \<and>
      fee \<le> (if ri_direction (ro_intent oper) = WalletToBinance then 0 else f)"
    unfolding i
    by (intro exI [of _ policy] exI [of _ chain] exI [of _ d] exI [of _ f] exI [of _ fee] conjI)
      (use p(1) q token_caps_listed [OF q(5)] in simp_all)
  with e(1,2) idle active i(1) owner show ?thesis unfolding i by blast
qed

text \<open>The Linea request of \<open>Rebalance_Transfers\<close> under a policy whose caps it just meets.\<close>

definition linea_policy :: capital_policy where
  "linea_policy = \<lparr>cap_approval_session_id = ''session1'', cap_network_id = ''eip155:42161'',
     cap_binance_network = ''ARBITRUM'', cap_token_a_symbol = ''USDC'', cap_token_b_symbol = ''ESP'',
     cap_token_a_economic_asset_id = ''usdc'', cap_token_b_economic_asset_id = ''esp'',
     cap_maximum_concurrent_transfers = 1, cap_maximum_token_a_debit = 0, cap_maximum_token_b_debit = 0,
     cap_maximum_token_a_fee = 0, cap_maximum_token_b_fee = 0, cap_additional_tokens = bt_empty,
     cap_direct_networks = bt_insert 59144
       \<lparr>cnp_network_id = ''eip155:59144'', cnp_binance_network = ''OPTIMISM'',
        cnp_tokens = bt_insert ''USDT''
          \<lparr>ctp_economic_asset_id = ''usdt'', ctp_maximum_debit = 5, ctp_maximum_fee = 2\<rparr> bt_empty\<rparr> bt_empty,
     cap_maximum_unknown_reconciliation_queries = 1, cap_direct_route_only = False,
     cap_bridge_mutations_enabled = True, cap_external_mutation_authorized = True\<rparr>"

definition linea_limits :: runtime_limits where
  "linea_limits = \<lparr>lim_maximum_wld = linea_units 0, lim_maximum_usdc = linea_units 5,
     lim_maximum_esp = linea_units 0, lim_maximum_arb = linea_units 0\<rparr>"

lemma linea_authorized: "authorize_rebalance_request linea_policy rebalance_risk_default linea_request = Inr ()"
  by (simp add: authorize_rebalance_request_def bounded_authority_def request_route_def expected_authority_def
      route_pinned_def remaining_rebalance_authority_on_chain_def token_caps_def linea_policy_def linea_request_def
      rebalance_risk_default_def)

lemma linea_checks: "execute_checks linea_codec plain_crate 2 linea_limits (Some linea_policy) linea_request linea_empty = Inr ()"
proof -
  have "rebalance_risk_of linea_codec ''session1'' linea_empty = Inr rebalance_risk_default"
    by (simp add: rebalance_risk_of_def linea_empty_def rebalance_state_empty_def bt_values_def)
  moreover have "dc_le plain_crate (linea_units 5) (linea_units 5)" "dc_gt_zero plain_crate (linea_units 5)"
    by (simp_all add: plain_crate_def linea_units_def)
  moreover have "cap_approval_session_id linea_policy = ''session1''" by (simp add: linea_policy_def)
  moreover have "rq_token_symbol linea_request = ''USDT''" "rq_token_decimals linea_request = 6"
    "rq_token_contract linea_request = linea_usdt" "act_amount (rq_action linea_request) = 5"
    "route_wallet_chain_id (act_route (rq_action linea_request)) = 59144" "rq_wallet_owner linea_request = 2"
    by (simp_all add: linea_request_def linea_usdt_def)
  ultimately show ?thesis
    using linea_authorized linea_decimal
    by (simp add: execute_checks_def validate_approved_asset_def approved_asset_def maximum_for_def linea_limits_def)
qed

lemma linea_execute:
  "execute_reserve linea_codec plain_crate 2 linea_limits (Some linea_policy) (Inr 7, Durable) linea_request linea_empty =
     (linea_journal [CHR ''A'', nl] XIntentRecorded 1 bt_empty, Inr (linea_at XIntentRecorded))"
  using linea_checks linea_reserve_step
  by (auto simp: execute_reserve_def some_result_def split: prod.splits sum.splits)

theorem authorized_transfer_within_caps_witness:
  "active_operation (linea_journal [CHR ''A'', nl] XIntentRecorded 1 bt_empty) = Inr (Some (linea_at XIntentRecorded)) \<and>
   (\<exists>d f. listed_caps linea_policy ''USDT'' 59144 d f \<and> 5 \<le> d)"
proof -
  have "rq_authority linea_request = ArbitrumFullLive \<or> rq_authority linea_request = LineaFullLive"
    by (simp add: linea_request_def)
  from authorized_transfer_within_caps [OF plain_crate_ok linea_execute this]
  show ?thesis by (auto simp: linea_at_def linea_intent_def)
qed

end
